(* ===== verification/Prelude.thy ===== *)
theory Prelude
  imports Complex_Main
begin

text \<open>
  Prelude of the development: what every component shares.

  \<^item> results: a JavaScript function that may throw is a value of \<open>'e + 'a\<close>, with \<open>Inl\<close> for
    the thrown error; \<open>ebind\<close> sequences two such computations and \<open>require\<close> is a guard
    that throws;
  \<^item> actions: a function that also has effects is an \<open>act\<close>, a state transformer whose result
    may be an error. A throw keeps the state changes made before it, as an exception does.
    \<open>wp\<close> is its weakest precondition, and the collection \<open>wp\<close> holds the rules that
    compute it;
  \<^item> JSON values as the program receives them (\<open>json\<close>);
  \<^item> strings: trimming, splitting, decimal digits and their value, \<open>BigInt\<close> of a string,
    the printing of a number;
  \<^item> the \<open>reduce\<close> loop that picks the cheapest of a list of priced options;
  \<^item> reachable states of a step relation and the rule that lifts a preserved predicate (locale
    \<open>preserved\<close>);
  \<^item> the contract of an implementation that refines an abstract component (locale
    \<open>functional_refinement\<close>).
\<close>

named_theorems wp \<open>rules that compute the weakest precondition of an action\<close>
named_theorems str_simps \<open>characteristic facts of the string functions\<close>

section \<open>Results\<close>

definition ebind :: "'e + 'a \<Rightarrow> ('a \<Rightarrow> 'e + 'b) \<Rightarrow> 'e + 'b" where
  "ebind m f = (case m of Inl e \<Rightarrow> Inl e | Inr x \<Rightarrow> f x)"

definition require :: "bool \<Rightarrow> 'e \<Rightarrow> 'e + unit" where
  "require b e = (if b then Inr () else Inl e)"

lemma ebind_Inl [simp]: "ebind (Inl e) f = Inl e"
  by (simp add: ebind_def)

lemma ebind_Inr [simp]: "ebind (Inr x) f = f x"
  by (simp add: ebind_def)

lemma ebind_eq_Inr: "ebind m f = Inr y \<longleftrightarrow> (\<exists>x. m = Inr x \<and> f x = Inr y)"
  by (cases m) (auto simp: ebind_def)

lemma ebind_eq_Inl: "ebind m f = Inl e \<longleftrightarrow> m = Inl e \<or> (\<exists>x. m = Inr x \<and> f x = Inl e)"
  by (cases m) (auto simp: ebind_def)

lemma require_eq_Inr [simp]: "require b e = Inr u \<longleftrightarrow> b"
  by (simp add: require_def)

lemma require_eq_Inl [simp]: "require b e = Inl e' \<longleftrightarrow> \<not> b \<and> e' = e"
  by (auto simp: require_def)

lemma require_True [simp]: "require True e = Inr ()"
  by (simp add: require_def)

lemma require_False [simp]: "require False e = Inl e"
  by (simp add: require_def)

lemma ebind_require: "ebind (require b e) f = (if b then f () else Inl e)"
  by (simp add: require_def)

lemmas result_splits = ebind_eq_Inr ebind_eq_Inl

section \<open>Actions: effects and exceptions\<close>

type_synonym ('s, 'e, 'a) act = "'s \<Rightarrow> ('e + 'a) \<times> 's"

definition ret :: "'a \<Rightarrow> ('s, 'e, 'a) act" where
  "ret x = (\<lambda>s. (Inr x, s))"

definition throw :: "'e \<Rightarrow> ('s, 'e, 'a) act" where
  "throw e = (\<lambda>s. (Inl e, s))"

definition andThen :: "('s, 'e, 'a) act \<Rightarrow> ('a \<Rightarrow> ('s, 'e, 'b) act) \<Rightarrow> ('s, 'e, 'b) act" where
  "andThen m k = (\<lambda>s. case m s of (Inl e, s') \<Rightarrow> (Inl e, s') | (Inr x, s') \<Rightarrow> k x s')"

definition tryCatch :: "('s, 'e, 'a) act \<Rightarrow> ('e \<Rightarrow> ('s, 'e, 'a) act) \<Rightarrow> ('s, 'e, 'a) act" where
  "tryCatch m h = (\<lambda>s. case m s of (Inl e, s') \<Rightarrow> h e s' | (Inr x, s') \<Rightarrow> (Inr x, s'))"

definition finallyDo :: "('s, 'e, 'a) act \<Rightarrow> ('s \<Rightarrow> 's) \<Rightarrow> ('s, 'e, 'a) act" where
  "finallyDo m f = (\<lambda>s. case m s of (r, s') \<Rightarrow> (r, f s'))"

definition lift :: "'e + 'a \<Rightarrow> ('s, 'e, 'a) act" where
  "lift r = (\<lambda>s. (r, s))"

definition modify :: "('s \<Rightarrow> 's) \<Rightarrow> ('s, 'e, unit) act" where
  "modify f = (\<lambda>s. (Inr (), f s))"

definition gets :: "('s \<Rightarrow> 'a) \<Rightarrow> ('s, 'e, 'a) act" where
  "gets f = (\<lambda>s. (Inr (f s), s))"

definition wp :: "('s, 'e, 'a) act \<Rightarrow> ('e + 'a \<Rightarrow> 's \<Rightarrow> bool) \<Rightarrow> 's \<Rightarrow> bool" where
  "wp m Q s = (case m s of (r, s') \<Rightarrow> Q r s')"

lemma wp_ret [wp]: "wp (ret x) Q s = Q (Inr x) s"
  by (simp add: wp_def ret_def)

lemma wp_throw [wp]: "wp (throw e) Q s = Q (Inl e) s"
  by (simp add: wp_def throw_def)

lemma wp_andThen [wp]:
  "wp (andThen m k) Q s =
     wp m (\<lambda>r s'. case r of Inl e \<Rightarrow> Q (Inl e) s' | Inr x \<Rightarrow> wp (k x) Q s') s"
  by (auto simp: wp_def andThen_def split: prod.splits sum.splits)

lemma wp_tryCatch [wp]:
  "wp (tryCatch m h) Q s =
     wp m (\<lambda>r s'. case r of Inl e \<Rightarrow> wp (h e) Q s' | Inr x \<Rightarrow> Q (Inr x) s') s"
  by (auto simp: wp_def tryCatch_def split: prod.splits sum.splits)

lemma wp_finallyDo [wp]: "wp (finallyDo m f) Q s = wp m (\<lambda>r s'. Q r (f s')) s"
  by (auto simp: wp_def finallyDo_def split: prod.splits)

lemma wp_lift [wp]: "wp (lift r) Q s = Q r s"
  by (simp add: wp_def lift_def)

lemma wp_modify [wp]: "wp (modify f) Q s = Q (Inr ()) (f s)"
  by (simp add: wp_def modify_def)

lemma wp_gets [wp]: "wp (gets f) Q s = Q (Inr (f s)) s"
  by (simp add: wp_def gets_def)

lemma wp_if [wp]: "wp (if b then m else n) Q s = (if b then wp m Q s else wp n Q s)"
  by simp

lemma wpI: "(\<And>r s'. m s = (r, s') \<Longrightarrow> Q r s') \<Longrightarrow> wp m Q s"
  by (simp add: wp_def split: prod.splits)

lemma wpD: "wp m Q s \<Longrightarrow> m s = (r, s') \<Longrightarrow> Q r s'"
  by (simp add: wp_def)

lemma wp_mono: "wp m Q s \<Longrightarrow> (\<And>r s'. Q r s' \<Longrightarrow> R r s') \<Longrightarrow> wp m R s"
  by (auto simp: wp_def split: prod.splits)

lemma wp_conj: "wp m Q s \<Longrightarrow> wp m R s \<Longrightarrow> wp m (\<lambda>r s'. Q r s' \<and> R r s') s"
  by (auto simp: wp_def split: prod.splits)

lemma wp_seq:
  assumes "wp m R s" "\<And>e s'. R (Inl e) s' \<Longrightarrow> Q (Inl e) s'" "\<And>x s'. R (Inr x) s' \<Longrightarrow> wp (k x) Q s'"
  shows "wp (andThen m k) Q s"
  unfolding wp_andThen by (rule wp_mono [OF assms(1)]) (auto split: sum.splits intro: assms(2,3))

lemmas act_defs = ret_def throw_def andThen_def tryCatch_def finallyDo_def lift_def modify_def
  gets_def

section \<open>JSON values\<close>

text \<open>
  The values a JSON document or an untyped (\<open>unknown\<close>) field can hold; \<open>JUndefined\<close> is a
  property that is not there. Numbers are exact rationals.
\<close>

datatype json =
    JUndefined
  | JNull
  | JBool bool
  | JNum rat
  | JStr string
  | JArr "json list"
  | JObj "(string \<times> json) list"

text \<open>Optional property access \<open>v?.k\<close>.\<close>

fun jprop :: "json \<Rightarrow> string \<Rightarrow> json" where
  "jprop (JObj kvs) k = (case map_of kvs k of None \<Rightarrow> JUndefined | Some v \<Rightarrow> v)"
| "jprop _ k = JUndefined"

section \<open>Strings\<close>

text \<open>
  JavaScript strings whose content is examined character by character are HOL strings.
  Whitespace is what \<open>String.prototype.trim\<close> strips, restricted to one-byte characters.
\<close>

definition is_ws :: "char \<Rightarrow> bool" where
  "is_ws c = (let n = (of_char c :: nat) in (9 \<le> n \<and> n \<le> 13) \<or> n = 32 \<or> n = 160)"

definition trim :: "string \<Rightarrow> string" where
  "trim s = rev (dropWhile is_ws (rev (dropWhile is_ws s)))"

definition is_digit :: "char \<Rightarrow> bool" where
  "is_digit c = (let n = (of_char c :: nat) in 48 \<le> n \<and> n \<le> 57)"

text \<open>The regular expression \<open>^\d+$\<close>.\<close>

definition all_digits :: "string \<Rightarrow> bool" where
  "all_digits s = (s \<noteq> [] \<and> list_all is_digit s)"

definition digit_val :: "char \<Rightarrow> int" where
  "digit_val c = int (of_char c :: nat) - 48"

definition digits_val :: "string \<Rightarrow> int" where
  "digits_val s = foldl (\<lambda>acc c. acc * 10 + digit_val c) 0 s"

definition digit_char :: "nat \<Rightarrow> char" where
  "digit_char n = char_of (48 + n)"

function show_nat :: "nat \<Rightarrow> string" where
  "show_nat n = (if n < 10 then [digit_char n] else show_nat (n div 10) @ [digit_char (n mod 10)])"
  by pat_completeness auto
termination
  by (relation "measure id") auto

declare show_nat.simps [simp del]

definition show_int :: "int \<Rightarrow> string" where
  "show_int i = (if i < 0 then CHR ''-'' # show_nat (nat (- i)) else show_nat (nat i))"

lemma of_char_digit_char: "n < 10 \<Longrightarrow> (of_char (digit_char n) :: nat) = 48 + n"
  by (simp add: digit_char_def)

lemma is_digit_digit_char [simp]: "n < 10 \<Longrightarrow> is_digit (digit_char n)"
  by (simp add: is_digit_def of_char_digit_char)

lemma digit_val_digit_char [simp]: "n < 10 \<Longrightarrow> digit_val (digit_char n) = int n"
  by (simp add: digit_val_def of_char_digit_char)

lemma digit_val_range: "is_digit c \<Longrightarrow> 0 \<le> digit_val c \<and> digit_val c \<le> 9"
  by (auto simp: is_digit_def digit_val_def Let_def)

lemma digit_val_0: "digit_val CHR ''0'' = 0"
  by (simp add: digit_val_def)

lemma digits_val_Nil [simp]: "digits_val [] = 0"
  by (simp add: digits_val_def)

lemma digits_val_snoc: "digits_val (s @ [c]) = digits_val s * 10 + digit_val c"
  by (simp add: digits_val_def)

lemma digits_val_append: "digits_val (s @ t) = digits_val s * 10 ^ length t + digits_val t"
proof (induction t rule: rev_induct)
  case Nil
  then show ?case by simp
next
  case (snoc c t)
  have "digits_val (s @ t @ [c]) = digits_val (s @ t) * 10 + digit_val c"
    using digits_val_snoc [of "s @ t" c] by simp
  then show ?case
    using snoc.IH by (simp add: digits_val_snoc algebra_simps)
qed

lemma digits_val_nonneg: "list_all is_digit s \<Longrightarrow> 0 \<le> digits_val s"
proof (induction s rule: rev_induct)
  case Nil
  then show ?case by simp
next
  case (snoc c s)
  then show ?case
    using digit_val_range [of c] by (simp add: digits_val_snoc)
qed

lemma digits_val_bound: "list_all is_digit s \<Longrightarrow> digits_val s < 10 ^ length s"
proof (induction s rule: rev_induct)
  case Nil
  then show ?case by simp
next
  case (snoc c s)
  then have "digits_val s + 1 \<le> 10 ^ length s" and "digit_val c \<le> 9"
    using digit_val_range [of c] by auto
  then show ?case by (simp add: digits_val_snoc)
qed

lemma digits_val_zeros: "digits_val (replicate n CHR ''0'') = 0"
proof (induction n)
  case 0
  then show ?case by simp
next
  case (Suc n)
  have "replicate (Suc n) CHR ''0'' = replicate n CHR ''0'' @ [CHR ''0'']"
    by (simp add: replicate_append_same)
  then show ?case
    using Suc by (simp only: digits_val_snoc digit_val_0)
qed

lemma digits_val_zeros_append: "digits_val (replicate n CHR ''0'' @ s) = digits_val s"
  by (simp add: digits_val_append digits_val_zeros)

lemma show_nat_digits: "list_all is_digit (show_nat n)"
proof (induction n rule: show_nat.induct)
  case (1 n)
  then show ?case by (simp add: show_nat.simps [of n])
qed

lemma show_nat_not_Nil [simp]: "show_nat n \<noteq> []"
  by (subst show_nat.simps) simp

lemma all_digits_show_nat: "all_digits (show_nat n)"
  by (simp add: all_digits_def show_nat_digits)

lemma digits_val_show_nat [simp]: "digits_val (show_nat n) = int n"
proof (induction n rule: show_nat.induct)
  case (1 n)
  show ?case
  proof (cases "n < 10")
    case True
    then show ?thesis by (simp add: show_nat.simps [of n] digits_val_def)
  next
    case False
    then show ?thesis
      using 1 by (simp add: show_nat.simps [of n] digits_val_snoc zdiv_int zmod_int)
  qed
qed

lemma length_show_nat: "n < 10 ^ k \<Longrightarrow> 0 < k \<Longrightarrow> length (show_nat n) \<le> k"
proof (induction n arbitrary: k rule: show_nat.induct)
  case (1 n)
  show ?case
  proof (cases "n < 10")
    case True
    then show ?thesis using 1 by (simp add: show_nat.simps [of n])
  next
    case False
    then obtain j where j: "k = Suc j" "0 < j"
      using "1.prems" by (cases k; cases "k - 1") auto
    then have "n div 10 < 10 ^ j"
      using "1.prems"(1) by (simp add: div_less_iff_less_mult)
    then show ?thesis
      using False "1.IH" j by (simp add: show_nat.simps [of n])
  qed
qed

text \<open>\<open>String.prototype.split\<close> on a single character.\<close>

fun split_on :: "char \<Rightarrow> string \<Rightarrow> string list" where
  "split_on d [] = [[]]"
| "split_on d (c # cs) =
     (if c = d then [] # split_on d cs
      else (case split_on d cs of [] \<Rightarrow> [[c]] | w # ws \<Rightarrow> (c # w) # ws))"

lemma split_on_not_Nil [simp]: "split_on d s \<noteq> []"
  by (induction s) (auto split: list.splits)

lemma split_on_no_sep: "d \<notin> set s \<Longrightarrow> split_on d s = [s]"
  by (induction s) auto

lemma split_on_append: "d \<notin> set s \<Longrightarrow> split_on d (s @ d # t) = s # split_on d t"
  by (induction s) auto

lemma split_on_pieces: "split_on d s = w # ws \<Longrightarrow> s = w @ concat (map ((#) d) ws)"
proof (induction s arbitrary: w ws)
  case Nil
  then show ?case by simp
next
  case (Cons c cs)
  obtain v vs where v: "split_on d cs = v # vs"
    using split_on_not_Nil [of d cs] by (cases "split_on d cs") auto
  then have "cs = v @ concat (map ((#) d) vs)"
    by (rule Cons.IH)
  then have "concat (map ((#) d) (v # vs)) = d # cs" "v @ concat (map ((#) d) vs) = cs"
    by simp_all
  then show ?case
    using Cons.prems unfolding split_on.simps v by (auto simp del: concat.simps split: if_splits)
qed

lemma split_on_two:
  assumes "take 2 (split_on d s) = [a, b]"
  shows "\<exists>rest. s = a @ [d] @ b @ rest"
proof -
  obtain ws where "split_on d s = a # b # ws"
    using assms by (cases "split_on d s"; cases "tl (split_on d s)") auto
  then show ?thesis
    using split_on_pieces [of d s a "b # ws"] by auto
qed

definition startsWith :: "string \<Rightarrow> string \<Rightarrow> bool" where
  "startsWith s p = (take (length p) s = p)"

fun join :: "string \<Rightarrow> string list \<Rightarrow> string" where
  "join sep [] = []"
| "join sep [s] = s"
| "join sep (s # t # ss) = s @ sep @ join sep (t # ss)"

definition to_upper_char :: "char \<Rightarrow> char" where
  "to_upper_char c =
     (let n = (of_char c :: nat) in if 97 \<le> n \<and> n \<le> 122 then char_of (n - 32) else c)"

definition to_lower_char :: "char \<Rightarrow> char" where
  "to_lower_char c =
     (let n = (of_char c :: nat) in if 65 \<le> n \<and> n \<le> 90 then char_of (n + 32) else c)"

definition toUpperCase :: "string \<Rightarrow> string" where
  "toUpperCase = map to_upper_char"

definition toLowerCase :: "string \<Rightarrow> string" where
  "toLowerCase = map to_lower_char"

text \<open>\<open>s.includes(needle)\<close>\<close>

fun contains_text :: "string \<Rightarrow> string \<Rightarrow> bool" where
  "contains_text needle [] = (needle = [])"
| "contains_text needle (c # cs) = (startsWith (c # cs) needle \<or> contains_text needle cs)"

text \<open>The character classes of the program's regular expressions.\<close>

definition is_base32 :: "char \<Rightarrow> bool" where
  "is_base32 c = (let n = (of_char c :: nat) in (65 \<le> n \<and> n \<le> 90) \<or> (50 \<le> n \<and> n \<le> 55))"

definition is_hex :: "char \<Rightarrow> bool" where
  "is_hex c = (let n = (of_char c :: nat) in
     (48 \<le> n \<and> n \<le> 57) \<or> (97 \<le> n \<and> n \<le> 102) \<or> (65 \<le> n \<and> n \<le> 70))"

definition is_hex64 :: "string \<Rightarrow> bool" where
  "is_hex64 s = (length s = 64 \<and> list_all is_hex s)"

definition is_symbol_char :: "char \<Rightarrow> bool" where
  "is_symbol_char c = (let n = (of_char c :: nat) in
     (48 \<le> n \<and> n \<le> 57) \<or> (65 \<le> n \<and> n \<le> 90) \<or> (97 \<le> n \<and> n \<le> 122) \<or> n = 95)"

text \<open>A Stellar strkey shape: a version letter followed by 55 base-32 characters.\<close>

definition is_strkey :: "string \<Rightarrow> string \<Rightarrow> bool" where
  "is_strkey versions s =
     (case s of [] \<Rightarrow> False | c # cs \<Rightarrow> c \<in> set versions \<and> length cs = 55 \<and> list_all is_base32 cs)"

section \<open>BigInt of a string\<close>

text \<open>
  \<open>BigInt(s)\<close>: white space around the literal is ignored, the empty literal is 0, a decimal
  literal may have a sign, and the prefixes 0x, 0o and 0b select a radix. \<open>None\<close> is the
  SyntaxError.
\<close>

definition radix_digit :: "char \<Rightarrow> nat option" where
  "radix_digit c = (let n = (of_char c :: nat) in
     if 48 \<le> n \<and> n \<le> 57 then Some (n - 48)
     else if 97 \<le> n \<and> n \<le> 102 then Some (n - 87)
     else if 65 \<le> n \<and> n \<le> 70 then Some (n - 55) else None)"

fun radix_val :: "nat \<Rightarrow> int \<Rightarrow> string \<Rightarrow> int option" where
  "radix_val b acc [] = Some acc"
| "radix_val b acc (c # cs) =
     (case radix_digit c of
        None \<Rightarrow> None
      | Some d \<Rightarrow> if d < b then radix_val b (acc * int b + int d) cs else None)"

definition nonempty_radix :: "nat \<Rightarrow> string \<Rightarrow> int option" where
  "nonempty_radix b s = (if s = [] then None else radix_val b 0 s)"

definition BigInt :: "string \<Rightarrow> int option" where
  "BigInt s = (let t = trim s in
     if t = [] then Some 0
     else if take 2 t = ''0x'' \<or> take 2 t = ''0X'' then nonempty_radix 16 (drop 2 t)
     else if take 2 t = ''0o'' \<or> take 2 t = ''0O'' then nonempty_radix 8 (drop 2 t)
     else if take 2 t = ''0b'' \<or> take 2 t = ''0B'' then nonempty_radix 2 (drop 2 t)
     else if hd t = CHR ''-'' then (if all_digits (tl t) then Some (- digits_val (tl t)) else None)
     else if hd t = CHR ''+'' then (if all_digits (tl t) then Some (digits_val (tl t)) else None)
     else if all_digits t then Some (digits_val t) else None)"

lemma digit_not_ws: "is_digit c \<Longrightarrow> \<not> is_ws c"
  by (auto simp: is_digit_def is_ws_def Let_def)

lemma trim_id: "list_all (\<lambda>c. \<not> is_ws c) s \<Longrightarrow> trim s = s"
proof -
  have keep: "list_all (\<lambda>c. \<not> is_ws c) xs \<Longrightarrow> dropWhile is_ws xs = xs" for xs
    by (cases xs) auto
  assume "list_all (\<lambda>c. \<not> is_ws c) s"
  then show ?thesis
    by (simp add: trim_def keep list_all_rev)
qed

lemma trim_digits: "list_all is_digit s \<Longrightarrow> trim s = s"
  by (rule trim_id) (auto simp: list_all_iff digit_not_ws)

lemma BigInt_digits:
  assumes "all_digits s"
  shows "BigInt s = Some (digits_val s)"
proof -
  have d: "list_all is_digit s" "s \<noteq> []"
    using assms by (auto simp: all_digits_def)
  have not_digit: "\<not> is_digit c" if "c \<in> set ''xXoObB-+''" for c
    using that by (auto simp: is_digit_def)
  have "is_digit (hd s)"
    using d by (cases s) auto
  then have "hd s \<noteq> CHR ''-''" "hd s \<noteq> CHR ''+''"
    using not_digit by auto
  moreover have "take 2 s \<noteq> [CHR ''0'', c]" if "\<not> is_digit c" for c
  proof
    assume "take 2 s = [CHR ''0'', c]"
    then have "c \<in> set s"
      by (metis in_set_takeD list.set_intros(1) list.set_intros(2))
    then show False
      using d that by (auto simp: list_all_iff)
  qed
  ultimately show ?thesis
    using assms d not_digit by (simp add: BigInt_def Let_def trim_digits)
qed

section \<open>Number of a string\<close>

text \<open>
  \<open>Number(s)\<close> for decimal literals: an optional sign, digits with an optional fraction and an
  optional exponent, white space around it ignored, the empty string 0. \<open>None\<close> stands for \<open>NaN\<close>
  and the infinities (a radix prefix is not used by the program's numbers and reads as \<open>None\<close>).
  Values are exact.
\<close>

definition pow10 :: "int \<Rightarrow> rat" where
  "pow10 e = (if 0 \<le> e then 10 ^ nat e else 1 / 10 ^ nat (- e))"

definition signed_digits :: "string \<Rightarrow> int option" where
  "signed_digits s =
     (case s of
        [] \<Rightarrow> None
      | c # cs \<Rightarrow>
          if c = CHR ''-'' then (if all_digits cs then Some (- digits_val cs) else None)
          else if c = CHR ''+'' then (if all_digits cs then Some (digits_val cs) else None)
          else if all_digits s then Some (digits_val s) else None)"

definition unsigned_decimal :: "string \<Rightarrow> rat option" where
  "unsigned_decimal s =
     (case split_on CHR ''.'' s of
        [w] \<Rightarrow> if all_digits w then Some (of_int (digits_val w)) else None
      | [w, f] \<Rightarrow>
          if (w \<noteq> [] \<or> f \<noteq> []) \<and> list_all is_digit w \<and> list_all is_digit f
          then Some (of_int (digits_val w) + of_int (digits_val f) / 10 ^ length f) else None
      | _ \<Rightarrow> None)"

definition exponent_decimal :: "string \<Rightarrow> rat option" where
  "exponent_decimal s =
     (case split_on CHR ''e'' (map (\<lambda>c. if c = CHR ''E'' then CHR ''e'' else c) s) of
        [m] \<Rightarrow> unsigned_decimal m
      | [m, e] \<Rightarrow> (case (unsigned_decimal m, signed_digits e) of
            (Some v, Some k) \<Rightarrow> Some (v * pow10 k) | _ \<Rightarrow> None)
      | _ \<Rightarrow> None)"

definition Number :: "string \<Rightarrow> rat option" where
  "Number s = (let t = trim s in
     case t of
       [] \<Rightarrow> Some 0
     | c # cs \<Rightarrow>
         if c = CHR ''-'' then map_option uminus (exponent_decimal cs)
         else if c = CHR ''+'' then exponent_decimal cs
         else exponent_decimal t)"

lemma Number_digits:
  assumes "all_digits s"
  shows "Number s = Some (of_int (digits_val s))"
proof -
  have d: "list_all is_digit s" "s \<noteq> []"
    using assms by (auto simp: all_digits_def)
  have sym: "c \<notin> set s" if "c \<in> set ''eE.-+''" for c
    using that d(1) by (auto simp: list_all_iff is_digit_def)
  have keep: "map (\<lambda>c. if c = CHR ''E'' then CHR ''e'' else c) s = s"
    using sym [of "CHR ''E''"] by (intro map_idI) auto
  have "exponent_decimal s = Some (of_int (digits_val s))"
    using sym [of "CHR ''e''"] sym [of "CHR ''.''"] assms
    by (simp add: exponent_decimal_def keep split_on_no_sep unsigned_decimal_def)
  then show ?thesis
    using d sym [of "CHR ''-''"] sym [of "CHR ''+''"]
    by (auto simp: Number_def trim_digits split: list.splits)
qed

section \<open>The cheapest of a list of priced options\<close>

text \<open>
  \<open>xs.reduce((lo, a) => price(a) < price(lo) ? a : lo)\<close> where \<open>price\<close> may throw: the first
  option is the initial value, an option replaces it only when it is strictly cheaper.
\<close>

fun reduce_min :: "('a \<Rightarrow> 'e + int) \<Rightarrow> 'a \<Rightarrow> 'a list \<Rightarrow> 'e + 'a" where
  "reduce_min price c [] = Inr c"
| "reduce_min price c (a # as) =
     ebind (price a) (\<lambda>x. ebind (price c) (\<lambda>y.
       reduce_min price (if x < y then a else c) as))"

lemma reduce_min_mem: "reduce_min price c as = Inr r \<Longrightarrow> r \<in> insert c (set as)"
  by (induction as arbitrary: c) (auto simp: result_splits split: if_splits)

lemma reduce_min_least:
  assumes "reduce_min price c as = Inr r" and "price r = Inr p" and "x \<in> insert c (set as)"
  shows "\<exists>q. price x = Inr q \<and> p \<le> q"
  using assms
proof (induction as arbitrary: c x)
  case Nil
  then show ?case by auto
next
  case (Cons a as)
  then obtain xa yc where a: "price a = Inr xa" and c: "price c = Inr yc"
    and rest: "reduce_min price (if xa < yc then a else c) as = Inr r"
    by (auto simp: result_splits)
  let ?d = "if xa < yc then a else c"
  have d: "\<exists>q. price ?d = Inr q \<and> p \<le> q"
    using Cons.IH [OF rest Cons.prems(2), of ?d] by simp
  show ?case
  proof (cases "x \<in> set as")
    case True
    then show ?thesis using Cons.IH [OF rest Cons.prems(2), of x] by simp
  next
    case False
    then have "x = a \<or> x = c" using Cons.prems(3) by auto
    then show ?thesis using d a c by (auto split: if_splits)
  qed
qed

lemma reduce_min_total:
  "(\<And>x. x \<in> insert c (set as) \<Longrightarrow> \<exists>q. price x = Inr q) \<Longrightarrow> \<exists>r. reduce_min price c as = Inr r"
proof (induction as arbitrary: c)
  case Nil
  then show ?case by simp
next
  case (Cons a as)
  from Cons.prems [of a] Cons.prems [of c] obtain p q
    where "price a = Inr p" "price c = Inr q" by auto
  then show ?case
    using Cons by auto
qed

section \<open>Array.prototype.sort\<close>

text \<open>
  The stable sort with a comparator: \<open>cmp x y > 0\<close> puts \<open>x\<close> after \<open>y\<close>. An element is inserted
  after the elements it does not compare below, so equal elements keep their order.
\<close>

fun insert_by :: "('a \<Rightarrow> 'a \<Rightarrow> int) \<Rightarrow> 'a \<Rightarrow> 'a list \<Rightarrow> 'a list" where
  "insert_by cmp x [] = [x]"
| "insert_by cmp x (y # ys) = (if cmp x y > 0 then y # insert_by cmp x ys else x # y # ys)"

definition sort_by :: "('a \<Rightarrow> 'a \<Rightarrow> int) \<Rightarrow> 'a list \<Rightarrow> 'a list" where
  "sort_by cmp xs = foldr (insert_by cmp) xs []"

lemma set_insert_by [simp]: "set (insert_by cmp x ys) = insert x (set ys)"
  by (induction ys) auto

lemma set_sort_by [simp]: "set (sort_by cmp xs) = set xs"
  by (induction xs) (auto simp: sort_by_def)

lemma mset_insert_by: "count_list (insert_by cmp x ys) z = (if x = z then 1 else 0) + count_list ys z"
  by (induction ys) auto

lemma count_sort_by: "count_list (sort_by cmp xs) z = count_list xs z"
  by (induction xs) (auto simp: sort_by_def mset_insert_by)

lemma length_insert_by [simp]: "length (insert_by cmp x ys) = Suc (length ys)"
  by (induction ys) auto

lemma length_sort_by [simp]: "length (sort_by cmp xs) = length xs"
  by (induction xs) (auto simp: sort_by_def)

lemma distinct_insert_by: "distinct (insert_by cmp x ys) \<longleftrightarrow> x \<notin> set ys \<and> distinct ys"
  by (induction ys) auto

lemma distinct_sort_by [simp]: "distinct (sort_by cmp xs) = distinct xs"
proof (induction xs)
  case (Cons x xs)
  have "sort_by cmp (x # xs) = insert_by cmp x (sort_by cmp xs)"
    by (simp add: sort_by_def)
  then show ?case using Cons by (simp add: distinct_insert_by)
qed (simp add: sort_by_def)

text \<open>A comparator that orders by a key into a linear order.\<close>

definition orders_by :: "('a \<Rightarrow> 'a \<Rightarrow> int) \<Rightarrow> ('a \<Rightarrow> 'k::linorder) \<Rightarrow> 'a set \<Rightarrow> bool" where
  "orders_by cmp key A = (\<forall>x \<in> A. \<forall>y \<in> A. cmp x y > 0 \<longleftrightarrow> key x > key y)"

lemma insert_by_sorted:
  assumes "orders_by cmp key (insert x (set ys))" "sorted (map key ys)"
  shows "sorted (map key (insert_by cmp x ys))"
  using assms
proof (induction ys)
  case (Cons y ys)
  then have "orders_by cmp key (insert x (set ys))" and c: "cmp x y > 0 \<longleftrightarrow> key x > key y"
    by (auto simp: orders_by_def)
  then show ?case
    using Cons by (auto simp: not_less)
qed simp

lemma sort_by_sorted: "orders_by cmp key (set xs) \<Longrightarrow> sorted (map key (sort_by cmp xs))"
proof (induction xs)
  case (Cons x xs)
  have "sort_by cmp (x # xs) = insert_by cmp x (sort_by cmp xs)"
    by (simp add: sort_by_def)
  then show ?case
    using Cons by (auto simp: orders_by_def intro!: insert_by_sorted)
qed (simp add: sort_by_def)

section \<open>Reachable states\<close>

inductive reach :: "('s \<Rightarrow> bool) \<Rightarrow> ('s \<Rightarrow> 's \<Rightarrow> bool) \<Rightarrow> 's \<Rightarrow> bool" for init step where
  reach_init: "init s \<Longrightarrow> reach init step s"
| reach_step: "reach init step s \<Longrightarrow> step s t \<Longrightarrow> reach init step t"

text \<open>
  The interface of a component that is a state machine: its initial states, its steps and a
  predicate they keep. Every component with such a machine interprets it.
\<close>

locale preserved =
  fixes init :: "'s \<Rightarrow> bool" and step :: "'s \<Rightarrow> 's \<Rightarrow> bool" and inv :: "'s \<Rightarrow> bool"
  assumes inv_init: "init s \<Longrightarrow> inv s"
    and inv_step: "step s t \<Longrightarrow> inv s \<Longrightarrow> inv t"
begin

lemma inv_reach: "reach init step s \<Longrightarrow> inv s"
  by (induction rule: reach.induct) (auto intro: inv_init inv_step)

end

section \<open>Refinement\<close>

text \<open>A run of operations, with what each of them gave.\<close>

fun run_all :: "('e \<Rightarrow> 's \<Rightarrow> 'o \<times> 's) \<Rightarrow> 'e list \<Rightarrow> 's \<Rightarrow> 'o list \<times> 's" where
  "run_all op [] s = ([], s)"
| "run_all op (e # es) s =
     (case op e s of (out, s1) \<Rightarrow> (case run_all op es s1 of (outs, s2) \<Rightarrow> (out # outs, s2)))"

text \<open>
  The interface of an implementation of an abstract component: an abstraction function and an
  invariant under which each allowed operation commutes with the abstraction and gives the same
  answer. Then no sequence of operations tells the two apart.
\<close>

locale functional_refinement =
  fixes abs :: "'c \<Rightarrow> 'a" and inv :: "'c \<Rightarrow> bool" and allowed :: "'e \<Rightarrow> bool"
    and cop :: "'e \<Rightarrow> 'c \<Rightarrow> 'o \<times> 'c" and aop :: "'e \<Rightarrow> 'a \<Rightarrow> 'o \<times> 'a"
  assumes op_inv: "inv c \<Longrightarrow> allowed e \<Longrightarrow> inv (snd (cop e c))"
    and op_refines: "inv c \<Longrightarrow> allowed e \<Longrightarrow>
      aop e (abs c) = (fst (cop e c), abs (snd (cop e c)))"
begin

lemma run_refines:
  "inv c \<Longrightarrow> list_all allowed es \<Longrightarrow>
   run_all aop es (abs c) = (fst (run_all cop es c), abs (snd (run_all cop es c)))"
  by (induction es arbitrary: c)
    (simp_all add: op_refines op_inv split_beta)

lemma run_inv: "inv c \<Longrightarrow> list_all allowed es \<Longrightarrow> inv (snd (run_all cop es c))"
  by (induction es arbitrary: c) (simp_all add: op_inv split_beta)

end

end
