(* ===== verification/Encoding.thy ===== *)
theory Encoding
  imports Prelude
begin

text \<open>
  Text encodings: the browser-safe base64 helpers \<open>utf8ToBase64\<close> and \<open>base64ToUtf8\<close> of
  \<open>src/x402-guards.ts\<close> and \<open>toBase64\<close> of \<open>src/x402-request-auth.ts\<close>, over the platform
  functions they call (\<open>TextEncoder\<close>, \<open>TextDecoder\<close>, \<open>btoa\<close>, \<open>atob\<close>), which are written out.

  A text is the list of its code points; a lone surrogate is a code point of the surrogate
  range. Bytes are natural numbers below 256. The decoder follows the WHATWG machine: a byte
  that cannot continue a sequence emits U+FFFD and is processed again, and a leading
  byte-order mark is dropped.

  The round trip \<open>base64_utf8_roundtrip\<close> is the property of the component.
\<close>

type_synonym jstext = "nat list"
type_synonym bytes = "nat list"

text \<open>The code points of an ASCII literal.\<close>

definition codes :: "string \<Rightarrow> jstext" where
  "codes s = map of_char s"

section \<open>TextEncoder\<close>

definition is_surrogate :: "nat \<Rightarrow> bool" where
  "is_surrogate cp = (0xD800 \<le> cp \<and> cp \<le> 0xDFFF)"

definition is_scalar :: "nat \<Rightarrow> bool" where
  "is_scalar cp = (cp < 0x110000 \<and> \<not> is_surrogate cp)"

definition utf8_bytes :: "nat \<Rightarrow> bytes" where
  "utf8_bytes cp =
     (if cp < 0x80 then [cp]
      else if cp < 0x800 then [0xC0 + cp div 64, 0x80 + cp mod 64]
      else if cp < 0x10000 then
        [0xE0 + cp div 4096, 0x80 + cp div 64 mod 64, 0x80 + cp mod 64]
      else [0xF0 + cp div 262144, 0x80 + cp div 4096 mod 64, 0x80 + cp div 64 mod 64,
            0x80 + cp mod 64])"

definition utf8_encode :: "jstext \<Rightarrow> bytes" where
  "utf8_encode s = concat (map (\<lambda>cp. utf8_bytes (if is_surrogate cp then 0xFFFD else cp)) s)"

section \<open>TextDecoder\<close>

text \<open>
  The decoder state: the code point collected so far, how many continuation bytes are still
  needed and the range the next one must be in.
\<close>

function (sequential) utf8_run :: "nat \<Rightarrow> nat \<Rightarrow> nat \<Rightarrow> nat \<Rightarrow> bytes \<Rightarrow> jstext" where
  "utf8_run cp need lo hi [] = (if need = 0 then [] else [0xFFFD])"
| "utf8_run cp need lo hi (b # bs) =
     (if need = 0 then
        (if b < 0x80 then b # utf8_run 0 0 0x80 0xBF bs
         else if 0xC2 \<le> b \<and> b \<le> 0xDF then utf8_run (b - 0xC0) 1 0x80 0xBF bs
         else if 0xE0 \<le> b \<and> b \<le> 0xEF then
           utf8_run (b - 0xE0) 2 (if b = 0xE0 then 0xA0 else 0x80)
             (if b = 0xED then 0x9F else 0xBF) bs
         else if 0xF0 \<le> b \<and> b \<le> 0xF4 then
           utf8_run (b - 0xF0) 3 (if b = 0xF0 then 0x90 else 0x80)
             (if b = 0xF4 then 0x8F else 0xBF) bs
         else 0xFFFD # utf8_run 0 0 0x80 0xBF bs)
      else if b < lo \<or> hi < b then 0xFFFD # utf8_run 0 0 0x80 0xBF (b # bs)
      else if need = 1 then (cp * 64 + (b - 0x80)) # utf8_run 0 0 0x80 0xBF bs
      else utf8_run (cp * 64 + (b - 0x80)) (need - 1) 0x80 0xBF bs)"
  by pat_completeness auto
termination
  by (relation "measures [\<lambda>(cp, need, lo, hi, bs). length bs, \<lambda>(cp, need, lo, hi, bs). need]") auto

declare utf8_run.simps [simp del]

abbreviation utf8_scan :: "bytes \<Rightarrow> jstext" where
  "utf8_scan bs \<equiv> utf8_run 0 0 0x80 0xBF bs"

definition utf8_decode :: "bytes \<Rightarrow> jstext" where
  "utf8_decode bs = utf8_scan (if take 3 bs = [0xEF, 0xBB, 0xBF] then drop 3 bs else bs)"

section \<open>btoa and atob\<close>

text \<open>The alphabet \<open>A-Z a-z 0-9 + /\<close>, as character codes.\<close>

definition b64_char :: "nat \<Rightarrow> char" where
  "b64_char i = char_of
     (if i < 26 then 65 + i else if i < 52 then 71 + i else if i < 62 then i - 4
      else if i = 62 then 43 else (47::nat))"

definition b64_index :: "char \<Rightarrow> nat option" where
  "b64_index c = (let n = (of_char c :: nat) in
     if 65 \<le> n \<and> n \<le> 90 then Some (n - 65)
     else if 97 \<le> n \<and> n \<le> 122 then Some (n - 71)
     else if 48 \<le> n \<and> n \<le> 57 then Some (n + 4)
     else if n = 43 then Some 62
     else if n = 47 then Some 63 else None)"

fun sextets :: "bytes \<Rightarrow> nat list" where
  "sextets [] = []"
| "sextets [a] = [a div 4, a mod 4 * 16]"
| "sextets [a, b] = [a div 4, a mod 4 * 16 + b div 16, b mod 16 * 4]"
| "sextets (a # b # c # bs) =
     [a div 4, a mod 4 * 16 + b div 16, b mod 16 * 4 + c div 64, c mod 64] @ sextets bs"

fun octets :: "nat list \<Rightarrow> bytes" where
  "octets [] = []"
| "octets [w] = []"
| "octets [w, x] = [w * 4 + x div 16]"
| "octets [w, x, y] = [w * 4 + x div 16, x mod 16 * 16 + y div 4]"
| "octets (w # x # y # z # xs) =
     [w * 4 + x div 16, x mod 16 * 16 + y div 4, y mod 4 * 64 + z] @ octets xs"

definition b64_pad :: "bytes \<Rightarrow> string" where
  "b64_pad bs = (if length bs mod 3 = 1 then ''=='' else if length bs mod 3 = 2 then ''='' else [])"

definition btoa :: "bytes \<Rightarrow> string" where
  "btoa bs = map b64_char (sextets bs) @ b64_pad bs"

definition is_ascii_ws :: "char \<Rightarrow> bool" where
  "is_ascii_ws c = ((of_char c :: nat) \<in> {9, 10, 12, 13, 32})"

definition strip_pad :: "string \<Rightarrow> string" where
  "strip_pad s =
     (if length s mod 4 \<noteq> 0 \<or> s = [] \<or> last s \<noteq> CHR ''='' then s
      else if butlast s \<noteq> [] \<and> last (butlast s) = CHR ''='' then butlast (butlast s)
      else butlast s)"

definition atob :: "string \<Rightarrow> bytes option" where
  "atob s = (let t = strip_pad (filter (\<lambda>c. \<not> is_ascii_ws c) s) in
     if length t mod 4 = 1 \<or> \<not> list_all (\<lambda>c. b64_index c \<noteq> None) t then None
     else Some (octets (map (\<lambda>c. the (b64_index c)) t)))"

section \<open>The helpers of the guard layer\<close>

definition utf8ToBase64 :: "jstext \<Rightarrow> string" where
  "utf8ToBase64 s = btoa (utf8_encode s)"

definition base64ToUtf8 :: "string \<Rightarrow> jstext option" where
  "base64ToUtf8 b64 = map_option utf8_decode (atob b64)"

definition toBase64 :: "bytes \<Rightarrow> string" where
  "toBase64 bs = btoa bs"

section \<open>base64 round trip\<close>

lemma of_char_b64_char:
  "(of_char (b64_char i) :: nat) =
     (if i < 26 then 65 + i else if i < 52 then 71 + i else if i < 62 then i - 4
      else if i = 62 then 43 else 47)"
  by (simp add: b64_char_def)

lemma b64_char_facts:
  assumes "i < 64"
  shows "b64_index (b64_char i) = Some i" and "\<not> is_ascii_ws (b64_char i)"
    and "b64_char i \<noteq> CHR ''=''"
proof -
  show "b64_index (b64_char i) = Some i"
    using assms by (auto simp: b64_index_def of_char_b64_char Let_def)
  show "\<not> is_ascii_ws (b64_char i)"
    by (auto simp: is_ascii_ws_def of_char_b64_char)
  have "(of_char (b64_char i) :: nat) \<noteq> of_char CHR ''=''"
    by (auto simp: of_char_b64_char)
  then show "b64_char i \<noteq> CHR ''=''" by metis
qed

lemma sextets_small: "list_all (\<lambda>b. b < 256) bs \<Longrightarrow> list_all (\<lambda>x. x < 64) (sextets bs)"
proof (induction bs rule: sextets.induct)
  case (3 a b)
  then show ?case by auto
next
  case (4 a b c bs)
  then show ?case by auto
qed auto

lemma octets_sextets: "list_all (\<lambda>b. b < 256) bs \<Longrightarrow> octets (sextets bs) = bs"
proof (induction bs rule: sextets.induct)
  case (4 a b c bs)
  have "(a mod 4 * 16 + b div 16) div 16 = a mod 4" "(a mod 4 * 16 + b div 16) mod 16 = b div 16"
    "(b mod 16 * 4 + c div 64) div 4 = b mod 16" "(b mod 16 * 4 + c div 64) mod 4 = c div 64"
    using 4 by auto
  then show ?case using 4 by simp
next
  case (3 a b)
  have "(a mod 4 * 16 + b div 16) div 16 = a mod 4" "(a mod 4 * 16 + b div 16) mod 16 = b div 16"
    using 3 by auto
  then show ?case by simp
qed auto

lemma length_sextets_mod:
  "length (sextets bs) mod 4 = (if length bs mod 3 = 0 then 0 else length bs mod 3 + 1)"
proof (induction bs rule: sextets.induct)
  case (4 a b c bs)
  have "Suc (Suc (Suc (length bs))) mod 3 = length bs mod 3"
    by presburger
  then show ?case using 4 by simp
qed auto

lemma strip_pad_btoa:
  assumes "list_all (\<lambda>b. b < 256) bs"
  shows "strip_pad (btoa bs) = map b64_char (sextets bs)"
proof -
  let ?m = "map b64_char (sextets bs)"
  have small: "\<forall>x \<in> set (sextets bs). x < 64"
    using sextets_small [OF assms] by (simp add: list_all_iff)
  then have noeq: "?m \<noteq> [] \<Longrightarrow> last ?m \<noteq> CHR ''=''"
    by (metis b64_char_facts(3) in_set_conv_nth last_map last_in_set list.map_disc_iff)
  have l: "length ?m mod 4 = (if length bs mod 3 = 0 then 0 else length bs mod 3 + 1)"
    by (simp add: length_sextets_mod)
  consider "length bs mod 3 = 0" | "length bs mod 3 = 1" | "length bs mod 3 = 2"
    by linarith
  then show ?thesis
  proof cases
    case 1
    then have "btoa bs = ?m" by (simp add: btoa_def b64_pad_def)
    moreover have "?m = [] \<or> last ?m \<noteq> CHR ''=''" using noeq by blast
    ultimately show ?thesis by (simp only: strip_pad_def) auto
  next
    case 2
    have "length (?m @ ''=='') mod 4 = 0"
      using l 2 by (simp add: mod_Suc)
    then show ?thesis
      using 2 by (simp add: btoa_def b64_pad_def strip_pad_def butlast_append)
  next
    case 3
    have m: "length (?m @ ''='') mod 4 = 0" and ne: "?m \<noteq> []"
      using l 3 by (auto simp: mod_Suc)
    then show ?thesis
      using 3 noeq by (simp add: btoa_def b64_pad_def strip_pad_def)
  qed
qed

lemma atob_btoa:
  assumes "list_all (\<lambda>b. b < 256) bs"
  shows "atob (btoa bs) = Some bs"
proof -
  have small: "\<forall>x \<in> set (sextets bs). x < 64"
    using sextets_small [OF assms] by (simp add: list_all_iff)
  have nows: "filter (\<lambda>c. \<not> is_ascii_ws c) (btoa bs) = btoa bs"
    using small b64_char_facts(2)
    by (auto simp: filter_id_conv btoa_def b64_pad_def is_ascii_ws_def split: if_splits)
  have map_id: "map (\<lambda>c. the (b64_index c)) (map b64_char (sextets bs)) = sextets bs"
    using small b64_char_facts(1) by (auto intro: map_idI)
  have "length (map b64_char (sextets bs)) mod 4 \<noteq> 1"
    by (simp add: length_sextets_mod)
  moreover have "list_all (\<lambda>c. b64_index c \<noteq> None) (map b64_char (sextets bs))"
    using small b64_char_facts(1) by (auto simp: list_all_iff)
  ultimately show ?thesis
    using map_id by (simp add: atob_def nows strip_pad_btoa assms octets_sextets Let_def)
qed

section \<open>UTF-8 round trip\<close>

lemma utf8_bytes_small: "cp < 0x110000 \<Longrightarrow> list_all (\<lambda>b. b < 256) (utf8_bytes cp)"
  by (auto simp: utf8_bytes_def)

lemma utf8_encode_small: "list_all is_scalar s \<Longrightarrow> list_all (\<lambda>b. b < 256) (utf8_encode s)"
proof (induction s)
  case Nil
  then show ?case by (simp add: utf8_encode_def)
next
  case (Cons cp s)
  then show ?case
    using utf8_bytes_small [of cp] by (simp add: utf8_encode_def is_scalar_def)
qed

lemma recombine3: "(cp div 4096 * 64 + cp div 64 mod 64) * 64 + cp mod 64 = (cp::nat)"
proof -
  have "cp div 4096 * 64 + cp div 64 mod 64 = cp div 64"
    using div_mult2_eq [of cp 64 64] by simp
  then show ?thesis by simp
qed

lemma recombine4:
  "((cp div 262144 * 64 + cp div 4096 mod 64) * 64 + cp div 64 mod 64) * 64 + cp mod 64 = (cp::nat)"
proof -
  have "cp div 262144 * 64 + cp div 4096 mod 64 = cp div 4096"
    using div_mult2_eq [of cp 4096 64] by simp
  then show ?thesis using recombine3 [of cp] by simp
qed

text \<open>The machine on a lead byte and on a continuation byte in range.\<close>

lemma utf8_lead:
  "b < 0x80 \<Longrightarrow> utf8_scan (b # bs) = b # utf8_scan bs"
  "0xC2 \<le> b \<Longrightarrow> b \<le> 0xDF \<Longrightarrow> utf8_scan (b # bs) = utf8_run (b - 0xC0) 1 0x80 0xBF bs"
  "0xE0 \<le> b \<Longrightarrow> b \<le> 0xEF \<Longrightarrow> utf8_scan (b # bs) =
     utf8_run (b - 0xE0) 2 (if b = 0xE0 then 0xA0 else 0x80) (if b = 0xED then 0x9F else 0xBF) bs"
  "0xF0 \<le> b \<Longrightarrow> b \<le> 0xF4 \<Longrightarrow> utf8_scan (b # bs) =
     utf8_run (b - 0xF0) 3 (if b = 0xF0 then 0x90 else 0x80) (if b = 0xF4 then 0x8F else 0xBF) bs"
  by (subst utf8_run.simps(2), simp)+

lemma utf8_cont:
  "lo \<le> b \<Longrightarrow> b \<le> hi \<Longrightarrow> utf8_run cp (Suc 0) lo hi (b # bs) = (cp * 64 + (b - 0x80)) # utf8_scan bs"
  "lo \<le> b \<Longrightarrow> b \<le> hi \<Longrightarrow> utf8_run cp 2 lo hi (b # bs) =
     utf8_run (cp * 64 + (b - 0x80)) 1 0x80 0xBF bs"
  "lo \<le> b \<Longrightarrow> b \<le> hi \<Longrightarrow> utf8_run cp 3 lo hi (b # bs) =
     utf8_run (cp * 64 + (b - 0x80)) 2 0x80 0xBF bs"
  by (subst utf8_run.simps(2), simp)+

lemma utf8_scan_3:
  assumes "x \<le> 15" "y < 64" "z < 64" "x = 0 \<Longrightarrow> 32 \<le> y" "x = 13 \<Longrightarrow> y \<le> 31"
  shows "utf8_scan ([0xE0 + x, 0x80 + y, 0x80 + z] @ bs) = ((x * 64 + y) * 64 + z) # utf8_scan bs"
proof -
  have "(if 0xE0 + x = 0xE0 then 0xA0 else 0x80) \<le> 0x80 + y"
    "0x80 + y \<le> (if 0xE0 + x = 0xED then 0x9F else 0xBF)"
    using assms by auto
  then show ?thesis
    using assms(1-3) by (simp add: utf8_lead(3) utf8_cont)
qed

lemma utf8_scan_4:
  assumes "w \<le> 4" "x < 64" "y < 64" "z < 64" "w = 0 \<Longrightarrow> 16 \<le> x" "w = 4 \<Longrightarrow> x \<le> 15"
  shows "utf8_scan ([0xF0 + w, 0x80 + x, 0x80 + y, 0x80 + z] @ bs) =
    (((w * 64 + x) * 64 + y) * 64 + z) # utf8_scan bs"
proof -
  have "(if 0xF0 + w = 0xF0 then 0x90 else 0x80) \<le> 0x80 + x"
    "0x80 + x \<le> (if 0xF0 + w = 0xF4 then 0x8F else 0xBF)"
    using assms by auto
  then show ?thesis
    using assms(1-4) by (simp add: utf8_lead(4) utf8_cont)
qed

lemma utf8_scan_bytes:
  assumes "is_scalar cp"
  shows "utf8_scan (utf8_bytes cp @ bs) = cp # utf8_scan bs"
proof -
  consider "cp < 0x80" | "0x80 \<le> cp" "cp < 0x800" | "0x800 \<le> cp" "cp < 0x10000"
    | "0x10000 \<le> cp" "cp < 0x110000"
    using assms by (force simp: is_scalar_def)
  then show ?thesis
  proof cases
    case 1
    then show ?thesis by (simp add: utf8_bytes_def utf8_lead)
  next
    case 2
    then have "2 \<le> cp div 64" "cp div 64 \<le> 31" by auto
    then show ?thesis using 2 by (simp add: utf8_bytes_def utf8_lead utf8_cont)
  next
    case 3
    have lo: "cp div 4096 = 0 \<Longrightarrow> 32 \<le> cp div 64 mod 64"
      using 3 by auto
    have hi: "cp div 4096 = 13 \<Longrightarrow> cp div 64 mod 64 \<le> 31"
    proof -
      assume "cp div 4096 = 13"
      then have "cp < 0xD800"
        using 3 assms by (auto simp: is_scalar_def is_surrogate_def)
      then have "cp div 64 < 864" by linarith
      moreover have "cp div 64 = 64 * (cp div 4096) + cp div 64 mod 64"
        using div_mult2_eq [of cp 64 64] by simp
      ultimately show ?thesis using \<open>cp div 4096 = 13\<close> by linarith
    qed
    have "utf8_bytes cp = [0xE0 + cp div 4096, 0x80 + cp div 64 mod 64, 0x80 + cp mod 64]"
      using 3 by (simp add: utf8_bytes_def)
    then show ?thesis
      using 3 utf8_scan_3 [where z = "cp mod 64" and bs = bs, OF _ _ _ lo hi] recombine3 [of cp]
      by simp
  next
    case 4
    have lo: "cp div 262144 = 0 \<Longrightarrow> 16 \<le> cp div 4096 mod 64"
      using 4 by auto
    have hi: "cp div 262144 = 4 \<Longrightarrow> cp div 4096 mod 64 \<le> 15"
    proof -
      assume "cp div 262144 = 4"
      moreover have "cp div 4096 < 272" using 4 by linarith
      moreover have "cp div 4096 = 64 * (cp div 262144) + cp div 4096 mod 64"
        using div_mult2_eq [of cp 4096 64] by simp
      ultimately show ?thesis by linarith
    qed
    have "utf8_bytes cp = [0xF0 + cp div 262144, 0x80 + cp div 4096 mod 64,
        0x80 + cp div 64 mod 64, 0x80 + cp mod 64]"
      using 4 by (simp add: utf8_bytes_def)
    then show ?thesis
      using 4 utf8_scan_4 [where y = "cp div 64 mod 64" and z = "cp mod 64" and bs = bs,
        OF _ _ _ _ lo hi] recombine4 [of cp]
      by simp
  qed
qed

lemma utf8_encode_Cons: "is_scalar cp \<Longrightarrow> utf8_encode (cp # s) = utf8_bytes cp @ utf8_encode s"
  by (simp add: utf8_encode_def is_scalar_def)

lemma utf8_scan_encode: "list_all is_scalar s \<Longrightarrow> utf8_scan (utf8_encode s) = s"
proof (induction s)
  case Nil
  then show ?case by (simp add: utf8_encode_def utf8_run.simps)
next
  case (Cons cp s)
  then show ?case by (simp add: utf8_encode_Cons utf8_scan_bytes)
qed

lemma utf8_scan_bom: "utf8_scan (0xEF # 0xBB # 0xBF # bs) = 0xFEFF # utf8_scan bs"
  by (simp add: utf8_run.simps)

lemma utf8_decode_encode:
  assumes "list_all is_scalar s" and "s = [] \<or> hd s \<noteq> 0xFEFF"
  shows "utf8_decode (utf8_encode s) = s"
proof (cases "take 3 (utf8_encode s) = [0xEF, 0xBB, 0xBF]")
  case True
  then have "utf8_encode s = 0xEF # 0xBB # 0xBF # drop 3 (utf8_encode s)"
    by (metis append_Cons append_Nil append_take_drop_id)
  then have "s = 0xFEFF # utf8_scan (drop 3 (utf8_encode s))"
    using utf8_scan_encode [OF assms(1)] utf8_scan_bom by metis
  then show ?thesis using assms(2) by (metis list.distinct(1) list.sel(1))
next
  case False
  then show ?thesis using utf8_scan_encode [OF assms(1)] by (simp only: utf8_decode_def if_False)
qed

section \<open>The property of the component\<close>

text \<open>
  Decoding the base64 form of a text gives the text back, for every text of
  Unicode scalar values that does not start with a byte-order mark.
\<close>

theorem base64_utf8_roundtrip:
  assumes "list_all is_scalar s" and "s = [] \<or> hd s \<noteq> 0xFEFF"
  shows "base64ToUtf8 (utf8ToBase64 s) = Some s"
proof -
  have "atob (btoa (utf8_encode s)) = Some (utf8_encode s)"
    by (rule atob_btoa) (rule utf8_encode_small [OF assms(1)])
  then show ?thesis
    by (simp add: base64ToUtf8_def utf8ToBase64_def utf8_decode_encode [OF assms])
qed

theorem base64_utf8_roundtrip_witness:
  "utf8ToBase64 [0x7B, 0xE9, 0x20AC, 0x1F600] = ''e8Op4oKs8J+YgA=='' \<and>
   base64ToUtf8 (utf8ToBase64 [0x7B, 0xE9, 0x20AC, 0x1F600]) =
     Some [0x7B, 0xE9, 0x20AC, 0x1F600]"
proof
  show "utf8ToBase64 [0x7B, 0xE9, 0x20AC, 0x1F600] = ''e8Op4oKs8J+YgA==''"
    by (simp add: utf8ToBase64_def btoa_def utf8_encode_def utf8_bytes_def is_surrogate_def
        b64_char_def b64_pad_def char_of_def bit_0)
  show "base64ToUtf8 (utf8ToBase64 [0x7B, 0xE9, 0x20AC, 0x1F600]) =
     Some [0x7B, 0xE9, 0x20AC, 0x1F600]"
    by (rule base64_utf8_roundtrip) (simp_all add: is_scalar_def is_surrogate_def)
qed

end
