(* ===== verification/Errors.thy ===== *)
theory Errors
  imports Prelude
begin

text \<open>
  The error classes of the SDK and of the MCP payer, one datatype per source file, and their
  sum \<open>js_error\<close>, which is what a modelled function throws. A constructor carries the
  fields of its class; where a class only carries a message, the constructor carries what
  distinguishes the messages. \<open>Thrown\<close> is an error raised by code outside the repository (a
  rejected \<open>fetch\<close>, a host runtime) or a plain \<open>Error\<close> of the SDK.
\<close>

section \<open>src/x402-types.ts\<close>

text \<open>Why no payment option is usable.\<close>

datatype no_option =
    NotOffered string "(string \<times> string) list"
  | FeesNotSponsored
  | FeesUndeclared
  | MalformedHeader
  | NoHeader
  | UnknownNetwork string
  | NotAnObject
  | UnsupportedVersion json
  | NoOptions

datatype x402_error =
    X402NotConfiguredError string
  | MaxAmountExceededError int int string
  | DisallowedAssetError string "string list"
  | NoUsablePaymentOptionError no_option
  | PaymentRejectedError nat "string option"
  | InvalidRequirementsError json

section \<open>src/x402-auth-entry.ts\<close>

text \<open>Which part of an authorization entry differs from the intended payment.\<close>

datatype entry_field =
    FunctionType
  | ContractField
  | FunctionField
  | ArgumentCount
  | FromField
  | ToField
  | AmountField
  | SubInvocations

datatype auth_entry_error = AuthEntryMismatchError entry_field string string

section \<open>src/x402-signer-capabilities.ts\<close>

datatype capability_error =
    CapabilityDeniedError string string nat
  | InvalidCapabilityRuleError string

section \<open>src/x402-budget-attributes.ts\<close>

datatype budget_denial =
    NoMatchingRule
  | PerPaymentCeiling int
  | PeriodCeiling int int

datatype budget_error =
    BudgetAttributeDeniedError budget_denial
  | InvalidBudgetAttributeRuleError string

section \<open>src/x402-request-auth.ts\<close>

datatype signing_error =
    RequestSigningUnavailableError string
  | InvalidSigningConfigError string

section \<open>The wallet\<close>

text \<open>
  \<open>src/passkeykit-connector.ts\<close>, \<open>src/client.ts\<close>, \<open>src/payments.ts\<close>,
  \<open>src/payments-client.ts\<close>, \<open>src/agents-facade.ts\<close>, \<open>src/policy-types.ts\<close>,
  \<open>src/policy-facade.ts\<close>, \<open>src/http-backend.ts\<close>,
  \<open>src/balances.ts\<close>, \<open>src/tx-status.ts\<close>, \<open>src/tx-rpc.ts\<close>, \<open>src/config.ts\<close>.
\<close>

datatype wallet_error =
    WalletNetworkMismatchError string string
  | PasskeyBrowserRequiredError string
  | WalletNotReadyError string
  | InvalidAmountError string
  | RangeError rat
  | InvalidRecipientError string
  | AgentsNotConfiguredError
  | InvalidAgentInputError string
  | PolicyApiError json nat json
  | PolicyListFilterError string
  | PolicyNotDeployableError
  | WalletApiError json nat json
  | BatchBalanceSizeError nat nat
  | TransactionTimeoutError string int
  | RateLimitError
  | MainnetConfigError string

section \<open>packages/mcp-x402-payer/src/errors.ts\<close>

datatype payer_error =
    ConfigError string
  | SessionCeilingExceededError string int int int
  | SettlementFailedError nat "string option"
  | SelectionMismatchError string
  | IndeterminateSettlementError string string int "string option"
  | NoPayableResultError nat "(int \<times> string) option"
  | UnworkableTimeoutError rat int
  | SmartAccountAuthError bool

section \<open>What a function throws\<close>

datatype js_error =
    X402 x402_error
  | AuthEntry auth_entry_error
  | Capability capability_error
  | Budget budget_error
  | Signing signing_error
  | Wallet wallet_error
  | CircuitOpen string
  | Payer payer_error
  | JsTypeError
  | Thrown string

type_synonym 'a outcome = "js_error + 'a"

section \<open>Calls of the outside\<close>

text \<open>
  A call of code outside the repository by a component whose state is the trace of such calls: the
  answer depends on the trace, is logged, and a rejection is a plain error.
\<close>

definition loggedCall ::
    "('ev list \<Rightarrow> string + 'a) \<Rightarrow> (string + 'a \<Rightarrow> 'ev) \<Rightarrow> ('ev list, js_error, 'a) act" where
  "loggedCall f ev = (\<lambda>tr. (map_sum Thrown id (f tr), tr @ [ev (f tr)]))"

lemma wp_loggedCall [wp]: "wp (loggedCall f ev) Q tr = Q (map_sum Thrown id (f tr)) (tr @ [ev (f tr)])"
  by (simp add: wp_def loggedCall_def)

lemma map_sum_Thrown [simp]:
  "map_sum Thrown id r = Inr x \<longleftrightarrow> r = Inr x"
  "map_sum Thrown id r = Inl e \<longleftrightarrow> (\<exists>m. r = Inl m \<and> e = Thrown m)"
  by (cases r; auto)+

end
