(* ===== verification/Guards.thy ===== *)
theory Guards
  imports Encoding Errors
begin

text \<open>
  The x402 domain types (\<open>src/types.ts\<close>, \<open>src/x402-types.ts\<close>) and the pure decision layer
  \<open>src/x402-guards.ts\<close>: decoding a 402 challenge, picking the one option to pay, reading the
  facilitator's settle result and classifying what is known about whether money moved.

  \<open>JSON.parse\<close> followed by the cast to the declared type is a parameter (\<open>json_env\<close>): one
  total function per target type, \<open>None\<close> where the parser throws. Nothing is assumed about
  it. The base64 and UTF-8 steps before it are those of \<open>Encoding\<close>.
\<close>

section \<open>Domain types\<close>

datatype network = Testnet | Mainnet

record payment_requirements =
  pr_scheme :: string
  pr_network :: string
  pr_asset :: string
  pr_amount :: json
  pr_payTo :: string
  pr_maxTimeoutSeconds :: "rat option"
  pr_extra :: json

record resource_info =
  ri_url :: "string option"
  ri_description :: "string option"
  ri_mimeType :: "string option"
  ri_serviceName :: "string option"
  ri_tags :: "string list option"
  ri_iconUrl :: "string option"

record payment_required =
  pd_x402Version :: json
  pd_error :: "string option"
  pd_accepts :: "payment_requirements list option"
  pd_resource :: "resource_info option"
  pd_extensions :: json

text \<open>
  What \<open>JSON.parse\<close> can return where the code expects a \<open>PaymentRequired\<close>: \<open>null\<close>, a
  primitive, or an object. \<open>pd_accepts\<close> is \<open>None\<close> when the property is absent (or null).
\<close>

datatype decoded = DNull | DPrimitive | DObject payment_required

record x402_pay_options =
  po_maxAmount :: int
  po_allowedAssets :: "string list option"

record settle_result =
  sr_success :: "bool option"
  sr_transaction :: "string option"
  sr_payer :: "string option"
  sr_errorReason :: "string option"
  sr_network :: "string option"

text \<open>
  A \<open>Response\<close>: its status, its headers (names compared without case) and its body, \<open>Inl\<close>
  when the stream of the body fails while it is read.
\<close>

record response =
  rs_status :: nat
  rs_headers :: "(string \<times> string) list"
  rs_body :: "string + bytes"

definition rs_ok :: "response \<Rightarrow> bool" where
  "rs_ok res = (200 \<le> rs_status res \<and> rs_status res \<le> 299)"

definition headers_get :: "(string \<times> string) list \<Rightarrow> string \<Rightarrow> string option" where
  "headers_get hs name =
     map_of (map (\<lambda>(k, v). (toLowerCase k, v)) hs) (toLowerCase name)"

text \<open>\<open>JSON.parse\<close> of a text, with the cast to each declared type.\<close>

record json_env =
  je_required :: "jstext \<Rightarrow> decoded option"
  je_error :: "jstext \<Rightarrow> string option option"
  je_settle :: "jstext \<Rightarrow> settle_result option"

definition assertValidX402RpcUrl :: "(string \<Rightarrow> bool) \<Rightarrow> string option \<Rightarrow> unit outcome" where
  "assertValidX402RpcUrl parsesAsUrl rpcUrl =
     require (case rpcUrl of None \<Rightarrow> False | Some u \<Rightarrow> u \<noteq> [] \<and> parsesAsUrl u)
       (X402 (X402NotConfiguredError ''rpcUrl''))"

section \<open>Network maps\<close>

definition NETWORKS :: "string \<Rightarrow> (string \<times> network) option" where
  "NETWORKS caip2 =
     (if caip2 = ''stellar:testnet'' then Some (''Test SDF Network ; September 2015'', Testnet)
      else if caip2 = ''stellar:pubnet'' then
        Some (''Public Global Stellar Network ; September 2015'', Mainnet)
      else None)"

fun CAIP2_BY_NETWORK :: "network \<Rightarrow> string" where
  "CAIP2_BY_NETWORK Testnet = ''stellar:testnet''"
| "CAIP2_BY_NETWORK Mainnet = ''stellar:pubnet''"

section \<open>Amounts\<close>

fun parseAmount :: "json \<Rightarrow> int outcome" where
  "parseAmount (JStr s) =
     (if all_digits s then Inr (digits_val s) else Inl (X402 (InvalidRequirementsError (JStr s))))"
| "parseAmount v = Inl (X402 (InvalidRequirementsError v))"

section \<open>Selection\<close>

definition areFeesSponsored :: "payment_requirements \<Rightarrow> json" where
  "areFeesSponsored a = jprop (pr_extra a) ''areFeesSponsored''"

definition onNetwork :: "string \<Rightarrow> payment_requirements list \<Rightarrow> payment_requirements list" where
  "onNetwork ourCaip2 opts =
     filter (\<lambda>a. pr_scheme a = ''exact'' \<and> pr_network a = ourCaip2) opts"

definition allowedCandidates ::
    "string list option \<Rightarrow> payment_requirements list \<Rightarrow> payment_requirements list" where
  "allowedCandidates allowedAssets cs =
     (case allowedAssets of None \<Rightarrow> cs | Some as \<Rightarrow> filter (\<lambda>a. pr_asset a \<in> set as) cs)"

definition selectRequirements ::
    "payment_required \<Rightarrow> x402_pay_options \<Rightarrow> string \<Rightarrow> payment_requirements outcome" where
  "selectRequirements decoded opts ourCaip2 =
    (let options = (case pd_accepts decoded of None \<Rightarrow> [] | Some as \<Rightarrow> as);
         onNet = onNetwork ourCaip2 options;
         candidates = filter (\<lambda>a. areFeesSponsored a = JBool True) onNet;
         allowed = allowedCandidates (po_allowedAssets opts) candidates
     in if onNet = [] then
          Inl (X402 (NoUsablePaymentOptionError
            (NotOffered ourCaip2 (map (\<lambda>a. (pr_scheme a, pr_network a)) options))))
        else if candidates = [] then
          Inl (X402 (NoUsablePaymentOptionError
            (if \<exists>a \<in> set onNet. areFeesSponsored a = JBool False
             then FeesNotSponsored else FeesUndeclared)))
        else (case allowed of
          [] \<Rightarrow> Inl (X402 (DisallowedAssetError (pr_asset (hd candidates))
                  (case po_allowedAssets opts of None \<Rightarrow> [] | Some as \<Rightarrow> as)))
        | c # cs \<Rightarrow>
            ebind (reduce_min (\<lambda>a. parseAmount (pr_amount a)) c cs) (\<lambda>usable.
            ebind (parseAmount (pr_amount usable)) (\<lambda>required.
              if required > po_maxAmount opts then
                Inl (X402 (MaxAmountExceededError required (po_maxAmount opts) (pr_asset usable)))
              else Inr usable))))"

section \<open>Decoding the 402 and the settle result\<close>

definition paymentRequiredHeader :: "response \<Rightarrow> string option" where
  "paymentRequiredHeader res =
     (case headers_get (rs_headers res) ''PAYMENT-REQUIRED'' of
        None \<Rightarrow> headers_get (rs_headers res) ''payment-required''
      | Some h \<Rightarrow> Some h)"

definition decodePaymentRequired :: "json_env \<Rightarrow> response \<Rightarrow> decoded outcome" where
  "decodePaymentRequired je res =
     (case paymentRequiredHeader res of
        None \<Rightarrow> Inl (X402 (NoUsablePaymentOptionError NoHeader))
      | Some header \<Rightarrow>
          if header = [] then Inl (X402 (NoUsablePaymentOptionError NoHeader))
          else (case Option.bind (base64ToUtf8 header) (je_required je) of
             None \<Rightarrow> Inl (X402 (NoUsablePaymentOptionError MalformedHeader))
           | Some d \<Rightarrow> Inr d))"

definition extractRejectionReason :: "json_env \<Rightarrow> response \<Rightarrow> string option" where
  "extractRejectionReason je res =
     (case paymentRequiredHeader res of
        None \<Rightarrow> None
      | Some header \<Rightarrow>
          if header = [] then None
          else (case Option.bind (base64ToUtf8 header) (je_error je) of
             None \<Rightarrow> None
           | Some e \<Rightarrow> e))"

definition settleHeader :: "response \<Rightarrow> string option" where
  "settleHeader res =
     (case headers_get (rs_headers res) ''X-PAYMENT-RESPONSE'' of
        Some h \<Rightarrow> Some h
      | None \<Rightarrow>
         (case headers_get (rs_headers res) ''PAYMENT-RESPONSE'' of
            Some h \<Rightarrow> Some h
          | None \<Rightarrow> headers_get (rs_headers res) ''x-payment-response''))"

definition decodeSettleResponseHeader :: "json_env \<Rightarrow> response \<Rightarrow> settle_result option" where
  "decodeSettleResponseHeader je res =
     (case settleHeader res of
        None \<Rightarrow> None
      | Some header \<Rightarrow>
          if header = [] then None else Option.bind (base64ToUtf8 header) (je_settle je))"

text \<open>JavaScript's falsiness of an optional string.\<close>

definition falsy :: "string option \<Rightarrow> bool" where
  "falsy s = (s = None \<or> s = Some [])"

definition isRetryableSettleFailure :: "settle_result option \<Rightarrow> bool" where
  "isRetryableSettleFailure settle =
     (case settle of
        None \<Rightarrow> False
      | Some r \<Rightarrow> sr_success r = Some False \<and> falsy (sr_transaction r))"

datatype settlement_outcome =
    Settled string "string option"
  | NotSpent string
  | Indeterminate string "string option"

definition classifySettlement :: "json_env \<Rightarrow> response \<Rightarrow> settlement_outcome" where
  "classifySettlement je res =
    (case decodeSettleResponseHeader je res of
       None \<Rightarrow> Indeterminate ''the response carried no settlement information'' None
     | Some settle \<Rightarrow>
        if sr_success settle = Some False \<and> falsy (sr_transaction settle) then
          NotSpent (case sr_errorReason settle of
              None \<Rightarrow> ''the facilitator reported failure before submission''
            | Some r \<Rightarrow> r)
        else
         (let tx = (case sr_transaction settle of None \<Rightarrow> [] | Some t \<Rightarrow> t) in
          if \<not> is_hex64 tx then
            Indeterminate
              (if tx = [] then ''the settlement reported success but carried no transaction hash''
               else ''the settlement carried a malformed transaction hash'')
              (if tx = [] then None else Some tx)
          else if sr_success settle = Some False then
            Indeterminate (''the facilitator reported failure after submitting '' @ tx) (Some tx)
          else Settled tx (sr_payer settle)))"

definition decodeSettlementHeader :: "json_env \<Rightarrow> response \<Rightarrow> (string \<times> string option) option" where
  "decodeSettlementHeader je res =
     (case decodeSettleResponseHeader je res of
        None \<Rightarrow> None
      | Some d \<Rightarrow>
         (case sr_transaction d of
            None \<Rightarrow> None
          | Some t \<Rightarrow> if t = [] then None else Some (t, sr_payer d)))"

section \<open>Facts the other components use\<close>

lemma parseAmount_Inr:
  "parseAmount v = Inr n \<longleftrightarrow> (\<exists>s. v = JStr s \<and> all_digits s \<and> n = digits_val s)"
  by (cases v) auto

lemma parseAmount_nonneg: "parseAmount v = Inr n \<Longrightarrow> 0 \<le> n"
  by (auto simp: parseAmount_Inr all_digits_def digits_val_nonneg)

text \<open>An option the caller's guards allow: the specification of a payable option.\<close>

definition payable_option :: "string \<Rightarrow> x402_pay_options \<Rightarrow> payment_requirements \<Rightarrow> bool" where
  "payable_option ourCaip2 opts a =
     (pr_scheme a = ''exact'' \<and> pr_network a = ourCaip2 \<and> areFeesSponsored a = JBool True \<and>
      (\<forall>as. po_allowedAssets opts = Some as \<longrightarrow> pr_asset a \<in> set as))"

definition accepts_of :: "payment_required \<Rightarrow> payment_requirements list" where
  "accepts_of d = (case pd_accepts d of None \<Rightarrow> [] | Some as \<Rightarrow> as)"

lemma allowed_payable:
  "set (allowedCandidates (po_allowedAssets opts)
      (filter (\<lambda>a. areFeesSponsored a = JBool True) (onNetwork c os))) =
   {a \<in> set os. payable_option c opts a}"
  by (auto simp: allowedCandidates_def onNetwork_def payable_option_def split: option.splits)

lemma selectRequirements_Inr:
  assumes "selectRequirements d opts c = Inr r"
  obtains x xs p where
    "allowedCandidates (po_allowedAssets opts)
       (filter (\<lambda>a. areFeesSponsored a = JBool True) (onNetwork c (accepts_of d))) = x # xs"
    "reduce_min (\<lambda>a. parseAmount (pr_amount a)) x xs = Inr r"
    "parseAmount (pr_amount r) = Inr p" "p \<le> po_maxAmount opts"
  using assms
  by (auto simp: selectRequirements_def accepts_of_def Let_def result_splits
      split: if_splits list.splits)

lemma selectRequirements_least:
  assumes "selectRequirements d opts c = Inr r"
  shows "r \<in> set (accepts_of d) \<and> payable_option c opts r \<and>
    (\<exists>p. parseAmount (pr_amount r) = Inr p \<and> p \<le> po_maxAmount opts \<and>
      (\<forall>a \<in> set (accepts_of d). payable_option c opts a \<longrightarrow>
         (\<exists>q. parseAmount (pr_amount a) = Inr q \<and> p \<le> q)))"
proof -
  obtain x xs p where xs: "allowedCandidates (po_allowedAssets opts)
       (filter (\<lambda>a. areFeesSponsored a = JBool True) (onNetwork c (accepts_of d))) = x # xs"
    and red: "reduce_min (\<lambda>a. parseAmount (pr_amount a)) x xs = Inr r"
    and p: "parseAmount (pr_amount r) = Inr p" "p \<le> po_maxAmount opts"
    using selectRequirements_Inr [OF assms] by blast
  have set: "insert x (set xs) = {a \<in> set (accepts_of d). payable_option c opts a}"
    using allowed_payable [of opts c "accepts_of d"] by (simp add: xs)
  have r: "r \<in> set (accepts_of d)" "payable_option c opts r"
    using reduce_min_mem [OF red] set by auto
  have "\<exists>q. parseAmount (pr_amount a) = Inr q \<and> p \<le> q"
    if "a \<in> set (accepts_of d)" "payable_option c opts a" for a
    using reduce_min_least [OF red, of p a] p(1) that set by blast
  with r p show ?thesis by blast
qed

lemma selectRequirements_total:
  assumes "\<exists>a \<in> set (accepts_of d). payable_option c opts a \<and>
      (\<exists>q. parseAmount (pr_amount a) = Inr q \<and> q \<le> po_maxAmount opts)"
    and "\<forall>a \<in> set (accepts_of d). payable_option c opts a \<longrightarrow> (\<exists>q. parseAmount (pr_amount a) = Inr q)"
  shows "\<exists>r. selectRequirements d opts c = Inr r"
proof -
  let ?on = "onNetwork c (accepts_of d)"
  let ?cand = "filter (\<lambda>a. areFeesSponsored a = JBool True) ?on"
  let ?al = "allowedCandidates (po_allowedAssets opts) ?cand"
  obtain a q where a: "a \<in> set (accepts_of d)" "payable_option c opts a"
    and q: "parseAmount (pr_amount a) = Inr q" "q \<le> po_maxAmount opts"
    using assms(1) by blast
  have set: "set ?al = {a \<in> set (accepts_of d). payable_option c opts a}"
    by (rule allowed_payable)
  then have "a \<in> set ?al" using a by blast
  then obtain x xs where xs: "?al = x # xs" by (cases ?al) auto
  have ne: "?on \<noteq> []" "?cand \<noteq> []"
    using a by (auto simp: payable_option_def onNetwork_def filter_empty_conv)
  have "\<exists>q. parseAmount (pr_amount y) = Inr q" if "y \<in> insert x (set xs)" for y
    using that set xs assms(2) by auto
  then obtain r where r: "reduce_min (\<lambda>a. parseAmount (pr_amount a)) x xs = Inr r"
    using reduce_min_total [of x xs "\<lambda>a. parseAmount (pr_amount a)"] by blast
  then obtain p where p: "parseAmount (pr_amount r) = Inr p"
    using reduce_min_mem [OF r] set xs assms(2) by auto
  then have "p \<le> q"
    using reduce_min_least [OF r p, of a] \<open>a \<in> set ?al\<close> xs q(1) by auto
  then show ?thesis
    using r p q(2) ne xs by (simp add: selectRequirements_def accepts_of_def Let_def)
qed

lemma isRetryable_iff_NotSpent:
  "isRetryableSettleFailure (decodeSettleResponseHeader je res) \<longleftrightarrow>
   (\<exists>reason. classifySettlement je res = NotSpent reason)"
  by (auto simp: isRetryableSettleFailure_def classifySettlement_def Let_def split: option.splits)

lemma classifySettlement_Settled:
  "classifySettlement je res = Settled tx payer \<Longrightarrow>
   \<exists>r. decodeSettleResponseHeader je res = Some r \<and> sr_transaction r = Some tx \<and> is_hex64 tx \<and>
     sr_success r \<noteq> Some False \<and> payer = sr_payer r"
  by (auto simp: classifySettlement_def Let_def is_hex64_def split: option.splits if_splits)

section \<open>The properties of the component\<close>

text \<open>
  C27 (functional): the option \<open>selectRequirements\<close> returns is one the server offered, it is an
  exact option on our network with explicitly sponsored fees in an allowed asset, it costs at
  most \<open>maxAmount\<close>, and no offered option that passes the same guards is cheaper.
\<close>

theorem select_is_cheapest_payable:
  assumes "selectRequirements d opts c = Inr r"
  shows "r \<in> set (accepts_of d) \<and> payable_option c opts r \<and>
    (\<exists>p. parseAmount (pr_amount r) = Inr p \<and> p \<le> po_maxAmount opts \<and>
      (\<forall>a \<in> set (accepts_of d). payable_option c opts a \<longrightarrow>
         (\<exists>q. parseAmount (pr_amount a) = Inr q \<and> p \<le> q)))"
  by (rule selectRequirements_least [OF assms])

definition sample_option :: "string \<Rightarrow> string \<Rightarrow> payment_requirements" where
  "sample_option asset amount =
     \<lparr>pr_scheme = ''exact'', pr_network = ''stellar:testnet'', pr_asset = asset,
      pr_amount = JStr amount, pr_payTo = ''GPAYEE'', pr_maxTimeoutSeconds = Some 60,
      pr_extra = JObj [(''areFeesSponsored'', JBool True)]\<rparr>"

definition sample_challenge :: payment_required where
  "sample_challenge =
     \<lparr>pd_x402Version = JNum 2, pd_error = None,
      pd_accepts = Some [sample_option ''CUSDC'' ''500'', sample_option ''CXLM'' ''70'',
                         sample_option ''CUSDC'' ''120''],
      pd_resource = None, pd_extensions = JUndefined\<rparr>"

definition sample_opts :: x402_pay_options where
  "sample_opts = \<lparr>po_maxAmount = 200, po_allowedAssets = Some [''CUSDC'']\<rparr>"

lemmas sample_defs = sample_option_def sample_challenge_def sample_opts_def

lemma sample_selection:
  "selectRequirements sample_challenge sample_opts ''stellar:testnet'' =
     Inr (sample_option ''CUSDC'' ''120'')"
  by (simp add: sample_defs selectRequirements_def onNetwork_def allowedCandidates_def
      areFeesSponsored_def all_digits_def is_digit_def digits_val_def digit_val_def)

theorem select_is_cheapest_payable_witness:
  "payable_option ''stellar:testnet'' sample_opts (sample_option ''CUSDC'' ''120'') \<and>
   sample_option ''CUSDC'' ''120'' \<in> set (accepts_of sample_challenge)"
  using select_is_cheapest_payable [OF sample_selection] by blast

text \<open>
  \<open>selectRequirements\<close> succeeds exactly when some offered option passes the
  guards at a price within \<open>maxAmount\<close> and every option that passes them has a well-formed
  price. So a disallowed option never shadows an allowed one, and one malformed price among the
  payable options refuses the whole challenge.
\<close>

theorem select_succeeds_iff:
  "(\<exists>r. selectRequirements d opts c = Inr r) \<longleftrightarrow>
    (\<exists>a \<in> set (accepts_of d). payable_option c opts a \<and>
       (\<exists>q. parseAmount (pr_amount a) = Inr q \<and> q \<le> po_maxAmount opts)) \<and>
    (\<forall>a \<in> set (accepts_of d). payable_option c opts a \<longrightarrow>
       (\<exists>q. parseAmount (pr_amount a) = Inr q))"
    (is "?lhs \<longleftrightarrow> ?rhs")
proof
  assume ?lhs
  then show ?rhs using selectRequirements_least by blast
next
  assume ?rhs
  then show ?lhs by (intro selectRequirements_total) auto
qed

theorem select_succeeds_iff_witness:
  "\<exists>r. selectRequirements sample_challenge sample_opts ''stellar:testnet'' = Inr r"
proof (rule select_succeeds_iff [THEN iffD2], intro conjI ballI impI)
  show "\<exists>a \<in> set (accepts_of sample_challenge).
      payable_option ''stellar:testnet'' sample_opts a \<and>
      (\<exists>q. parseAmount (pr_amount a) = Inr q \<and> q \<le> po_maxAmount sample_opts)"
    by (rule bexI [of _ "sample_option ''CUSDC'' ''120''"])
      (simp_all add: sample_defs accepts_of_def payable_option_def areFeesSponsored_def
        all_digits_def is_digit_def digits_val_def digit_val_def)
  show "\<exists>q. parseAmount (pr_amount a) = Inr q" if "a \<in> set (accepts_of sample_challenge)" for a
    using that
    by (auto simp: sample_defs accepts_of_def all_digits_def is_digit_def)
qed

text \<open>
  \<open>parseAmount\<close> reads the decimal rendering of every amount exactly, of any
  size and with any number of leading zeros.
\<close>

theorem parseAmount_exact:
  "parseAmount (JStr (replicate k CHR ''0'' @ show_nat n)) = Inr (int n)"
proof -
  have "is_digit CHR ''0''"
    by (simp add: is_digit_def)
  then have "list_all is_digit (replicate k CHR ''0'' @ show_nat n)"
    using show_nat_digits [of n] by (auto simp: list_all_iff)
  then show ?thesis
    by (simp add: all_digits_def digits_val_zeros_append)
qed

text \<open>
  The two places that decide whether a failed payment may be signed again
  agree: \<open>isRetryableSettleFailure\<close> holds of the settle header exactly when
  \<open>classifySettlement\<close> says nothing was spent. A response is classified as settled only on a
  64-digit hexadecimal hash that the facilitator did not report as failed.
\<close>

theorem settlement_classes_agree:
  "(isRetryableSettleFailure (decodeSettleResponseHeader je res) \<longleftrightarrow>
      (\<exists>reason. classifySettlement je res = NotSpent reason)) \<and>
   (\<forall>tx payer. classifySettlement je res = Settled tx payer \<longrightarrow>
      is_hex64 tx \<and> decodeSettlementHeader je res = Some (tx, payer) \<and>
      \<not> isRetryableSettleFailure (decodeSettleResponseHeader je res))"
proof (intro conjI allI impI)
  show "isRetryableSettleFailure (decodeSettleResponseHeader je res) \<longleftrightarrow>
      (\<exists>reason. classifySettlement je res = NotSpent reason)"
    by (rule isRetryable_iff_NotSpent)
next
  fix tx payer
  assume s: "classifySettlement je res = Settled tx payer"
  then obtain r where "decodeSettleResponseHeader je res = Some r" "sr_transaction r = Some tx"
    "is_hex64 tx" "payer = sr_payer r"
    using classifySettlement_Settled by blast
  then show "is_hex64 tx" "decodeSettlementHeader je res = Some (tx, payer)"
    by (auto simp: decodeSettlementHeader_def is_hex64_def)
  show "\<not> isRetryableSettleFailure (decodeSettleResponseHeader je res)"
    using s by (simp add: isRetryable_iff_NotSpent)
qed

definition sample_json :: json_env where
  "sample_json =
     \<lparr>je_required = (\<lambda>t. Some (DObject sample_challenge)), je_error = (\<lambda>t. Some None),
      je_settle = (\<lambda>t. if t = [0x7B, 0x7D]
        then Some \<lparr>sr_success = Some True, sr_transaction = Some (replicate 64 CHR ''a''),
               sr_payer = None, sr_errorReason = None, sr_network = None\<rparr>
        else Some \<lparr>sr_success = Some False, sr_transaction = Some [], sr_payer = None,
               sr_errorReason = None, sr_network = None\<rparr>)\<rparr>"

definition settled_response :: response where
  "settled_response =
     \<lparr>rs_status = 200, rs_headers = [(''X-Payment-Response'', ''e30='')], rs_body = Inr []\<rparr>"

lemma base64_braces: "base64ToUtf8 ''e30='' = Some [0x7B, 0x7D]"
  by (simp add: base64ToUtf8_def atob_def strip_pad_def is_ascii_ws_def b64_index_def
      utf8_decode_def utf8_run.simps)

definition challenge_response :: response where
  "challenge_response =
     \<lparr>rs_status = 402, rs_headers = [(''PAYMENT-REQUIRED'', ''e30='')], rs_body = Inr []\<rparr>"

lemma challenge_response_decoded:
  "decodePaymentRequired sample_json challenge_response = Inr (DObject sample_challenge)"
  by (simp add: decodePaymentRequired_def paymentRequiredHeader_def challenge_response_def
      headers_get_def base64_braces sample_json_def)

lemma challenge_response_status [simp]: "rs_status challenge_response = 402"
  by (simp add: challenge_response_def)

lemma settled_response_status [simp]: "rs_status settled_response = 200"
  by (simp add: settled_response_def)

lemma settled_response_decoded:
  "decodeSettleResponseHeader sample_json settled_response =
     Some \<lparr>sr_success = Some True, sr_transaction = Some (replicate 64 CHR ''a''),
           sr_payer = None, sr_errorReason = None, sr_network = None\<rparr>"
  by (simp add: decodeSettleResponseHeader_def settleHeader_def settled_response_def
      sample_json_def headers_get_def toLowerCase_def to_lower_char_def char_of_def bit_0
      base64_braces)

lemma settled_response_class:
  "classifySettlement sample_json settled_response = Settled (replicate 64 CHR ''a'') None"
  by (simp add: classifySettlement_def settled_response_decoded is_hex64_def is_hex_def
      falsy_def list_all_iff)

theorem settlement_classes_agree_witness:
  "classifySettlement sample_json settled_response = Settled (replicate 64 CHR ''a'') None \<and>
   is_hex64 (replicate 64 CHR ''a'') \<and>
   decodeSettlementHeader sample_json settled_response = Some (replicate 64 CHR ''a'', None)"
  using settlement_classes_agree [of sample_json settled_response] settled_response_class by blast

end
