(* ===== verification/Ledger.thy ===== *)
theory Ledger
  imports Errors
begin

text \<open>
  The session spend ledger and the mutex of the MCP payer
  (\<open>packages/mcp-x402-payer/src/ledger.ts\<close>).

  The closure state of \<open>createSpendLedger\<close> (the configured ceilings, a \<open>Map\<close> in insertion
  order, and the \<open>spent\<close> map) is the record \<open>spend_ledger\<close>; each method is a function on it.
  \<open>createMutex\<close> is the chain of promises it builds: one entry per \<open>run\<close> call, each started
  only when the entry before it has settled. \<open>pay_machine\<close> puts the two together: calls of
  \<open>pay\<close> that arrive at any time and whose check and record are separate steps.

  The locale \<open>spend_limiter\<close> is the contract a client of such a limiter relies on: a charge
  that passed the check fits under the limit, and charges touch only their own key. Its client
  lemma is that a sequence of checked charges never exceeds the limit. The ledger interprets
  it here, the period tracker of the budget attributes in \<open>Budget\<close>.
\<close>

section \<open>The contract of a spend limiter\<close>

locale spend_limiter =
  fixes check :: "'s \<Rightarrow> 'k \<Rightarrow> int \<Rightarrow> bool"
    and charge :: "'s \<Rightarrow> 'k \<Rightarrow> int \<Rightarrow> 's"
    and spent :: "'s \<Rightarrow> 'k \<Rightarrow> int"
    and limit :: "'s \<Rightarrow> 'k \<Rightarrow> int option"
    and valid :: "'s \<Rightarrow> bool"
  assumes check_fits: "valid s \<Longrightarrow> check s k a \<Longrightarrow> limit s k = Some l \<Longrightarrow> spent s k + a \<le> l"
    and charge_spent: "valid s \<Longrightarrow> check s k a \<Longrightarrow>
          spent (charge s k a) k' = spent s k' + (if k' = k then a else 0)"
    and charge_limit: "valid s \<Longrightarrow> check s k a \<Longrightarrow> limit (charge s k a) k' = limit s k'"
    and charge_valid: "valid s \<Longrightarrow> check s k a \<Longrightarrow> valid (charge s k a)"
begin

text \<open>A run of charge attempts: an attempt that fails the check changes nothing.\<close>

fun run_charges :: "'s \<Rightarrow> ('k \<times> int) list \<Rightarrow> 's" where
  "run_charges s [] = s"
| "run_charges s ((k, a) # cs) = run_charges (if check s k a then charge s k a else s) cs"

fun accepted :: "'s \<Rightarrow> ('k \<times> int) list \<Rightarrow> 'k \<Rightarrow> int" where
  "accepted s [] k' = 0"
| "accepted s ((k, a) # cs) k' =
     (if check s k a then (if k' = k then a else 0) + accepted (charge s k a) cs k'
      else accepted s cs k')"

lemma run_valid: "valid s \<Longrightarrow> valid (run_charges s cs)"
  by (induction s cs rule: run_charges.induct) (auto simp: charge_valid)

lemma run_spent: "valid s \<Longrightarrow> spent (run_charges s cs) k = spent s k + accepted s cs k"
  by (induction s cs rule: run_charges.induct) (auto simp: charge_spent charge_valid)

lemma run_limit: "valid s \<Longrightarrow> limit (run_charges s cs) k = limit s k"
  by (induction s cs rule: run_charges.induct) (auto simp: charge_limit charge_valid)

lemma run_bounded:
  "valid s \<Longrightarrow> limit s k = Some l \<Longrightarrow> spent s k \<le> l \<Longrightarrow> spent (run_charges s cs) k \<le> l"
proof (induction s cs rule: run_charges.induct)
  case (1 s)
  then show ?case by simp
next
  case (2 s k' a cs)
  have "spent s k + (if k = k' then a else 0) \<le> l" if "check s k' a"
    using 2 that check_fits [of s k' a l] by auto
  then show ?case
    using 2 by (auto simp: charge_spent charge_limit charge_valid)
qed

end

section \<open>createSpendLedger\<close>

record spend_ledger =
  sl_ceilings :: "(string \<times> int) list"
  sl_spent :: "string \<Rightarrow> int option"

record spend_snapshot =
  ss_asset :: string
  ss_spent :: string
  ss_ceiling :: string
  ss_remaining :: string

definition createSpendLedger :: "(string \<times> int) list \<Rightarrow> spend_ledger" where
  "createSpendLedger ceilings = \<lparr>sl_ceilings = ceilings, sl_spent = (\<lambda>_. None)\<rparr>"

definition ceilingFor :: "spend_ledger \<Rightarrow> string \<Rightarrow> int outcome" where
  "ceilingFor l asset =
     (case map_of (sl_ceilings l) asset of
        None \<Rightarrow> Inl (Payer (SessionCeilingExceededError asset 0 0 0))
      | Some c \<Rightarrow> Inr c)"

definition spentFor :: "spend_ledger \<Rightarrow> string \<Rightarrow> int" where
  "spentFor l asset = (case sl_spent l asset of None \<Rightarrow> 0 | Some v \<Rightarrow> v)"

definition assertWithinCeiling :: "spend_ledger \<Rightarrow> string \<Rightarrow> int \<Rightarrow> unit outcome" where
  "assertWithinCeiling l asset amount =
     ebind (ceilingFor l asset) (\<lambda>ceiling.
       let already = spentFor l asset in
       if already + amount > ceiling
       then Inl (Payer (SessionCeilingExceededError asset amount already ceiling))
       else Inr ())"

definition recordSpend :: "spend_ledger \<Rightarrow> string \<Rightarrow> int \<Rightarrow> spend_ledger outcome" where
  "recordSpend l asset amount =
     ebind (ceilingFor l asset) (\<lambda>_.
       Inr (l\<lparr>sl_spent := (sl_spent l)(asset \<mapsto> spentFor l asset + amount)\<rparr>))"

definition remainingFor :: "spend_ledger \<Rightarrow> string \<Rightarrow> int outcome" where
  "remainingFor l asset =
     ebind (ceilingFor l asset) (\<lambda>ceiling.
       let remaining = ceiling - spentFor l asset in
       Inr (if remaining > 0 then remaining else 0))"

definition snapshot :: "spend_ledger \<Rightarrow> spend_snapshot list" where
  "snapshot l =
     map (\<lambda>(asset, ceiling).
       \<lparr>ss_asset = asset, ss_spent = show_int (spentFor l asset), ss_ceiling = show_int ceiling,
        ss_remaining = show_int (if ceiling - spentFor l asset > 0
                                 then ceiling - spentFor l asset else 0)\<rparr>)
       (sl_ceilings l)"

text \<open>The amount within reach of the ceiling: the invariant of the ledger.\<close>

definition within_ceilings :: "spend_ledger \<Rightarrow> bool" where
  "within_ceilings l = (\<forall>asset c. map_of (sl_ceilings l) asset = Some c \<longrightarrow> spentFor l asset \<le> c)"

definition ledger_check :: "spend_ledger \<Rightarrow> string \<Rightarrow> int \<Rightarrow> bool" where
  "ledger_check l asset amount = (assertWithinCeiling l asset amount = Inr ())"

definition ledger_charge :: "spend_ledger \<Rightarrow> string \<Rightarrow> int \<Rightarrow> spend_ledger" where
  "ledger_charge l asset amount =
     (case recordSpend l asset amount of Inl _ \<Rightarrow> l | Inr l' \<Rightarrow> l')"

lemma assertWithinCeiling_iff:
  "assertWithinCeiling l asset amount = Inr u \<longleftrightarrow>
   (\<exists>c. map_of (sl_ceilings l) asset = Some c \<and> spentFor l asset + amount \<le> c)"
  by (auto simp: assertWithinCeiling_def ceilingFor_def Let_def split: option.splits if_splits)

lemma recordSpend_iff:
  "recordSpend l asset amount = Inr l' \<longleftrightarrow>
   (\<exists>c. map_of (sl_ceilings l) asset = Some c) \<and>
   l' = l\<lparr>sl_spent := (sl_spent l)(asset \<mapsto> spentFor l asset + amount)\<rparr>"
  by (auto simp: recordSpend_def ceilingFor_def split: option.splits)

lemma recordSpend_after_assert:
  "assertWithinCeiling l asset amount = Inr u \<Longrightarrow> \<exists>l'. recordSpend l asset amount = Inr l'"
  by (auto simp: assertWithinCeiling_iff recordSpend_iff)

lemma spentFor_record:
  "recordSpend l asset amount = Inr l' \<Longrightarrow>
   spentFor l' a = spentFor l a + (if a = asset then amount else 0)"
  by (auto simp: recordSpend_iff spentFor_def)

lemma ceilings_record: "recordSpend l asset amount = Inr l' \<Longrightarrow> sl_ceilings l' = sl_ceilings l"
  by (auto simp: recordSpend_iff)

lemma record_within_ceilings:
  assumes "within_ceilings l" and "assertWithinCeiling l asset amount = Inr u"
    and "recordSpend l asset amount = Inr l'"
  shows "within_ceilings l'"
  using assms
  by (auto simp: within_ceilings_def assertWithinCeiling_iff spentFor_record ceilings_record)

lemma remainingFor_eq:
  "map_of (sl_ceilings l) asset = Some c \<Longrightarrow>
   remainingFor l asset = Inr (max 0 (c - spentFor l asset))"
  by (auto simp: remainingFor_def ceilingFor_def Let_def)

lemma remaining_iff_assert:
  "remainingFor l asset = Inr r \<Longrightarrow> within_ceilings l \<Longrightarrow>
   amount \<le> r \<longleftrightarrow> assertWithinCeiling l asset amount = Inr ()"
  by (fastforce simp: remainingFor_def ceilingFor_def assertWithinCeiling_iff within_ceilings_def
      Let_def split: option.splits if_splits)

interpretation ledger: spend_limiter ledger_check ledger_charge spentFor
    "\<lambda>l. map_of (sl_ceilings l)" "\<lambda>_. True"
proof unfold_locales
  fix l asset amount c a
  show "spentFor l asset + amount \<le> c"
    if "ledger_check l asset amount" "map_of (sl_ceilings l) asset = Some c"
    using that by (auto simp: ledger_check_def assertWithinCeiling_iff)
  show "spentFor (ledger_charge l asset amount) a = spentFor l a + (if a = asset then amount else 0)"
    if "ledger_check l asset amount"
    using that recordSpend_after_assert [of l asset amount "()"]
    by (auto simp: ledger_check_def ledger_charge_def spentFor_record)
  show "map_of (sl_ceilings (ledger_charge l asset amount)) a = map_of (sl_ceilings l) a"
    if "ledger_check l asset amount"
    using that recordSpend_after_assert [of l asset amount "()"]
    by (auto simp: ledger_check_def ledger_charge_def ceilings_record)
qed auto

section \<open>createMutex\<close>

text \<open>
  The promise of each \<open>run\<close> call, oldest first: \<open>tail.then(fn, fn)\<close> starts \<open>fn\<close> when the
  promise before it has settled, whatever its outcome.
\<close>

datatype call_status = Waiting | Running | Done

definition run_call :: "call_status list \<Rightarrow> call_status list" where
  "run_call m = m @ [Waiting]"

definition can_start :: "call_status list \<Rightarrow> nat \<Rightarrow> bool" where
  "can_start m i =
     (i < length m \<and> m ! i = Waiting \<and> (i = 0 \<or> m ! (i - 1) = Done))"

definition can_settle :: "call_status list \<Rightarrow> nat \<Rightarrow> bool" where
  "can_settle m i = (i < length m \<and> m ! i = Running)"

inductive mutex_step :: "call_status list \<Rightarrow> call_status list \<Rightarrow> bool" where
  mx_call: "mutex_step m (run_call m)"
| mx_start: "can_start m i \<Longrightarrow> mutex_step m (m[i := Running])"
| mx_settle: "can_settle m i \<Longrightarrow> mutex_step m (m[i := Done])"

inductive_cases mutex_stepE: "mutex_step m m'"

text \<open>Everything after a call that has not settled is still waiting.\<close>

definition mutex_inv :: "call_status list \<Rightarrow> bool" where
  "mutex_inv m = (\<forall>j < length m. \<forall>i < j. m ! i \<noteq> Done \<longrightarrow> m ! j = Waiting)"

lemma mutex_inv_call: "mutex_inv m \<Longrightarrow> mutex_inv (run_call m)"
  by (auto simp: mutex_inv_def run_call_def nth_append)

lemma before_start_settled:
  assumes "mutex_inv m" "can_start m i" "j < i"
  shows "m ! j = Done"
proof (cases "j = i - 1")
  case True
  then show ?thesis using assms by (auto simp: can_start_def)
next
  case False
  then have "j < i - 1" "i - 1 < length m" "m ! (i - 1) = Done"
    using assms by (auto simp: can_start_def)
  then show ?thesis
    using assms(1) unfolding mutex_inv_def by (metis call_status.distinct(3))
qed

lemma mutex_inv_start:
  assumes "mutex_inv m" "can_start m i"
  shows "mutex_inv (m[i := Running])"
  unfolding mutex_inv_def
proof (intro allI impI)
  fix j k
  assume j: "j < length (m[i := Running])" "k < j" and k: "m[i := Running] ! k \<noteq> Done"
  have "j \<noteq> i"
    using before_start_settled [OF assms, of k] j k by auto
  moreover have "m ! k \<noteq> Done"
    using k j assms(2) by (cases "k = i") (auto simp: can_start_def)
  ultimately show "m[i := Running] ! j = Waiting"
    using assms(1) j by (simp add: mutex_inv_def)
qed

lemma mutex_inv_settle:
  assumes "mutex_inv m" "can_settle m i"
  shows "mutex_inv (m[i := Done])"
  unfolding mutex_inv_def
proof (intro allI impI)
  fix j k
  assume j: "j < length (m[i := Done])" "k < j" and k: "m[i := Done] ! k \<noteq> Done"
  have "m ! k \<noteq> Done" "k \<noteq> i"
    using k j by (cases "k = i"; auto)+
  then have "m ! j = Waiting"
    using assms(1) j by (simp add: mutex_inv_def)
  then show "m[i := Done] ! j = Waiting"
    using assms(2) by (cases "j = i") (auto simp: can_settle_def)
qed

lemma mutex_inv_unique:
  "mutex_inv m \<Longrightarrow> can_settle m i \<Longrightarrow> can_settle m j \<Longrightarrow> i = j"
  unfolding mutex_inv_def can_settle_def
  by (metis call_status.distinct(1) call_status.distinct(5) nat_neq_iff)

lemma mutex_inv_step: "mutex_step m m' \<Longrightarrow> mutex_inv m \<Longrightarrow> mutex_inv m'"
  by (auto simp: mutex_inv_call mutex_inv_start mutex_inv_settle elim!: mutex_stepE)

interpretation mutex: preserved "\<lambda>m. m = []" mutex_step mutex_inv
  by unfold_locales (auto simp: mutex_inv_step, simp add: mutex_inv_def)

section \<open>Concurrent calls of pay\<close>

text \<open>
  The payer's \<open>pay\<close> runs \<open>payExclusively\<close> under the mutex. Its ledger accesses are separate
  steps, with awaits in between: a call that is running may clear an amount
  (\<open>assertWithinCeiling\<close> returned), later record the amount it cleared last and finish, or
  finish without recording. New calls arrive at any time.
\<close>

record pay_machine =
  pm_calls :: "call_status list"
  pm_ledger :: spend_ledger
  pm_cleared :: "nat \<Rightarrow> (string \<times> int) option"

inductive pay_step :: "pay_machine \<Rightarrow> pay_machine \<Rightarrow> bool" where
  pay_call: "pay_step s (s\<lparr>pm_calls := run_call (pm_calls s)\<rparr>)"
| pay_start: "can_start (pm_calls s) i \<Longrightarrow>
    pay_step s (s\<lparr>pm_calls := (pm_calls s)[i := Running]\<rparr>)"
| pay_clear: "can_settle (pm_calls s) i \<Longrightarrow>
    assertWithinCeiling (pm_ledger s) asset amount = Inr () \<Longrightarrow>
    pay_step s (s\<lparr>pm_cleared := (pm_cleared s)(i \<mapsto> (asset, amount))\<rparr>)"
| pay_record: "can_settle (pm_calls s) i \<Longrightarrow> pm_cleared s i = Some (asset, amount) \<Longrightarrow>
    recordSpend (pm_ledger s) asset amount = Inr l' \<Longrightarrow>
    pay_step s (s\<lparr>pm_calls := (pm_calls s)[i := Done], pm_ledger := l',
                  pm_cleared := (pm_cleared s)(i := None)\<rparr>)"
| pay_leave: "can_settle (pm_calls s) i \<Longrightarrow>
    pay_step s (s\<lparr>pm_calls := (pm_calls s)[i := Done],
                  pm_cleared := (pm_cleared s)(i := None)\<rparr>)"

inductive_cases pay_stepE: "pay_step s t"

definition pay_init :: "(string \<times> int) list \<Rightarrow> pay_machine \<Rightarrow> bool" where
  "pay_init ceilings s =
     (s = \<lparr>pm_calls = [], pm_ledger = createSpendLedger ceilings, pm_cleared = (\<lambda>_. None)\<rparr> \<and>
      (\<forall>(asset, c) \<in> set ceilings. 0 \<le> c))"

text \<open>
  Only the running call has an amount cleared, the amount fits on top of what is spent, and
  nothing spent is above its ceiling.
\<close>

definition pay_inv :: "(string \<times> int) list \<Rightarrow> pay_machine \<Rightarrow> bool" where
  "pay_inv ceilings s =
     (mutex_inv (pm_calls s) \<and> sl_ceilings (pm_ledger s) = ceilings \<and>
      within_ceilings (pm_ledger s) \<and>
      (\<forall>i asset amount. pm_cleared s i = Some (asset, amount) \<longrightarrow>
         can_settle (pm_calls s) i \<and> assertWithinCeiling (pm_ledger s) asset amount = Inr ()))"

lemma pay_inv_init: "pay_init c s \<Longrightarrow> pay_inv c s"
  by (auto simp: pay_init_def pay_inv_def mutex_inv_def createSpendLedger_def within_ceilings_def
      spentFor_def dest!: map_of_SomeD)

lemma can_settle_call: "can_settle m i \<Longrightarrow> can_settle (run_call m) i"
  by (simp add: can_settle_def run_call_def nth_append)

lemma can_settle_start: "can_settle m i \<Longrightarrow> can_start m j \<Longrightarrow> can_settle (m[j := Running]) i"
  by (auto simp: can_settle_def can_start_def nth_list_update)

lemma pay_inv_call: "pay_inv c s \<Longrightarrow> pay_inv c (s\<lparr>pm_calls := run_call (pm_calls s)\<rparr>)"
  by (auto simp: pay_inv_def mutex_inv_call can_settle_call)

lemma pay_inv_start:
  "pay_inv c s \<Longrightarrow> can_start (pm_calls s) i \<Longrightarrow>
   pay_inv c (s\<lparr>pm_calls := (pm_calls s)[i := Running]\<rparr>)"
  by (auto simp: pay_inv_def mutex_inv_start can_settle_start)

lemma pay_inv_clear:
  "pay_inv c s \<Longrightarrow> can_settle (pm_calls s) i \<Longrightarrow>
   assertWithinCeiling (pm_ledger s) asset amount = Inr () \<Longrightarrow>
   pay_inv c (s\<lparr>pm_cleared := (pm_cleared s)(i \<mapsto> (asset, amount))\<rparr>)"
  by (auto simp: pay_inv_def)

text \<open>While one call runs no other call has an amount cleared: this is what the mutex buys.\<close>

lemma cleared_unique:
  "pay_inv c s \<Longrightarrow> can_settle (pm_calls s) i \<Longrightarrow> pm_cleared s j = Some x \<Longrightarrow> j = i"
  by (cases x) (auto simp: pay_inv_def intro: mutex_inv_unique)

lemma pay_inv_leave:
  assumes "pay_inv c s" "can_settle (pm_calls s) i"
  shows "pay_inv c (s\<lparr>pm_calls := (pm_calls s)[i := Done], pm_cleared := (pm_cleared s)(i := None)\<rparr>)"
  using assms cleared_unique [OF assms] by (auto simp: pay_inv_def mutex_inv_settle)

lemma pay_inv_record:
  assumes "pay_inv c s" "can_settle (pm_calls s) i" "pm_cleared s i = Some (asset, amount)"
    and r: "recordSpend (pm_ledger s) asset amount = Inr l'"
  shows "pay_inv c (s\<lparr>pm_calls := (pm_calls s)[i := Done], pm_ledger := l',
                      pm_cleared := (pm_cleared s)(i := None)\<rparr>)"
proof -
  have "within_ceilings l'" "sl_ceilings l' = c"
    using assms record_within_ceilings [OF _ _ r, of "()"] ceilings_record [OF r]
    by (auto simp: pay_inv_def)
  then show ?thesis
    using assms(1,2) cleared_unique [OF assms(1,2)] by (auto simp: pay_inv_def mutex_inv_settle)
qed

lemma pay_inv_step: "pay_step s t \<Longrightarrow> pay_inv c s \<Longrightarrow> pay_inv c t"
  by (elim pay_stepE)
    (auto simp: pay_inv_call pay_inv_start pay_inv_clear pay_inv_leave pay_inv_record)

interpretation payments: preserved "pay_init ceilings" pay_step "pay_inv ceilings"
  for ceilings
  by unfold_locales (auto simp: pay_inv_step pay_inv_init)

section \<open>The properties of the component\<close>

text \<open>
  C7 (invariant): however calls of \<open>pay\<close> arrive, start, clear an amount, record it or give up,
  in any interleaving the mutex admits, what the ledger has recorded for an asset never exceeds
  the ceiling configured for it, the ceilings never change, and at most one call is running.
\<close>

theorem concurrent_pays_within_ceiling:
  assumes "reach (pay_init ceilings) pay_step s"
  shows "sl_ceilings (pm_ledger s) = ceilings \<and>
    (\<forall>asset c. map_of ceilings asset = Some c \<longrightarrow> spentFor (pm_ledger s) asset \<le> c) \<and>
    (\<forall>i j. can_settle (pm_calls s) i \<longrightarrow> can_settle (pm_calls s) j \<longrightarrow> i = j)"
  using payments.inv_reach [OF assms] mutex_inv_unique
  by (auto simp: pay_inv_def within_ceilings_def)

definition sample_ceilings :: "(string \<times> int) list" where
  "sample_ceilings = [(''CUSDC'', 1000), (''CXLM'', 50)]"

definition sample_machine :: pay_machine where
  "sample_machine =
     \<lparr>pm_calls = [Running], pm_ledger = createSpendLedger sample_ceilings,
      pm_cleared = (\<lambda>_. None)(0 \<mapsto> (''CUSDC'', 700))\<rparr>"

lemma sample_machine_reach: "reach (pay_init sample_ceilings) pay_step sample_machine"
proof -
  let ?s0 = "\<lparr>pm_calls = [], pm_ledger = createSpendLedger sample_ceilings, pm_cleared = (\<lambda>_. None)\<rparr>"
  have r0: "reach (pay_init sample_ceilings) pay_step ?s0"
    by (rule reach_init) (simp add: pay_init_def sample_ceilings_def)
  have r1: "reach (pay_init sample_ceilings) pay_step (?s0\<lparr>pm_calls := [Waiting]\<rparr>)"
    by (rule reach_step [OF r0]) (use pay_call [of ?s0] in \<open>simp add: run_call_def\<close>)
  have r2: "reach (pay_init sample_ceilings) pay_step (?s0\<lparr>pm_calls := [Running]\<rparr>)"
    by (rule reach_step [OF r1])
      (use pay_start [of "?s0\<lparr>pm_calls := [Waiting]\<rparr>" 0] in \<open>simp add: can_start_def\<close>)
  show ?thesis
    by (rule reach_step [OF r2])
      (use pay_clear [of "?s0\<lparr>pm_calls := [Running]\<rparr>" 0 "''CUSDC''" 700] in
        \<open>simp add: can_settle_def assertWithinCeiling_iff sample_machine_def sample_ceilings_def
           createSpendLedger_def spentFor_def\<close>)
qed

theorem concurrent_pays_within_ceiling_witness:
  "spentFor (pm_ledger sample_machine) ''CUSDC'' \<le> 1000 \<and>
   pm_cleared sample_machine 0 = Some (''CUSDC'', 700)"
  using concurrent_pays_within_ceiling [OF sample_machine_reach]
  by (simp add: sample_ceilings_def sample_machine_def)

text \<open>
  The ledger keeps exact accounts. After any sequence of payment attempts, each
  recorded when \<open>assertWithinCeiling\<close> admits it, an asset's spent total is the sum of its
  admitted amounts, it is at most the ceiling, and \<open>remainingFor\<close> is the rest of the ceiling.
\<close>

theorem ledger_accounts_exactly:
  assumes "map_of ceilings asset = Some c" and "0 \<le> c"
  shows "let l = ledger.run_charges (createSpendLedger ceilings) attempts in
    spentFor l asset = ledger.accepted (createSpendLedger ceilings) attempts asset \<and>
    spentFor l asset \<le> c \<and> remainingFor l asset = Inr (c - spentFor l asset)"
proof -
  let ?init = "createSpendLedger ceilings"
  let ?l = "ledger.run_charges ?init attempts"
  have l0: "spentFor ?init asset = 0" "map_of (sl_ceilings ?init) asset = Some c"
    using assms(1) by (auto simp: createSpendLedger_def spentFor_def)
  have "spentFor ?l asset \<le> c" "map_of (sl_ceilings ?l) asset = Some c"
    using ledger.run_bounded [of ?init asset c attempts] ledger.run_limit [of ?init attempts asset]
      l0 assms(2) by auto
  then show ?thesis
    using ledger.run_spent [of ?init attempts asset] l0 by (simp add: Let_def remainingFor_eq)
qed

theorem ledger_accounts_exactly_witness:
  "spentFor (ledger.run_charges (createSpendLedger sample_ceilings)
      [(''CUSDC'', 700), (''CUSDC'', 400), (''CUSDC'', 300)]) ''CUSDC'' \<le> 1000"
  using ledger_accounts_exactly [of sample_ceilings "''CUSDC''" 1000
      "[(''CUSDC'', 700), (''CUSDC'', 400), (''CUSDC'', 300)]"]
  by (simp add: sample_ceilings_def Let_def)

end
