(* ===== verification/PayerConfig.thy ===== *)
theory PayerConfig
  imports Guards Ledger
begin

text \<open>
  Startup configuration of the MCP payer (\<open>packages/mcp-x402-payer/src/config.ts\<close>).

  The process environment is a function from variable names to optional values. Reading the
  secret file, \<open>StrKey.isValidContract\<close> and \<open>StrKey.isValidEd25519SecretSeed\<close> belong to Node and
  to the Stellar SDK: they are the fields of \<open>config_env\<close>. A \<open>Map\<close> is the list of its entries
  in insertion order. The response cap is kept as an exact integer.

  The properties are that a configuration that loads is well-formed (so the spend limiter fails
  closed) and that the asset list reads back what was written.
\<close>

record config_env =
  ce_var :: "string \<Rightarrow> string option"
  ce_readFile :: "string \<Rightarrow> string + string"
  ce_isValidContract :: "string \<Rightarrow> bool"
  ce_isValidSecret :: "string \<Rightarrow> bool"

record payer_config =
  pc_network :: network
  pc_caip2 :: string
  pc_rpcUrl :: "string option"
  pc_ceilings :: "(string \<times> int) list"
  pc_allowedAssets :: "string list"
  pc_maxResponseBytes :: int
  pc_walletAddress :: "string option"
  pc_policies :: "string list"
  pc_secret :: string

definition DEFAULT_MAX_RESPONSE_BYTES :: int where
  "DEFAULT_MAX_RESPONSE_BYTES = 262144"

definition config_error :: "string \<Rightarrow> 'a outcome" where
  "config_error m = Inl (Payer (ConfigError m))"

definition required_var :: "config_env \<Rightarrow> string \<Rightarrow> string outcome" where
  "required_var env name =
     (case ce_var env name of
        None \<Rightarrow> config_error name
      | Some v \<Rightarrow> if trim v = [] then config_error name else Inr (trim v))"

text \<open>\<open>env.X?.trim()\<close> read as a condition: absent and empty are both falsy.\<close>

definition trimmed_var :: "config_env \<Rightarrow> string \<Rightarrow> string option" where
  "trimmed_var env name =
     (case ce_var env name of
        None \<Rightarrow> None
      | Some v \<Rightarrow> if trim v = [] then None else Some (trim v))"

definition readSecret :: "config_env \<Rightarrow> string outcome" where
  "readSecret env =
    (let file = trimmed_var env ''VELLAR_X402_SECRET_FILE'';
         inline = trimmed_var env ''VELLAR_X402_SECRET'' in
     if file \<noteq> None \<and> inline \<noteq> None then config_error ''exactly one secret source''
     else ebind
       (case file of
          Some f \<Rightarrow> (case ce_readFile env f of
              Inl m \<Rightarrow> config_error (''VELLAR_X402_SECRET_FILE could not be read ('' @ f @ ''): '' @ m)
            | Inr c \<Rightarrow> Inr (trim c))
        | None \<Rightarrow> (case inline of
              Some s \<Rightarrow> Inr s
            | None \<Rightarrow> config_error ''no payer secret''))
       (\<lambda>secret. if ce_isValidSecret env secret then Inr secret
                 else config_error ''not a valid secret seed''))"

text \<open>One turn of the loop of \<open>parseAssets\<close>, on the map built so far.\<close>

definition parseAssetEntry ::
    "config_env \<Rightarrow> (string \<times> int) list \<Rightarrow> string \<Rightarrow> (string \<times> int) list outcome" where
  "parseAssetEntry env ceilings entry =
    (let trimmed = trim entry in
     if trimmed = [] then Inr ceilings
     else (case split_on CHR '':'' trimmed of
       [p0, p1] \<Rightarrow>
         (let asset = trim p0; ceilingRaw = trim p1 in
          if \<not> ce_isValidContract env asset then config_error asset
          else if \<not> all_digits ceilingRaw then config_error ceilingRaw
          else (let ceiling = digits_val ceilingRaw in
            if ceiling = 0 then config_error asset
            else if asset \<in> fst ` set ceilings then config_error asset
            else Inr (ceilings @ [(asset, ceiling)])))
     | _ \<Rightarrow> config_error trimmed))"

fun parseAssetEntries ::
    "config_env \<Rightarrow> (string \<times> int) list \<Rightarrow> string list \<Rightarrow> (string \<times> int) list outcome" where
  "parseAssetEntries env ceilings [] = Inr ceilings"
| "parseAssetEntries env ceilings (e # es) =
     ebind (parseAssetEntry env ceilings e) (\<lambda>c. parseAssetEntries env c es)"

definition parseAssets :: "config_env \<Rightarrow> string \<Rightarrow> (string \<times> int) list outcome" where
  "parseAssets env raw =
     ebind (parseAssetEntries env [] (split_on CHR '','' raw)) (\<lambda>ceilings.
       if ceilings = [] then config_error ''VELLAR_X402_ASSETS is empty'' else Inr ceilings)"

fun parsePolicyEntries :: "config_env \<Rightarrow> string list \<Rightarrow> string list \<Rightarrow> string list outcome" where
  "parsePolicyEntries env out [] = Inr out"
| "parsePolicyEntries env out (e # es) =
    (let policy = trim e in
     if policy = [] then parsePolicyEntries env out es
     else if \<not> ce_isValidContract env policy then config_error policy
     else if policy \<in> set out then config_error policy
     else parsePolicyEntries env (out @ [policy]) es)"

definition parsePolicies :: "config_env \<Rightarrow> string option \<Rightarrow> string list outcome" where
  "parsePolicies env raw =
     (case raw of
        None \<Rightarrow> Inr []
      | Some r \<Rightarrow> if trim r = [] then Inr [] else parsePolicyEntries env [] (split_on CHR '','' r))"

definition parseNetwork :: "string option \<Rightarrow> network outcome" where
  "parseNetwork raw =
    (let v = trim (case raw of None \<Rightarrow> ''testnet'' | Some r \<Rightarrow> r) in
     if v = ''testnet'' then Inr Testnet
     else if v = ''mainnet'' then Inr Mainnet
     else config_error v)"

definition parseMaxResponseBytes :: "string option \<Rightarrow> int outcome" where
  "parseMaxResponseBytes raw =
     (case raw of
        None \<Rightarrow> Inr DEFAULT_MAX_RESPONSE_BYTES
      | Some r \<Rightarrow>
          if trim r = [] then Inr DEFAULT_MAX_RESPONSE_BYTES
          else if \<not> all_digits (trim r) then config_error (trim r)
          else if digits_val (trim r) \<le> 0 then config_error ''must be greater than 0''
          else Inr (digits_val (trim r)))"

definition loadConfig :: "config_env \<Rightarrow> payer_config outcome" where
  "loadConfig env =
     ebind (readSecret env) (\<lambda>secret.
     ebind (parseNetwork (ce_var env ''VELLAR_X402_NETWORK'')) (\<lambda>network.
     ebind (ebind (required_var env ''VELLAR_X402_ASSETS'') (parseAssets env)) (\<lambda>ceilings.
     let rpcUrl = trimmed_var env ''VELLAR_X402_RPC_URL'' in
     ebind (parseMaxResponseBytes (ce_var env ''VELLAR_X402_MAX_RESPONSE_BYTES'')) (\<lambda>maxResponseBytes.
     let walletAddress = trimmed_var env ''VELLAR_X402_WALLET'' in
     ebind (case walletAddress of
              None \<Rightarrow> Inr ()
            | Some w \<Rightarrow> if ce_isValidContract env w then Inr () else config_error w) (\<lambda>_.
     ebind (parsePolicies env (ce_var env ''VELLAR_X402_POLICIES'')) (\<lambda>policies.
     if policies \<noteq> [] \<and> walletAddress = None then config_error ''VELLAR_X402_POLICIES''
     else Inr \<lparr>pc_network = network, pc_caip2 = CAIP2_BY_NETWORK network, pc_rpcUrl = rpcUrl,
               pc_ceilings = ceilings, pc_allowedAssets = map fst ceilings,
               pc_maxResponseBytes = maxResponseBytes, pc_walletAddress = walletAddress,
               pc_policies = policies, pc_secret = secret\<rparr>))))))"

section \<open>Well-formedness\<close>

text \<open>A table of ceilings: no asset twice, every ceiling positive, every asset a contract id.\<close>

definition wf_ceilings :: "config_env \<Rightarrow> (string \<times> int) list \<Rightarrow> bool" where
  "wf_ceilings env cs =
     (distinct (map fst cs) \<and> list_all (\<lambda>(a, c). 0 < c \<and> ce_isValidContract env a) cs)"

definition wf_config :: "config_env \<Rightarrow> payer_config \<Rightarrow> bool" where
  "wf_config env c =
     (wf_ceilings env (pc_ceilings c) \<and> pc_ceilings c \<noteq> [] \<and>
      pc_allowedAssets c = map fst (pc_ceilings c) \<and>
      pc_caip2 c = CAIP2_BY_NETWORK (pc_network c) \<and> 0 < pc_maxResponseBytes c \<and>
      ce_isValidSecret env (pc_secret c) \<and>
      (\<forall>w. pc_walletAddress c = Some w \<longrightarrow> ce_isValidContract env w) \<and>
      distinct (pc_policies c) \<and> list_all (ce_isValidContract env) (pc_policies c) \<and>
      (pc_policies c \<noteq> [] \<longrightarrow> pc_walletAddress c \<noteq> None))"

lemma parseAssetEntry_wf:
  assumes "parseAssetEntry env cs e = Inr cs'" "wf_ceilings env cs"
  shows "wf_ceilings env cs'"
proof -
  have "0 \<le> digits_val s" if "all_digits s" for s
    using that by (simp add: all_digits_def digits_val_nonneg)
  then show ?thesis
    using assms
    by (fastforce simp: parseAssetEntry_def wf_ceilings_def Let_def config_error_def
        split: if_splits list.splits)
qed

lemma parseAssetEntries_wf:
  "parseAssetEntries env cs es = Inr cs' \<Longrightarrow> wf_ceilings env cs \<Longrightarrow> wf_ceilings env cs'"
  by (induction es arbitrary: cs) (auto simp: result_splits dest: parseAssetEntry_wf)

lemma parseAssets_wf: "parseAssets env raw = Inr cs \<Longrightarrow> wf_ceilings env cs \<and> cs \<noteq> []"
  by (auto simp: parseAssets_def result_splits config_error_def wf_ceilings_def
      dest: parseAssetEntries_wf [of _ "[]"] split: if_splits)

lemma parsePolicyEntries_wf:
  "parsePolicyEntries env out es = Inr ps \<Longrightarrow> distinct out \<Longrightarrow>
   list_all (ce_isValidContract env) out \<Longrightarrow>
   distinct ps \<and> list_all (ce_isValidContract env) ps"
  by (induction env out es rule: parsePolicyEntries.induct)
    (auto simp: Let_def config_error_def split: if_splits)

lemma parsePolicies_wf:
  "parsePolicies env raw = Inr ps \<Longrightarrow> distinct ps \<and> list_all (ce_isValidContract env) ps"
  by (auto simp: parsePolicies_def dest: parsePolicyEntries_wf split: option.splits if_splits)

lemma parseMaxResponseBytes_pos: "parseMaxResponseBytes raw = Inr n \<Longrightarrow> 0 < n"
  by (auto simp: parseMaxResponseBytes_def DEFAULT_MAX_RESPONSE_BYTES_def config_error_def
      split: option.splits if_splits)

lemma readSecret_valid: "readSecret env = Inr s \<Longrightarrow> ce_isValidSecret env s"
  by (auto simp: readSecret_def Let_def result_splits config_error_def split: if_splits)

section \<open>Reading back a written asset table\<close>

text \<open>The documented form of \<open>VELLAR_X402_ASSETS\<close>.\<close>

definition render_entry :: "string \<times> nat \<Rightarrow> string" where
  "render_entry e = fst e @ CHR '':'' # show_nat (snd e)"

definition render_assets :: "(string \<times> nat) list \<Rightarrow> string" where
  "render_assets cs = join '','' (map render_entry cs)"

definition plain_char :: "char \<Rightarrow> bool" where
  "plain_char c = (\<not> is_ws c \<and> c \<noteq> CHR '','' \<and> c \<noteq> CHR '':'')"

lemma digit_plain: "is_digit c \<Longrightarrow> plain_char c"
  using digit_not_ws [of c] by (auto simp: plain_char_def is_digit_def)

lemma base32_plain: "is_base32 c \<Longrightarrow> plain_char c"
  by (auto simp: plain_char_def is_base32_def is_ws_def Let_def)

lemma strkey_plain: "is_strkey ''C'' a \<Longrightarrow> list_all plain_char a \<and> a \<noteq> []"
proof -
  have "plain_char CHR ''C''"
    by (simp add: plain_char_def is_ws_def)
  then show "is_strkey ''C'' a \<Longrightarrow> list_all plain_char a \<and> a \<noteq> []"
    by (auto simp: is_strkey_def list_all_iff base32_plain split: list.splits)
qed

lemma split_on_join:
  "ss \<noteq> [] \<Longrightarrow> (\<forall>s \<in> set ss. d \<notin> set s) \<Longrightarrow> split_on d (join [d] ss) = ss"
  by (induction "[d]" ss rule: join.induct) (auto simp: split_on_no_sep split_on_append)

lemma plain_trim: "list_all plain_char s \<Longrightarrow> trim s = s"
  by (rule trim_id) (auto simp: list_all_iff plain_char_def)

lemma show_nat_plain: "list_all plain_char (show_nat n)"
  using show_nat_digits [of n] by (auto simp: list_all_iff digit_plain)

lemma render_entry_trim:
  "list_all plain_char a \<Longrightarrow> trim (render_entry (a, n)) = render_entry (a, n)"
  using show_nat_plain [of n]
  by (intro trim_id) (auto simp: render_entry_def list_all_iff plain_char_def is_ws_def)

lemma render_entry_parse:
  assumes "list_all plain_char a" "ce_isValidContract env a" "0 < n" "a \<notin> fst ` set cs"
  shows "parseAssetEntry env cs (render_entry (a, n)) = Inr (cs @ [(a, int n)])"
proof -
  have "CHR '':'' \<notin> set a" "CHR '':'' \<notin> set (show_nat n)"
    using assms(1) show_nat_plain [of n] by (auto simp: list_all_iff plain_char_def)
  then have split: "split_on CHR '':'' (render_entry (a, n)) = [a, show_nat n]"
    by (simp add: render_entry_def split_on_append split_on_no_sep)
  have "render_entry (a, n) \<noteq> []"
    by (simp add: render_entry_def)
  then show ?thesis
    using assms split
    by (simp add: parseAssetEntry_def render_entry_trim plain_trim show_nat_plain
        all_digits_show_nat)
qed

lemma render_entries_parse:
  assumes "distinct (map fst cs @ map fst xs)"
    and "\<forall>(a, n) \<in> set xs. list_all plain_char a \<and> ce_isValidContract env a \<and> 0 < n"
  shows "parseAssetEntries env cs (map render_entry xs) =
    Inr (cs @ map (\<lambda>(a, n). (a, int n)) xs)"
  using assms
proof (induction xs arbitrary: cs)
  case Nil
  then show ?case by simp
next
  case (Cons x xs)
  obtain a n where x: "x = (a, n)" by (cases x)
  have "parseAssetEntry env cs (render_entry (a, n)) = Inr (cs @ [(a, int n)])"
    using Cons.prems x by (intro render_entry_parse) auto
  then show ?case
    using Cons.IH [of "cs @ [(a, int n)]"] Cons.prems x by simp
qed

lemma loadConfig_wf_config: "loadConfig env = Inr c \<Longrightarrow> wf_config env c"
  by (auto simp: loadConfig_def result_splits Let_def config_error_def wf_config_def
      parsePolicies_wf parseMaxResponseBytes_pos readSecret_valid
      dest: parseAssets_wf split: if_splits option.splits)

section \<open>The properties of the component\<close>

text \<open>
  C33 (type): a configuration that \<open>loadConfig\<close> returns is well-formed: at least one asset, none
  twice, each with a positive ceiling and a valid contract id; the allowlist is exactly the
  assets that have a ceiling; the CAIP-2 id is the network's; the response cap is positive; the
  secret, the wallet and the policies passed their validity checks; and policies come with a
  wallet.
\<close>

theorem loadConfig_wf:
  assumes "loadConfig env = Inr c"
  shows "wf_config env c"
  by (rule loadConfig_wf_config [OF assms])

definition sample_env :: config_env where
  "sample_env =
     \<lparr>ce_var = map_of [(''VELLAR_X402_SECRET'', '' SKEY ''), (''VELLAR_X402_ASSETS'', ''CA:5, CB:70'')],
      ce_readFile = (\<lambda>_. Inl ''ENOENT''), ce_isValidContract = (\<lambda>s. hd (s @ [CHR '' '']) = CHR ''C''),
      ce_isValidSecret = (\<lambda>s. s = ''SKEY'')\<rparr>"

definition loaded_config :: payer_config where
  "loaded_config =
     \<lparr>pc_network = Testnet, pc_caip2 = ''stellar:testnet'', pc_rpcUrl = None,
      pc_ceilings = [(''CA'', 5), (''CB'', 70)], pc_allowedAssets = [''CA'', ''CB''],
      pc_maxResponseBytes = 262144, pc_walletAddress = None, pc_policies = [],
      pc_secret = ''SKEY''\<rparr>"

lemma sample_env_loads: "loadConfig sample_env = Inr loaded_config"
  by (simp add: loaded_config_def loadConfig_def sample_env_def readSecret_def trimmed_var_def required_var_def
      trim_def is_ws_def parseNetwork_def parseAssets_def parseAssetEntry_def all_digits_def
      is_digit_def digits_val_def digit_val_def parseMaxResponseBytes_def
      DEFAULT_MAX_RESPONSE_BYTES_def parsePolicies_def)

theorem loadConfig_wf_witness:
  "\<exists>c. loadConfig sample_env = Inr c \<and> wf_config sample_env c \<and> pc_allowedAssets c = [''CA'', ''CB'']"
  using loadConfig_wf [OF sample_env_loads] sample_env_loads by (simp add: loaded_config_def)

text \<open>
  The asset table written in the documented form, for contract ids of the
  strkey shape, none twice, with positive ceilings of any size, is read back exactly and in
  order.
\<close>

theorem parseAssets_roundtrip:
  assumes "cs \<noteq> []" and "distinct (map fst cs)"
    and "\<forall>(a, n) \<in> set cs. is_strkey ''C'' a \<and> ce_isValidContract env a \<and> 0 < n"
  shows "parseAssets env (render_assets cs) = Inr (map (\<lambda>(a, n). (a, int n)) cs)"
proof -
  have plain: "\<forall>(a, n) \<in> set cs. list_all plain_char a \<and> ce_isValidContract env a \<and> 0 < n"
    using assms(3) strkey_plain by fastforce
  have "CHR '','' \<notin> set (render_entry e)" if "e \<in> set cs" for e
    using that plain show_nat_plain [of "snd e"]
    by (fastforce simp: render_entry_def list_all_iff plain_char_def)
  then have "split_on CHR '','' (render_assets cs) = map render_entry cs"
    using assms(1) by (auto simp: render_assets_def intro!: split_on_join)
  then show ?thesis
    using render_entries_parse [of "[]" cs env] assms plain by (simp add: parseAssets_def)
qed

theorem parseAssets_roundtrip_witness:
  "parseAssets sample_env (render_assets [(CHR ''C'' # replicate 55 CHR ''A'', 12)]) =
     Inr [(CHR ''C'' # replicate 55 CHR ''A'', 12)]"
  using parseAssets_roundtrip [of "[(CHR ''C'' # replicate 55 CHR ''A'', 12)]" sample_env]
  by (simp add: is_strkey_def sample_env_def is_base32_def list_all_iff)

end
