(* ===== verification/Output.thy ===== *)
theory Output
  imports Guards
begin

text \<open>
  The part of \<open>packages/mcp-x402-payer/src/output.ts\<close> that bounds a response body:
  \<open>truncateUtf8\<close>, over the \<open>TextDecoder\<close> of \<open>Encoding\<close>.
\<close>

record truncated =
  tr_text :: jstext
  tr_truncated :: bool
  tr_originalBytes :: nat

definition drop_trailing :: "nat \<Rightarrow> jstext \<Rightarrow> jstext" where
  "drop_trailing cp s = rev (dropWhile (\<lambda>x. x = cp) (rev s))"

definition truncation_marker :: "nat \<Rightarrow> nat \<Rightarrow> jstext" where
  "truncation_marker maxBytes originalBytes =
     [10, 10] @ codes (''[TRUNCATED: showing '' @ show_nat maxBytes @ '' of '' @
        show_nat originalBytes @ '' bytes]'')"

definition truncateUtf8 :: "bytes \<Rightarrow> nat \<Rightarrow> truncated" where
  "truncateUtf8 bs maxBytes =
    (let originalBytes = length bs in
     if originalBytes \<le> maxBytes then
       \<lparr>tr_text = utf8_decode bs, tr_truncated = False, tr_originalBytes = originalBytes\<rparr>
     else
       \<lparr>tr_text = drop_trailing 0xFFFD (utf8_decode (take maxBytes bs)) @
          truncation_marker maxBytes originalBytes,
        tr_truncated = True, tr_originalBytes = originalBytes\<rparr>)"

section \<open>Cutting a UTF-8 text\<close>

lemma utf8_bytes_length: "cp < 0x110000 \<Longrightarrow> 1 \<le> length (utf8_bytes cp) \<and> length (utf8_bytes cp) \<le> 4"
  by (simp add: utf8_bytes_def)

end
