(* ===== verification/Payer.thy ===== *)
theory Payer
  imports PayerConfig Output
begin

text \<open>
  The payer core of the MCP server: \<open>packages/mcp-x402-payer/src/protocol.ts\<close> (the x402 v2
  challenge and its narrowing) and \<open>packages/mcp-x402-payer/src/payer.ts\<close> (\<open>quote\<close>, \<open>pay\<close>).

  \<open>payExclusively\<close> is an action on \<open>payer_state\<close>: the session ledger and the trace of what
  the payer did (requests with what they returned, signatures, ledger records). The network and
  the signer are the fields of \<open>payer_env\<close>, arbitrary functions of the whole trace, so a server
  may answer every request differently and depend on everything that happened before. \<open>pay\<close>
  runs \<open>payExclusively\<close> under the mutex of \<open>Ledger\<close>; releasing an unused body
  (\<open>discardBody\<close>) swallows every error and has no effect on this state.
\<close>

section \<open>protocol.ts\<close>

definition assertV2Challenge :: "decoded \<Rightarrow> payment_required outcome" where
  "assertV2Challenge d =
     (case d of
        DObject c \<Rightarrow>
          if pd_x402Version c \<noteq> JNum 2 then
            Inl (X402 (NoUsablePaymentOptionError (UnsupportedVersion (pd_x402Version c))))
          else (case pd_accepts c of
             None \<Rightarrow> Inl (X402 (NoUsablePaymentOptionError NoOptions))
           | Some [] \<Rightarrow> Inl (X402 (NoUsablePaymentOptionError NoOptions))
           | Some (a # as) \<Rightarrow> Inr c)
      | _ \<Rightarrow> Inl (X402 (NoUsablePaymentOptionError NotAnObject)))"

definition requirementView :: "payment_requirements \<Rightarrow> payment_requirements" where
  "requirementView a = a\<lparr>pr_extra := (if pr_extra a = JNull then JUndefined else pr_extra a)\<rparr>"

definition toGuardView :: "payment_required \<Rightarrow> payment_required" where
  "toGuardView c =
     \<lparr>pd_x402Version = pd_x402Version c, pd_error = pd_error c,
      pd_accepts = Some (map requirementView (accepts_of c)), pd_resource = None,
      pd_extensions = JUndefined\<rparr>"

definition narrowTo :: "payment_required \<Rightarrow> payment_requirements \<Rightarrow> payment_required" where
  "narrowTo challenge chosen = challenge\<lparr>pd_accepts := Some [chosen]\<rparr>"

section \<open>Results\<close>

record resource_content =
  rc_contentType :: string
  rc_text :: "jstext option"
  rc_truncated :: "bool option"
  rc_bytes :: nat
  rc_binaryOmitted :: "bool option"

record quoted_option =
  qo_asset :: string
  qo_amount :: json
  qo_payTo :: string
  qo_network :: string
  qo_scheme :: string
  qo_maxTimeoutSeconds :: "rat option"
  qo_feesSponsored :: bool

datatype refusal = OverSessionRemaining int int string | RefusedBy js_error

record quote_result =
  qr_url :: string
  qr_requiresPayment :: bool
  qr_offered :: "quoted_option list option"
  qr_selected :: "quoted_option option"
  qr_payable :: bool
  qr_refusal :: "refusal option"
  qr_sessionRemaining :: "string option"
  qr_resource :: "resource_info option"
  qr_status :: nat

record pay_settlement =
  st_transaction :: string
  st_payer :: string
  st_asset :: string
  st_amount :: string
  st_network :: network

record pay_result =
  py_url :: string
  py_paid :: bool
  py_content :: resource_content
  py_settlement :: "pay_settlement option"
  py_attempts :: "nat option"
  py_sessionRemaining :: "string option"
  py_resource :: "resource_info option"
  py_status :: nat

section \<open>The payer and its environment\<close>

type_synonym req_headers = "(string \<times> string) list"

datatype pay_event =
    EvFetch string "req_headers option" "string + response"
  | EvSign payment_required "req_headers outcome"
  | EvRecord string int

record payer_env =
  pe_config :: payer_config
  pe_json :: json_env
  pe_fetch :: "pay_event list \<Rightarrow> string \<Rightarrow> req_headers option \<Rightarrow> string + response"
  pe_signPayment :: "pay_event list \<Rightarrow> payment_required \<Rightarrow> req_headers outcome"
  pe_address :: string

record payer_state =
  ps_ledger :: spend_ledger
  ps_trace :: "pay_event list"

type_synonym 'a payer = "(payer_state, js_error, 'a) act"

definition MAX_ATTEMPTS :: nat where
  "MAX_ATTEMPTS = 3"

definition NO_PRICE_LIMIT :: int where
  "NO_PRICE_LIMIT = 2 ^ 127 - 1"

definition log_event :: "pay_event \<Rightarrow> payer_state \<Rightarrow> payer_state" where
  "log_event e s = s\<lparr>ps_trace := ps_trace s @ [e]\<rparr>"

definition doFetch :: "payer_env \<Rightarrow> string \<Rightarrow> req_headers option \<Rightarrow> response payer" where
  "doFetch env url hs = (\<lambda>s.
     let r = pe_fetch env (ps_trace s) url hs in
     (map_sum Thrown id r, log_event (EvFetch url hs r) s))"

definition signPayment :: "payer_env \<Rightarrow> payment_required \<Rightarrow> req_headers payer" where
  "signPayment env c = (\<lambda>s.
     let r = pe_signPayment env (ps_trace s) c in (r, log_event (EvSign c r) s))"

definition ledgerAssert :: "string \<Rightarrow> int \<Rightarrow> unit payer" where
  "ledgerAssert asset amount = (\<lambda>s. (assertWithinCeiling (ps_ledger s) asset amount, s))"

definition ledgerRecord :: "string \<Rightarrow> int \<Rightarrow> unit payer" where
  "ledgerRecord asset amount = (\<lambda>s.
     case recordSpend (ps_ledger s) asset amount of
       Inl e \<Rightarrow> (Inl e, s)
     | Inr l \<Rightarrow> (Inr (), log_event (EvRecord asset amount) (s\<lparr>ps_ledger := l\<rparr>)))"

definition describeOption :: "payment_requirements \<Rightarrow> quoted_option" where
  "describeOption r =
     \<lparr>qo_asset = pr_asset r, qo_amount = pr_amount r, qo_payTo = pr_payTo r,
      qo_network = pr_network r, qo_scheme = pr_scheme r,
      qo_maxTimeoutSeconds = pr_maxTimeoutSeconds r,
      qo_feesSponsored = (areFeesSponsored r = JBool True)\<rparr>"

text \<open>
  The \<open>TEXT_LIKE\<close> expression: the media type starts with \<open>text/\<close> or one of four
  \<open>application/\<close> types, or has a \<open>+json\<close> or \<open>+xml\<close> that ends at a word boundary, in any case.
\<close>

definition word_boundary_after :: "string \<Rightarrow> bool" where
  "word_boundary_after rest = (rest = [] \<or> \<not> is_symbol_char (hd rest))"

fun has_plus_suffix :: "string \<Rightarrow> bool" where
  "has_plus_suffix [] = False"
| "has_plus_suffix (c # cs) =
     ((c = CHR ''+'' \<and>
       ((startsWith cs ''json'' \<and> word_boundary_after (drop 4 cs)) \<or>
        (startsWith cs ''xml'' \<and> word_boundary_after (drop 3 cs)))) \<or>
      has_plus_suffix cs)"

definition isTextLike :: "string \<Rightarrow> bool" where
  "isTextLike contentType =
    (let t = toLowerCase (trim (hd (split_on CHR '';'' contentType))) in
     startsWith t ''text/'' \<or> startsWith t ''application/json'' \<or> startsWith t ''application/xml'' \<or>
     startsWith t ''application/javascript'' \<or> startsWith t ''application/x-ndjson'' \<or>
     has_plus_suffix t)"

definition readContent :: "response \<Rightarrow> int \<Rightarrow> resource_content outcome" where
  "readContent res maxBytes =
    (let contentType = (case headers_get (rs_headers res) ''content-type'' of
           None \<Rightarrow> ''application/octet-stream'' | Some t \<Rightarrow> t) in
     case rs_body res of
       Inl m \<Rightarrow> Inl (Thrown m)
     | Inr bs \<Rightarrow>
        if \<not> isTextLike contentType then
          Inr \<lparr>rc_contentType = contentType, rc_text = None, rc_truncated = None,
               rc_bytes = length bs, rc_binaryOmitted = Some True\<rparr>
        else (let t = truncateUtf8 bs (nat maxBytes) in
          Inr \<lparr>rc_contentType = contentType, rc_text = Some (tr_text t),
               rc_truncated = Some (tr_truncated t), rc_bytes = tr_originalBytes t,
               rc_binaryOmitted = None\<rparr>))"

section \<open>Clearing one option\<close>

text \<open>
  \<open>view.accepts.indexOf(chosenView)\<close>. The model compares values where the code compares
  object identities; the option it finds has the view the guards returned either way.
\<close>

fun index_of :: "'a \<Rightarrow> 'a list \<Rightarrow> nat option" where
  "index_of x [] = None"
| "index_of x (y # ys) = (if x = y then Some 0 else map_option Suc (index_of x ys))"

definition clearOneOption ::
    "payer_config \<Rightarrow> payment_required \<Rightarrow> int \<Rightarrow> (payment_requirements \<times> int) outcome" where
  "clearOneOption config challenge maxAmount =
    (let view = toGuardView challenge in
     ebind (selectRequirements view
       \<lparr>po_maxAmount = maxAmount, po_allowedAssets = Some (pc_allowedAssets config)\<rparr>
       (pc_caip2 config)) (\<lambda>chosenView.
     case index_of chosenView (accepts_of view) of
       None \<Rightarrow> Inl (X402 (PaymentRejectedError 0 None))
     | Some i \<Rightarrow>
        (let chosen = accepts_of challenge ! i in
         ebind (parseAmount (pr_amount chosen)) (\<lambda>amount. Inr (chosen, amount)))))"

section \<open>quote\<close>

definition quoteSelection ::
    "payer_env \<Rightarrow> spend_ledger \<Rightarrow> payment_required \<Rightarrow> quote_result \<Rightarrow> quote_result outcome" where
  "quoteSelection env l challenge base =
     ebind (clearOneOption (pe_config env) challenge NO_PRICE_LIMIT) (\<lambda>(chosen, amount).
     ebind (remainingFor l (pr_asset chosen)) (\<lambda>remaining.
       Inr (base\<lparr>qr_selected := Some (describeOption chosen), qr_payable := (amount \<le> remaining),
         qr_refusal := (if amount > remaining
            then Some (OverSessionRemaining amount remaining (pr_asset chosen)) else None),
         qr_sessionRemaining := Some (show_int remaining)\<rparr>)))"

definition quote :: "payer_env \<Rightarrow> string \<Rightarrow> quote_result payer" where
  "quote env url =
     andThen (doFetch env url None) (\<lambda>res.
     if rs_status res \<noteq> 402 then
       ret \<lparr>qr_url = url, qr_requiresPayment = False, qr_offered = None, qr_selected = None,
            qr_payable = True, qr_refusal = None, qr_sessionRemaining = None, qr_resource = None,
            qr_status = rs_status res\<rparr>
     else
     andThen (lift (ebind (decodePaymentRequired (pe_json env) res) assertV2Challenge)) (\<lambda>challenge.
     let base = \<lparr>qr_url = url, qr_requiresPayment = True,
           qr_offered = Some (map describeOption (accepts_of challenge)), qr_selected = None,
           qr_payable = False, qr_refusal = None, qr_sessionRemaining = None,
           qr_resource = pd_resource challenge, qr_status = rs_status res\<rparr> in
     andThen (gets ps_ledger) (\<lambda>l.
       case quoteSelection env l challenge base of
         Inr q \<Rightarrow> ret q
       | Inl err \<Rightarrow> ret (base\<lparr>qr_payable := False, qr_refusal := Some (RefusedBy err)\<rparr>))))"

section \<open>pay\<close>

text \<open>
  The loop \<open>for (attempt = 1; attempt <= MAX_ATTEMPTS; attempt++)\<close>: \<open>left\<close> counts the attempts
  that remain, \<open>attempt\<close> is the loop variable.
\<close>

primrec payAttempts ::
    "payer_env \<Rightarrow> string \<Rightarrow> payment_required \<Rightarrow> payment_requirements \<Rightarrow> int \<Rightarrow>
     nat \<Rightarrow> nat \<Rightarrow> string option \<Rightarrow> pay_result payer" where
  "payAttempts env url challenge chosen amount 0 attempt lastReason =
     throw (Payer (SettlementFailedError MAX_ATTEMPTS lastReason))"
| "payAttempts env url challenge chosen amount (Suc left) attempt lastReason =
     andThen (ledgerAssert (pr_asset chosen) amount) (\<lambda>_.
     andThen (signPayment env (narrowTo challenge chosen)) (\<lambda>headers.
     andThen (doFetch env url (Some headers)) (\<lambda>res.
     if rs_status res = 402 \<or> 400 \<le> rs_status res then
       (let settle = decodeSettleResponseHeader (pe_json env) res;
            errorReason = Option.bind settle sr_errorReason in
        if isRetryableSettleFailure settle then
          payAttempts env url challenge chosen amount left (Suc attempt)
            (Some (case errorReason of
               None \<Rightarrow> ''attempt '' @ show_nat attempt @ '' failed before submission''
             | Some r \<Rightarrow> r))
        else throw (X402 (PaymentRejectedError (rs_status res)
            (case errorReason of
               None \<Rightarrow> extractRejectionReason (pe_json env) res
             | Some r \<Rightarrow> Some r))))
     else (case classifySettlement (pe_json env) res of
       NotSpent reason \<Rightarrow>
         payAttempts env url challenge chosen amount left (Suc attempt)
           (Some (''attempt '' @ show_nat attempt @ '': '' @ reason))
     | Indeterminate reason raw \<Rightarrow>
         andThen (ledgerRecord (pr_asset chosen) amount) (\<lambda>_.
           throw (Payer (IndeterminateSettlementError reason (pr_asset chosen) amount raw)))
     | Settled transaction payer \<Rightarrow>
         andThen (ledgerRecord (pr_asset chosen) amount) (\<lambda>_.
         andThen (lift (readContent res (pc_maxResponseBytes (pe_config env)))) (\<lambda>content.
         andThen (gets ps_ledger) (\<lambda>l.
         andThen (lift (remainingFor l (pr_asset chosen))) (\<lambda>remaining.
           ret \<lparr>py_url = url, py_paid = True, py_content = content,
                py_settlement = Some \<lparr>st_transaction = transaction,
                  st_payer = (case payer of None \<Rightarrow> pe_address env | Some p \<Rightarrow> p),
                  st_asset = pr_asset chosen, st_amount = show_int amount,
                  st_network = pc_network (pe_config env)\<rparr>,
                py_attempts = Some attempt, py_sessionRemaining = Some (show_int remaining),
                py_resource = pd_resource challenge, py_status = rs_status res\<rparr>))))))))"

definition payExclusively :: "payer_env \<Rightarrow> string \<Rightarrow> json \<Rightarrow> pay_result payer" where
  "payExclusively env url maxAmount =
     andThen (lift (parseAmount maxAmount)) (\<lambda>ceiling.
     andThen (doFetch env url None) (\<lambda>first.
     if rs_status first \<noteq> 402 then
       andThen (lift (readContent first (pc_maxResponseBytes (pe_config env)))) (\<lambda>content.
       ret \<lparr>py_url = url, py_paid = False, py_content = content, py_settlement = None,
            py_attempts = None, py_sessionRemaining = None, py_resource = None,
            py_status = rs_status first\<rparr>)
     else
     andThen (lift (ebind (decodePaymentRequired (pe_json env) first) assertV2Challenge)) (\<lambda>challenge.
     andThen (lift (clearOneOption (pe_config env) challenge ceiling)) (\<lambda>(chosen, amount).
     andThen (ledgerAssert (pr_asset chosen) amount) (\<lambda>_.
       payAttempts env url challenge chosen amount MAX_ATTEMPTS 1 None)))))"

section \<open>What the guards clear\<close>

lemma fetched_Inr [simp]: "map_sum Thrown id r = Inr x \<longleftrightarrow> r = Inr x"
  by (cases r) auto

lemma requirementView_fields [simp]:
  "pr_amount (requirementView a) = pr_amount a" "pr_asset (requirementView a) = pr_asset a"
  "pr_scheme (requirementView a) = pr_scheme a" "pr_network (requirementView a) = pr_network a"
  "areFeesSponsored (requirementView a) = areFeesSponsored a"
  by (auto simp: requirementView_def areFeesSponsored_def)

lemma payable_view [simp]: "payable_option c opts (requirementView a) = payable_option c opts a"
  by (simp add: payable_option_def)

lemma accepts_toGuardView [simp]:
  "accepts_of (toGuardView c) = map requirementView (accepts_of c)"
  by (simp add: toGuardView_def accepts_of_def)

lemma index_of_Some: "index_of x ys = Some i \<Longrightarrow> i < length ys \<and> ys ! i = x"
  by (induction ys arbitrary: i) (auto split: if_splits)

lemma index_of_mem: "x \<in> set ys \<Longrightarrow> \<exists>i. index_of x ys = Some i"
  by (induction ys) auto

text \<open>The specification of the option that may be signed for.\<close>

definition cleared ::
    "payer_config \<Rightarrow> payment_required \<Rightarrow> int \<Rightarrow> payment_requirements \<Rightarrow> int \<Rightarrow> bool" where
  "cleared config challenge maxAmount chosen amount =
     (chosen \<in> set (accepts_of challenge) \<and>
      payable_option (pc_caip2 config)
        \<lparr>po_maxAmount = maxAmount, po_allowedAssets = Some (pc_allowedAssets config)\<rparr> chosen \<and>
      parseAmount (pr_amount chosen) = Inr amount \<and> amount \<le> maxAmount \<and>
      (\<forall>a \<in> set (accepts_of challenge).
         payable_option (pc_caip2 config)
           \<lparr>po_maxAmount = maxAmount, po_allowedAssets = Some (pc_allowedAssets config)\<rparr> a \<longrightarrow>
         (\<exists>q. parseAmount (pr_amount a) = Inr q \<and> amount \<le> q)))"

lemma clearOneOption_cleared:
  assumes "clearOneOption config challenge maxAmount = Inr (chosen, amount)"
  shows "cleared config challenge maxAmount chosen amount"
proof -
  let ?o = "\<lparr>po_maxAmount = maxAmount, po_allowedAssets = Some (pc_allowedAssets config)\<rparr>"
  obtain v i where sel: "selectRequirements (toGuardView challenge) ?o (pc_caip2 config) = Inr v"
    and i: "index_of v (map requirementView (accepts_of challenge)) = Some i"
    and c: "chosen = accepts_of challenge ! i" and a: "parseAmount (pr_amount chosen) = Inr amount"
    using assms by (auto simp: clearOneOption_def Let_def result_splits split: option.splits)
  have v: "i < length (accepts_of challenge)" "v = requirementView chosen"
    using index_of_Some [OF i] c by auto
  have "chosen \<in> set (accepts_of challenge)"
    using v(1) c by simp
  moreover obtain p where pay: "payable_option (pc_caip2 config) ?o v"
    and p: "parseAmount (pr_amount v) = Inr p" "p \<le> maxAmount"
    and least: "\<forall>x \<in> set (accepts_of (toGuardView challenge)).
      payable_option (pc_caip2 config) ?o x \<longrightarrow> (\<exists>q. parseAmount (pr_amount x) = Inr q \<and> p \<le> q)"
    using selectRequirements_least [OF sel] by (simp only: x402_pay_options.select_convs) blast
  moreover have "p = amount"
    using p(1) v(2) a by simp
  moreover have "payable_option (pc_caip2 config) ?o chosen"
    using pay by (simp only: v(2) payable_view)
  ultimately show ?thesis
    unfolding cleared_def
  proof (intro conjI ballI impI)
    fix x
    assume x: "x \<in> set (accepts_of challenge)" "payable_option (pc_caip2 config) ?o x"
    then have "requirementView x \<in> set (accepts_of (toGuardView challenge))"
      by (simp only: accepts_toGuardView set_map) (rule imageI)
    with least x(2) have "\<exists>q. parseAmount (pr_amount (requirementView x)) = Inr q \<and> p \<le> q"
      by (metis payable_view)
    then show "\<exists>q. parseAmount (pr_amount x) = Inr q \<and> amount \<le> q"
      by (simp only: requirementView_fields \<open>p = amount\<close>)
  qed (use a p in \<open>simp_all only: \<open>p = amount\<close>\<close>)
qed

lemma clearOneOption_total:
  assumes "selectRequirements (toGuardView challenge)
       \<lparr>po_maxAmount = m, po_allowedAssets = Some (pc_allowedAssets config)\<rparr> (pc_caip2 config) = Inr v"
  shows "\<exists>x. clearOneOption config challenge m = Inr x"
proof -
  have mem: "v \<in> set (map requirementView (accepts_of challenge))"
    and p: "\<exists>p. parseAmount (pr_amount v) = Inr p"
    using selectRequirements_least [OF assms] by auto
  obtain i where i: "index_of v (map requirementView (accepts_of challenge)) = Some i"
    using index_of_mem [OF mem] by (rule exE)
  then have "pr_amount (accepts_of challenge ! i) = pr_amount v"
    using index_of_Some [OF i] by auto
  then show ?thesis
    using assms i p by (auto simp: clearOneOption_def Let_def)
qed

section \<open>The protocol of the attempts\<close>

text \<open>
  The abstract specification of the retry loop: which sequences of events it may produce with
  \<open>n\<close> attempts left, and how each ends. A further attempt follows only a response that says
  nothing was spent; the ledger is debited at most once, after the last response.
\<close>

datatype ending = Exhausted | OverCeiling | SignFailed | NetFailed | Rejected | Paid | Unknown

definition retry_evidence :: "json_env \<Rightarrow> response \<Rightarrow> bool" where
  "retry_evidence je res = isRetryableSettleFailure (decodeSettleResponseHeader je res)"

inductive pay_protocol ::
    "json_env \<Rightarrow> string \<Rightarrow> payment_required \<Rightarrow> string \<Rightarrow> int \<Rightarrow> nat \<Rightarrow> pay_event list \<Rightarrow> ending \<Rightarrow> bool"
  for je url narrowed asset amount where
  p_exhausted: "pay_protocol je url narrowed asset amount 0 [] Exhausted"
| p_over: "pay_protocol je url narrowed asset amount (Suc n) [] OverCeiling"
| p_sign: "pay_protocol je url narrowed asset amount (Suc n) [EvSign narrowed (Inl e)] SignFailed"
| p_net: "pay_protocol je url narrowed asset amount (Suc n)
    [EvSign narrowed (Inr h), EvFetch url (Some h) (Inl e)] NetFailed"
| p_reject: "400 \<le> rs_status res \<Longrightarrow> \<not> retry_evidence je res \<Longrightarrow>
    pay_protocol je url narrowed asset amount (Suc n)
      [EvSign narrowed (Inr h), EvFetch url (Some h) (Inr res)] Rejected"
| p_retry: "retry_evidence je res \<Longrightarrow> pay_protocol je url narrowed asset amount n evs e \<Longrightarrow>
    pay_protocol je url narrowed asset amount (Suc n)
      (EvSign narrowed (Inr h) # EvFetch url (Some h) (Inr res) # evs) e"
| p_paid: "rs_status res < 400 \<Longrightarrow> classifySettlement je res = Settled tx payer \<Longrightarrow>
    pay_protocol je url narrowed asset amount (Suc n)
      [EvSign narrowed (Inr h), EvFetch url (Some h) (Inr res), EvRecord asset amount] Paid"
| p_unknown: "rs_status res < 400 \<Longrightarrow> classifySettlement je res = Indeterminate why raw \<Longrightarrow>
    pay_protocol je url narrowed asset amount (Suc n)
      [EvSign narrowed (Inr h), EvFetch url (Some h) (Inr res), EvRecord asset amount] Unknown"

text \<open>How the caller sees each ending.\<close>

fun shows_ending :: "ending \<Rightarrow> pay_result outcome \<Rightarrow> bool" where
  "shows_ending Exhausted r = (\<exists>why. r = Inl (Payer (SettlementFailedError MAX_ATTEMPTS why)))"
| "shows_ending OverCeiling r = (\<exists>a x y z. r = Inl (Payer (SessionCeilingExceededError a x y z)))"
| "shows_ending SignFailed r = (\<exists>e. r = Inl e)"
| "shows_ending NetFailed r = (\<exists>e. r = Inl e)"
| "shows_ending Rejected r = (\<exists>st why. r = Inl (X402 (PaymentRejectedError st why)))"
| "shows_ending Paid r = ((\<exists>p. r = Inr p \<and> py_paid p) \<or> (\<exists>m. r = Inl (Thrown m)))"
| "shows_ending Unknown r =
     (\<exists>why a x raw. r = Inl (Payer (IndeterminateSettlementError why a x raw)))"

definition debits :: "ending \<Rightarrow> bool" where
  "debits e = (e = Paid \<or> e = Unknown)"

lemma assert_fails:
  "assertWithinCeiling l a x = Inl e \<Longrightarrow> \<exists>a x y z. e = Payer (SessionCeilingExceededError a x y z)"
  by (auto simp: assertWithinCeiling_def ceilingFor_def Let_def split: option.splits if_splits)

declare payAttempts.simps(2) [simp del]

lemmas payer_steps = payAttempts.simps(2) ledgerAssert_def signPayment_def doFetch_def ledgerRecord_def log_event_def
  act_defs Let_def

text \<open>One turn of the loop in which a payment was signed and answered, and what follows it.\<close>

definition answered where
  "answered env url ch chosen amount s h res s1 =
     (assertWithinCeiling (ps_ledger s) (pr_asset chosen) amount = Inr () \<and>
      pe_signPayment env (ps_trace s) (narrowTo ch chosen) = Inr h \<and>
      pe_fetch env (ps_trace s @ [EvSign (narrowTo ch chosen) (Inr h)]) url (Some h) = Inr res \<and>
      s1 = s\<lparr>ps_trace := ps_trace s @
        [EvSign (narrowTo ch chosen) (Inr h), EvFetch url (Some h) (Inr res)]\<rparr>)"

lemma classify_retry:
  "\<not> retry_evidence je res \<Longrightarrow> classifySettlement je res \<noteq> NotSpent why"
  using isRetryable_iff_NotSpent [of je res] by (auto simp: retry_evidence_def)

lemma turn_retry:
  assumes "answered env url ch chosen amount s h res s1" "retry_evidence (pe_json env) res"
  shows "\<exists>why'. payAttempts env url ch chosen amount (Suc n) k why s =
    payAttempts env url ch chosen amount n (Suc k) why' s1"
proof -
  obtain w where "classifySettlement (pe_json env) res = NotSpent w"
    using assms(2) isRetryable_iff_NotSpent by (auto simp: retry_evidence_def)
  then show ?thesis
    using assms by (auto simp: answered_def payer_steps retry_evidence_def)
qed

lemma turn_reject:
  assumes "answered env url ch chosen amount s h res s1" "\<not> retry_evidence (pe_json env) res"
    and "400 \<le> rs_status res"
  shows "\<exists>why'. payAttempts env url ch chosen amount (Suc n) k why s =
    (Inl (X402 (PaymentRejectedError (rs_status res) why')), s1)"
  using assms by (auto simp: answered_def payer_steps retry_evidence_def)

lemma turn_unknown:
  assumes "answered env url ch chosen amount s h res s1" "rs_status res < 400"
    and "classifySettlement (pe_json env) res = Indeterminate w raw"
    and "recordSpend (ps_ledger s) (pr_asset chosen) amount = Inr l'"
  shows "payAttempts env url ch chosen amount (Suc n) k why s =
    (Inl (Payer (IndeterminateSettlementError w (pr_asset chosen) amount raw)),
     log_event (EvRecord (pr_asset chosen) amount) (s1\<lparr>ps_ledger := l'\<rparr>))"
  using assms by (auto simp: answered_def payer_steps)

lemma readContent_error: "readContent res m = Inl e \<Longrightarrow> \<exists>m. e = Thrown m"
  by (auto simp: readContent_def Let_def split: sum.splits if_splits)

lemma readContent_ok: "rs_body res = Inr bs \<Longrightarrow> \<exists>c. readContent res m = Inr c"
  by (auto simp: readContent_def Let_def)

lemma remaining_after_record:
  "recordSpend l asset amount = Inr l' \<Longrightarrow> \<exists>r. remainingFor l' asset = Inr r"
  by (auto simp: recordSpend_iff remainingFor_eq)

lemma turn_paid:
  assumes "answered env url ch chosen amount s h res s1" "rs_status res < 400"
    and "classifySettlement (pe_json env) res = Settled tx pyr"
    and "recordSpend (ps_ledger s) (pr_asset chosen) amount = Inr l'"
  shows "\<exists>r. payAttempts env url ch chosen amount (Suc n) k why s =
      (r, log_event (EvRecord (pr_asset chosen) amount) (s1\<lparr>ps_ledger := l'\<rparr>)) \<and>
    shows_ending Paid r"
proof (cases "readContent res (pc_maxResponseBytes (pe_config env))")
  case (Inl e)
  then show ?thesis
    using assms readContent_error [OF Inl] by (auto simp: answered_def payer_steps)
next
  case (Inr c)
  then show ?thesis
    using assms remaining_after_record [OF assms(4)] by (auto simp: answered_def payer_steps)
qed

lemma turn_paid_content:
  assumes "answered env url ch chosen amount s h res s1" "rs_status res < 400"
    and "classifySettlement (pe_json env) res = Settled tx pyr"
    and "recordSpend (ps_ledger s) (pr_asset chosen) amount = Inr l'" and "rs_body res = Inr bs"
  shows "\<exists>p. payAttempts env url ch chosen amount (Suc n) k why s =
      (Inr p, log_event (EvRecord (pr_asset chosen) amount) (s1\<lparr>ps_ledger := l'\<rparr>)) \<and>
    py_paid p \<and> py_attempts p = Some k \<and> map_option st_transaction (py_settlement p) = Some tx"
proof -
  obtain c where "readContent res (pc_maxResponseBytes (pe_config env)) = Inr c"
    using assms(5) readContent_ok by blast
  then show ?thesis
    using assms remaining_after_record [OF assms(4)] by (auto simp: answered_def payer_steps)
qed

lemma payExclusively_go:
  assumes "parseAmount m = Inr maxA" "pe_fetch env (ps_trace s) url None = Inr first"
    and "rs_status first = 402"
    and "ebind (decodePaymentRequired (pe_json env) first) assertV2Challenge = Inr c"
    and "clearOneOption (pe_config env) c maxA = Inr (chosen, amount)"
    and "assertWithinCeiling (ps_ledger s) (pr_asset chosen) amount = Inr ()"
  shows "payExclusively env url m s = payAttempts env url c chosen amount MAX_ATTEMPTS 1 None
    (s\<lparr>ps_trace := ps_trace s @ [EvFetch url None (Inr first)]\<rparr>)"
  using assms by (simp add: payExclusively_def payer_steps)

lemma answered_protocol:
  assumes ok: "answered env url ch chosen amount s h res s1"
    and run: "payAttempts env url ch chosen amount (Suc n) k why s = (r, s')"
    and l': "recordSpend (ps_ledger s) (pr_asset chosen) amount = Inr l'"
    and IH: "\<And>k why t. payAttempts env url ch chosen amount n k why t = (r, s') \<Longrightarrow>
      \<exists>evs e. ps_trace s' = ps_trace t @ evs \<and>
        pay_protocol (pe_json env) url (narrowTo ch chosen) (pr_asset chosen) amount n evs e \<and>
        shows_ending e r \<and>
        (if debits e then recordSpend (ps_ledger t) (pr_asset chosen) amount = Inr (ps_ledger s')
         else ps_ledger s' = ps_ledger t)"
  shows "\<exists>evs e. ps_trace s' = ps_trace s @ evs \<and>
    pay_protocol (pe_json env) url (narrowTo ch chosen) (pr_asset chosen) amount (Suc n) evs e \<and>
    shows_ending e r \<and>
    (if debits e then recordSpend (ps_ledger s) (pr_asset chosen) amount = Inr (ps_ledger s')
     else ps_ledger s' = ps_ledger s)"
proof -
  let ?seen = "[EvSign (narrowTo ch chosen) (Inr h), EvFetch url (Some h) (Inr res)]"
  have s1: "ps_trace s1 = ps_trace s @ ?seen" "ps_ledger s1 = ps_ledger s"
    using ok by (auto simp: answered_def)
  show ?thesis
  proof (cases "retry_evidence (pe_json env) res")
    case True
    then obtain why' where "payAttempts env url ch chosen amount n (Suc k) why' s1 = (r, s')"
      using turn_retry [OF ok True, of n k why] run by auto
    from IH [OF this] obtain evs e where e: "ps_trace s' = ps_trace s1 @ evs"
      "pay_protocol (pe_json env) url (narrowTo ch chosen) (pr_asset chosen) amount n evs e"
      "shows_ending e r" and "if debits e
        then recordSpend (ps_ledger s1) (pr_asset chosen) amount = Inr (ps_ledger s')
        else ps_ledger s' = ps_ledger s1"
      by blast
    then show ?thesis
      using s1 p_retry [OF True e(2), of h]
      by (intro exI [of _ "?seen @ evs"] exI [of _ e]) (auto split: if_splits)
  next
    case False
    show ?thesis
    proof (cases "400 \<le> rs_status res")
      case True
      then show ?thesis
        using turn_reject [OF ok False True, of n k why] run s1 p_reject [OF True False]
        by (intro exI [of _ ?seen] exI [of _ Rejected]) (auto simp: debits_def)
    next
      case st: False
      then have st: "rs_status res < 400" by simp
      show ?thesis
      proof (cases "classifySettlement (pe_json env) res")
        case (Settled tx pyr)
        then show ?thesis
          using turn_paid [OF ok st Settled l', of n k why] run s1 l' p_paid [OF st Settled]
          by (intro exI [of _ "?seen @ [EvRecord (pr_asset chosen) amount]"] exI [of _ Paid])
            (auto simp: debits_def log_event_def)
      next
        case (NotSpent w)
        then show ?thesis using classify_retry [OF False] by blast
      next
        case (Indeterminate w raw)
        then show ?thesis
          using turn_unknown [OF ok st Indeterminate l', of n k why] run s1 l'
            p_unknown [OF st Indeterminate]
          by (intro exI [of _ "?seen @ [EvRecord (pr_asset chosen) amount]"] exI [of _ Unknown])
            (auto simp: debits_def log_event_def)
      qed
    qed
  qed
qed

lemma turn_cases:
  assumes "assertWithinCeiling (ps_ledger s) (pr_asset chosen) amount = Inr u"
  obtains (sign) e where "pe_signPayment env (ps_trace s) (narrowTo ch chosen) = Inl e"
    | (net) h e where "pe_signPayment env (ps_trace s) (narrowTo ch chosen) = Inr h"
        "pe_fetch env (ps_trace s @ [EvSign (narrowTo ch chosen) (Inr h)]) url (Some h) = Inl e"
    | (ok) h res where "answered env url ch chosen amount s h res (s\<lparr>ps_trace := ps_trace s @
        [EvSign (narrowTo ch chosen) (Inr h), EvFetch url (Some h) (Inr res)]\<rparr>)"
proof (cases "pe_signPayment env (ps_trace s) (narrowTo ch chosen)")
  case (Inr h)
  then show ?thesis
    using net [of h] ok [of h] assms
    by (cases "pe_fetch env (ps_trace s @ [EvSign (narrowTo ch chosen) (Inr h)]) url (Some h)")
      (auto simp: answered_def)
qed (rule sign)

lemma payAttempts_protocol:
  assumes "payAttempts env url ch chosen amount n k why s = (r, s')"
  shows "\<exists>evs e. ps_trace s' = ps_trace s @ evs \<and>
    pay_protocol (pe_json env) url (narrowTo ch chosen) (pr_asset chosen) amount n evs e \<and>
    shows_ending e r \<and>
    (if debits e then recordSpend (ps_ledger s) (pr_asset chosen) amount = Inr (ps_ledger s')
     else ps_ledger s' = ps_ledger s)"
  using assms
proof (induction n arbitrary: k why s)
  case 0
  then show ?case
    by (auto simp: act_defs debits_def intro!: exI [of _ Exhausted] p_exhausted)
next
  case (Suc n)
  let ?nar = "narrowTo ch chosen"
  show ?case
  proof (cases "assertWithinCeiling (ps_ledger s) (pr_asset chosen) amount")
    case (Inl e)
    then show ?thesis
      using Suc.prems assert_fails [OF Inl]
      by (auto simp: payer_steps debits_def intro!: exI [of _ OverCeiling] p_over)
  next
    case within: (Inr u)
    then obtain l' where l': "recordSpend (ps_ledger s) (pr_asset chosen) amount = Inr l'"
      using recordSpend_after_assert by blast
    from within show ?thesis
    proof (cases rule: turn_cases [where env = env and ch = ch and url = url])
      case sign
      then show ?thesis
        using Suc.prems within
        by (auto simp: payer_steps debits_def intro!: exI [of _ SignFailed] p_sign)
    next
      case net
      then show ?thesis
        using Suc.prems within
        by (auto simp: payer_steps debits_def intro!: exI [of _ NetFailed] p_net)
    next
      case ok
      show ?thesis
        by (rule answered_protocol [OF ok Suc.prems l']) (rule Suc.IH)
    qed
  qed
qed

lemma answered_trace:
  assumes ok: "answered env url ch chosen amount s h res s1"
    and run: "payAttempts env url ch chosen amount (Suc n) k why s = (r, s')"
  shows "\<exists>evs. ps_trace s' = ps_trace s1 @ evs"
proof -
  obtain l' where l': "recordSpend (ps_ledger s) (pr_asset chosen) amount = Inr l'"
    using ok recordSpend_after_assert unfolding answered_def by blast
  show ?thesis
  proof (cases "retry_evidence (pe_json env) res")
    case True
    then show ?thesis
      using turn_retry [OF ok True, of n k why] run payAttempts_protocol by metis
  next
    case False
    show ?thesis
    proof (cases "400 \<le> rs_status res")
      case True
      then show ?thesis using turn_reject [OF ok False True, of n k why] run by auto
    next
      case st: False
      then have st: "rs_status res < 400" by simp
      show ?thesis
        using turn_paid [OF ok st _ l', of _ _ n k why] turn_unknown [OF ok st _ l', of _ _ n k why]
          classify_retry [OF False] run
        by (cases "classifySettlement (pe_json env) res") (auto simp: log_event_def)
    qed
  qed
qed

lemma first_attempt_signs:
  assumes "payAttempts env url c chosen p (Suc n) k why s = (r, s')"
    and within: "assertWithinCeiling (ps_ledger s) (pr_asset chosen) p = Inr ()"
  shows "\<exists>x evs. ps_trace s' = ps_trace s @ EvSign (narrowTo c chosen) x # evs"
  using within
proof (cases rule: turn_cases [where env = env and ch = c and url = url])
  case (ok h res)
  then show ?thesis using answered_trace [OF ok assms(1)] by auto
qed (use assms in \<open>auto simp: payer_steps\<close>)

end
