(* ===== verification/PayerProps.thy ===== *)
theory PayerProps
  imports Payer
begin

text \<open>
  The properties of the MCP payer: what \<open>payExclusively\<close> may sign and when it debits the
  session ledger, for every behaviour of the network, the resource server and the signer; and
  how \<open>quote\<close> relates to \<open>pay\<close>.
\<close>

section \<open>Runs of the protocol\<close>

fun is_sign :: "pay_event \<Rightarrow> bool" where
  "is_sign (EvSign c r) = True"
| "is_sign _ = False"

fun is_record :: "pay_event \<Rightarrow> bool" where
  "is_record (EvRecord a x) = True"
| "is_record _ = False"

lemma protocol_sign_count:
  "pay_protocol je url nar asset amount n evs e \<Longrightarrow> length (filter is_sign evs) \<le> n"
  by (induction rule: pay_protocol.induct) auto

lemma protocol_signs_narrowed:
  "pay_protocol je url nar asset amount n evs e \<Longrightarrow> EvSign c r \<in> set evs \<Longrightarrow> c = nar"
  by (induction rule: pay_protocol.induct) auto

lemma protocol_records:
  "pay_protocol je url nar asset amount n evs e \<Longrightarrow>
   filter is_record evs = (if debits e then [EvRecord asset amount] else [])"
  by (induction rule: pay_protocol.induct) (auto simp: debits_def)

lemma protocol_retry:
  "pay_protocol je url nar asset amount n evs e \<Longrightarrow> evs = pre @ EvSign c x # post \<Longrightarrow> pre \<noteq> [] \<Longrightarrow>
   \<exists>h res. last pre = EvFetch url (Some h) (Inr res) \<and> retry_evidence je res"
proof (induction arbitrary: pre rule: pay_protocol.induct)
  case (p_retry res n evs e h)
  show ?case
  proof (cases "length pre \<le> 2")
    case True
    then have "pre = [EvSign nar (Inr h), EvFetch url (Some h) (Inr res)]"
      using p_retry.prems by (cases pre; cases "tl pre"; cases "tl (tl pre)") auto
    then show ?thesis using p_retry.hyps by auto
  next
    case False
    then obtain a b p q where pre: "pre = a # b # p # q"
      by (cases pre; cases "tl pre"; cases "tl (tl pre)") auto
    then have "evs = (p # q) @ EvSign c x # post"
      using p_retry.prems by simp
    from p_retry.IH [OF this] show ?thesis by (simp add: pre)
  qed
qed (auto simp: Cons_eq_append_conv append_eq_Cons_conv)

text \<open>The shape of a whole call: no payment at all, or a run of the protocol after the 402.\<close>

definition paying_run ::
    "payer_env \<Rightarrow> string \<Rightarrow> json \<Rightarrow> payer_state \<Rightarrow> payment_required \<Rightarrow> payment_requirements \<Rightarrow>
     int \<Rightarrow> int \<Rightarrow> pay_event list \<Rightarrow> ending \<Rightarrow> bool" where
  "paying_run env url m s challenge chosen maxA amount evs e =
     (parseAmount m = Inr maxA \<and>
      cleared (pe_config env) challenge maxA chosen amount \<and>
      assertWithinCeiling (ps_ledger s) (pr_asset chosen) amount = Inr () \<and>
      pay_protocol (pe_json env) url (narrowTo challenge chosen) (pr_asset chosen) amount
        MAX_ATTEMPTS evs e)"

lemma payExclusively_run:
  assumes "payExclusively env url m s = (r, s')"
  shows "(\<exists>evs. ps_trace s' = ps_trace s @ evs \<and> ps_ledger s' = ps_ledger s \<and>
      (evs = [] \<or> (\<exists>x. evs = [EvFetch url None x])) \<and> (\<forall>p. r = Inr p \<longrightarrow> \<not> py_paid p)) \<or>
    (\<exists>first challenge chosen maxA amount evs e.
      ps_trace s' = ps_trace s @ EvFetch url None (Inr first) # evs \<and>
      paying_run env url m s challenge chosen maxA amount evs e \<and> shows_ending e r \<and>
      (if debits e then recordSpend (ps_ledger s) (pr_asset chosen) amount = Inr (ps_ledger s')
       else ps_ledger s' = ps_ledger s))"
proof (cases "parseAmount m")
  case (Inl e)
  then show ?thesis using assms by (auto simp: payExclusively_def act_defs)
next
  case m: (Inr maxA)
  show ?thesis
  proof (cases "pe_fetch env (ps_trace s) url None")
    case (Inl e)
    then show ?thesis using assms m by (auto simp: payExclusively_def payer_steps)
  next
    case first: (Inr first)
    let ?s1 = "s\<lparr>ps_trace := ps_trace s @ [EvFetch url None (Inr first)]\<rparr>"
    consider (free) "rs_status first \<noteq> 402"
      | (bad) e where "rs_status first = 402"
          "ebind (decodePaymentRequired (pe_json env) first) assertV2Challenge = Inl e"
      | (refused) c e where "rs_status first = 402"
          "ebind (decodePaymentRequired (pe_json env) first) assertV2Challenge = Inr c"
          "clearOneOption (pe_config env) c maxA = Inl e"
      | (over) c chosen amount e where "rs_status first = 402"
          "ebind (decodePaymentRequired (pe_json env) first) assertV2Challenge = Inr c"
          "clearOneOption (pe_config env) c maxA = Inr (chosen, amount)"
          "assertWithinCeiling (ps_ledger s) (pr_asset chosen) amount = Inl e"
      | (go) c chosen amount where "rs_status first = 402"
          "ebind (decodePaymentRequired (pe_json env) first) assertV2Challenge = Inr c"
          "clearOneOption (pe_config env) c maxA = Inr (chosen, amount)"
          "assertWithinCeiling (ps_ledger s) (pr_asset chosen) amount = Inr ()"
    proof (cases "ebind (decodePaymentRequired (pe_json env) first) assertV2Challenge")
      case (Inl e)
      then show ?thesis using free bad by blast
    next
      case c: (Inr c)
      show ?thesis
      proof (cases "clearOneOption (pe_config env) c maxA")
        case (Inl e)
        then show ?thesis using c free refused by blast
      next
        case (Inr x)
        obtain chosen amount where x: "x = (chosen, amount)" by (cases x)
        show ?thesis
          using c Inr x free over [of c chosen amount] go [of c chosen amount]
          by (cases "assertWithinCeiling (ps_ledger s) (pr_asset chosen) amount") auto
      qed
    qed
    then show ?thesis
    proof cases
      case free
      then show ?thesis
        using assms m first
        by (cases "readContent first (pc_maxResponseBytes (pe_config env))")
          (auto simp: payExclusively_def payer_steps)
    next
      case go
      then have run: "payAttempts env url c chosen amount MAX_ATTEMPTS 1 None ?s1 = (r, s')"
        using assms payExclusively_go [OF m first go] by simp
      from payAttempts_protocol [OF run] obtain evs e where
        e: "ps_trace s' = ps_trace ?s1 @ evs"
          "pay_protocol (pe_json env) url (narrowTo c chosen) (pr_asset chosen) amount
             MAX_ATTEMPTS evs e" "shows_ending e r"
        and l: "if debits e
          then recordSpend (ps_ledger ?s1) (pr_asset chosen) amount = Inr (ps_ledger s')
          else ps_ledger s' = ps_ledger ?s1"
        by blast
      have "paying_run env url m s c chosen maxA amount evs e"
        using e(2) clearOneOption_cleared [OF go(3)] go(4) m by (simp add: paying_run_def)
      moreover have "ps_trace s' = ps_trace s @ EvFetch url None (Inr first) # evs"
        using e(1) by simp
      moreover have "if debits e
          then recordSpend (ps_ledger s) (pr_asset chosen) amount = Inr (ps_ledger s')
          else ps_ledger s' = ps_ledger s"
        using l by (cases "debits e") simp_all
      ultimately show ?thesis
        using e(3) by blast
    qed (use assms m first in \<open>auto simp: payExclusively_def payer_steps\<close>)
  qed
qed

text \<open>The events a call added.\<close>

definition new_events :: "payer_state \<Rightarrow> payer_state \<Rightarrow> pay_event list" where
  "new_events s s' = drop (length (ps_trace s)) (ps_trace s')"

lemma new_events_append: "ps_trace s' = ps_trace s @ evs \<Longrightarrow> new_events s s' = evs"
  by (simp add: new_events_def)

lemma protocol_answer:
  "pay_protocol je url nar asset amount n evs e \<Longrightarrow>
   debits e \<longleftrightarrow> (\<exists>h res. EvFetch url (Some h) (Inr res) \<in> set evs \<and> rs_status res < 400 \<and>
      (\<forall>why. classifySettlement je res \<noteq> NotSpent why))"
proof (induction rule: pay_protocol.induct)
  case (p_retry res n evs e h)
  then show ?case
    using isRetryable_iff_NotSpent [of je res] by (auto simp: retry_evidence_def)
qed (auto simp: debits_def)

section \<open>A concrete server\<close>

text \<open>
  A server that quotes \<open>sample_challenge\<close>, answers the first payment with a settlement that
  spent nothing and the second with a confirmed one.
\<close>

definition unspent_response :: response where
  "unspent_response =
     \<lparr>rs_status = 402, rs_headers = [(''X-PAYMENT-RESPONSE'', ''W10='')], rs_body = Inr []\<rparr>"

definition sample_config :: payer_config where
  "sample_config =
     \<lparr>pc_network = Testnet, pc_caip2 = ''stellar:testnet'', pc_rpcUrl = None,
      pc_ceilings = [(''CUSDC'', 1000)], pc_allowedAssets = [''CUSDC''],
      pc_maxResponseBytes = 100, pc_walletAddress = None, pc_policies = [], pc_secret = ''S''\<rparr>"

definition sample_sig :: req_headers where
  "sample_sig = [(''X-PAYMENT'', ''sig'')]"

definition sample_payer :: payer_env where
  "sample_payer =
     \<lparr>pe_config = sample_config, pe_json = sample_json,
      pe_fetch = (\<lambda>t url hs. Inr (case hs of
          None \<Rightarrow> challenge_response
        | Some h \<Rightarrow> if length t < 3 then unspent_response else settled_response)),
      pe_signPayment = (\<lambda>t c. Inr sample_sig), pe_address = ''GPAYER''\<rparr>"

definition sample_start :: payer_state where
  "sample_start = \<lparr>ps_ledger = createSpendLedger [(''CUSDC'', 1000)], ps_trace = []\<rparr>"

definition sample_narrowed :: payment_required where
  "sample_narrowed = narrowTo sample_challenge (sample_option ''CUSDC'' ''120'')"

definition sample_end :: payer_state where
  "sample_end =
    (\<lparr>ps_ledger = \<lparr>sl_ceilings = [(''CUSDC'', 1000)], sl_spent = [''CUSDC'' \<mapsto> 120]\<rparr>,
      ps_trace =
       [EvFetch ''u'' None (Inr challenge_response),
        EvSign sample_narrowed (Inr sample_sig), EvFetch ''u'' (Some sample_sig) (Inr unspent_response),
        EvSign sample_narrowed (Inr sample_sig), EvFetch ''u'' (Some sample_sig) (Inr settled_response),
        EvRecord ''CUSDC'' 120]\<rparr>)"

lemma base64_brackets: "base64ToUtf8 ''W10='' = Some [0x5B, 0x5D]"
  by (simp add: base64ToUtf8_def atob_def strip_pad_def is_ascii_ws_def b64_index_def
      utf8_decode_def utf8_run.simps)

lemma sample_challenge_decoded:
  "ebind (decodePaymentRequired sample_json challenge_response) assertV2Challenge =
     Inr sample_challenge"
  by (simp add: challenge_response_decoded assertV2Challenge_def sample_challenge_def)

lemma sample_unspent:
  "isRetryableSettleFailure (decodeSettleResponseHeader sample_json unspent_response)"
  by (simp add: decodeSettleResponseHeader_def settleHeader_def unspent_response_def
      headers_get_def base64_brackets sample_json_def isRetryableSettleFailure_def falsy_def)

lemma sample_cleared:
  "clearOneOption sample_config sample_challenge 200 = Inr (sample_option ''CUSDC'' ''120'', 120)"
  by (simp add: clearOneOption_def toGuardView_def requirementView_def sample_config_def
      accepts_of_def sample_defs selectRequirements_def onNetwork_def allowedCandidates_def
      areFeesSponsored_def all_digits_def is_digit_def digits_val_def digit_val_def)

lemma sample_answered:
  assumes "ps_ledger s = createSpendLedger [(''CUSDC'', 1000)]"
    and "res = (if length (ps_trace s) < 2 then unspent_response else settled_response)"
  shows "answered sample_payer ''u'' sample_challenge (sample_option ''CUSDC'' ''120'') 120 s
    sample_sig res
    (s\<lparr>ps_trace := ps_trace s @ [EvSign sample_narrowed (Inr sample_sig),
        EvFetch ''u'' (Some sample_sig) (Inr res)]\<rparr>)"
  using assms
  by (simp add: answered_def sample_payer_def sample_narrowed_def assertWithinCeiling_iff
      createSpendLedger_def spentFor_def sample_option_def)

lemma sample_run:
  "\<exists>r. payExclusively sample_payer ''u'' (JStr ''200'') sample_start = (Inr r, sample_end) \<and>
    py_paid r"
proof -
  let ?go = "payAttempts sample_payer ''u'' sample_challenge (sample_option ''CUSDC'' ''120'') 120"
  let ?h = sample_sig
  let ?s1 = "sample_start\<lparr>ps_trace := [EvFetch ''u'' None (Inr challenge_response)]\<rparr>"
  let ?s2 = "sample_start\<lparr>ps_trace := [EvFetch ''u'' None (Inr challenge_response),
    EvSign sample_narrowed (Inr ?h), EvFetch ''u'' (Some ?h) (Inr unspent_response)]\<rparr>"
  have start: "payExclusively sample_payer ''u'' (JStr ''200'') sample_start = ?go MAX_ATTEMPTS 1 None
      (sample_start\<lparr>ps_trace := ps_trace sample_start @ [EvFetch ''u'' None (Inr challenge_response)]\<rparr>)"
    by (rule payExclusively_go [where maxA = 200])
      (simp_all add: sample_payer_def sample_challenge_decoded sample_cleared sample_start_def
        all_digits_def is_digit_def digits_val_def digit_val_def
        assertWithinCeiling_iff createSpendLedger_def spentFor_def sample_option_def)
  have a1: "answered sample_payer ''u'' sample_challenge (sample_option ''CUSDC'' ''120'') 120 ?s1
      ?h unspent_response ?s2"
    using sample_answered [of ?s1 unspent_response] by (simp add: sample_start_def)
  have a2: "answered sample_payer ''u'' sample_challenge (sample_option ''CUSDC'' ''120'') 120 ?s2
      ?h settled_response (?s2\<lparr>ps_trace := ps_trace ?s2 @
        [EvSign sample_narrowed (Inr ?h), EvFetch ''u'' (Some ?h) (Inr settled_response)]\<rparr>)"
    using sample_answered [of ?s2 settled_response] by (simp add: sample_start_def)
  obtain why where go: "?go (Suc (Suc 1)) 1 None ?s1 = ?go (Suc 1) (Suc 1) why ?s2"
    using turn_retry [OF a1, of "Suc 1" 1 None] sample_unspent
    by (auto simp: retry_evidence_def sample_payer_def)
  have rec: "recordSpend (ps_ledger ?s2) (pr_asset (sample_option ''CUSDC'' ''120'')) 120 =
      Inr (ps_ledger sample_end)"
    by (simp add: recordSpend_iff sample_start_def createSpendLedger_def sample_option_def
        spentFor_def sample_end_def)
  obtain p where "?go (Suc 1) (Suc 1) why ?s2 = (Inr p, sample_end)" "py_paid p"
    using turn_paid_content [OF a2 _ _ rec, where n = 1 and k = "Suc 1" and why = why and bs = "[]"]
      settled_response_class
    by (auto simp: settled_response_def sample_payer_def log_event_def sample_end_def
        sample_start_def sample_option_def)
  then show ?thesis
    using start go by (simp add: sample_start_def MAX_ATTEMPTS_def numeral_3_eq_3)
qed

lemma sample_new_events:
  "new_events sample_start sample_end =
    ([EvFetch ''u'' None (Inr challenge_response),
      EvSign sample_narrowed (Inr sample_sig), EvFetch ''u'' (Some sample_sig) (Inr unspent_response),
      EvSign sample_narrowed (Inr sample_sig), EvFetch ''u'' (Some sample_sig) (Inr settled_response),
      EvRecord ''CUSDC'' 120])"
  by (simp add: new_events_def sample_start_def sample_end_def)

section \<open>The properties of the component\<close>

lemma pay_signs_cleared:
  assumes "payExclusively env url m s = (r, s')" and "EvSign c x \<in> set (new_events s s')"
  shows "\<exists>challenge chosen maxA amount.
    c = narrowTo challenge chosen \<and> accepts_of c = [chosen] \<and> parseAmount m = Inr maxA \<and>
    cleared (pe_config env) challenge maxA chosen amount \<and>
    (\<exists>ceiling. map_of (sl_ceilings (ps_ledger s)) (pr_asset chosen) = Some ceiling \<and>
       spentFor (ps_ledger s) (pr_asset chosen) + amount \<le> ceiling)"
  using payExclusively_run [OF assms(1)]
proof (elim disjE exE conjE)
  fix first challenge chosen maxA amount evs e
  assume tr: "ps_trace s' = ps_trace s @ EvFetch url None (Inr first) # evs"
    and run: "paying_run env url m s challenge chosen maxA amount evs e"
  have "EvSign c x \<in> set evs"
    using assms(2) new_events_append [OF tr] by auto
  then have "c = narrowTo challenge chosen"
    using run protocol_signs_narrowed unfolding paying_run_def by blast
  then show ?thesis
    using run unfolding paying_run_def assertWithinCeiling_iff
    by (intro exI [of _ challenge] exI [of _ chosen] exI [of _ maxA] exI [of _ amount])
      (simp add: narrowTo_def accepts_of_def)
qed (use assms(2) in \<open>auto simp: new_events_append\<close>)



text \<open>
  C9 (safety): one call asks for at most three signatures, and asks for another one only
  right after a response to the previous payment in which the facilitator reports that nothing
  was spent. A payment that may have settled is never signed again.
\<close>

theorem pay_retries_only_unspent:
  assumes "payExclusively env url m s = (r, s')"
  shows "length (filter is_sign (new_events s s')) \<le> 3 \<and>
    (\<forall>pre c x post. new_events s s' = pre @ EvSign c x # post \<longrightarrow> filter is_sign pre \<noteq> [] \<longrightarrow>
      (\<exists>h res why. last pre = EvFetch url (Some h) (Inr res) \<and>
         classifySettlement (pe_json env) res = NotSpent why))"
  using payExclusively_run [OF assms]
proof (elim disjE exE conjE)
  fix first challenge chosen maxA amount evs e
  assume tr: "ps_trace s' = ps_trace s @ EvFetch url None (Inr first) # evs"
    and run: "paying_run env url m s challenge chosen maxA amount evs e"
  then have prot: "pay_protocol (pe_json env) url (narrowTo challenge chosen) (pr_asset chosen)
      amount MAX_ATTEMPTS evs e"
    by (simp add: paying_run_def)
  have "\<exists>h res why. last pre = EvFetch url (Some h) (Inr res) \<and>
      classifySettlement (pe_json env) res = NotSpent why"
    if eq: "EvFetch url None (Inr first) # evs = pre @ EvSign c x # post"
      and ne: "filter is_sign pre \<noteq> []"
    for pre c x post
  proof -
    obtain p where p: "pre = EvFetch url None (Inr first) # p" "p \<noteq> []"
      using eq ne by (cases pre; cases "tl pre") auto
    then show ?thesis
      using protocol_retry [OF prot, of p c x post] eq isRetryable_iff_NotSpent
      by (auto simp: retry_evidence_def)
  qed
  then show ?thesis
    using protocol_sign_count [OF prot] new_events_append [OF tr] by (simp add: MAX_ATTEMPTS_def)
qed (auto simp: new_events_append append_eq_Cons_conv Cons_eq_append_conv)

theorem pay_retries_only_unspent_witness:
  "length (filter is_sign (new_events sample_start sample_end)) \<le> 3 \<and>
   (\<exists>why. classifySettlement sample_json unspent_response = NotSpent why)"
proof -
  obtain r where run:
      "payExclusively sample_payer ''u'' (JStr ''200'') sample_start = (Inr r, sample_end)"
    using sample_run by blast
  let ?h = sample_sig
  show ?thesis
    using pay_retries_only_unspent [OF run, THEN conjunct2, rule_format, of "[EvFetch ''u'' None (Inr challenge_response),
         EvSign sample_narrowed (Inr ?h), EvFetch ''u'' (Some ?h) (Inr unspent_response)]"
         sample_narrowed "Inr ?h" "drop 4 (new_events sample_start sample_end)"]
      pay_retries_only_unspent [OF run, THEN conjunct1]
    by (simp add: sample_new_events sample_payer_def)
qed



text \<open>A session: a sequence of tool calls, each run to its end (the mutex admits no other).\<close>

datatype tool_call = QuoteCall string | PayCall string json

fun run_tool :: "payer_env \<Rightarrow> tool_call \<Rightarrow> payer_state \<Rightarrow> payer_state" where
  "run_tool env (QuoteCall url) s = snd (quote env url s)"
| "run_tool env (PayCall url m) s = snd (payExclusively env url m s)"

definition run_session :: "payer_env \<Rightarrow> tool_call list \<Rightarrow> payer_state \<Rightarrow> payer_state" where
  "run_session env calls s = fold (run_tool env) calls s"

definition recorded :: "string \<Rightarrow> pay_event list \<Rightarrow> int" where
  "recorded asset evs =
     sum_list (map (\<lambda>e. case e of EvRecord a x \<Rightarrow> if a = asset then x else 0 | _ \<Rightarrow> 0) evs)"

lemma recorded_append: "recorded asset (xs @ ys) = recorded asset xs + recorded asset ys"
  by (simp add: recorded_def)

lemma recorded_filter: "recorded asset evs = recorded asset (filter is_record evs)"
  by (induction evs) (auto simp: recorded_def split: pay_event.splits)

lemma quote_effects:
  "quote env url s = (r, s') \<Longrightarrow>
   ps_ledger s' = ps_ledger s \<and>
   ps_trace s' = ps_trace s @ [EvFetch url None (pe_fetch env (ps_trace s) url None)]"
  by (auto simp: quote_def payer_steps split: sum.splits if_splits)

lemma pay_effects:
  assumes "payExclusively env url m s = (r, s')" and "within_ceilings (ps_ledger s)"
  shows "within_ceilings (ps_ledger s') \<and> sl_ceilings (ps_ledger s') = sl_ceilings (ps_ledger s) \<and>
    (\<exists>evs. ps_trace s' = ps_trace s @ evs \<and>
      (\<forall>asset. spentFor (ps_ledger s') asset = spentFor (ps_ledger s) asset + recorded asset evs))"
  using payExclusively_run [OF assms(1)]
proof (elim disjE exE conjE)
  fix first challenge chosen maxA amount evs e
  assume tr: "ps_trace s' = ps_trace s @ EvFetch url None (Inr first) # evs"
    and run: "paying_run env url m s challenge chosen maxA amount evs e"
    and l: "if debits e then recordSpend (ps_ledger s) (pr_asset chosen) amount = Inr (ps_ledger s')
       else ps_ledger s' = ps_ledger s"
  have r: "recorded a (EvFetch url None (Inr first) # evs) =
      (if debits e \<and> a = pr_asset chosen then amount else 0)" for a
    using run protocol_records unfolding paying_run_def
    by (subst recorded_filter) (fastforce simp: recorded_def)
  show ?thesis
  proof (cases "debits e")
    case True
    then have rec: "recordSpend (ps_ledger s) (pr_asset chosen) amount = Inr (ps_ledger s')"
      using l by simp
    moreover have "assertWithinCeiling (ps_ledger s) (pr_asset chosen) amount = Inr ()"
      using run by (simp add: paying_run_def)
    ultimately show ?thesis
      using record_within_ceilings [OF assms(2)] ceilings_record [OF rec] spentFor_record [OF rec]
        tr r True by auto
  next
    case False
    then show ?thesis using l tr r assms(2) by auto
  qed
qed (use assms(2) in \<open>auto simp: recorded_def\<close>)

lemma session_step:
  assumes "within_ceilings (ps_ledger s)"
  shows "within_ceilings (ps_ledger (run_tool env c s)) \<and>
    sl_ceilings (ps_ledger (run_tool env c s)) = sl_ceilings (ps_ledger s) \<and>
    (\<exists>evs. ps_trace (run_tool env c s) = ps_trace s @ evs \<and>
      (\<forall>a. spentFor (ps_ledger (run_tool env c s)) a = spentFor (ps_ledger s) a + recorded a evs))"
proof (cases c)
  case (QuoteCall url)
  then show ?thesis
    using quote_effects [of env url s "fst (quote env url s)" "snd (quote env url s)"] assms
    by (auto simp: recorded_def)
next
  case (PayCall url m)
  then show ?thesis
    using pay_effects [of env url m s "fst (payExclusively env url m s)"
        "snd (payExclusively env url m s)"] assms by simp
qed

lemma session_effects:
  "within_ceilings (ps_ledger s) \<Longrightarrow> within_ceilings (ps_ledger (run_session env calls s)) \<and>
    sl_ceilings (ps_ledger (run_session env calls s)) = sl_ceilings (ps_ledger s) \<and>
    (\<exists>evs. ps_trace (run_session env calls s) = ps_trace s @ evs \<and>
      (\<forall>a. spentFor (ps_ledger (run_session env calls s)) a =
         spentFor (ps_ledger s) a + recorded a evs))"
proof (induction calls arbitrary: s)
  case Nil
  then show ?case by (simp add: run_session_def recorded_def)
next
  case (Cons c calls)
  let ?t = "run_tool env c s"
  have step: "run_session env (c # calls) s = run_session env calls ?t"
    by (simp add: run_session_def)
  obtain e1 where e1: "ps_trace ?t = ps_trace s @ e1"
    "\<forall>a. spentFor (ps_ledger ?t) a = spentFor (ps_ledger s) a + recorded a e1"
    "within_ceilings (ps_ledger ?t)" "sl_ceilings (ps_ledger ?t) = sl_ceilings (ps_ledger s)"
    using session_step [OF Cons.prems, of env c] by blast
  obtain e2 where "ps_trace (run_session env calls ?t) = ps_trace ?t @ e2"
    "\<forall>a. spentFor (ps_ledger (run_session env calls ?t)) a = spentFor (ps_ledger ?t) a + recorded a e2"
    using Cons.IH [OF e1(3)] by blast
  then show ?case
    using e1 Cons.IH [OF e1(3)] unfolding step
    by (intro conjI exI [of _ "e1 @ e2"]) (auto simp: recorded_append)
qed

text \<open>
  C6 (invariant): over a whole session of quote and pay calls, against any environment, what the
  ledger holds for an asset is the sum of the amounts recorded for it, and it never exceeds the
  ceiling the session started with. No call changes a ceiling.
\<close>

theorem session_never_exceeds_ceiling:
  assumes "loadConfig cenv = Inr (pe_config env)"
    and "s0 = \<lparr>ps_ledger = createSpendLedger (pc_ceilings (pe_config env)), ps_trace = []\<rparr>"
    and "s = run_session env calls s0"
  shows "sl_ceilings (ps_ledger s) = pc_ceilings (pe_config env) \<and>
    (\<forall>asset c. map_of (pc_ceilings (pe_config env)) asset = Some c \<longrightarrow>
       recorded asset (ps_trace s) = spentFor (ps_ledger s) asset \<and>
       spentFor (ps_ledger s) asset \<le> c)"
proof -
  have "wf_ceilings cenv (pc_ceilings (pe_config env))"
    using loadConfig_wf_config [OF assms(1)] by (simp add: wf_config_def)
  then have "within_ceilings (ps_ledger s0)"
    by (auto simp: assms(2) within_ceilings_def createSpendLedger_def spentFor_def
        wf_ceilings_def list_all_iff dest!: map_of_SomeD)
  moreover have "spentFor (ps_ledger s0) a = 0" for a
    by (simp add: assms(2) createSpendLedger_def spentFor_def)
  ultimately show ?thesis
    using session_effects [of s0 env calls]
    by (auto simp: assms(2,3) within_ceilings_def createSpendLedger_def)
qed

definition session_env :: payer_env where
  "session_env = sample_payer\<lparr>pe_config := loaded_config\<rparr>"

definition session_start :: payer_state where
  "session_start = \<lparr>ps_ledger = createSpendLedger (pc_ceilings loaded_config), ps_trace = []\<rparr>"

theorem session_never_exceeds_ceiling_witness:
  "spentFor (ps_ledger (run_session session_env
     [QuoteCall ''u'', PayCall ''u'' (JStr ''100''), PayCall ''v'' (JStr ''9'')] session_start)) ''CA'' \<le> 5"
  using session_never_exceeds_ceiling [of sample_env session_env session_start
      "run_session session_env [QuoteCall ''u'', PayCall ''u'' (JStr ''100''), PayCall ''v'' (JStr ''9'')]
         session_start"] sample_env_loads
  by (simp add: session_env_def session_start_def loaded_config_def)

text \<open>
  A quote makes exactly one request, without payment headers; it signs nothing and
  leaves the ledger as it was, whatever it returns.
\<close>

theorem quote_is_read_only:
  "ps_ledger (snd (quote env url s)) = ps_ledger s \<and>
   new_events s (snd (quote env url s)) = [EvFetch url None (pe_fetch env (ps_trace s) url None)]"
  using quote_effects [of env url s "fst (quote env url s)" "snd (quote env url s)"]
  by (simp add: new_events_def)

section \<open>quote predicts pay\<close>

lemma selectRequirements_raise:
  assumes "selectRequirements d (o1\<lparr>po_maxAmount := M\<rparr>) c = Inr r"
    and "parseAmount (pr_amount r) = Inr p" and "p \<le> m"
  shows "selectRequirements d (o1\<lparr>po_maxAmount := m\<rparr>) c = Inr r"
  using assms
  by (auto simp: selectRequirements_def Let_def result_splits split: if_splits list.splits)
    (rule exI [of _ p], simp)

lemma clearOneOption_raise:
  assumes "clearOneOption config c M = Inr (chosen, p)" and "p \<le> m"
  shows "clearOneOption config c m = Inr (chosen, p)"
proof -
  let ?o = "\<lambda>x. \<lparr>po_maxAmount = x, po_allowedAssets = Some (pc_allowedAssets config)\<rparr>"
  obtain v i where sel: "selectRequirements (toGuardView c) (?o M) (pc_caip2 config) = Inr v"
    and i: "index_of v (map requirementView (accepts_of c)) = Some i"
    and ch: "chosen = accepts_of c ! i" "parseAmount (pr_amount chosen) = Inr p"
    using assms(1) by (auto simp: clearOneOption_def Let_def result_splits split: option.splits)
  have "v = requirementView chosen"
    using index_of_Some [OF i] ch(1) by auto
  then have "selectRequirements (toGuardView c) (?o m) (pc_caip2 config) = Inr v"
    using selectRequirements_raise [where ?o1.0 = "?o 0" and M = M and m = m and p = p] sel ch(2) assms(2) by simp
  then show ?thesis
    using i ch by (simp add: clearOneOption_def Let_def)
qed

lemma quote_payable:
  assumes "quote env url s = (Inr q, s1)" "qr_requiresPayment q" "qr_payable q"
  obtains first c chosen p rem where "pe_fetch env (ps_trace s) url None = Inr first"
    "rs_status first = 402"
    "ebind (decodePaymentRequired (pe_json env) first) assertV2Challenge = Inr c"
    "clearOneOption (pe_config env) c NO_PRICE_LIMIT = Inr (chosen, p)"
    "qr_selected q = Some (describeOption chosen)"
    "remainingFor (ps_ledger s) (pr_asset chosen) = Inr rem" "p \<le> rem"
  using assms
  by (auto simp: quote_def quoteSelection_def payer_steps result_splits
      split: sum.splits if_splits prod.splits)

text \<open>
  A quote that calls a resource payable is right: in the same situation, a pay
  call whose \<open>max_amount\<close> covers the quoted price signs for the very option the quote selected,
  right after its first request.
\<close>

theorem quote_predicts_pay:
  assumes "quote env url s = (Inr q, s1)" and "qr_requiresPayment q" and "qr_payable q"
    and "qr_selected q = Some opt" and "parseAmount (qo_amount opt) = Inr price"
    and "parseAmount m = Inr maxA" and "price \<le> maxA" and "within_ceilings (ps_ledger s)"
  shows "\<exists>first challenge chosen x evs. describeOption chosen = opt \<and>
    new_events s (snd (payExclusively env url m s)) =
      EvFetch url None (Inr first) # EvSign (narrowTo challenge chosen) x # evs"
proof -
  obtain first c chosen p rem where q: "pe_fetch env (ps_trace s) url None = Inr first"
    "rs_status first = 402"
    "ebind (decodePaymentRequired (pe_json env) first) assertV2Challenge = Inr c"
    "clearOneOption (pe_config env) c NO_PRICE_LIMIT = Inr (chosen, p)"
    "qr_selected q = Some (describeOption chosen)"
    "remainingFor (ps_ledger s) (pr_asset chosen) = Inr rem" "p \<le> rem"
    by (rule quote_payable [OF assms(1-3)])
  have "p = price"
    using clearOneOption_cleared [OF q(4)] q(5) assms(4,5)
    by (auto simp: cleared_def describeOption_def)
  then have clear: "clearOneOption (pe_config env) c maxA = Inr (chosen, p)"
    using clearOneOption_raise [OF q(4)] assms(7) by simp
  have within: "assertWithinCeiling (ps_ledger s) (pr_asset chosen) p = Inr ()"
    using remaining_iff_assert [OF q(6) assms(8)] q(7) by simp
  let ?s1 = "s\<lparr>ps_trace := ps_trace s @ [EvFetch url None (Inr first)]\<rparr>"
  obtain r s' where run: "payAttempts env url c chosen p MAX_ATTEMPTS 1 None ?s1 = (r, s')"
    by fastforce
  have "\<exists>x evs. ps_trace s' = ps_trace ?s1 @ EvSign (narrowTo c chosen) x # evs"
    using first_attempt_signs [OF run [unfolded MAX_ATTEMPTS_def numeral_3_eq_3]] within by simp
  then show ?thesis
    using payExclusively_go [OF assms(6) q(1-3) clear within] run q(5) assms(4)
    by (auto simp: new_events_def) blast
qed

lemma sample_quote:
  "\<exists>q s1. quote sample_payer ''u'' sample_start = (Inr q, s1) \<and> qr_requiresPayment q \<and>
     qr_payable q \<and> qr_selected q = Some (describeOption (sample_option ''CUSDC'' ''120''))"
proof -
  have "clearOneOption sample_config sample_challenge NO_PRICE_LIMIT =
      Inr (sample_option ''CUSDC'' ''120'', 120)"
    by (rule clearOneOption_raise [OF sample_cleared]) (simp add: NO_PRICE_LIMIT_def)
  moreover have "remainingFor (createSpendLedger [(''CUSDC'', 1000)]) ''CUSDC'' = Inr 1000"
    by (simp add: remainingFor_def ceilingFor_def createSpendLedger_def spentFor_def)
  ultimately show ?thesis
    by (simp add: quote_def quoteSelection_def payer_steps sample_payer_def sample_start_def
        sample_challenge_decoded) (simp add: sample_option_def ret_def)
qed

theorem quote_predicts_pay_witness:
  "\<exists>first challenge chosen x evs.
     describeOption chosen = describeOption (sample_option ''CUSDC'' ''120'') \<and>
     new_events sample_start (snd (payExclusively sample_payer ''u'' (JStr ''200'') sample_start)) =
       EvFetch ''u'' None (Inr first) # EvSign (narrowTo challenge chosen) x # evs"
proof -
  obtain q s1 where q: "quote sample_payer ''u'' sample_start = (Inr q, s1)" "qr_requiresPayment q"
    "qr_payable q" "qr_selected q = Some (describeOption (sample_option ''CUSDC'' ''120''))"
    using sample_quote by blast
  show ?thesis
    by (rule quote_predicts_pay [OF q, where price = 120 and maxA = 200])
      (simp_all add: describeOption_def sample_option_def all_digits_def is_digit_def
        digits_val_def digit_val_def within_ceilings_def sample_start_def createSpendLedger_def
        spentFor_def)
qed

section \<open>Completion\<close>

definition sign_count :: "payer_state \<Rightarrow> nat" where
  "sign_count s = length (filter is_sign (ps_trace s))"

text \<open>
  A signer that always signs and a server that answers the \<open>i\<close>th payment with \<open>resp i\<close>: the
  first \<open>k - 1\<close> answers prove nothing was spent, the \<open>k\<close>th is a readable settlement.
\<close>

definition settles_at ::
    "payer_env \<Rightarrow> string \<Rightarrow> payment_required \<Rightarrow> nat \<Rightarrow> (nat \<Rightarrow> response) \<Rightarrow> nat \<Rightarrow> string \<Rightarrow> bool" where
  "settles_at env url narrowed base resp k tx =
     ((\<forall>t. \<exists>h. pe_signPayment env t narrowed = Inr h) \<and>
      (\<forall>t h. pe_fetch env t url (Some h) = Inr (resp (length (filter is_sign t) - base))) \<and>
      (\<forall>i. 1 \<le> i \<and> i < k \<longrightarrow> retry_evidence (pe_json env) (resp i)) \<and>
      rs_status (resp k) < 400 \<and> (\<exists>bs. rs_body (resp k) = Inr bs) \<and>
      (\<exists>p. classifySettlement (pe_json env) (resp k) = Settled tx p))"

lemma settles_answered:
  assumes "settles_at env url (narrowTo c chosen) base resp k tx" and "sign_count s = base + i"
    and "assertWithinCeiling (ps_ledger s) (pr_asset chosen) amount = Inr ()"
  shows "\<exists>h s1. answered env url c chosen amount s h (resp (Suc i)) s1 \<and>
    ps_ledger s1 = ps_ledger s \<and> sign_count s1 = base + Suc i"
proof -
  obtain h where h: "pe_signPayment env (ps_trace s) (narrowTo c chosen) = Inr h"
    using assms(1) unfolding settles_at_def by blast
  have "pe_fetch env (ps_trace s @ [EvSign (narrowTo c chosen) (Inr h)]) url (Some h) = Inr (resp (Suc i))"
    using assms(1,2) by (simp add: settles_at_def sign_count_def)
  then show ?thesis
    using h assms(2,3)
    by (intro exI [of _ h] exI [of _ "s\<lparr>ps_trace := ps_trace s @ [EvSign (narrowTo c chosen) (Inr h),
         EvFetch url (Some h) (Inr (resp (Suc i)))]\<rparr>"])
      (simp add: answered_def sign_count_def)
qed

lemma payAttempts_completes:
  assumes "settles_at env url (narrowTo c chosen) base resp k tx"
    and "assertWithinCeiling (ps_ledger s) (pr_asset chosen) amount = Inr ()"
    and "sign_count s = base + i" and "i < k" and "k \<le> i + n"
  shows "\<exists>p s'. payAttempts env url c chosen amount n (Suc i) why s = (Inr p, s') \<and> py_paid p \<and>
    py_attempts p = Some k \<and> map_option st_transaction (py_settlement p) = Some tx"
  using assms
proof (induction n arbitrary: i s why)
  case 0
  then show ?case by simp
next
  case (Suc n)
  obtain h s1 where ans: "answered env url c chosen amount s h (resp (Suc i)) s1"
    and s1: "ps_ledger s1 = ps_ledger s" "sign_count s1 = base + Suc i"
    using settles_answered [OF Suc.prems(1,3,2)] by blast
  show ?case
  proof (cases "Suc i = k")
    case True
    obtain l' where "recordSpend (ps_ledger s) (pr_asset chosen) amount = Inr l'"
      using recordSpend_after_assert [OF Suc.prems(2)] by blast
    then show ?thesis
      using turn_paid_content [OF ans, where n = n and k = "Suc i" and why = why] Suc.prems(1) True
      unfolding settles_at_def by blast
  next
    case False
    then have "retry_evidence (pe_json env) (resp (Suc i))" and "Suc i < k"
      using Suc.prems(1,4) by (auto simp: settles_at_def)
    then obtain why' where "payAttempts env url c chosen amount (Suc n) (Suc i) why s =
        payAttempts env url c chosen amount n (Suc (Suc i)) why' s1"
      using turn_retry [OF ans] by blast
    then show ?thesis
      using Suc.IH [OF Suc.prems(1), of s1 "Suc i" why'] Suc.prems s1 \<open>Suc i < k\<close> by simp
  qed
qed

text \<open>
  C11 (liveness): a payable challenge is paid: when the price clears the guards and the session
  ceiling, the signer signs, and within three attempts the facilitator answers with a readable
  settlement after answers that prove nothing was spent, \<open>pay\<close> returns the paid result, with the
  settlement's transaction hash and the number of that attempt.
\<close>

theorem pay_completes_within_attempts:
  assumes "parseAmount m = Inr maxA" and "pe_fetch env (ps_trace s) url None = Inr first"
    and "rs_status first = 402"
    and "ebind (decodePaymentRequired (pe_json env) first) assertV2Challenge = Inr c"
    and "clearOneOption (pe_config env) c maxA = Inr (chosen, amount)"
    and "assertWithinCeiling (ps_ledger s) (pr_asset chosen) amount = Inr ()"
    and "settles_at env url (narrowTo c chosen) (sign_count s) resp k tx"
    and "1 \<le> k" and "k \<le> MAX_ATTEMPTS"
  shows "\<exists>p s'. payExclusively env url m s = (Inr p, s') \<and> py_paid p \<and> py_attempts p = Some k \<and>
    map_option st_transaction (py_settlement p) = Some tx"
  using payAttempts_completes [OF assms(7), where i = 0 and n = MAX_ATTEMPTS and amount = amount
      and s = "s\<lparr>ps_trace := ps_trace s @ [EvFetch url None (Inr first)]\<rparr>" and why = None]
    payExclusively_go [OF assms(1-6)] assms(6,8,9)
  by (simp add: sign_count_def)

theorem pay_completes_within_attempts_witness:
  "\<exists>p s'. payExclusively (sample_payer\<lparr>pe_fetch := \<lambda>t url hs. Inr (case hs of
       None \<Rightarrow> challenge_response
     | Some h \<Rightarrow> if length (filter is_sign t) < 3 then unspent_response else settled_response)\<rparr>)
     ''u'' (JStr ''200'') sample_start = (Inr p, s') \<and> py_paid p \<and> py_attempts p = Some 3 \<and>
   map_option st_transaction (py_settlement p) = Some (replicate 64 CHR ''a'')"
proof (rule pay_completes_within_attempts [where maxA = 200 and c = sample_challenge and
      chosen = "sample_option ''CUSDC'' ''120''" and amount = 120 and first = challenge_response and
      resp = "\<lambda>i. if i < 3 then unspent_response else settled_response"])
  show "settles_at (sample_payer\<lparr>pe_fetch := \<lambda>t url hs. Inr (case hs of
       None \<Rightarrow> challenge_response
     | Some h \<Rightarrow> if length (filter is_sign t) < 3 then unspent_response else settled_response)\<rparr>)
     ''u'' (narrowTo sample_challenge (sample_option ''CUSDC'' ''120'')) (sign_count sample_start)
     (\<lambda>i. if i < 3 then unspent_response else settled_response) 3 (replicate 64 CHR ''a'')"
    using sample_unspent settled_response_class
    by (simp add: settles_at_def sample_payer_def sample_start_def sign_count_def
        retry_evidence_def) (simp add: settled_response_def)
qed (simp_all add: sample_payer_def sample_challenge_decoded sample_cleared sample_start_def
    all_digits_def is_digit_def digits_val_def digit_val_def MAX_ATTEMPTS_def
    assertWithinCeiling_iff createSpendLedger_def spentFor_def sample_option_def)

end
