(* ===== verification/Json.thy ===== *)
theory Json
  imports Prelude
begin

text \<open>
  \<open>JSON.stringify\<close> and \<open>JSON.parse\<close>, for documents of one-byte characters: the printer, a
  recursive-descent parser of the JSON grammar, and that the parser reads back what was printed.
  Numbers are read as exact rationals; how a number is printed is an argument of the printer. A
  \<open>\u\<close> escape of a code unit above 255 is outside this character set and is not read.
\<close>

section \<open>Strings\<close>

definition hex_char :: "nat \<Rightarrow> char" where
  "hex_char n = (if n < 10 then char_of (48 + n) else char_of (87 + n))"

definition hex_val :: "char \<Rightarrow> nat option" where
  "hex_val c =
     (let n = (of_char c :: nat) in
      if 48 \<le> n \<and> n \<le> 57 then Some (n - 48)
      else if 97 \<le> n \<and> n \<le> 102 then Some (n - 87)
      else if 65 \<le> n \<and> n \<le> 70 then Some (n - 55) else None)"

text \<open>The one-letter escapes: the letter and the character it stands for.\<close>

definition short_escapes :: "(char \<times> char) list" where
  "short_escapes =
     [(CHR 0x22, CHR 0x22), (CHR 0x5C, CHR 0x5C), (CHR ''/'', CHR ''/''), (CHR ''b'', CHR 0x08),
      (CHR ''f'', CHR 0x0C), (CHR ''n'', CHR 0x0A), (CHR ''r'', CHR 0x0D), (CHR ''t'', CHR 0x09)]"

definition escape_char :: "char \<Rightarrow> string" where
  "escape_char c =
     (if c = CHR 0x22 then [CHR 0x5C, CHR 0x22]
      else if c = CHR 0x5C then [CHR 0x5C, CHR 0x5C]
      else if c = CHR 0x08 then [CHR 0x5C, CHR ''b'']
      else if c = CHR 0x0C then [CHR 0x5C, CHR ''f'']
      else if c = CHR 0x0A then [CHR 0x5C, CHR ''n'']
      else if c = CHR 0x0D then [CHR 0x5C, CHR ''r'']
      else if c = CHR 0x09 then [CHR 0x5C, CHR ''t'']
      else if (of_char c :: nat) < 32 then
        [CHR 0x5C, CHR ''u'', CHR ''0'', CHR ''0'', hex_char (of_char c div 16), hex_char (of_char c mod 16)]
      else [c])"

definition quote_string :: "string \<Rightarrow> string" where
  "quote_string s = CHR 0x22 # concat (map escape_char s) @ [CHR 0x22]"

text \<open>The rest of a string literal after its opening quote, with what follows the literal.\<close>

definition consChar :: "char \<Rightarrow> (string \<times> string) option \<Rightarrow> (string \<times> string) option" where
  "consChar c r = map_option (\<lambda>(s, rest). (c # s, rest)) r"

definition hex4 :: "char \<Rightarrow> char \<Rightarrow> char \<Rightarrow> char \<Rightarrow> char option" where
  "hex4 a b c d =
     (case (hex_val a, hex_val b, hex_val c, hex_val d) of
        (Some w, Some x, Some y, Some z) \<Rightarrow>
          (let n = ((w * 16 + x) * 16 + y) * 16 + z in
           if n < 256 then Some (char_of n) else None)
      | _ \<Rightarrow> None)"

fun string_body :: "string \<Rightarrow> (string \<times> string) option" where
  "string_body [] = None"
| "string_body (c # cs) =
     (if c = CHR 0x22 then Some ([], cs)
      else if c = CHR 0x5C then
        (case cs of
           [] \<Rightarrow> None
         | e # cs' \<Rightarrow>
             if e = CHR ''u'' then
               (case cs' of
                  h1 # h2 # h3 # h4 # cs'' \<Rightarrow>
                    (case hex4 h1 h2 h3 h4 of None \<Rightarrow> None | Some x \<Rightarrow> consChar x (string_body cs''))
                | _ \<Rightarrow> None)
             else
               (case map_of short_escapes e of
                  None \<Rightarrow> None
                | Some x \<Rightarrow> consChar x (string_body cs')))
      else if (of_char c :: nat) < 32 then None
      else consChar c (string_body cs))"

lemma hex_val_hex_char: "n < 16 \<Longrightarrow> hex_val (hex_char n) = Some n"
  by (auto simp: hex_val_def hex_char_def Let_def)

lemma hex_val_0: "hex_val CHR ''0'' = Some 0"
  by (simp add: hex_val_def)

lemma string_body_escape:
  "string_body (escape_char c @ rest) = consChar c (string_body rest)"
proof (cases "(of_char c :: nat) < 32 \<and> c \<notin> {CHR 0x08, CHR 0x0C, CHR 0x0A, CHR 0x0D, CHR 0x09}")
  case True
  then have n: "(of_char c :: nat) < 32" by simp
  have "c \<noteq> CHR 0x22" "c \<noteq> CHR 0x5C" using n by auto
  then have esc: "escape_char c = [CHR 0x5C, CHR ''u'', CHR ''0'', CHR ''0'',
      hex_char (of_char c div 16), hex_char (of_char c mod 16)]"
    unfolding escape_char_def using True by (simp only: if_False if_True insert_iff de_Morgan_disj)
  have "hex4 CHR ''0'' CHR ''0'' (hex_char (of_char c div 16)) (hex_char (of_char c mod 16)) = Some c"
    using n by (simp add: hex4_def hex_val_0 hex_val_hex_char)
  then show ?thesis by (simp add: esc)
next
  case False
  then show ?thesis
    by (auto simp: escape_char_def short_escapes_def)
qed

lemma string_body_escaped:
  "string_body (concat (map escape_char s) @ CHR 0x22 # rest) = Some (s, rest)"
proof (induction s)
  case (Cons c s)
  then show ?case
    by (simp add: string_body_escape consChar_def del: string_body.simps)
qed simp

section \<open>Printing\<close>

fun commas :: "string list \<Rightarrow> string" where
  "commas [] = []"
| "commas [s] = s"
| "commas (s # t # ts) = s @ CHR '','' # commas (t # ts)"

text \<open>
  A property whose value is \<open>undefined\<close> is left out, an array element that is \<open>undefined\<close> is
  printed as \<open>null\<close>.
\<close>

fun stringify :: "(rat \<Rightarrow> string) \<Rightarrow> json \<Rightarrow> string" where
  "stringify num JUndefined = ''null''"
| "stringify num JNull = ''null''"
| "stringify num (JBool b) = (if b then ''true'' else ''false'')"
| "stringify num (JNum q) = num q"
| "stringify num (JStr s) = quote_string s"
| "stringify num (JArr vs) = CHR ''['' # commas (map (stringify num) vs) @ '']''"
| "stringify num (JObj kvs) =
     CHR ''{'' # commas (map (\<lambda>(k, v). quote_string k @ CHR '':'' # stringify num v)
       (filter (\<lambda>(k, v). v \<noteq> JUndefined) kvs)) @ ''}''"

section \<open>Parsing\<close>

definition json_ws :: "char \<Rightarrow> bool" where
  "json_ws c = (c \<in> {CHR '' '', CHR 0x09, CHR 0x0A, CHR 0x0D})"

definition skip_ws :: "string \<Rightarrow> string" where
  "skip_ws = dropWhile json_ws"

fun strip_prefix :: "string \<Rightarrow> string \<Rightarrow> string option" where
  "strip_prefix [] s = Some s"
| "strip_prefix (p # ps) [] = None"
| "strip_prefix (p # ps) (c # cs) = (if p = c then strip_prefix ps cs else None)"

text \<open>The number grammar: sign, integer part without leading zeros, fraction, exponent.\<close>

definition json_exponent :: "string \<Rightarrow> (rat \<times> string) option" where
  "json_exponent s =
     (case s of
        c # cs \<Rightarrow>
          if c = CHR ''e'' \<or> c = CHR ''E'' then
            (let neg = (cs \<noteq> [] \<and> hd cs = CHR ''-'');
                 ds = (if cs \<noteq> [] \<and> (hd cs = CHR ''-'' \<or> hd cs = CHR ''+'') then tl cs else cs);
                 e = takeWhile is_digit ds;
                 p = (10 :: rat) ^ nat (digits_val e) in
             if e = [] then None
             else Some (if neg then 1 / p else p, dropWhile is_digit ds))
          else Some (1, s)
      | [] \<Rightarrow> Some (1, []))"

definition json_fraction :: "string \<Rightarrow> (string \<times> string) option" where
  "json_fraction s =
     (case s of
        c # cs \<Rightarrow>
          if c = CHR ''.'' then
            (if takeWhile is_digit cs = [] then None
             else Some (takeWhile is_digit cs, dropWhile is_digit cs))
          else Some ([], s)
      | [] \<Rightarrow> Some ([], []))"

definition json_number :: "string \<Rightarrow> (rat \<times> string) option" where
  "json_number s =
     (let neg = (s \<noteq> [] \<and> hd s = CHR ''-'');
          t = (if neg then tl s else s);
          ds = takeWhile is_digit t in
      if ds = [] \<or> (1 < length ds \<and> hd ds = CHR ''0'') then None
      else
        (case json_fraction (dropWhile is_digit t) of
           None \<Rightarrow> None
         | Some (fs, r) \<Rightarrow>
             (case json_exponent r of
                None \<Rightarrow> None
              | Some (p, r') \<Rightarrow>
                  (let m = of_int (digits_val (ds @ fs)) / (10 ^ length fs) * p in
                   Some (if neg then - m else m, r')))))"

text \<open>\<open>null\<close>, \<open>true\<close>, \<open>false\<close> and numbers.\<close>

definition json_literal :: "string \<Rightarrow> (json \<times> string) option" where
  "json_literal s =
     (case strip_prefix ''null'' s of
        Some r \<Rightarrow> Some (JNull, r)
      | None \<Rightarrow>
          (case strip_prefix ''true'' s of
             Some r \<Rightarrow> Some (JBool True, r)
           | None \<Rightarrow>
               (case strip_prefix ''false'' s of
                  Some r \<Rightarrow> Some (JBool False, r)
                | None \<Rightarrow> map_option (\<lambda>(q, r). (JNum q, r)) (json_number s))))"

text \<open>Setting a property: a property that exists keeps its place.\<close>

fun jset :: "string \<Rightarrow> json \<Rightarrow> (string \<times> json) list \<Rightarrow> (string \<times> json) list" where
  "jset k v [] = [(k, v)]"
| "jset k v ((k', v') # kvs) = (if k' = k then (k, v) # kvs else (k', v') # jset k v kvs)"

text \<open>
  The parser proper. The first argument bounds the depth of the recursion; every step consumes a
  character, so the length of the text is enough.
\<close>

fun parse_value :: "nat \<Rightarrow> string \<Rightarrow> (json \<times> string) option"
  and parse_elems :: "nat \<Rightarrow> json list \<Rightarrow> string \<Rightarrow> (json \<times> string) option"
  and parse_members :: "nat \<Rightarrow> (string \<times> json) list \<Rightarrow> string \<Rightarrow> (json \<times> string) option" where
  "parse_value 0 s = None"
| "parse_value (Suc n) s =
     (case skip_ws s of
        [] \<Rightarrow> None
      | c # cs \<Rightarrow>
          if c = CHR ''{'' then
            (case strip_prefix ''}'' (skip_ws cs) of
               Some r \<Rightarrow> Some (JObj [], r)
             | None \<Rightarrow> parse_members n [] cs)
          else if c = CHR ''['' then
            (case strip_prefix '']'' (skip_ws cs) of
               Some r \<Rightarrow> Some (JArr [], r)
             | None \<Rightarrow> parse_elems n [] cs)
          else if c = CHR 0x22 then map_option (\<lambda>(t, r). (JStr t, r)) (string_body cs)
          else json_literal (c # cs))"
| "parse_elems 0 acc s = None"
| "parse_elems (Suc n) acc s =
     (case parse_value n s of
        None \<Rightarrow> None
      | Some (v, r) \<Rightarrow>
          (case skip_ws r of
             [] \<Rightarrow> None
           | c # cs \<Rightarrow>
               if c = CHR '','' then parse_elems n (acc @ [v]) cs
               else if c = CHR '']'' then Some (JArr (acc @ [v]), cs)
               else None))"
| "parse_members 0 acc s = None"
| "parse_members (Suc n) acc s =
     (case strip_prefix [CHR 0x22] (skip_ws s) of
        None \<Rightarrow> None
      | Some q \<Rightarrow>
          (case string_body q of
             None \<Rightarrow> None
           | Some (k, r) \<Rightarrow>
               (case strip_prefix '':'' (skip_ws r) of
                  None \<Rightarrow> None
                | Some r1 \<Rightarrow>
                    (case parse_value n r1 of
                       None \<Rightarrow> None
                     | Some (v, r2) \<Rightarrow>
                         (case skip_ws r2 of
                            [] \<Rightarrow> None
                          | c # cs \<Rightarrow>
                              if c = CHR '','' then parse_members n (jset k v acc) cs
                              else if c = CHR ''}'' then Some (JObj (jset k v acc), cs)
                              else None)))))"

definition JSON_parse :: "string \<Rightarrow> json option" where
  "JSON_parse s =
     (case parse_value (Suc (length s)) s of
        Some (v, r) \<Rightarrow> if skip_ws r = [] then Some v else None
      | None \<Rightarrow> None)"

section \<open>Conversions\<close>

text \<open>\<open>String(v)\<close>: an array is its elements with commas, an object a fixed text.\<close>

fun to_string :: "(rat \<Rightarrow> string) \<Rightarrow> json \<Rightarrow> string" where
  "to_string num JUndefined = ''undefined''"
| "to_string num JNull = ''null''"
| "to_string num (JBool b) = (if b then ''true'' else ''false'')"
| "to_string num (JNum q) = num q"
| "to_string num (JStr s) = s"
| "to_string num (JArr vs) =
     commas (map (\<lambda>v. if v = JNull \<or> v = JUndefined then [] else to_string num v) vs)"
| "to_string num (JObj kvs) = ''[object Object]''"

text \<open>\<open>BigInt(v)\<close> of a JSON value; \<open>None\<close> where it throws.\<close>

definition toBigInt :: "(rat \<Rightarrow> string) \<Rightarrow> json \<Rightarrow> int option" where
  "toBigInt num v =
     (case v of
        JStr s \<Rightarrow> BigInt s
      | JNum q \<Rightarrow> if of_int \<lfloor>q\<rfloor> = q then Some \<lfloor>q\<rfloor> else None
      | JBool b \<Rightarrow> Some (if b then 1 else 0)
      | JNull \<Rightarrow> None
      | JUndefined \<Rightarrow> None
      | _ \<Rightarrow> BigInt (to_string num v))"

text \<open>\<open>v == null\<close>, truthiness, and \<open>v ?? d\<close> with a string for \<open>d\<close>.\<close>

definition is_nullish :: "json \<Rightarrow> bool" where
  "is_nullish v = (v = JNull \<or> v = JUndefined)"

fun js_truthy :: "json \<Rightarrow> bool" where
  "js_truthy JUndefined = False"
| "js_truthy JNull = False"
| "js_truthy (JBool b) = b"
| "js_truthy (JNum q) = (q \<noteq> 0)"
| "js_truthy (JStr s) = (s \<noteq> [])"
| "js_truthy v = True"

definition or_else :: "json \<Rightarrow> string \<Rightarrow> json" where
  "or_else v d = (if is_nullish v then JStr d else v)"

section \<open>Round trip\<close>

text \<open>Values without \<open>undefined\<close>, numbers or repeated property names.\<close>

fun printable :: "json \<Rightarrow> bool" where
  "printable JUndefined = False"
| "printable (JNum q) = False"
| "printable (JArr vs) = list_all printable vs"
| "printable (JObj kvs) = (distinct (map fst kvs) \<and> list_all printable (map snd kvs))"
| "printable _ = True"

lemma strip_prefix_append [simp]: "strip_prefix p (p @ s) = Some s"
  by (induction p) auto

lemma skip_ws_Cons: "\<not> json_ws c \<Longrightarrow> skip_ws (c # cs) = c # cs"
  by (simp add: skip_ws_def)

lemma stringify_head:
  assumes "printable v"
  shows "\<exists>c cs. stringify num v = c # cs \<and> \<not> json_ws c \<and> c \<noteq> CHR '']''"
  using assms by (cases v) (auto simp: json_ws_def quote_string_def)

definition print_member :: "(rat \<Rightarrow> string) \<Rightarrow> string \<times> json \<Rightarrow> string" where
  "print_member num = (\<lambda>(k, v). quote_string k @ CHR '':'' # stringify num v)"

lemma stringify_obj:
  assumes "list_all printable (map snd kvs)"
  shows "stringify num (JObj kvs) = CHR ''{'' # commas (map (print_member num) kvs) @ ''}''"
proof -
  have "filter (\<lambda>(k, v). v \<noteq> JUndefined) kvs = kvs"
    using assms by (induction kvs) auto
  then show ?thesis by (simp add: print_member_def)
qed

lemma jset_append: "k \<notin> fst ` set kvs \<Longrightarrow> jset k v kvs = kvs @ [(k, v)]"
  by (induction kvs) auto

text \<open>What the parser does at each kind of separator.\<close>

lemma commas_Cons: "commas (s # ts) = s @ (if ts = [] then [] else CHR '','' # commas ts)"
  by (cases ts) auto

lemma parse_elems_print:
  assumes "list_all printable vs" "vs \<noteq> []"
    and "\<And>v n rest. v \<in> set vs \<Longrightarrow> length (stringify num v) \<le> n \<Longrightarrow>
          parse_value n (stringify num v @ rest) = Some (v, rest)"
    and "length (commas (map (stringify num) vs)) < n"
  shows "parse_elems n acc (commas (map (stringify num) vs) @ CHR '']'' # rest) =
    Some (JArr (acc @ vs), rest)"
  using assms
proof (induction vs arbitrary: n acc)
  case (Cons v vs)
  obtain m where n: "n = Suc m" using Cons.prems(4) by (cases n) auto
  let ?tail = "(if vs = [] then CHR '']'' # rest
    else CHR '','' # commas (map (stringify num) vs) @ CHR '']'' # rest)"
  have "parse_value m (stringify num v @ ?tail) = Some (v, ?tail)"
    using Cons.prems(3) [of v m] Cons.prems(4) n by (simp add: commas_Cons)
  moreover have "commas (map (stringify num) (v # vs)) @ CHR '']'' # rest =
      stringify num v @ ?tail"
    by (simp add: commas_Cons)
  moreover have "parse_elems m (acc @ [v]) (commas (map (stringify num) vs) @ CHR '']'' # rest) =
      Some (JArr ((acc @ [v]) @ vs), rest)" if "vs \<noteq> []"
    by (rule Cons.IH) (use Cons.prems that n in \<open>auto simp: commas_Cons\<close>)
  ultimately show ?case
    using n by (auto simp: skip_ws_def json_ws_def)
qed simp

lemma parse_members_print:
  assumes "list_all printable (map snd kvs)" "kvs \<noteq> []" "distinct (map fst (acc @ kvs))"
    and "\<And>v n rest. v \<in> snd ` set kvs \<Longrightarrow> length (stringify num v) \<le> n \<Longrightarrow>
          parse_value n (stringify num v @ rest) = Some (v, rest)"
    and "length (commas (map (print_member num) kvs)) < n"
  shows "parse_members n acc (commas (map (print_member num) kvs) @ CHR ''}'' # rest) =
    Some (JObj (acc @ kvs), rest)"
  using assms
proof (induction kvs arbitrary: n acc)
  case (Cons kv kvs)
  obtain k v where kv: "kv = (k, v)" by (cases kv)
  obtain m where n: "n = Suc m" using Cons.prems(5) by (cases n) auto
  let ?tail = "(if kvs = [] then CHR ''}'' # rest
    else CHR '','' # commas (map (print_member num) kvs) @ CHR ''}'' # rest)"
  have val: "parse_value m (stringify num v @ ?tail) = Some (v, ?tail)"
    using Cons.prems(4) [of v m] Cons.prems(5) n kv
    by (simp add: commas_Cons print_member_def)
  have text_eq: "commas (map (print_member num) (kv # kvs)) @ CHR ''}'' # rest =
      CHR 0x22 # concat (map escape_char k) @ CHR 0x22 # CHR '':'' # stringify num v @ ?tail"
    by (simp add: commas_Cons print_member_def kv quote_string_def)
  have set_k: "jset k v acc = acc @ [(k, v)]"
    using Cons.prems(3) kv by (auto intro!: jset_append)
  have "parse_members m (acc @ [kv]) (commas (map (print_member num) kvs) @ CHR ''}'' # rest) =
      Some (JObj ((acc @ [kv]) @ kvs), rest)" if "kvs \<noteq> []"
    by (rule Cons.IH) (use Cons.prems that n kv in \<open>auto simp: commas_Cons print_member_def\<close>)
  then show ?case
    unfolding text_eq using n val set_k kv
    by (auto simp: skip_ws_def json_ws_def string_body_escaped del: jset.simps)
qed simp

lemma parse_value_print:
  "printable v \<Longrightarrow> length (stringify num v) \<le> n \<Longrightarrow>
   parse_value n (stringify num v @ rest) = Some (v, rest)"
proof (induction v arbitrary: n rest)
  case JNull
  then show ?case by (cases n) (auto simp: skip_ws_def json_ws_def json_literal_def)
next
  case (JBool b)
  then show ?case by (cases n; cases b) (auto simp: skip_ws_def json_ws_def json_literal_def)
next
  case (JStr t)
  then show ?case
    by (cases n) (auto simp: quote_string_def skip_ws_def json_ws_def string_body_escaped)
next
  case (JArr vs)
  then obtain m where n: "n = Suc m" by (cases n) auto
  show ?case
  proof (cases "vs = []")
    case True
    then show ?thesis using n by (simp add: skip_ws_def json_ws_def)
  next
    case False
    then obtain c cs where head: "commas (map (stringify num) vs) = c # cs" "\<not> json_ws c"
      "c \<noteq> CHR '']''"
      using stringify_head [of "hd vs" num] JArr.prems(1) by (cases vs) (auto simp: commas_Cons)
    have "parse_elems m [] (commas (map (stringify num) vs) @ CHR '']'' # rest) = Some (JArr ([] @ vs), rest)"
      by (rule parse_elems_print) (use JArr False n in \<open>auto simp: list_all_iff\<close>)
    then show ?thesis using n head by (simp add: skip_ws_Cons json_ws_def)
  qed
next
  case (JObj kvs)
  then obtain m where n: "n = Suc m" by (cases n) auto
  have eq: "stringify num (JObj kvs) = CHR ''{'' # commas (map (print_member num) kvs) @ ''}''"
    using JObj.prems(1) by (intro stringify_obj) simp
  show ?case
  proof (cases "kvs = []")
    case True
    then show ?thesis using n by (simp add: skip_ws_def json_ws_def)
  next
    case False
    then obtain cs where head: "commas (map (print_member num) kvs) = CHR 0x22 # cs"
      by (cases kvs) (auto simp: commas_Cons print_member_def quote_string_def)
    have "parse_members m [] (commas (map (print_member num) kvs) @ CHR ''}'' # rest) =
        Some (JObj ([] @ kvs), rest)"
      by (rule parse_members_print)
        (use JObj False n eq in \<open>auto simp: list_all_iff simp del: stringify.simps\<close>)
    then show ?thesis unfolding eq using n head by (simp add: skip_ws_Cons json_ws_def)
  qed
qed simp_all

lemma JSON_roundtrip:
  assumes "printable v"
  shows "JSON_parse (stringify num v) = Some v"
  using parse_value_print [OF assms, of num "Suc (length (stringify num v))" "[]"]
  by (simp add: JSON_parse_def skip_ws_def del: parse_value.simps)

end
