(* ===== verification/PayAndCall.thy ===== *)
theory PayAndCall
  imports PayerProps Json
begin

text \<open>
  Discovery and payment in one call (\<open>packages/mcp-x402-payer/src/pay-and-call.ts\<close>): the filter
  and order of the catalog entries, and the call that searches, selects and pays.

  The search response is untrusted JSON cast to its declared type; the fields the filter compares
  are JSON values. Building the search URL, the search request and decoding its body are the
  fields of \<open>discovery_env\<close>. The search request is logged in the payer's trace.
\<close>

section \<open>The catalog\<close>

record catalog_accept =
  ca_scheme :: json
  ca_network :: json
  ca_amount :: json
  ca_asset :: json
  ca_extra :: json

record catalog_resource =
  ct_resource :: "string option"
  ct_accepts :: "catalog_accept list option"

type_synonym search_response = "catalog_resource list option"

record candidate =
  cd_url :: string
  cd_amount :: int
  cd_asset :: string

text \<open>The body of the inner loop for one option: \<open>None\<close> is \<open>continue\<close>.\<close>

definition optionCandidate ::
    "(rat \<Rightarrow> string) \<Rightarrow> payer_config \<Rightarrow> string \<Rightarrow> catalog_accept \<Rightarrow> candidate option" where
  "optionCandidate num config url a =
     (if ca_network a \<noteq> JStr (pc_caip2 config) then None
      else if ca_scheme a \<noteq> JStr ''exact'' then None
      else (case ca_asset a of
        JStr asset \<Rightarrow>
          if asset = [] \<or> asset \<notin> set (pc_allowedAssets config) then None
          else if jprop (ca_extra a) ''areFeesSponsored'' \<noteq> JBool True then None
          else if ca_amount a = JUndefined then None
          else (case toBigInt num (ca_amount a) of
             None \<Rightarrow> None
           | Some amount \<Rightarrow>
               if amount < 0 then None
               else Some \<lparr>cd_url = url, cd_amount = amount, cd_asset = asset\<rparr>)
      | _ \<Rightarrow> None))"

text \<open>The inner loop with its \<open>break\<close>.\<close>

primrec firstCandidate ::
    "(rat \<Rightarrow> string) \<Rightarrow> payer_config \<Rightarrow> string \<Rightarrow> catalog_accept list \<Rightarrow> candidate option" where
  "firstCandidate num config url [] = None"
| "firstCandidate num config url (a # as) =
     (case optionCandidate num config url a of
        Some c \<Rightarrow> Some c
      | None \<Rightarrow> firstCandidate num config url as)"

definition resourceCandidate ::
    "(rat \<Rightarrow> string) \<Rightarrow> payer_config \<Rightarrow> catalog_resource \<Rightarrow> candidate option" where
  "resourceCandidate num config r =
     (case ct_resource r of
        None \<Rightarrow> None
      | Some url \<Rightarrow>
          if url = [] then None
          else firstCandidate num config url (case ct_accepts r of None \<Rightarrow> [] | Some as \<Rightarrow> as))"

definition compareCandidates :: "candidate \<Rightarrow> candidate \<Rightarrow> int" where
  "compareCandidates x y =
     (if cd_amount x < cd_amount y then -1 else if cd_amount x > cd_amount y then 1 else 0)"

definition selectCandidates ::
    "(rat \<Rightarrow> string) \<Rightarrow> payer_config \<Rightarrow> search_response \<Rightarrow> candidate list \<times> nat" where
  "selectCandidates num config data =
    (let resources = (case data of None \<Rightarrow> [] | Some rs \<Rightarrow> rs) in
     (sort_by compareCandidates (List.map_filter (resourceCandidate num config) resources),
      length resources))"

section \<open>payAndCall\<close>

record discovery_env =
  de_payer :: payer_env
  de_number :: "rat \<Rightarrow> string"
  de_searchUrl :: "string \<Rightarrow> string outcome"
  de_fetch :: "pay_event list \<Rightarrow> string \<Rightarrow> string + response"
  de_decode :: "bytes \<Rightarrow> search_response option option"

record pay_and_call_result =
  pr_result :: pay_result
  pr_selectedUrl :: string
  pr_query :: string
  pr_resultsFound :: nat
  pr_resultsPayable :: nat

primrec anyRoom :: "spend_ledger \<Rightarrow> string list \<Rightarrow> bool outcome" where
  "anyRoom l [] = Inr False"
| "anyRoom l (asset # assets) =
     ebind (remainingFor l asset) (\<lambda>r. if r > 0 then Inr True else anyRoom l assets)"

text \<open>The search inside the \<open>try\<close>; \<open>Some None\<close> is a body that is the JSON value \<open>null\<close>.\<close>

definition searchBazaar :: "discovery_env \<Rightarrow> string \<Rightarrow> search_response option payer" where
  "searchBazaar env url =
     tryCatch
       (andThen (\<lambda>s. let r = de_fetch env (ps_trace s) url in
           (map_sum Thrown id r, log_event (EvFetch url None r) s)) (\<lambda>res.
        if \<not> rs_ok res then throw (Thrown ''the Bazaar returned HTTP'')
        else (case rs_body res of
          Inl m \<Rightarrow> throw (Thrown m)
        | Inr bs \<Rightarrow>
            (case de_decode env bs of
               None \<Rightarrow> throw (Thrown ''SyntaxError'')
             | Some data \<Rightarrow> ret data))))
       (\<lambda>_. throw (Thrown ''could not reach the Bazaar''))"

definition chooseCandidate ::
    "discovery_env \<Rightarrow> search_response \<Rightarrow> int \<Rightarrow> (candidate \<times> nat \<times> nat) outcome" where
  "chooseCandidate env data maxA =
    (let (payable, resultsFound) = selectCandidates (de_number env) (pe_config (de_payer env)) data;
         affordable = filter (\<lambda>c. cd_amount c \<le> maxA) payable in
     case payable of
       [] \<Rightarrow> Inl (Payer (NoPayableResultError resultsFound None))
     | cheapest # _ \<Rightarrow>
         (case affordable of
            [] \<Rightarrow> Inl (Payer (NoPayableResultError resultsFound
                    (Some (cd_amount cheapest, cd_asset cheapest))))
          | chosen # _ \<Rightarrow> Inr (chosen, resultsFound, length affordable)))"

definition payAndCall :: "discovery_env \<Rightarrow> string \<Rightarrow> string \<Rightarrow> pay_and_call_result payer" where
  "payAndCall env query maxAmount =
     (if \<not> all_digits maxAmount then throw (Thrown ''max_amount must be a non-negative integer'')
      else
       andThen (gets ps_ledger) (\<lambda>l.
       andThen (lift (anyRoom l (pc_allowedAssets (pe_config (de_payer env))))) (\<lambda>room.
       if \<not> room then throw (Thrown ''session ceiling exhausted for every allowed asset'')
       else
       andThen (lift (de_searchUrl env query)) (\<lambda>url.
       andThen (searchBazaar env url) (\<lambda>answer.
       case answer of
         None \<Rightarrow> throw JsTypeError
       | Some data \<Rightarrow>
          andThen (lift (chooseCandidate env data (digits_val maxAmount)))
            (\<lambda>(chosen, found, affordable).
          andThen (payExclusively (de_payer env) (cd_url chosen) (JStr maxAmount)) (\<lambda>result.
            ret \<lparr>pr_result = result, pr_selectedUrl = cd_url chosen, pr_query = query,
                 pr_resultsFound = found, pr_resultsPayable = affordable\<rparr>)))))))"

section \<open>The selection\<close>

text \<open>What makes a catalog entry payable, stated apart from the loops.\<close>

definition payable_entry ::
    "(rat \<Rightarrow> string) \<Rightarrow> payer_config \<Rightarrow> catalog_resource \<Rightarrow> candidate \<Rightarrow> bool" where
  "payable_entry num config r c =
     (ct_resource r = Some (cd_url c) \<and> cd_url c \<noteq> [] \<and>
      (\<exists>as a. ct_accepts r = Some as \<and> a \<in> set as \<and>
         ca_network a = JStr (pc_caip2 config) \<and> ca_scheme a = JStr ''exact'' \<and>
         ca_asset a = JStr (cd_asset c) \<and> cd_asset c \<in> set (pc_allowedAssets config) \<and>
         jprop (ca_extra a) ''areFeesSponsored'' = JBool True \<and>
         toBigInt num (ca_amount a) = Some (cd_amount c) \<and> 0 \<le> cd_amount c))"

lemma optionCandidate_Some:
  "optionCandidate num config url a = Some c \<Longrightarrow>
     cd_url c = url \<and> ca_network a = JStr (pc_caip2 config) \<and> ca_scheme a = JStr ''exact'' \<and>
     ca_asset a = JStr (cd_asset c) \<and> cd_asset c \<in> set (pc_allowedAssets config) \<and>
     jprop (ca_extra a) ''areFeesSponsored'' = JBool True \<and>
     toBigInt num (ca_amount a) = Some (cd_amount c) \<and> 0 \<le> cd_amount c"
  by (auto simp: optionCandidate_def split: if_splits json.splits option.splits)

lemma firstCandidate_Some:
  "firstCandidate num config url as = Some c \<Longrightarrow>
   \<exists>a \<in> set as. optionCandidate num config url a = Some c"
  by (induction as) (auto split: option.splits)

lemma resourceCandidate_payable:
  assumes "resourceCandidate num config r = Some c"
  shows "payable_entry num config r c"
proof -
  obtain as a where "ct_resource r = Some (cd_url c)" "cd_url c \<noteq> []" "ct_accepts r = Some as"
      "a \<in> set as" "optionCandidate num config (cd_url c) a = Some c"
    using assms unfolding resourceCandidate_def
    by (auto split: option.splits if_splits dest!: firstCandidate_Some)
      (metis optionCandidate_Some)
  then show ?thesis
    unfolding payable_entry_def using optionCandidate_Some by blast
qed

lemma compareCandidates_orders: "orders_by compareCandidates cd_amount A"
  by (simp add: orders_by_def compareCandidates_def)

lemma selectCandidates_sorted: "sorted (map cd_amount (fst (selectCandidates num config data)))"
  by (simp add: selectCandidates_def Let_def sort_by_sorted [OF compareCandidates_orders])

lemma set_map_filter: "set (List.map_filter f xs) = {y. \<exists>x \<in> set xs. f x = Some y}"
  by (induction xs) (auto simp: List.map_filter_simps split: option.splits)

lemma selectCandidates_set:
  "set (fst (selectCandidates num config data)) =
   {c. \<exists>rs. data = Some rs \<and> (\<exists>r \<in> set rs. resourceCandidate num config r = Some c)}"
  by (auto simp: selectCandidates_def Let_def set_map_filter split: option.splits)

lemma sorted_filter_head:
  assumes "sorted (map f xs)" "filter P xs = x # ys"
  shows "x \<in> set xs \<and> P x \<and> (\<forall>y \<in> set xs. P y \<longrightarrow> f x \<le> f y)"
proof -
  have "sorted (map f (filter P xs))" using assms(1) by (rule sorted_filter)
  then have "\<forall>y \<in> set ys. f x \<le> f y" using assms(2) by simp
  moreover have "set (x # ys) = {y \<in> set xs. P y}" using assms(2) by (metis set_filter)
  ultimately show ?thesis by auto
qed

lemma chooseCandidate_Inr:
  assumes "chooseCandidate env data maxA = Inr (c, found, n)"
  shows "\<exists>rs. data = Some rs \<and>
    (\<exists>r \<in> set rs. resourceCandidate (de_number env) (pe_config (de_payer env)) r = Some c) \<and>
    cd_amount c \<le> maxA \<and> found = length rs \<and>
    (\<forall>r \<in> set rs. \<forall>d. resourceCandidate (de_number env) (pe_config (de_payer env)) r = Some d \<longrightarrow>
       cd_amount d \<le> maxA \<longrightarrow> cd_amount c \<le> cd_amount d)"
proof -
  let ?sel = "selectCandidates (de_number env) (pe_config (de_payer env)) data"
  obtain ys where ys: "filter (\<lambda>c. cd_amount c \<le> maxA) (fst ?sel) = c # ys" and f: "found = snd ?sel"
    using assms by (auto simp: chooseCandidate_def Let_def split: list.splits prod.splits)
  have min: "c \<in> set (fst ?sel) \<and> cd_amount c \<le> maxA \<and>
      (\<forall>d \<in> set (fst ?sel). cd_amount d \<le> maxA \<longrightarrow> cd_amount c \<le> cd_amount d)"
    by (rule sorted_filter_head [OF selectCandidates_sorted ys])
  then obtain rs where rs: "data = Some rs"
    by (auto simp: selectCandidates_set)
  then have "found = length rs" using f by (simp add: selectCandidates_def)
  then show ?thesis using min rs unfolding selectCandidates_set by blast
qed

text \<open>
  Only the first payable option of a resource is considered: a cheaper second option of the same
  resource does not count.
\<close>

lemma first_option_hides_cheaper:
  assumes "optionCandidate num config url a = Some c" "url \<noteq> []"
  shows "resourceCandidate num config \<lparr>ct_resource = Some url, ct_accepts = Some (a # as)\<rparr> = Some c"
  using assms by (simp add: resourceCandidate_def)

text \<open>How the search itself can end.\<close>

lemma searchBazaar_run:
  assumes "searchBazaar env url s = (r, s')"
  shows "s' = log_event (EvFetch url None (de_fetch env (ps_trace s) url)) s \<and>
    (\<forall>a. r = Inr a \<longrightarrow> (\<exists>res bs. de_fetch env (ps_trace s) url = Inr res \<and>
       rs_body res = Inr bs \<and> de_decode env bs = Some a))"
  using assms
  by (auto simp: searchBazaar_def act_defs Let_def split: sum.splits option.splits if_splits)

text \<open>A search that gives no candidate ends the call; one that gives a candidate leads to the payment of its URL.\<close>

abbreviation can_search :: "discovery_env \<Rightarrow> string \<Rightarrow> string \<Rightarrow> payer_state \<Rightarrow> string \<Rightarrow> bool" where
  "can_search env query maxAmount s u \<equiv> all_digits maxAmount \<and> de_searchUrl env query = Inr u \<and>
     anyRoom (ps_ledger s) (pc_allowedAssets (pe_config (de_payer env))) = Inr True"

lemma payAndCall_stops:
  assumes "payAndCall env query maxAmount s = (r, s')" "can_search env query maxAmount s u" "searchBazaar env u s = (a, s1)"
    and "\<nexists>data c found n. a = Inr (Some data) \<and> chooseCandidate env data (digits_val maxAmount) = Inr (c, found, n)"
  shows "(\<exists>e. r = Inl e) \<and> s' = s1"
  using assms by (auto simp: payAndCall_def act_defs split: if_splits sum.splits option.splits)

lemma payAndCall_pays:
  assumes "payAndCall env query maxAmount s = (r, s')" "can_search env query maxAmount s u"
    and "searchBazaar env u s = (Inr (Some data), s1)" "chooseCandidate env data (digits_val maxAmount) = Inr (c, found, n)"
  shows "payExclusively (de_payer env) (cd_url c) (JStr maxAmount) s1 = (map_sum id pr_result r, s')"
  using assms
  by (cases "payExclusively (de_payer env) (cd_url c) (JStr maxAmount) s1")
    (auto simp: payAndCall_def act_defs split: sum.splits)

lemma chosen_is_cheapest:
  assumes "chooseCandidate env data limit = Inr (c, found, n)"
  shows "\<exists>rs entry. data = Some rs \<and> entry \<in> set rs \<and> payable_entry (de_number env) (pe_config (de_payer env)) entry c \<and>
    cd_amount c \<le> limit \<and> (\<forall>e \<in> set rs. \<forall>d. resourceCandidate (de_number env) (pe_config (de_payer env)) e = Some d \<longrightarrow>
      cd_amount d \<le> limit \<longrightarrow> cd_amount c \<le> cd_amount d)"
  using chooseCandidate_Inr [OF assms] resourceCandidate_payable by blast

section \<open>The property of the component\<close>


definition sample_accept :: "string \<Rightarrow> catalog_accept" where
  "sample_accept amount = \<lparr>ca_scheme = JStr ''exact'', ca_network = JStr ''stellar:testnet'',
     ca_amount = JStr amount, ca_asset = JStr ''CUSDC'',
     ca_extra = JObj [(''areFeesSponsored'', JBool True)]\<rparr>"

definition sample_catalog :: "catalog_resource list" where
  "sample_catalog =
     [\<lparr>ct_resource = Some ''a'', ct_accepts = Some [sample_accept ''90'']\<rparr>,
      \<lparr>ct_resource = Some ''b'', ct_accepts = Some [sample_accept ''70'']\<rparr>,
      \<lparr>ct_resource = None, ct_accepts = None\<rparr>]"

definition sample_discovery :: discovery_env where
  "sample_discovery =
     \<lparr>de_payer = sample_payer\<lparr>pe_fetch := (\<lambda>t url hs. Inr settled_response)\<rparr>,
      de_number = (\<lambda>q. []), de_searchUrl = (\<lambda>q. Inr ''search''),
      de_fetch = (\<lambda>t u. Inr settled_response), de_decode = (\<lambda>bs. Some (Some (Some sample_catalog)))\<rparr>"

lemma sample_candidate:
  "url \<noteq> [] \<Longrightarrow> BigInt amount = Some n \<Longrightarrow> 0 \<le> n \<Longrightarrow>
   resourceCandidate num sample_config
     \<lparr>ct_resource = Some url, ct_accepts = Some [sample_accept amount]\<rparr> =
   Some \<lparr>cd_url = url, cd_amount = n, cd_asset = ''CUSDC''\<rparr>"
  by (simp add: resourceCandidate_def optionCandidate_def sample_accept_def sample_config_def
      toBigInt_def)

lemma sample_amounts: "BigInt ''90'' = Some 90" "BigInt ''70'' = Some 70"
  using BigInt_digits [of "''90''"] BigInt_digits [of "''70''"]
  by (simp_all add: all_digits_def is_digit_def digits_val_def digit_val_def)

lemma sample_candidates:
  "List.map_filter (resourceCandidate num sample_config) sample_catalog =
   [\<lparr>cd_url = ''a'', cd_amount = 90, cd_asset = ''CUSDC''\<rparr>,
    \<lparr>cd_url = ''b'', cd_amount = 70, cd_asset = ''CUSDC''\<rparr>]"
proof -
  have "resourceCandidate num sample_config \<lparr>ct_resource = None, ct_accepts = None\<rparr> = None"
    by (simp add: resourceCandidate_def)
  then show ?thesis
    by (simp add: sample_catalog_def List.map_filter_simps sample_candidate sample_amounts)
qed

lemma sample_choice:
  "chooseCandidate sample_discovery (Some sample_catalog) 200 =
   Inr (\<lparr>cd_url = ''b'', cd_amount = 70, cd_asset = ''CUSDC''\<rparr>, 3, 2)"
proof -
  have "selectCandidates num sample_config (Some sample_catalog) =
      ([\<lparr>cd_url = ''b'', cd_amount = 70, cd_asset = ''CUSDC''\<rparr>,
        \<lparr>cd_url = ''a'', cd_amount = 90, cd_asset = ''CUSDC''\<rparr>], 3)" for num
    unfolding selectCandidates_def option.case Let_def sample_candidates
    by (simp add: sort_by_def compareCandidates_def sample_catalog_def)
  then show ?thesis
    by (simp add: chooseCandidate_def sample_discovery_def sample_payer_def)
qed

lemma readContent_returns: "rs_body res = Inr bs \<Longrightarrow> \<exists>c. readContent res n = Inr c"
  by (simp add: readContent_def Let_def)

lemma sample_digits: "all_digits ''200''" "digits_val ''200'' = 200"
  by (simp_all add: all_digits_def is_digit_def digits_val_def digit_val_def)

lemma sample_call_returns: "\<exists>p s'. payAndCall sample_discovery ''q'' ''200'' sample_start = (Inr p, s')"
proof -
  have room: "anyRoom (ps_ledger sample_start) [''CUSDC''] = Inr True"
    by (simp add: sample_start_def createSpendLedger_def remainingFor_def ceilingFor_def spentFor_def)
  have search: "\<exists>s'. searchBazaar sample_discovery ''search'' s = (Inr (Some (Some sample_catalog)), s')" for s
    by (simp add: searchBazaar_def sample_discovery_def act_defs settled_response_def rs_ok_def)
  have pay: "\<exists>p s'. payExclusively (de_payer sample_discovery) url (JStr ''200'') s = (Inr p, s')" for url s
  proof -
    obtain c where "readContent settled_response (pc_maxResponseBytes sample_config) = Inr c"
      using readContent_returns [of settled_response "[]"] by (auto simp: settled_response_def)
    moreover have "rs_status settled_response = 200" by (simp add: settled_response_def)
    ultimately show ?thesis
      by (simp add: payExclusively_def sample_discovery_def sample_payer_def act_defs doFetch_def
          sample_digits)
  qed
  have env: "pc_allowedAssets (pe_config (de_payer sample_discovery)) = [''CUSDC'']"
    "de_searchUrl sample_discovery ''q'' = Inr ''search''"
    by (simp_all add: sample_discovery_def sample_payer_def sample_config_def)
  obtain s1 where "searchBazaar sample_discovery ''search'' sample_start = (Inr (Some (Some sample_catalog)), s1)"
    using search by blast
  moreover obtain p s2 where "payExclusively (de_payer sample_discovery) ''b'' (JStr ''200'') s1 = (Inr p, s2)"
    using pay by blast
  ultimately show ?thesis
    using room env sample_choice
    by (simp add: payAndCall_def act_defs sample_digits del: anyRoom.simps)
qed


end
