(* ===== verification/Budget.thy ===== *)
theory Budget
  imports Ledger
begin

text \<open>
  Attribute-scoped budgets of the x402 client (\<open>src/x402-budget-attributes.ts\<close>): rules that
  bound a payment by merchant, category and time window, with a running total per rule.

  A \<open>Date\<close> is its time value in milliseconds; \<open>getUTCHours\<close> and \<open>getUTCDay\<close> are computed from
  it. Hours and days in a rule are JavaScript numbers (\<open>rat\<close>). A rule object is identified, as
  the tracker's \<open>WeakMap\<close> does, by reference: here by its position in the configured list.
  A tracker other than the in-memory one is code of the host, a function that may throw.
\<close>

record budget_request =
  br_merchant :: string
  br_category :: "string option"
  br_amount :: int
  br_at :: int

record time_window =
  tw_startHourUtc :: "rat option"
  tw_endHourUtc :: "rat option"
  tw_daysUtc :: "rat list option"

record budget_rule =
  bu_merchant :: string
  bu_category :: "string option"
  bu_maxAmount :: int
  bu_window :: "time_window option"
  bu_periodMaxAmount :: "int option"

definition getUTCHours :: "int \<Rightarrow> int" where
  "getUTCHours ms = (ms div 3600000) mod 24"

definition getUTCDay :: "int \<Rightarrow> int" where
  "getUTCDay ms = (4 + ms div 86400000) mod 7"

section \<open>Validation\<close>

definition isInteger :: "rat \<Rightarrow> bool" where
  "isInteger x = (of_int \<lfloor>x\<rfloor> = x)"

definition int_between :: "rat \<Rightarrow> rat \<Rightarrow> rat \<Rightarrow> bool" where
  "int_between lo hi x = (isInteger x \<and> \<not> x < lo \<and> \<not> x > hi)"

definition assertValidWindow :: "time_window option \<Rightarrow> unit outcome" where
  "assertValidWindow w =
     (case w of
        None \<Rightarrow> Inr ()
      | Some win \<Rightarrow>
         ebind (require (\<forall>h. tw_startHourUtc win = Some h \<longrightarrow> int_between 0 23 h)
           (Budget (InvalidBudgetAttributeRuleError ''window.startHourUtc''))) (\<lambda>_.
         ebind (require (\<forall>h. tw_endHourUtc win = Some h \<longrightarrow> int_between 0 23 h)
           (Budget (InvalidBudgetAttributeRuleError ''window.endHourUtc''))) (\<lambda>_.
         require (case tw_daysUtc win of None \<Rightarrow> True | Some ds \<Rightarrow> list_all (int_between 0 6) ds)
           (Budget (InvalidBudgetAttributeRuleError ''window.daysUtc'')))))"

fun assertValidBudgetAttributeRules :: "budget_rule list \<Rightarrow> unit outcome" where
  "assertValidBudgetAttributeRules [] = Inr ()"
| "assertValidBudgetAttributeRules (rule # rules) =
     ebind (require (bu_merchant rule = ''*'' \<or> is_strkey ''GC'' (bu_merchant rule))
       (Budget (InvalidBudgetAttributeRuleError ''merchant''))) (\<lambda>_.
     ebind (require (bu_maxAmount rule > 0)
       (Budget (InvalidBudgetAttributeRuleError ''maxAmount''))) (\<lambda>_.
     ebind (require (\<forall>p. bu_periodMaxAmount rule = Some p \<longrightarrow> p > 0)
       (Budget (InvalidBudgetAttributeRuleError ''periodMaxAmount''))) (\<lambda>_.
     ebind (assertValidWindow (bu_window rule)) (\<lambda>_.
       assertValidBudgetAttributeRules rules))))"

section \<open>Matching\<close>

definition matchesCategory :: "budget_rule \<Rightarrow> budget_request \<Rightarrow> bool" where
  "matchesCategory rule request =
     (case bu_category rule of
        None \<Rightarrow> True
      | Some c \<Rightarrow> c = ''*'' \<or> Some c = br_category request)"

definition matchesWindow :: "time_window option \<Rightarrow> int \<Rightarrow> bool" where
  "matchesWindow w ms =
     (case w of
        None \<Rightarrow> True
      | Some win \<Rightarrow>
          (case tw_daysUtc win of
             None \<Rightarrow> True
           | Some ds \<Rightarrow> of_int (getUTCDay ms) \<in> set ds) \<and>
          (case (tw_startHourUtc win, tw_endHourUtc win) of
             (Some startHour, Some endHour) \<Rightarrow>
               (let hour = of_int (getUTCHours ms) in
                if startHour \<le> endHour then startHour \<le> hour \<and> hour \<le> endHour
                else startHour \<le> hour \<or> hour \<le> endHour)
           | _ \<Rightarrow> True))"

definition rule_matches :: "budget_rule \<Rightarrow> budget_request \<Rightarrow> bool" where
  "rule_matches rule request =
     ((bu_merchant rule = ''*'' \<or> bu_merchant rule = br_merchant request) \<and>
      matchesCategory rule request \<and> matchesWindow (bu_window rule) (br_at request))"

text \<open>The first matching rule, with its position.\<close>

fun find_from :: "nat \<Rightarrow> ('a \<Rightarrow> bool) \<Rightarrow> 'a list \<Rightarrow> (nat \<times> 'a) option" where
  "find_from n P [] = None"
| "find_from n P (x # xs) = (if P x then Some (n, x) else find_from (Suc n) P xs)"

definition matchingBudgetRule ::
    "budget_rule list \<Rightarrow> budget_request \<Rightarrow> (nat \<times> budget_rule) option" where
  "matchingBudgetRule rules request = find_from 0 (\<lambda>rule. rule_matches rule request) rules"

definition evaluateBudgetAttributes :: "budget_rule list \<Rightarrow> budget_request \<Rightarrow> bool" where
  "evaluateBudgetAttributes rules request =
     (if rules = [] then True
      else (case matchingBudgetRule rules request of
        None \<Rightarrow> False
      | Some (i, rule) \<Rightarrow> br_amount request \<le> bu_maxAmount rule))"

section \<open>Enforcement and the tracker\<close>

type_synonym tracker = "nat \<Rightarrow> int outcome"

definition assertBudgetAttributes ::
    "budget_rule list \<Rightarrow> budget_request \<Rightarrow> tracker option \<Rightarrow> unit outcome" where
  "assertBudgetAttributes rules request tracker =
     (if rules = [] then Inr ()
      else (case matchingBudgetRule rules request of
        None \<Rightarrow> Inl (Budget (BudgetAttributeDeniedError NoMatchingRule))
      | Some (i, rule) \<Rightarrow>
          if br_amount request > bu_maxAmount rule then
            Inl (Budget (BudgetAttributeDeniedError (PerPaymentCeiling (bu_maxAmount rule))))
          else (case (bu_periodMaxAmount rule, tracker) of
             (Some periodMax, Some spentOf) \<Rightarrow>
               ebind (spentOf i) (\<lambda>spent.
                 if spent + br_amount request > periodMax
                 then Inl (Budget (BudgetAttributeDeniedError (PeriodCeiling periodMax spent)))
                 else Inr ())
           | _ \<Rightarrow> Inr ())))"

text \<open>\<open>createInMemoryBudgetAttributeTracker\<close>: the \<open>WeakMap\<close> it closes over.\<close>

type_synonym spend_map = "nat \<Rightarrow> int option"

definition createInMemoryBudgetAttributeTracker :: spend_map where
  "createInMemoryBudgetAttributeTracker = (\<lambda>_. None)"

definition tracker_spent :: "spend_map \<Rightarrow> nat \<Rightarrow> int" where
  "tracker_spent m rule = (case m rule of None \<Rightarrow> 0 | Some v \<Rightarrow> v)"

definition tracker_record :: "spend_map \<Rightarrow> nat \<Rightarrow> int \<Rightarrow> spend_map" where
  "tracker_record m rule amount = m(rule \<mapsto> tracker_spent m rule + amount)"

definition memory_tracker :: "spend_map \<Rightarrow> tracker option" where
  "memory_tracker m = Some (\<lambda>rule. Inr (tracker_spent m rule))"

section \<open>Lemmas\<close>

lemma find_from_Some:
  "find_from n P xs = Some (i, x) \<Longrightarrow>
   n \<le> i \<and> i - n < length xs \<and> xs ! (i - n) = x \<and> P x \<and> (\<forall>j < i - n. \<not> P (xs ! j))"
proof (induction xs arbitrary: n)
  case Nil
  then show ?case by simp
next
  case (Cons y ys)
  show ?case
  proof (cases "P y")
    case True
    then show ?thesis using Cons.prems by auto
  next
    case False
    then have IH: "Suc n \<le> i \<and> i - Suc n < length ys \<and> ys ! (i - Suc n) = x \<and> P x \<and>
        (\<forall>j < i - Suc n. \<not> P (ys ! j))"
      using Cons by simp
    then have "i - n = Suc (i - Suc n)" by (simp add: Suc_diff_Suc Suc_le_lessD)
    then show ?thesis using IH False by (auto simp: nth_Cons split: nat.splits)
  qed
qed

lemma find_from_None: "find_from n P xs = None \<longleftrightarrow> (\<forall>x \<in> set xs. \<not> P x)"
  by (induction xs arbitrary: n) auto

lemma matchingBudgetRule_Some:
  "matchingBudgetRule rules req = Some (i, rule) \<Longrightarrow>
   i < length rules \<and> rules ! i = rule \<and> rule_matches rule req \<and>
   (\<forall>j < i. \<not> rule_matches (rules ! j) req)"
  using find_from_Some [of 0 "\<lambda>rule. rule_matches rule req" rules i rule]
  by (simp add: matchingBudgetRule_def)

text \<open>What the enforcement admits: the specification.\<close>

definition budget_admits :: "budget_rule list \<Rightarrow> budget_request \<Rightarrow> (nat \<Rightarrow> int) option \<Rightarrow> bool" where
  "budget_admits rules req spentOf =
     (rules = [] \<or>
      (\<exists>i < length rules. rule_matches (rules ! i) req \<and>
         (\<forall>j < i. \<not> rule_matches (rules ! j) req) \<and> br_amount req \<le> bu_maxAmount (rules ! i) \<and>
         (\<forall>p f. bu_periodMaxAmount (rules ! i) = Some p \<longrightarrow> spentOf = Some f \<longrightarrow>
            f i + br_amount req \<le> p)))"

lemma first_match_unique:
  "i < length rules \<Longrightarrow> rule_matches (rules ! i) req \<Longrightarrow> \<forall>j < i. \<not> rule_matches (rules ! j) req \<Longrightarrow>
   matchingBudgetRule rules req = Some (i, rules ! i)"
proof -
  assume i: "i < length rules" "rule_matches (rules ! i) req"
    "\<forall>j < i. \<not> rule_matches (rules ! j) req"
  then have "matchingBudgetRule rules req \<noteq> None"
    by (auto simp: matchingBudgetRule_def find_from_None)
  then obtain k rule where k: "matchingBudgetRule rules req = Some (k, rule)"
    by auto
  have "k = i"
    using matchingBudgetRule_Some [OF k] i by (metis linorder_neqE_nat)
  then show "matchingBudgetRule rules req = Some (i, rules ! i)"
    using k matchingBudgetRule_Some [OF k] by simp
qed

lemma assertBudgetAttributes_iff:
  "assertBudgetAttributes rules req (map_option (\<lambda>f i. Inr (f i)) spentOf) = Inr () \<longleftrightarrow>
   budget_admits rules req spentOf"
proof (cases "matchingBudgetRule rules req")
  case None
  then have "\<not> rule_matches rule req" if "rule \<in> set rules" for rule
    using that by (auto simp: matchingBudgetRule_def find_from_None)
  then show ?thesis
    using None by (auto simp: assertBudgetAttributes_def budget_admits_def)
next
  case (Some x)
  obtain i rule where x: "x = (i, rule)" by (cases x)
  have i: "i < length rules" "rules ! i = rule" "rule_matches rule req"
    "\<forall>j < i. \<not> rule_matches (rules ! j) req"
    using matchingBudgetRule_Some [of rules req i rule] Some x by auto
  have only: "k = i" if "k < length rules" "rule_matches (rules ! k) req"
    "\<forall>j < k. \<not> rule_matches (rules ! j) req" for k
    using first_match_unique [OF that] Some x by simp
  have "budget_admits rules req spentOf \<longleftrightarrow> br_amount req \<le> bu_maxAmount rule \<and>
     (\<forall>p f. bu_periodMaxAmount rule = Some p \<longrightarrow> spentOf = Some f \<longrightarrow> f i + br_amount req \<le> p)"
  proof
    assume "budget_admits rules req spentOf"
    then obtain k where "k < length rules" "rule_matches (rules ! k) req"
      "\<forall>j < k. \<not> rule_matches (rules ! j) req" and k: "br_amount req \<le> bu_maxAmount (rules ! k)"
      "\<forall>p f. bu_periodMaxAmount (rules ! k) = Some p \<longrightarrow> spentOf = Some f \<longrightarrow> f k + br_amount req \<le> p"
      using i(1) unfolding budget_admits_def by auto
    then have "k = i" by (intro only)
    then show "br_amount req \<le> bu_maxAmount rule \<and>
     (\<forall>p f. bu_periodMaxAmount rule = Some p \<longrightarrow> spentOf = Some f \<longrightarrow> f i + br_amount req \<le> p)"
      using k i(2) by simp
  next
    assume "br_amount req \<le> bu_maxAmount rule \<and>
     (\<forall>p f. bu_periodMaxAmount rule = Some p \<longrightarrow> spentOf = Some f \<longrightarrow> f i + br_amount req \<le> p)"
    then show "budget_admits rules req spentOf"
      unfolding budget_admits_def using i by blast
  qed
  moreover have "rules \<noteq> []" using i by auto
  ultimately show ?thesis
    using Some x by (auto simp: assertBudgetAttributes_def split: option.splits)
qed

section \<open>The in-memory tracker as a spend limiter\<close>

definition period_check :: "budget_rule list \<times> spend_map \<Rightarrow> nat \<Rightarrow> int \<Rightarrow> bool" where
  "period_check s i amount =
     (\<exists>req. matchingBudgetRule (fst s) req = Some (i, fst s ! i) \<and> br_amount req = amount \<and>
        assertBudgetAttributes (fst s) req (memory_tracker (snd s)) = Inr ())"

definition period_charge ::
    "budget_rule list \<times> spend_map \<Rightarrow> nat \<Rightarrow> int \<Rightarrow> budget_rule list \<times> spend_map" where
  "period_charge s i amount = (fst s, tracker_record (snd s) i amount)"

definition period_limit :: "budget_rule list \<times> spend_map \<Rightarrow> nat \<Rightarrow> int option" where
  "period_limit s i = (if i < length (fst s) then bu_periodMaxAmount (fst s ! i) else None)"

lemma tracker_record_spent:
  "tracker_spent (tracker_record m i amount) j = tracker_spent m j + (if j = i then amount else 0)"
  by (simp add: tracker_record_def tracker_spent_def)

lemma period_check_fits:
  assumes "period_check s i amount" "period_limit s i = Some p"
  shows "tracker_spent (snd s) i + amount \<le> p"
proof -
  obtain req where req: "matchingBudgetRule (fst s) req = Some (i, fst s ! i)"
    "br_amount req = amount" "assertBudgetAttributes (fst s) req (memory_tracker (snd s)) = Inr ()"
    using assms(1) by (auto simp: period_check_def)
  have "fst s \<noteq> []"
    using matchingBudgetRule_Some [OF req(1)] by auto
  then show ?thesis
    using req assms(2)
    by (auto simp: assertBudgetAttributes_def memory_tracker_def period_limit_def split: if_splits)
qed

interpretation period: spend_limiter period_check period_charge "\<lambda>s. tracker_spent (snd s)"
    period_limit "\<lambda>_. True"
  by unfold_locales
    (auto simp: period_check_fits period_charge_def tracker_record_spent period_limit_def)

section \<open>The properties of the component\<close>

text \<open>
  \<open>assertBudgetAttributes\<close> admits a payment exactly when no rules are
  configured, or the first rule that matches its merchant, category and time allows the amount
  per payment and, when a tracker is given, on top of what the period has spent. Otherwise it
  throws \<open>BudgetAttributeDeniedError\<close>.
\<close>

theorem budget_enforced_exactly:
  "(assertBudgetAttributes rules req (map_option (\<lambda>f i. Inr (f i)) spentOf) = Inr () \<longleftrightarrow>
      budget_admits rules req spentOf) \<and>
   (\<not> budget_admits rules req spentOf \<longrightarrow>
      (\<exists>why. assertBudgetAttributes rules req (map_option (\<lambda>f i. Inr (f i)) spentOf) =
         Inl (Budget (BudgetAttributeDeniedError why))))"
  using assertBudgetAttributes_iff [of rules req spentOf]
  by (auto simp: assertBudgetAttributes_def split: option.splits)

definition night_rule :: budget_rule where
  "night_rule =
     \<lparr>bu_merchant = ''*'', bu_category = Some ''data'', bu_maxAmount = 50,
      bu_window = Some \<lparr>tw_startHourUtc = Some 22, tw_endHourUtc = Some 6, tw_daysUtc = None\<rparr>,
      bu_periodMaxAmount = Some 120\<rparr>"

definition night_request :: "int \<Rightarrow> budget_request" where
  "night_request amount =
     \<lparr>br_merchant = ''GPAYEE'', br_category = Some ''data'', br_amount = amount,
      br_at = 23 * 3600000\<rparr>"

lemma night_matches: "rule_matches night_rule (night_request a)"
  by (simp add: rule_matches_def night_rule_def night_request_def matchesCategory_def
      matchesWindow_def getUTCHours_def)

theorem budget_enforced_exactly_witness:
  "\<exists>why. assertBudgetAttributes [night_rule] (night_request 45)
      (map_option (\<lambda>f i. Inr (f i)) (Some (\<lambda>_. 100))) =
    Inl (Budget (BudgetAttributeDeniedError why))"
proof -
  have "\<not> budget_admits [night_rule] (night_request 45) (Some (\<lambda>_. 100))"
    by (simp add: budget_admits_def night_matches) (simp add: night_rule_def night_request_def)
  then show ?thesis
    using budget_enforced_exactly [of "[night_rule]" "night_request 45" "Some (\<lambda>_. 100)"] by blast
qed

text \<open>
  For valid hours, the time window with its wrap past midnight is the circular
  interval from the start hour to the end hour: an hour is inside exactly when it is at most as
  many hours after the start as the end is, modulo 24.
\<close>

theorem window_is_circular_interval:
  assumes "0 \<le> a" "a \<le> 23" "0 \<le> b" "b \<le> 23"
  shows "matchesWindow
      (Some \<lparr>tw_startHourUtc = Some (of_int a), tw_endHourUtc = Some (of_int b), tw_daysUtc = None\<rparr>) ms \<longleftrightarrow>
    (getUTCHours ms - a) mod 24 \<le> (b - a) mod 24"
proof -
  define h where "h = getUTCHours ms"
  have h: "0 \<le> h" "h \<le> 23"
    by (auto simp: h_def getUTCHours_def)
  have wrap: "x mod 24 = (if 0 \<le> x then x else x + 24)" if "-24 < x" "x < 24" for x :: int
  proof (cases "0 \<le> x")
    case False
    have "x mod 24 = (x + 24) mod 24" by simp
    also have "\<dots> = x + 24" using False that by (intro mod_pos_pos_trivial) auto
    finally show ?thesis using False by simp
  qed (use that in simp)
  show ?thesis
    using h assms
    by (simp add: matchesWindow_def Let_def flip: h_def) (auto simp: wrap)
qed

theorem window_is_circular_interval_witness:
  "matchesWindow (Some \<lparr>tw_startHourUtc = Some (of_int 22), tw_endHourUtc = Some (of_int 6),
      tw_daysUtc = None\<rparr>) (23 * 3600000)"
  using window_is_circular_interval [of 22 6 "23 * 3600000"] by (simp add: getUTCHours_def)

text \<open>
  Payments in sequence, each admitted by \<open>assertBudgetAttributes\<close> against the in-memory tracker
  and then recorded against its rule, as the client does.
\<close>

fun run_payments :: "budget_rule list \<Rightarrow> spend_map \<Rightarrow> budget_request list \<Rightarrow> spend_map" where
  "run_payments rules m [] = m"
| "run_payments rules m (req # reqs) =
     run_payments rules
       (if assertBudgetAttributes rules req (memory_tracker m) = Inr () then
          (case matchingBudgetRule rules req of
             None \<Rightarrow> m
           | Some (i, rule) \<Rightarrow>
               if bu_periodMaxAmount rule = None then m else tracker_record m i (br_amount req))
        else m) reqs"

lemma run_payments_bounded:
  "i < length rules \<Longrightarrow> bu_periodMaxAmount (rules ! i) = Some p \<Longrightarrow> tracker_spent m i \<le> p \<Longrightarrow>
   tracker_spent (run_payments rules m reqs) i \<le> p"
proof (induction reqs arbitrary: m)
  case Nil
  then show ?case by simp
next
  case (Cons req reqs)
  have step: "tracker_spent (tracker_record m k (br_amount req)) i \<le> p"
    if "assertBudgetAttributes rules req (memory_tracker m) = Inr ()"
      "matchingBudgetRule rules req = Some (k, rule)" for k rule
  proof -
    have "period_check (rules, m) k (br_amount req)"
      using that matchingBudgetRule_Some [OF that(2)] by (auto simp: period_check_def)
    then show ?thesis
      using period.run_bounded [of "(rules, m)" i p "[(k, br_amount req)]"] Cons.prems
      by (simp add: period_limit_def period_charge_def)
  qed
  show ?case
    using Cons.IH Cons.prems step by (auto split: option.splits)
qed



end
