(* ===== verification/AuthEntry.thy ===== *)
theory AuthEntry
  imports Errors Encoding
begin

text \<open>
  What is about to be signed: \<open>src/x402-auth-entry.ts\<close> and the capability rules
  \<open>src/x402-signer-capabilities.ts\<close>.

  The XDR structures are those of the Stellar protocol that the code reads and builds: an
  authorization entry with its credentials and its tree of invocations, and the \<open>ScVal\<close> variants
  the signers construct. Reading an address or a number out of an \<open>ScVal\<close>
  (\<open>Address.fromScVal\<close>, \<open>BigInt(scValToNative(v))\<close>) is code of the Stellar SDK: the fields
  of \<open>xdr_env\<close>, \<open>None\<close> where it throws. Addresses are their strkey strings.
\<close>

section \<open>XDR\<close>

datatype sc_val =
    ScvAddress string
  | ScvBytes bytes
  | ScvSymbol string
  | ScvVec "sc_val list"
  | ScvMap "(sc_val \<times> sc_val) list"
  | ScvI128 int
  | ScvOther string

datatype authorized_fn = ContractFn string string "sc_val list" | OtherFn string

datatype invocation = Invocation (inv_function: authorized_fn) (inv_subs: "invocation list")

record address_credentials =
  ac_address :: string
  ac_nonce :: int
  ac_expirationLedger :: int
  ac_signature :: sc_val

datatype credentials = AddressCreds address_credentials | OtherCreds string

record auth_entry =
  ae_credentials :: credentials
  ae_root :: invocation

record xdr_env =
  xe_address :: "sc_val \<Rightarrow> string option"
  xe_bigint :: "sc_val \<Rightarrow> int option"

section \<open>assertAuthEntryInvocation\<close>

record expected_invocation =
  ei_contract :: string
  ei_functionName :: string
  ei_from :: string
  ei_to :: string
  ei_amount :: int

definition mismatch :: "entry_field \<Rightarrow> string \<Rightarrow> string \<Rightarrow> 'a outcome" where
  "mismatch field expected actual = Inl (AuthEntry (AuthEntryMismatchError field expected actual))"

definition addressOf :: "xdr_env \<Rightarrow> sc_val \<Rightarrow> entry_field \<Rightarrow> string outcome" where
  "addressOf xe v field =
     (case xe_address xe v of
        None \<Rightarrow> mismatch field ''an address'' ''a non-address ScVal''
      | Some a \<Rightarrow> Inr a)"

definition expect :: "entry_field \<Rightarrow> string \<Rightarrow> string \<Rightarrow> unit outcome" where
  "expect field expected actual =
     (if actual \<noteq> expected then mismatch field expected actual else Inr ())"

definition amountOf :: "xdr_env \<Rightarrow> sc_val \<Rightarrow> int \<Rightarrow> int outcome" where
  "amountOf xe v expected =
     (case xe_bigint xe v of
        None \<Rightarrow> mismatch AmountField (show_int expected) ''a non-numeric ScVal''
      | Some n \<Rightarrow> Inr n)"

definition assertAuthEntryInvocation ::
    "xdr_env \<Rightarrow> auth_entry \<Rightarrow> expected_invocation \<Rightarrow> unit outcome" where
  "assertAuthEntryInvocation xe entry expected =
    (let root = ae_root entry in
     case inv_function root of
       OtherFn name \<Rightarrow> mismatch FunctionType ''a contract call'' name
     | ContractFn contract name args \<Rightarrow>
        ebind (expect ContractField (ei_contract expected) contract) (\<lambda>_.
        ebind (expect FunctionField (ei_functionName expected) name) (\<lambda>_.
        case args of
          [a0, a1, a2] \<Rightarrow>
            ebind (addressOf xe a0 FromField) (\<lambda>from.
            ebind (expect FromField (ei_from expected) from) (\<lambda>_.
            ebind (addressOf xe a1 ToField) (\<lambda>to.
            ebind (expect ToField (ei_to expected) to) (\<lambda>_.
            ebind (amountOf xe a2 (ei_amount expected)) (\<lambda>amount.
            ebind (if amount \<noteq> ei_amount expected
                   then mismatch AmountField (show_int (ei_amount expected)) (show_int amount)
                   else Inr ()) (\<lambda>_.
            if inv_subs root \<noteq> []
            then mismatch SubInvocations ''none'' (show_nat (length (inv_subs root)))
            else Inr ()))))))
        | _ \<Rightarrow> mismatch ArgumentCount ''3'' (show_nat (length args)))))"

text \<open>The specification: the entry is the one call that was intended, with nothing below it.\<close>

definition authorises :: "xdr_env \<Rightarrow> auth_entry \<Rightarrow> expected_invocation \<Rightarrow> bool" where
  "authorises xe entry expected =
     (\<exists>a0 a1 a2.
        ae_root entry = Invocation
          (ContractFn (ei_contract expected) (ei_functionName expected) [a0, a1, a2]) [] \<and>
        xe_address xe a0 = Some (ei_from expected) \<and> xe_address xe a1 = Some (ei_to expected) \<and>
        xe_bigint xe a2 = Some (ei_amount expected))"

lemma expect_Inr [simp]: "expect f e a = Inr u \<longleftrightarrow> a = e"
  by (simp add: expect_def mismatch_def)

lemma addressOf_Inr [simp]: "addressOf xe v f = Inr a \<longleftrightarrow> xe_address xe v = Some a"
  by (auto simp: addressOf_def mismatch_def split: option.splits)

lemma amountOf_Inr [simp]: "amountOf xe v e = Inr n \<longleftrightarrow> xe_bigint xe v = Some n"
  by (auto simp: amountOf_def mismatch_def split: option.splits)

lemma mismatch_not_Inr [simp]: "mismatch f e a \<noteq> Inr x"
  by (simp add: mismatch_def)

lemma assertAuthEntryInvocation_iff:
  "assertAuthEntryInvocation xe entry expected = Inr () \<longleftrightarrow> authorises xe entry expected"
  by (cases "ae_root entry"; cases "inv_function (ae_root entry)")
    (auto simp: assertAuthEntryInvocation_def authorises_def result_splits Let_def
      split: list.splits if_splits)

section \<open>Capability rules\<close>

record capability_rule =
  cr_resourceType :: string
  cr_action :: string

type_synonym capability_request = capability_rule

fun assertValidCapabilityRules :: "capability_rule list \<Rightarrow> unit outcome" where
  "assertValidCapabilityRules [] = Inr ()"
| "assertValidCapabilityRules (rule # rules) =
     ebind (require (cr_resourceType rule = ''*'' \<or> is_strkey ''C'' (cr_resourceType rule))
       (Capability (InvalidCapabilityRuleError ''resourceType''))) (\<lambda>_.
     ebind (require (cr_action rule = ''*'' \<or>
         (1 \<le> length (cr_action rule) \<and> length (cr_action rule) \<le> 32 \<and>
          list_all is_symbol_char (cr_action rule)))
       (Capability (InvalidCapabilityRuleError ''action''))) (\<lambda>_.
       assertValidCapabilityRules rules))"

definition evaluateCapability :: "capability_rule list \<Rightarrow> capability_request \<Rightarrow> bool" where
  "evaluateCapability rules request =
     (if rules = [] then True
      else list_ex (\<lambda>rule.
        (cr_resourceType rule = ''*'' \<or> cr_resourceType rule = cr_resourceType request) \<and>
        (cr_action rule = ''*'' \<or> cr_action rule = cr_action request)) rules)"

definition assertCapability :: "capability_rule list \<Rightarrow> capability_request \<Rightarrow> unit outcome" where
  "assertCapability rules request =
     require (evaluateCapability rules request)
       (Capability (CapabilityDeniedError (cr_action request) (cr_resourceType request)
         (length rules)))"

lemma evaluateCapability_iff:
  "evaluateCapability rules request \<longleftrightarrow>
   rules = [] \<or> (\<exists>rule \<in> set rules.
      cr_resourceType rule \<in> {''*'', cr_resourceType request} \<and> cr_action rule \<in> {''*'', cr_action request})"
  by (auto simp: evaluateCapability_def list_ex_iff)

section \<open>The properties of the component\<close>

text \<open>
  \<open>assertAuthEntryInvocation\<close> accepts an entry exactly when its root is the
  intended contract call with the intended payer, recipient and amount as its three arguments
  and nothing is invoked below it. Anything else is refused with \<open>AuthEntryMismatchError\<close>.
\<close>

theorem auth_entry_exact:
  "(assertAuthEntryInvocation xe entry expected = Inr () \<longleftrightarrow> authorises xe entry expected) \<and>
   (\<not> authorises xe entry expected \<longrightarrow>
      (\<exists>field e a. assertAuthEntryInvocation xe entry expected =
         Inl (AuthEntry (AuthEntryMismatchError field e a))))"
proof -
  have "\<exists>field e a. assertAuthEntryInvocation xe entry expected =
      Inl (AuthEntry (AuthEntryMismatchError field e a))"
    if "assertAuthEntryInvocation xe entry expected \<noteq> Inr ()"
    using that
    by (auto simp: assertAuthEntryInvocation_def Let_def ebind_def mismatch_def expect_def
        addressOf_def amountOf_def
        split: authorized_fn.splits list.splits if_splits sum.splits option.splits)
  then show ?thesis
    using assertAuthEntryInvocation_iff by blast
qed

definition sample_xdr :: xdr_env where
  "sample_xdr =
     \<lparr>xe_address = (\<lambda>v. case v of ScvAddress a \<Rightarrow> Some a | _ \<Rightarrow> None),
      xe_bigint = (\<lambda>v. case v of ScvI128 n \<Rightarrow> Some n | _ \<Rightarrow> None)\<rparr>"

definition sample_expected :: expected_invocation where
  "sample_expected =
     \<lparr>ei_contract = ''CUSDC'', ei_functionName = ''transfer'', ei_from = ''CWALLET'',
      ei_to = ''GPAYEE'', ei_amount = 120\<rparr>"

definition transfer_entry :: "string \<Rightarrow> string \<Rightarrow> string \<Rightarrow> int \<Rightarrow> auth_entry" where
  "transfer_entry contract from to amount =
     \<lparr>ae_credentials = AddressCreds \<lparr>ac_address = from, ac_nonce = 7, ac_expirationLedger = 0,
        ac_signature = ScvVec []\<rparr>,
      ae_root = Invocation (ContractFn contract ''transfer''
        [ScvAddress from, ScvAddress to, ScvI128 amount]) []\<rparr>"

theorem auth_entry_exact_witness:
  "\<exists>field e a. assertAuthEntryInvocation sample_xdr
      (transfer_entry ''CUSDC'' ''CWALLET'' ''GTHIEF'' 120) sample_expected =
     Inl (AuthEntry (AuthEntryMismatchError field e a))"
proof -
  have "\<not> authorises sample_xdr (transfer_entry ''CUSDC'' ''CWALLET'' ''GTHIEF'' 120) sample_expected"
    by (simp add: authorises_def sample_xdr_def transfer_entry_def sample_expected_def)
  then show ?thesis
    using auth_entry_exact [of sample_xdr "transfer_entry ''CUSDC'' ''CWALLET'' ''GTHIEF'' 120"
        sample_expected] by blast
qed

end
