(* ===== verification/Signer.thy ===== *)
theory Signer
  imports AuthEntry "HOL-Library.List_Lexorder"
begin

text \<open>
  The smart-account signers (\<open>src/x402-signer.ts\<close>): the raw \<open>ScVal\<close> builders, the signature map
  with its policy co-signers, the audit hook and the two signers built on them.

  XDR encoding, hashing of the authorization preimage, the key pair and the WebAuthn ceremony are
  code of the Stellar SDK and of the host: the fields of \<open>signer_env\<close>. \<open>signAuthEntry\<close> is an
  action on the audit trail, the list of the events the hook received; the hook itself is the
  host's and may throw. The statements after the \<open>try\<close> of each signer cannot be reached (the
  \<open>try\<close> returns and its \<open>catch\<close> throws), so the model ends where the code does.

  The locale \<open>x402_signer\<close> is the contract of \<open>SmartAccountX402Signer\<close> the client relies on;
  both signers interpret it.
\<close>

section \<open>Audit events and environment\<close>

datatype signer_action = Authorize | Deny

record signer_event =
  sv_action :: signer_action
  sv_actor :: string
  sv_success :: bool
  sv_networkPassphrase :: string
  sv_error :: "js_error option"

type_synonym 'a audited = "(signer_event list, js_error, 'a) act"

record webauthn_assertion =
  wa_authenticatorData :: bytes
  wa_clientDataJSON :: bytes
  wa_signature :: bytes
  wa_keyId :: bytes

record signer_env =
  se_fromXDR :: "string \<Rightarrow> auth_entry option"
  se_toXDR :: "auth_entry \<Rightarrow> string"
  se_payload :: "auth_entry \<Rightarrow> int \<Rightarrow> string \<Rightarrow> bytes"
  se_addressBytes :: "string \<Rightarrow> bytes option"
  se_keypair :: "string \<Rightarrow> (bytes \<times> (bytes \<Rightarrow> bytes)) option"
  se_webAuthn :: "signer_event list \<Rightarrow> bytes \<Rightarrow> string + webauthn_assertion"
  se_hook :: "(signer_event list \<Rightarrow> signer_event \<Rightarrow> string option) option"

section \<open>ScVal builders\<close>

definition ed25519SignerKey :: "bytes \<Rightarrow> sc_val" where
  "ed25519SignerKey rawPk = ScvVec [ScvSymbol ''Ed25519'', ScvBytes rawPk]"

definition ed25519Signature :: "bytes \<Rightarrow> sc_val" where
  "ed25519Signature sig = ScvVec [ScvSymbol ''Ed25519'', ScvBytes sig]"

definition secp256r1SignerKey :: "bytes \<Rightarrow> sc_val" where
  "secp256r1SignerKey keyId = ScvVec [ScvSymbol ''Secp256r1'', ScvBytes keyId]"

definition secp256r1Signature :: "webauthn_assertion \<Rightarrow> sc_val" where
  "secp256r1Signature a =
     ScvVec [ScvSymbol ''Secp256r1'',
       ScvMap [(ScvSymbol ''authenticator_data'', ScvBytes (wa_authenticatorData a)),
               (ScvSymbol ''client_data_json'', ScvBytes (wa_clientDataJSON a)),
               (ScvSymbol ''signature'', ScvBytes (wa_signature a))]]"

definition policySignerKey :: "string \<Rightarrow> sc_val" where
  "policySignerKey policy = ScvVec [ScvSymbol ''Policy'', ScvAddress policy]"

definition policySignature :: sc_val where
  "policySignature = ScvVec [ScvSymbol ''Policy'']"

section \<open>The shared core\<close>

definition isContractAddress :: "string \<Rightarrow> bool" where
  "isContractAddress address = (startsWith address ''C'' \<and> length address = 56)"

definition assertEntryAddress :: "auth_entry \<Rightarrow> string \<Rightarrow> address_credentials outcome" where
  "assertEntryAddress entry expected =
     (case ae_credentials entry of
        OtherCreds name \<Rightarrow> Inl (Thrown (''x402 signer expects V1 sorobanCredentialsAddress, got '' @ name))
      | AddressCreds c \<Rightarrow>
          if ac_address c \<noteq> expected then
            Inl (Thrown (''auth entry credential address '' @ ac_address c @
                 '' does not match signer address '' @ expected))
          else Inr c)"

text \<open>\<open>payloadHashForEntry\<close>: sets the expiration on the entry, then hashes its preimage.\<close>

definition payloadHashForEntry ::
    "signer_env \<Rightarrow> auth_entry \<Rightarrow> string \<Rightarrow> int \<Rightarrow> (auth_entry \<times> bytes) outcome" where
  "payloadHashForEntry env entry networkPassphrase expirationLedger =
     (case ae_credentials entry of
        OtherCreds name \<Rightarrow> Inl (Thrown (''x402 signer expects V1 sorobanCredentialsAddress, got '' @ name))
      | AddressCreds c \<Rightarrow>
         (let e = entry\<lparr>ae_credentials := AddressCreds (c\<lparr>ac_expirationLedger := expirationLedger\<rparr>)\<rparr> in
          Inr (e, se_payload env e expirationLedger networkPassphrase)))"

definition capabilityRequestFor :: "auth_entry \<Rightarrow> capability_request option" where
  "capabilityRequestFor entry =
     (case inv_function (ae_root entry) of
        OtherFn name \<Rightarrow> None
      | ContractFn contract name args \<Rightarrow> Some \<lparr>cr_resourceType = contract, cr_action = name\<rparr>)"

text \<open>Byte-wise comparison: the first differing byte, then the length.\<close>

fun compareBytes :: "bytes \<Rightarrow> bytes \<Rightarrow> int" where
  "compareBytes (a # as) (b # bs) =
     (let diff = int a - int b in if diff \<noteq> 0 then diff else compareBytes as bs)"
| "compareBytes as bs = int (length as) - int (length bs)"

definition comparePolicyAddresses :: "signer_env \<Rightarrow> string \<Rightarrow> string \<Rightarrow> int" where
  "comparePolicyAddresses env a b =
     compareBytes (the (se_addressBytes env a)) (the (se_addressBytes env b))"

text \<open>
  \<open>setSignatureMap\<close>. Decoding a malformed policy address throws, in the comparator or in
  \<open>policySignerKey\<close>.
\<close>

definition signatureMap :: "signer_env \<Rightarrow> sc_val \<Rightarrow> sc_val \<Rightarrow> string list \<Rightarrow> sc_val" where
  "signatureMap env signerKey signature policies =
     ScvVec [ScvMap ((signerKey, signature) #
       map (\<lambda>p. (policySignerKey p, policySignature))
         (sort_by (comparePolicyAddresses env) policies))]"

definition setSignatureMap ::
    "signer_env \<Rightarrow> auth_entry \<Rightarrow> sc_val \<Rightarrow> sc_val \<Rightarrow> string list \<Rightarrow> auth_entry outcome" where
  "setSignatureMap env entry signerKey signature policies =
     (if list_ex (\<lambda>p. se_addressBytes env p = None) policies then Inl (Thrown ''Unsupported address'')
      else (case ae_credentials entry of
        OtherCreds name \<Rightarrow> Inl (Thrown ''address not set'')
      | AddressCreds c \<Rightarrow>
          Inr (entry\<lparr>ae_credentials := AddressCreds
            (c\<lparr>ac_signature := signatureMap env signerKey signature policies\<rparr>)\<rparr>)))"

definition fire ::
    "signer_env \<Rightarrow> string \<Rightarrow> signer_action \<Rightarrow> bool \<Rightarrow> string \<Rightarrow> js_error option \<Rightarrow> unit audited" where
  "fire env actor action success networkPassphrase err = (\<lambda>trail.
     case se_hook env of
       None \<Rightarrow> (Inr (), trail)
     | Some hook \<Rightarrow>
        (let ev = \<lparr>sv_action = action, sv_actor = actor, sv_success = success,
               sv_networkPassphrase = networkPassphrase, sv_error = err\<rparr> in
         case hook trail ev of
           None \<Rightarrow> (Inr (), trail @ [ev])
         | Some m \<Rightarrow> (Inl (Thrown m), trail @ [ev])))"

text \<open>The \<open>try\<close> and \<open>catch\<close> both signers share around the signing itself.\<close>

definition auditedSign ::
    "signer_env \<Rightarrow> string \<Rightarrow> string \<Rightarrow> (signer_event list \<Rightarrow> string outcome) \<Rightarrow> string audited" where
  "auditedSign env actor networkPassphrase body =
     tryCatch
       (andThen (\<lambda>trail. (body trail, trail)) (\<lambda>signed.
        andThen (fire env actor Authorize True networkPassphrase None) (\<lambda>_. ret signed)))
       (\<lambda>err. andThen (fire env actor Deny False networkPassphrase (Some err)) (\<lambda>_. throw err))"

section \<open>The two signers\<close>

record x402_signer_rec =
  sg_address :: string
  sg_signAuthEntry :: "string \<Rightarrow> string \<Rightarrow> int \<Rightarrow> string audited"

record session_key_config =
  sk_address :: string
  sk_secretKey :: string
  sk_policies :: "string list"
  sk_capabilities :: "capability_rule list"

definition sessionKeySign ::
    "signer_env \<Rightarrow> string \<Rightarrow> bytes \<Rightarrow> (bytes \<Rightarrow> bytes) \<Rightarrow> string list \<Rightarrow> string \<Rightarrow> string \<Rightarrow> int \<Rightarrow>
     string audited" where
  "sessionKeySign env address rawPk sign policies entryXdr networkPassphrase expirationLedger =
     auditedSign env address networkPassphrase (\<lambda>_.
       case se_fromXDR env entryXdr of
         None \<Rightarrow> Inl (Thrown ''XDR'')
       | Some entry \<Rightarrow>
          ebind (assertEntryAddress entry address) (\<lambda>_.
          ebind (payloadHashForEntry env entry networkPassphrase expirationLedger) (\<lambda>(e, payload).
          ebind (setSignatureMap env e (ed25519SignerKey rawPk) (ed25519Signature (sign payload))
            policies) (\<lambda>signed. Inr (se_toXDR env signed)))))"

definition createSessionKeySigner ::
    "signer_env \<Rightarrow> session_key_config \<Rightarrow> x402_signer_rec outcome" where
  "createSessionKeySigner env config =
     (case se_keypair env (sk_secretKey config) of
        None \<Rightarrow> Inl (Thrown ''invalid secret'')
      | Some (rawPk, sign) \<Rightarrow>
         ebind (require (isContractAddress (sk_address config))
           (Thrown ''session-key signer address must be a contract'')) (\<lambda>_.
         ebind (require (list_all isContractAddress (sk_policies config))
           (Thrown ''policy address must be a contract'')) (\<lambda>_.
         ebind (assertValidCapabilityRules (sk_capabilities config)) (\<lambda>_.
           Inr \<lparr>sg_address = sk_address config,
                sg_signAuthEntry =
                  sessionKeySign env (sk_address config) rawPk sign (sk_policies config)\<rparr>))))"

record passkey_config =
  pk_address :: string
  pk_policies :: "string list"
  pk_capabilities :: "capability_rule list"

definition passkeySign ::
    "signer_env \<Rightarrow> string \<Rightarrow> string list \<Rightarrow> string \<Rightarrow> string \<Rightarrow> int \<Rightarrow> string audited" where
  "passkeySign env address policies entryXdr networkPassphrase expirationLedger =
     auditedSign env address networkPassphrase (\<lambda>trail.
       case se_fromXDR env entryXdr of
         None \<Rightarrow> Inl (Thrown ''XDR'')
       | Some entry \<Rightarrow>
          ebind (assertEntryAddress entry address) (\<lambda>_.
          ebind (payloadHashForEntry env entry networkPassphrase expirationLedger) (\<lambda>(e, payload).
          ebind (map_sum Thrown id (se_webAuthn env trail payload)) (\<lambda>assertion.
          ebind (setSignatureMap env e (secp256r1SignerKey (wa_keyId assertion))
            (secp256r1Signature assertion) policies) (\<lambda>signed. Inr (se_toXDR env signed))))))"

definition createPasskeyX402Signer :: "signer_env \<Rightarrow> passkey_config \<Rightarrow> x402_signer_rec outcome" where
  "createPasskeyX402Signer env config =
     ebind (require (isContractAddress (pk_address config))
       (Thrown ''passkey signer address must be a contract'')) (\<lambda>_.
     ebind (assertValidCapabilityRules (pk_capabilities config)) (\<lambda>_.
       Inr \<lparr>sg_address = pk_address config,
            sg_signAuthEntry = passkeySign env (pk_address config) (pk_policies config)\<rparr>))"

section \<open>The contract of a signer\<close>

text \<open>
  What a signed entry is: the entry that was handed over, for the signer's own address, with the
  requested expiration and a signature. Its invocation and nonce are untouched.
\<close>

definition signed_form :: "auth_entry \<Rightarrow> string \<Rightarrow> int \<Rightarrow> auth_entry \<Rightarrow> bool" where
  "signed_form entry address expirationLedger signed =
     (\<exists>c sig. ae_credentials entry = AddressCreds c \<and> ac_address c = address \<and>
        signed = entry\<lparr>ae_credentials :=
          AddressCreds (c\<lparr>ac_expirationLedger := expirationLedger, ac_signature := sig\<rparr>)\<rparr>)"

locale x402_signer =
  fixes address :: string
    and sign :: "string \<Rightarrow> string \<Rightarrow> int \<Rightarrow> ('s, js_error, string) act"
    and fromXDR :: "string \<Rightarrow> auth_entry option"
    and toXDR :: "auth_entry \<Rightarrow> string"
  assumes sign_contract: "sign entryXdr pass expiration s = (Inr signedXdr, s') \<Longrightarrow>
    \<exists>entry signed. fromXDR entryXdr = Some entry \<and> signed_form entry address expiration signed \<and>
      signedXdr = toXDR signed"
begin

text \<open>When XDR decoding inverts encoding, what comes back authorises what was handed over.\<close>

lemma signed_authorises:
  assumes "\<And>e. fromXDR (toXDR e) = Some e" and "authorises xe entry expected"
    and "sign (toXDR entry) pass expiration s = (Inr signedXdr, s')"
  shows "\<exists>signed. fromXDR signedXdr = Some signed \<and> authorises xe signed expected \<and>
    signed_form entry address expiration signed"
proof -
  obtain signed where "signed_form entry address expiration signed" "signedXdr = toXDR signed"
    using sign_contract [OF assms(3)] assms(1) by auto
  moreover from this(1) have "ae_root signed = ae_root entry"
    by (auto simp: signed_form_def)
  ultimately show ?thesis
    using assms(1,2) by (auto simp: authorises_def)
qed

end

lemma assertEntryAddress_Inr [simp]:
  "assertEntryAddress entry a = Inr c \<longleftrightarrow> ae_credentials entry = AddressCreds c \<and> ac_address c = a"
  by (auto simp: assertEntryAddress_def split: credentials.splits)

lemma payloadHashForEntry_Inr:
  "payloadHashForEntry env entry pass ex = Inr (e, payload) \<longleftrightarrow>
   (\<exists>c. ae_credentials entry = AddressCreds c \<and>
      e = entry\<lparr>ae_credentials := AddressCreds (c\<lparr>ac_expirationLedger := ex\<rparr>)\<rparr> \<and>
      payload = se_payload env e ex pass)"
  by (auto simp: payloadHashForEntry_def Let_def split: credentials.splits)

lemma setSignatureMap_Inr:
  "setSignatureMap env entry k v ps = Inr e \<longleftrightarrow>
   (\<forall>p \<in> set ps. se_addressBytes env p \<noteq> None) \<and>
   (\<exists>c. ae_credentials entry = AddressCreds c \<and>
      e = entry\<lparr>ae_credentials := AddressCreds (c\<lparr>ac_signature := signatureMap env k v ps\<rparr>)\<rparr>)"
  by (auto simp: setSignatureMap_def list_ex_iff split: credentials.splits)

lemma auditedSign_Inr:
  "auditedSign env actor pass body trail = (Inr signed, trail') \<Longrightarrow>
   body trail = Inr signed \<and>
   (se_hook env = None \<and> trail' = trail \<or>
    (\<exists>ev. trail' = trail @ [ev] \<and> sv_action ev = Authorize \<and> sv_success ev \<and> sv_actor ev = actor))"
  by (auto simp: auditedSign_def act_defs fire_def Let_def split: sum.splits option.splits)

lemma sessionKeySign_Inr:
  assumes "sessionKeySign env address rawPk sign policies entryXdr pass ex trail = (Inr y, trail')"
  obtains entry c e where "se_fromXDR env entryXdr = Some entry"
    "ae_credentials entry = AddressCreds c" "ac_address c = address"
    "e = entry\<lparr>ae_credentials := AddressCreds (c\<lparr>ac_expirationLedger := ex\<rparr>)\<rparr>"
    "y = se_toXDR env (entry\<lparr>ae_credentials := AddressCreds (c\<lparr>ac_expirationLedger := ex,
       ac_signature := signatureMap env (ed25519SignerKey rawPk)
         (ed25519Signature (sign (se_payload env e ex pass))) policies\<rparr>)\<rparr>)"
  using auditedSign_Inr [OF assms [unfolded sessionKeySign_def]]
  by (auto simp: result_splits payloadHashForEntry_Inr setSignatureMap_Inr split: option.splits)

lemma passkeySign_Inr:
  assumes "passkeySign env address policies entryXdr pass ex trail = (Inr y, trail')"
  obtains entry c sig where "se_fromXDR env entryXdr = Some entry"
    "ae_credentials entry = AddressCreds c" "ac_address c = address"
    "y = se_toXDR env (entry\<lparr>ae_credentials := AddressCreds (c\<lparr>ac_expirationLedger := ex,
       ac_signature := sig\<rparr>)\<rparr>)"
  using auditedSign_Inr [OF assms [unfolded passkeySign_def]]
  by (auto simp: result_splits payloadHashForEntry_Inr setSignatureMap_Inr split: option.splits)

interpretation session_key: x402_signer address "sessionKeySign env address rawPk sign policies"
    "se_fromXDR env" "se_toXDR env"
  for address env rawPk sign policies
  by unfold_locales (erule sessionKeySign_Inr, fastforce simp: signed_form_def)

interpretation passkey: x402_signer address "passkeySign env address policies"
    "se_fromXDR env" "se_toXDR env"
  for address env policies
  by unfold_locales (erule passkeySign_Inr, fastforce simp: signed_form_def)

section \<open>The order of the signature map\<close>

lemma Nil_less: "[] < (xs :: bytes) \<longleftrightarrow> xs \<noteq> []"
  by (cases xs) auto

lemma compareBytes_less: "compareBytes xs ys > 0 \<longleftrightarrow> ys < xs"
proof (induction xs ys rule: compareBytes.induct)
  case (1 a as b bs)
  then show ?case by (auto simp: Let_def)
qed (auto simp: Nil_less)

lemma comparePolicy_orders:
  "orders_by (comparePolicyAddresses env) (\<lambda>p. the (se_addressBytes env p)) A"
  by (simp add: orders_by_def comparePolicyAddresses_def compareBytes_less)

section \<open>The properties of the component\<close>

text \<open>
  An entry the session-key signer returns is the entry it was given, for its own
  wallet address, with the requested expiration and with the signature map built from the key's
  signature over the payload of exactly that entry (expiration set, invocation untouched) and the
  configured policies.
\<close>

theorem session_key_signs_given_entry:
  assumes "createSessionKeySigner env config = Inr signer"
    and "se_keypair env (sk_secretKey config) = Some (rawPk, sign)"
    and "sg_signAuthEntry signer entryXdr pass ex trail = (Inr signedXdr, trail')"
  shows "\<exists>entry c e. se_fromXDR env entryXdr = Some entry \<and>
    ae_credentials entry = AddressCreds c \<and> ac_address c = sk_address config \<and>
    e = entry\<lparr>ae_credentials := AddressCreds (c\<lparr>ac_expirationLedger := ex\<rparr>)\<rparr> \<and>
    signedXdr = se_toXDR env (entry\<lparr>ae_credentials := AddressCreds (c\<lparr>ac_expirationLedger := ex,
      ac_signature := signatureMap env (ed25519SignerKey rawPk)
        (ed25519Signature (sign (se_payload env e ex pass))) (sk_policies config)\<rparr>)\<rparr>)"
proof -
  have "sg_signAuthEntry signer =
      sessionKeySign env (sk_address config) rawPk sign (sk_policies config)"
    using assms(1,2) by (auto simp: createSessionKeySigner_def result_splits)
  then show ?thesis
    using assms(3) by (auto elim!: sessionKeySign_Inr)
qed

definition sample_signer_env :: signer_env where
  "sample_signer_env =
     \<lparr>se_fromXDR = (\<lambda>x. Some (transfer_entry ''CUSDC'' (CHR ''C'' # replicate 55 CHR ''A'') ''GP'' 120)),
      se_toXDR = (\<lambda>e. ''signed''), se_payload = (\<lambda>e ex pass. [1, 2, 3]),
      se_addressBytes = (\<lambda>a. Some (map of_char a)),
      se_keypair = (\<lambda>s. Some ([9], rev)), se_webAuthn = (\<lambda>l p. Inl ''no authenticator''),
      se_hook = Some (\<lambda>l e. None)\<rparr>"

definition sample_signer_config :: session_key_config where
  "sample_signer_config =
     \<lparr>sk_address = CHR ''C'' # replicate 55 CHR ''A'', sk_secretKey = ''S'', sk_policies = [],
      sk_capabilities = []\<rparr>"

definition sample_signer :: x402_signer_rec where
  "sample_signer =
     \<lparr>sg_address = CHR ''C'' # replicate 55 CHR ''A'',
      sg_signAuthEntry =
        sessionKeySign sample_signer_env (CHR ''C'' # replicate 55 CHR ''A'') [9] rev []\<rparr>"

lemma sample_signer_created: "createSessionKeySigner sample_signer_env sample_signer_config = Inr sample_signer"
  by (simp add: createSessionKeySigner_def sample_signer_env_def sample_signer_config_def
      isContractAddress_def startsWith_def sample_signer_def)

lemma sample_signed:
  "\<exists>trail. sg_signAuthEntry sample_signer ''entry'' ''net'' 700 [] = (Inr ''signed'', trail)"
  by (simp add: sample_signer_def sessionKeySign_def auditedSign_def act_defs fire_def
      sample_signer_env_def transfer_entry_def payloadHashForEntry_def setSignatureMap_def
      assertEntryAddress_def Let_def)

theorem session_key_signs_given_entry_witness:
  "\<exists>entry c. se_fromXDR sample_signer_env ''entry'' = Some entry \<and>
     ae_credentials entry = AddressCreds c \<and> ac_address c = sk_address sample_signer_config"
proof -
  obtain trail where "sg_signAuthEntry sample_signer ''entry'' ''net'' 700 [] = (Inr ''signed'', trail)"
    using sample_signed by blast
  from session_key_signs_given_entry [OF sample_signer_created _ this, of "[9]" rev] show ?thesis
    by (auto simp: sample_signer_env_def)
qed

text \<open>
  Every attempt to sign leaves exactly one audit event when the hook itself does
  not throw: an \<open>authorize\<close> success when an entry is returned, a \<open>deny\<close> with the error when the
  call throws, both naming the signer's address and the network.
\<close>

theorem every_signature_audited:
  assumes "se_hook env = Some hook" and "\<And>t e. hook t e = None"
    and "m = sessionKeySign env address rawPk sign policies entryXdr pass ex \<or>
         m = passkeySign env address policies entryXdr pass ex"
    and "m trail = (r, trail')"
  shows "\<exists>ev. trail' = trail @ [ev] \<and> sv_actor ev = address \<and> sv_networkPassphrase ev = pass \<and>
    (case r of Inr y \<Rightarrow> sv_action ev = Authorize \<and> sv_success ev \<and> sv_error ev = None
     | Inl err \<Rightarrow> sv_action ev = Deny \<and> \<not> sv_success ev \<and> sv_error ev = Some err)"
proof -
  have "\<exists>ev. t' = t @ [ev] \<and> sv_actor ev = address \<and> sv_networkPassphrase ev = pass \<and>
      (case r of Inr y \<Rightarrow> sv_action ev = Authorize \<and> sv_success ev \<and> sv_error ev = None
       | Inl err \<Rightarrow> sv_action ev = Deny \<and> \<not> sv_success ev \<and> sv_error ev = Some err)"
    if "auditedSign env address pass body t = (r, t')" for body t t'
    using that assms(1,2)
    by (auto simp: auditedSign_def act_defs fire_def Let_def split: sum.splits)
  then show ?thesis
    using assms(3,4) by (auto simp: sessionKeySign_def passkeySign_def)
qed

theorem every_signature_audited_witness:
  "\<exists>ev. snd (passkeySign sample_signer_env ''CX'' [] ''entry'' ''net'' 700 []) = [ev] \<and>
     sv_actor ev = ''CX''"
proof -
  obtain r t where "passkeySign sample_signer_env ''CX'' [] ''entry'' ''net'' 700 [] = (r, t)"
    by fastforce
  then show ?thesis
    using every_signature_audited [of sample_signer_env "\<lambda>l e. None"
        "passkeySign sample_signer_env ''CX'' [] ''entry'' ''net'' 700" "''CX''" _ _ "[]" "''entry''"
        "''net''" 700 "[]" r t]
    by (auto simp: sample_signer_env_def)
qed

text \<open>
  The signature map carries the signer first and then every configured policy
  exactly once per configuration entry, in ascending order of the policies' address bytes, each
  with the unit policy signature.
\<close>

theorem signature_map_complete_and_sorted:
  "\<exists>ps. signatureMap env k v policies =
      ScvVec [ScvMap ((k, v) # map (\<lambda>p. (policySignerKey p, policySignature)) ps)] \<and>
    sorted (map (\<lambda>p. the (se_addressBytes env p)) ps) \<and>
    (\<forall>p. count_list ps p = count_list policies p) \<and> length ps = length policies"
  by (rule exI [of _ "sort_by (comparePolicyAddresses env) policies"])
    (auto simp: signatureMap_def count_sort_by intro: sort_by_sorted [OF comparePolicy_orders])

text \<open>
  The capability rules of a signer have no influence on what it signs. Two signers
  that differ only in (valid) capability rules sign exactly the same entries, although the
  configuration documents the rules as checked before signing: the check stands after a \<open>try\<close>
  statement that always returns or throws.
\<close>

theorem capabilities_do_not_restrict_signing:
  assumes "createSessionKeySigner env (config\<lparr>sk_capabilities := []\<rparr>) = Inr s1"
    and "createSessionKeySigner env (config\<lparr>sk_capabilities := rules\<rparr>) = Inr s2"
  shows "sg_signAuthEntry s1 = sg_signAuthEntry s2"
  using assms by (auto simp: createSessionKeySigner_def result_splits split: option.splits)

definition other_rule :: capability_rule where
  "other_rule = \<lparr>cr_resourceType = CHR ''C'' # replicate 55 CHR ''B'', cr_action = ''transfer''\<rparr>"

theorem capabilities_do_not_restrict_signing_witness:
  "\<exists>s. createSessionKeySigner sample_signer_env (sample_signer_config\<lparr>sk_capabilities := [other_rule]\<rparr>) =
     Inr s \<and> fst (sg_signAuthEntry s ''entry'' ''net'' 700 []) = Inr ''signed'' \<and>
     \<not> evaluateCapability [other_rule] \<lparr>cr_resourceType = ''CUSDC'', cr_action = ''transfer''\<rparr>"
proof -
  obtain s where s: "createSessionKeySigner sample_signer_env
      (sample_signer_config\<lparr>sk_capabilities := [other_rule]\<rparr>) = Inr s"
    by (simp add: createSessionKeySigner_def sample_signer_env_def sample_signer_config_def
        isContractAddress_def startsWith_def other_rule_def is_strkey_def is_base32_def
        list_all_iff is_symbol_char_def)
  have "createSessionKeySigner sample_signer_env (sample_signer_config\<lparr>sk_capabilities := []\<rparr>) =
      Inr sample_signer"
    using sample_signer_created by (simp add: sample_signer_config_def)
  moreover have "replicate 55 CHR ''B'' \<noteq> ''USDC''"
    by (rule notI, drule arg_cong [where f = length]) simp
  ultimately show ?thesis
    using capabilities_do_not_restrict_signing [OF _ s] s sample_signed
    by (auto simp: evaluateCapability_def other_rule_def)
qed

end
