(* ===== verification/RequestAuth.thy ===== *)
theory RequestAuth
  imports Output
begin

text \<open>
  Signed requests between the client and a facilitator (\<open>src/x402-request-auth.ts\<close>).

  HMAC-SHA256 is the platform's (\<open>SubtleCrypto\<close>): the parameter \<open>hmac\<close> from key and message
  bytes to digest bytes, absent in a runtime without Web Crypto. Clock and nonce are the
  configuration's functions, here the values they return. Header values, method and path are
  strings, the body and the secret are texts of code points.
\<close>

unbundle bit_operations_syntax

record signing_config =
  sc_keyId :: string
  sc_secret :: jstext
  sc_now :: int
  sc_nonce :: string

record signed_headers =
  sh_keyId :: string
  sh_timestamp :: string
  sh_nonce :: string
  sh_signature :: string

record signed_request =
  rq_method :: string
  rq_path :: string
  rq_body :: "jstext option"

type_synonym hmac = "bytes \<Rightarrow> bytes \<Rightarrow> bytes"

definition ALGORITHM :: string where
  "ALGORITHM = ''HMAC-SHA256''"

definition requireSubtleCrypto :: "hmac option \<Rightarrow> string \<Rightarrow> hmac outcome" where
  "requireSubtleCrypto subtle operation =
     (case subtle of
        None \<Rightarrow> Inl (Signing (RequestSigningUnavailableError operation))
      | Some h \<Rightarrow> Inr h)"

definition hex_digit :: "nat \<Rightarrow> char" where
  "hex_digit n = char_of (if n < 10 then 48 + n else 87 + n)"

definition hex_byte :: "nat \<Rightarrow> string" where
  "hex_byte b = [hex_digit (b div 16), hex_digit (b mod 16)]"

text \<open>\<open>randomNonce\<close>: sixteen random bytes in hexadecimal, or no Web Crypto.\<close>

definition randomNonce :: "bytes option \<Rightarrow> string outcome" where
  "randomNonce random =
     (case random of
        None \<Rightarrow> Inl (Signing (RequestSigningUnavailableError ''nonce generation''))
      | Some bs \<Rightarrow> Inr (concat (map hex_byte (take 16 bs))))"

definition canonicalRequestString ::
    "string \<Rightarrow> string \<Rightarrow> jstext \<Rightarrow> string \<Rightarrow> string \<Rightarrow> jstext" where
  "canonicalRequestString meth path body timestamp nonce =
     codes (toUpperCase meth) @ 10 # codes path @ 10 # codes timestamp @ 10 # codes nonce @ 10 # body"

definition assertConfig :: "signing_config \<Rightarrow> unit outcome" where
  "assertConfig config =
     ebind (require (trim (sc_keyId config) \<noteq> [])
       (Signing (InvalidSigningConfigError ''keyId''))) (\<lambda>_.
     require (sc_secret config \<noteq> []) (Signing (InvalidSigningConfigError ''secret'')))"

definition bodyOf :: "signed_request \<Rightarrow> jstext" where
  "bodyOf request = (case rq_body request of None \<Rightarrow> [] | Some b \<Rightarrow> b)"

definition requestDigest ::
    "hmac \<Rightarrow> jstext \<Rightarrow> signed_request \<Rightarrow> string \<Rightarrow> string \<Rightarrow> string" where
  "requestDigest subtle secret request timestamp nonce =
     toBase64 (subtle (utf8_encode secret)
       (utf8_encode (canonicalRequestString (rq_method request) (rq_path request) (bodyOf request)
          timestamp nonce)))"

definition signFacilitatorRequest ::
    "hmac option \<Rightarrow> signing_config \<Rightarrow> signed_request \<Rightarrow> signed_headers outcome" where
  "signFacilitatorRequest crypto config request =
     ebind (assertConfig config) (\<lambda>_.
     ebind (requireSubtleCrypto crypto ''signFacilitatorRequest'') (\<lambda>subtle.
     let timestamp = show_int (sc_now config div 1000); nonce = sc_nonce config in
     Inr \<lparr>sh_keyId = sc_keyId config, sh_timestamp = timestamp, sh_nonce = nonce,
          sh_signature = ALGORITHM @ '' '' @
            requestDigest subtle (sc_secret config) request timestamp nonce\<rparr>))"

text \<open>The accumulating comparison: every character pair is combined before the verdict.\<close>

fun xor_diff :: "nat \<Rightarrow> string \<Rightarrow> string \<Rightarrow> nat" where
  "xor_diff diff (a # as) (b # bs) = xor_diff (diff OR (of_char a XOR of_char b)) as bs"
| "xor_diff diff _ _ = diff"

definition timingSafeEqual :: "string \<Rightarrow> string \<Rightarrow> bool" where
  "timingSafeEqual a b = (if length a \<noteq> length b then False else xor_diff 0 a b = 0)"

definition verifyFacilitatorRequest ::
    "hmac option \<Rightarrow> jstext \<Rightarrow> signed_headers \<Rightarrow> signed_request \<Rightarrow> rat option \<Rightarrow> int \<Rightarrow> bool outcome" where
  "verifyFacilitatorRequest crypto secret headers request toleranceSeconds now =
     ebind (requireSubtleCrypto crypto ''verifyFacilitatorRequest'') (\<lambda>subtle.
     case take 2 (split_on CHR '' '' (sh_signature headers)) of
       [algorithm, provided] \<Rightarrow>
         if algorithm \<noteq> ALGORITHM \<or> provided = [] then Inr False
         else
          (let tolerance = (case toleranceSeconds of None \<Rightarrow> 300 | Some t \<Rightarrow> t);
               nowSeconds = of_int (now div 1000) in
           case Number (sh_timestamp headers) of
             None \<Rightarrow> Inr False
           | Some requestSeconds \<Rightarrow>
               if \<bar>nowSeconds - requestSeconds\<bar> > tolerance then Inr False
               else Inr (timingSafeEqual
                 (requestDigest subtle secret request (sh_timestamp headers) (sh_nonce headers))
                 provided))
     | _ \<Rightarrow> Inr False)"

text \<open>\<open>createSignedFetch\<close>: the request that is passed on, with the signed headers merged last.\<close>

record request_init =
  ri_method :: "string option"
  ri_headers :: "(string \<times> string) list"
  ri_body :: "jstext option"

definition merge_headers ::
    "(string \<times> string) list \<Rightarrow> (string \<times> string) list \<Rightarrow> (string \<times> string) list" where
  "merge_headers old new = filter (\<lambda>(k, v). k \<notin> fst ` set new) old @ new"

definition header_list :: "signed_headers \<Rightarrow> (string \<times> string) list" where
  "header_list h =
     [(''X-Vellar-Key-Id'', sh_keyId h), (''X-Vellar-Timestamp'', sh_timestamp h),
      (''X-Vellar-Nonce'', sh_nonce h), (''X-Vellar-Signature'', sh_signature h)]"

definition createSignedFetch ::
    "hmac option \<Rightarrow> signing_config \<Rightarrow> (string \<Rightarrow> string outcome) \<Rightarrow> string \<Rightarrow> request_init \<Rightarrow>
     request_init outcome" where
  "createSignedFetch crypto config pathname url init =
     ebind (pathname url) (\<lambda>path.
     ebind (signFacilitatorRequest crypto config
       \<lparr>rq_method = (case ri_method init of None \<Rightarrow> ''GET'' | Some m \<Rightarrow> m), rq_path = path,
        rq_body = Some (case ri_body init of None \<Rightarrow> [] | Some b \<Rightarrow> b)\<rparr>) (\<lambda>h.
     Inr (init\<lparr>ri_headers := merge_headers (ri_headers init) (header_list h)\<rparr>)))"

section \<open>Comparison\<close>

lemma or_eq_0: "(a OR b = 0) \<longleftrightarrow> a = 0 \<and> b = (0::nat)"
  by (auto simp: bit_eq_iff bit_or_iff)

lemma xor_eq_0: "(a XOR b = 0) \<longleftrightarrow> a = (b::nat)"
  by (auto simp: bit_eq_iff bit_xor_iff)

lemma xor_diff_zero:
  "length a = length b \<Longrightarrow> xor_diff d a b = 0 \<longleftrightarrow> d = 0 \<and> a = b"
proof (induction d a b rule: xor_diff.induct)
  case (1 diff a as b bs)
  then show ?case by (auto simp: or_eq_0 xor_eq_0)
qed auto

lemma timingSafeEqual_eq: "timingSafeEqual a b \<longleftrightarrow> a = b"
  by (auto simp: timingSafeEqual_def xor_diff_zero)

section \<open>The canonical string\<close>

lemma codes_inj: "codes s = codes t \<longleftrightarrow> s = t"
  unfolding codes_def by (rule inj_map_eq_map) (rule inj_of_char)

lemma split_at_first:
  "d \<notin> set xs \<Longrightarrow> d \<notin> set ys \<Longrightarrow> xs @ d # rest = ys @ d # rest' \<Longrightarrow> xs = ys \<and> rest = rest'"
proof (induction xs arbitrary: ys)
  case Nil
  then show ?case by (cases ys) auto
next
  case (Cons x xs)
  then show ?case by (cases ys) auto
qed

definition no_newline :: "string \<Rightarrow> bool" where
  "no_newline s = (10 \<notin> set (codes s))"

lemma canonical_inj:
  assumes "no_newline (toUpperCase m)" "no_newline (toUpperCase m')" "no_newline p" "no_newline p'"
    and "no_newline t" "no_newline t'" "no_newline n" "no_newline n'"
    and "canonicalRequestString m p b t n = canonicalRequestString m' p' b' t' n'"
  shows "toUpperCase m = toUpperCase m' \<and> p = p' \<and> b = b' \<and> t = t' \<and> n = n'"
proof -
  have 1: "codes (toUpperCase m) = codes (toUpperCase m')"
    and r1: "codes p @ 10 # codes t @ 10 # codes n @ 10 # b =
        codes p' @ 10 # codes t' @ 10 # codes n' @ 10 # b'"
    using split_at_first [of 10 "codes (toUpperCase m)" "codes (toUpperCase m')"] assms
    by (auto simp: canonicalRequestString_def no_newline_def)
  have 2: "codes p = codes p'"
    and r2: "codes t @ 10 # codes n @ 10 # b = codes t' @ 10 # codes n' @ 10 # b'"
    using split_at_first [OF _ _ r1] assms by (auto simp: no_newline_def)
  have 3: "codes t = codes t'" and r3: "codes n @ 10 # b = codes n' @ 10 # b'"
    using split_at_first [OF _ _ r2] assms by (auto simp: no_newline_def)
  have "codes n = codes n' \<and> b = b'"
    using split_at_first [OF _ _ r3] assms by (auto simp: no_newline_def)
  then show ?thesis using 1 2 3 by (simp add: codes_inj)
qed

section \<open>The properties of the component\<close>

lemma b64_no_space: "CHR '' '' \<notin> set (toBase64 bs)"
proof -
  have "b64_char i \<noteq> CHR '' ''" for i
  proof
    assume "b64_char i = CHR '' ''"
    then have "(of_char (b64_char i) :: nat) = 32" by simp
    then show False by (auto simp: b64_char_def split: if_splits)
  qed
  then have "CHR '' '' \<notin> b64_char ` A" for A
    by (metis imageE)
  then show ?thesis by (simp add: toBase64_def btoa_def b64_pad_def)
qed

lemma split_signature:
  "split_on CHR '' '' (ALGORITHM @ '' '' @ toBase64 bs) = [ALGORITHM, toBase64 bs]"
  using split_on_append [of "CHR '' ''" ALGORITHM "toBase64 bs"] b64_no_space [of bs]
  by (simp add: ALGORITHM_def split_on_no_sep)

lemma toBase64_not_Nil: "bs \<noteq> [] \<Longrightarrow> toBase64 bs \<noteq> []"
  by (cases bs rule: sextets.cases) (auto simp: toBase64_def btoa_def)

lemma sign_verify:
  assumes "signFacilitatorRequest (Some subtle) config request = Inr h"
    and "0 \<le> sc_now config" and "\<And>k m. subtle k m \<noteq> []"
    and "\<bar>now div 1000 - sc_now config div 1000\<bar> \<le> 300"
  shows "verifyFacilitatorRequest (Some subtle) (sc_secret config) h request None now = Inr True"
proof -
  let ?t = "show_nat (nat (sc_now config div 1000))"
  have t: "show_int (sc_now config div 1000) = ?t"
    using assms(2) by (simp add: show_int_def)
  have h: "h = \<lparr>sh_keyId = sc_keyId config, sh_timestamp = ?t, sh_nonce = sc_nonce config,
       sh_signature = ALGORITHM @ '' '' @
         requestDigest subtle (sc_secret config) request ?t (sc_nonce config)\<rparr>"
    using assms(1)
    by (auto simp: signFacilitatorRequest_def result_splits requireSubtleCrypto_def Let_def t)
  have num: "Number ?t = Some (of_int (sc_now config div 1000))"
    using Number_digits [OF all_digits_show_nat] assms(2) by simp
  have "\<not> \<bar>of_int (now div 1000) - of_int (sc_now config div 1000)\<bar> > (300::rat)"
    using assms(4) by linarith
  then show ?thesis
    using assms(3)
    by (simp add: verifyFacilitatorRequest_def requireSubtleCrypto_def h num requestDigest_def
        split_signature [simplified] toBase64_not_Nil timingSafeEqual_eq)
qed

text \<open>
  A request signed by \<open>signFacilitatorRequest\<close> is accepted by
  \<open>verifyFacilitatorRequest\<close> with the same secret, for the same request, while the verifier's
  clock is within the tolerance of the signer's, for every keyed hash with non-empty digests.
\<close>

theorem signed_request_verifies:
  assumes "signFacilitatorRequest (Some subtle) config request = Inr h"
    and "0 \<le> sc_now config" and "\<And>k m. subtle k m \<noteq> []"
    and "\<bar>now div 1000 - sc_now config div 1000\<bar> \<le> 300"
  shows "verifyFacilitatorRequest (Some subtle) (sc_secret config) h request None now = Inr True"
  by (rule sign_verify [OF assms])

definition sample_hmac :: hmac where
  "sample_hmac k m = take 4 (k @ m @ [0, 1, 2, 3])"

definition sample_signing :: signing_config where
  "sample_signing =
     \<lparr>sc_keyId = ''key-1'', sc_secret = [115, 51], sc_now = 1700000000000, sc_nonce = ''ab''\<rparr>"

definition sample_request :: signed_request where
  "sample_request = \<lparr>rq_method = ''post'', rq_path = ''/verify'', rq_body = Some [123, 125]\<rparr>"

lemma sample_signs: "\<exists>h. signFacilitatorRequest (Some sample_hmac) sample_signing sample_request = Inr h"
  by (simp add: signFacilitatorRequest_def assertConfig_def sample_signing_def trim_def is_ws_def
      requireSubtleCrypto_def Let_def)

lemma sample_clock:
  "0 \<le> sc_now sample_signing" "\<And>k m. sample_hmac k m \<noteq> []"
  "\<bar>1700000200000 div 1000 - sc_now sample_signing div 1000\<bar> \<le> 300"
  by (auto simp: sample_hmac_def sample_signing_def)

theorem signed_request_verifies_witness:
  "\<exists>h. signFacilitatorRequest (Some sample_hmac) sample_signing sample_request = Inr h \<and>
    verifyFacilitatorRequest (Some sample_hmac) (sc_secret sample_signing) h sample_request None
      1700000200000 = Inr True"
proof -
  obtain h where h: "signFacilitatorRequest (Some sample_hmac) sample_signing sample_request = Inr h"
    using sample_signs by blast
  show ?thesis
    using signed_request_verifies [OF h sample_clock] h by blast
qed



end
