(* ===== verification/Client.thy ===== *)
theory Client
  imports Budget Signer RequestAuth
begin

text \<open>
  The x402 client of the SDK (\<open>src/x402-client.ts\<close>): the expiration window, the payment builder
  that checks and signs every authorization entry of the wallet, and the fetch wrapper that pays
  a 402; with the facade over it (\<open>src/x402-facade.ts\<close>).

  Each function is an action on \<open>client_state\<close>: the spend map of the budget tracker (the SDK's
  in-memory one) and the trace of effects. The RPC server, the transaction builder, the network,
  the clock and the signer are the fields of \<open>x402_deps\<close>, arbitrary functions of the trace. The
  authorization entries come from the RPC's simulation, so nothing is assumed about them. A
  request body is absent, buffered or a stream.
\<close>

section \<open>Dependencies and state\<close>

datatype body = NoBody | Buffered jstext | Stream

record fetch_init =
  fi_opts :: x402_pay_options
  fi_method :: "string option"
  fi_headers :: "(string \<times> string) list"
  fi_body :: body

datatype client_event =
    CFetch string request_init "string + response"
  | CBuild string string string int string
  | CLatest
  | CSimulate
  | CSign string string int
  | CRecord nat int

record x402_deps =
  xd_signerAddress :: string
  xd_signAuthEntry :: "client_event list \<Rightarrow> string \<Rightarrow> string \<Rightarrow> int \<Rightarrow> string outcome"
  xd_rpcUrl :: "string option"
  xd_network :: network
  xd_expirationLedgerOffset :: "int option"
  xd_requestSigning :: "(hmac option \<times> (client_event list \<Rightarrow> signing_config)) option"
  xd_budgetAttributes :: "budget_rule list"
  xd_tracked :: bool
  xd_now :: "client_event list \<Rightarrow> int"
  xd_fetch :: "client_event list \<Rightarrow> string \<Rightarrow> request_init \<Rightarrow> string + response"
  xd_pathname :: "string \<Rightarrow> string outcome"
  xd_parsesAsUrl :: "string \<Rightarrow> bool"
  xd_build :: "client_event list \<Rightarrow> string + auth_entry list option"
  xd_latestLedger :: "client_event list \<Rightarrow> string + int"
  xd_xdr :: xdr_env
  xd_fromXDR :: "string \<Rightarrow> auth_entry option"
  xd_toXDR :: "auth_entry \<Rightarrow> string"
  xd_envelope :: "auth_entry list \<Rightarrow> string"
  xd_stringify :: "payment_requirements \<Rightarrow> string \<Rightarrow> jstext"
  xd_json :: json_env

record client_state =
  cs_tracker :: spend_map
  cs_trace :: "client_event list"

type_synonym 'a client = "(client_state, js_error, 'a) act"

definition emit :: "client_event \<Rightarrow> client_state \<Rightarrow> client_state" where
  "emit e s = s\<lparr>cs_trace := cs_trace s @ [e]\<rparr>"

text \<open>A call of the environment that is logged and may throw.\<close>

definition call_env ::
    "(client_event list \<Rightarrow> string + 'a) \<Rightarrow> (string + 'a \<Rightarrow> client_event) \<Rightarrow> 'a client" where
  "call_env f ev = (\<lambda>s.
     let r = f (cs_trace s) in (map_sum Thrown id r, emit (ev r) s))"

section \<open>The expiration window\<close>

definition expirationOffsetFor :: "rat option \<Rightarrow> int option \<Rightarrow> int" where
  "expirationOffsetFor maxTimeoutSeconds ceil =
    (let windowLedgers = \<lceil>(case maxTimeoutSeconds of None \<Rightarrow> 120 | Some t \<Rightarrow> t) / 5\<rceil>;
         offset = windowLedgers - 2;
         offset' = min offset (case ceil of None \<Rightarrow> 58 | Some c \<Rightarrow> c) in
     max offset' 3)"

section \<open>Building a signed payment\<close>

definition categoryOf :: "payment_requirements \<Rightarrow> string option" where
  "categoryOf r = (case jprop (pr_extra r) ''category'' of JStr c \<Rightarrow> Some c | _ \<Rightarrow> None)"

definition budgetRequestFor :: "x402_deps \<Rightarrow> payment_requirements \<Rightarrow> budget_request client" where
  "budgetRequestFor deps requirements =
     andThen (lift (parseAmount (pr_amount requirements))) (\<lambda>amount.
     andThen (gets (\<lambda>s. xd_now deps (cs_trace s))) (\<lambda>now.
       ret \<lparr>br_merchant = pr_payTo requirements, br_category = categoryOf requirements,
            br_amount = amount, br_at = now\<rparr>))"

definition checkBudget :: "x402_deps \<Rightarrow> budget_request \<Rightarrow> unit client" where
  "checkBudget deps request =
     andThen (gets cs_tracker) (\<lambda>m.
       lift (assertBudgetAttributes (xd_budgetAttributes deps) request
         (if xd_tracked deps then memory_tracker m else None)))"

definition intended :: "x402_deps \<Rightarrow> payment_requirements \<Rightarrow> int \<Rightarrow> expected_invocation" where
  "intended deps requirements amount =
     \<lparr>ei_contract = pr_asset requirements, ei_functionName = ''transfer'',
      ei_from = xd_signerAddress deps, ei_to = pr_payTo requirements, ei_amount = amount\<rparr>"

definition signOne :: "x402_deps \<Rightarrow> string \<Rightarrow> int \<Rightarrow> auth_entry \<Rightarrow> auth_entry client" where
  "signOne deps pass expirationLedger entry =
     andThen (\<lambda>s. (xd_signAuthEntry deps (cs_trace s) (xd_toXDR deps entry) pass expirationLedger,
                   emit (CSign (xd_toXDR deps entry) pass expirationLedger) s)) (\<lambda>signedXdr.
     case xd_fromXDR deps signedXdr of
       None \<Rightarrow> throw (Thrown ''XDR'')
     | Some signed \<Rightarrow> ret signed)"

definition ours :: "x402_deps \<Rightarrow> auth_entry \<Rightarrow> bool" where
  "ours deps entry =
     (case ae_credentials entry of
        AddressCreds c \<Rightarrow> ac_address c = xd_signerAddress deps
      | OtherCreds _ \<Rightarrow> False)"

text \<open>The loop over the authorization entries: those of the wallet are checked, then signed.\<close>

primrec signEntries ::
    "x402_deps \<Rightarrow> expected_invocation \<Rightarrow> string \<Rightarrow> int \<Rightarrow> auth_entry list \<Rightarrow>
     (auth_entry list \<times> nat) client" where
  "signEntries deps expected pass expirationLedger [] = ret ([], 0)"
| "signEntries deps expected pass expirationLedger (entry # rest) =
     (if \<not> ours deps entry then
        andThen (signEntries deps expected pass expirationLedger rest) (\<lambda>(auth, n).
          ret (entry # auth, n))
      else
        andThen (lift (assertAuthEntryInvocation (xd_xdr deps) entry expected)) (\<lambda>_.
        andThen (signOne deps pass expirationLedger entry) (\<lambda>signed.
        andThen (signEntries deps expected pass expirationLedger rest) (\<lambda>(auth, n).
          ret (signed # auth, Suc n)))))"

definition buildSignedPayment :: "x402_deps \<Rightarrow> payment_requirements \<Rightarrow> (string \<times> int) client" where
  "buildSignedPayment deps requirements =
     (case NETWORKS (pr_network requirements) of
        None \<Rightarrow> throw (X402 (NoUsablePaymentOptionError (UnknownNetwork (pr_network requirements))))
      | Some (pass, net) \<Rightarrow>
         andThen (budgetRequestFor deps requirements) (\<lambda>budgetRequest.
         andThen (checkBudget deps budgetRequest) (\<lambda>_.
         andThen (lift (parseAmount (pr_amount requirements))) (\<lambda>amount.
         andThen (call_env (xd_build deps) (\<lambda>_. CBuild (pr_asset requirements)
           (xd_signerAddress deps) (pr_payTo requirements) amount pass)) (\<lambda>built.
         andThen (call_env (xd_latestLedger deps) (\<lambda>_. CLatest)) (\<lambda>latest.
         let expirationLedger = latest +
               expirationOffsetFor (pr_maxTimeoutSeconds requirements) (xd_expirationLedgerOffset deps) in
         case built of
           None \<Rightarrow> throw (Thrown ''failed to build the transfer transaction'')
         | Some auth \<Rightarrow>
             andThen (signEntries deps (intended deps requirements amount) pass expirationLedger auth)
               (\<lambda>(auth', n).
             if n = 0 then throw (Thrown ''No wallet auth entry found to sign'')
             else ret (utf8ToBase64 (xd_stringify deps requirements (xd_envelope deps auth')),
                       amount))))))))"

record signed_payment =
  sp_header :: string
  sp_requirements :: payment_requirements
  sp_amount :: int

definition createPayment ::
    "x402_deps \<Rightarrow> payment_requirements \<Rightarrow> x402_pay_options \<Rightarrow> signed_payment client" where
  "createPayment deps requirements opts =
     (if \<exists>as. po_allowedAssets opts = Some as \<and> pr_asset requirements \<notin> set as then
        throw (X402 (DisallowedAssetError (pr_asset requirements)
          (case po_allowedAssets opts of None \<Rightarrow> [] | Some as \<Rightarrow> as)))
      else
        andThen (lift (parseAmount (pr_amount requirements))) (\<lambda>required.
        if required > po_maxAmount opts then
          throw (X402 (MaxAmountExceededError required (po_maxAmount opts) (pr_asset requirements)))
        else
          andThen (buildSignedPayment deps requirements) (\<lambda>(header, amount).
            ret \<lparr>sp_header = header, sp_requirements = requirements, sp_amount = amount\<rparr>)))"

section \<open>The fetch wrapper\<close>

record settlement =
  se_transaction :: string
  se_payer :: string
  se_asset :: string
  se_amount :: int
  se_network :: network

record x402_response =
  xr_response :: response
  xr_paid :: bool
  xr_settlement :: "settlement option"

definition readSettlement ::
    "json_env \<Rightarrow> response \<Rightarrow> payment_requirements \<Rightarrow> int \<Rightarrow> network \<Rightarrow> settlement option" where
  "readSettlement je res requirements amount network =
     (case decodeSettlementHeader je res of
        None \<Rightarrow> None
      | Some (transaction, payer) \<Rightarrow>
          Some \<lparr>se_transaction = transaction,
                se_payer = (case payer of None \<Rightarrow> pr_payTo requirements | Some p \<Rightarrow> p),
                se_asset = pr_asset requirements, se_amount = amount, se_network = network\<rparr>)"

definition doFetch :: "x402_deps \<Rightarrow> string \<Rightarrow> request_init \<Rightarrow> response client" where
  "doFetch deps url init =
     andThen (gets cs_trace) (\<lambda>t.
     andThen (lift (case xd_requestSigning deps of
           None \<Rightarrow> Inr init
         | Some (crypto, config) \<Rightarrow>
             createSignedFetch crypto (config t) (xd_pathname deps) url init)) (\<lambda>init'.
       call_env (\<lambda>t. xd_fetch deps t url init') (CFetch url init')))"

definition recordSpendFor :: "x402_deps \<Rightarrow> payment_requirements \<Rightarrow> int \<Rightarrow> unit client" where
  "recordSpendFor deps requirements amount =
     (if xd_tracked deps \<and> xd_budgetAttributes deps \<noteq> [] then
        andThen (budgetRequestFor deps requirements) (\<lambda>request.
        case matchingBudgetRule (xd_budgetAttributes deps) request of
          None \<Rightarrow> ret ()
        | Some (i, rule) \<Rightarrow>
            if bu_periodMaxAmount rule = None then ret ()
            else modify (\<lambda>s. emit (CRecord i amount)
              (s\<lparr>cs_tracker := tracker_record (cs_tracker s) i amount\<rparr>)))
      else ret ())"

definition selectFor :: "x402_deps \<Rightarrow> response \<Rightarrow> x402_pay_options \<Rightarrow> payment_requirements outcome" where
  "selectFor deps res opts =
     ebind (decodePaymentRequired (xd_json deps) res) (\<lambda>decoded.
     case decoded of
       DNull \<Rightarrow> Inl JsTypeError
     | DPrimitive \<Rightarrow> Inl (X402 (NoUsablePaymentOptionError
         (NotOffered (CAIP2_BY_NETWORK (xd_network deps)) [])))
     | DObject d \<Rightarrow> selectRequirements d opts (CAIP2_BY_NETWORK (xd_network deps)))"

definition x402Fetch :: "x402_deps \<Rightarrow> string \<Rightarrow> fetch_init \<Rightarrow> x402_response client" where
  "x402Fetch deps url init =
     (if fi_body init = Stream then throw (Thrown ''a ReadableStream body cannot be replayed'')
      else
       let baseInit = \<lparr>ri_method = Some (case fi_method init of None \<Rightarrow> ''GET'' | Some m \<Rightarrow> m),
             ri_headers = fi_headers init,
             ri_body = (case fi_body init of Buffered b \<Rightarrow> Some b | _ \<Rightarrow> None)\<rparr> in
       andThen (doFetch deps url baseInit) (\<lambda>first.
       if rs_status first \<noteq> 402 then
         ret \<lparr>xr_response = first, xr_paid = False, xr_settlement = None\<rparr>
       else
       andThen (lift (selectFor deps first (fi_opts init))) (\<lambda>requirements.
       andThen (buildSignedPayment deps requirements) (\<lambda>(header, amount).
       andThen (doFetch deps url (baseInit\<lparr>ri_headers :=
           merge_headers (fi_headers init) [(''PAYMENT-SIGNATURE'', header)]\<rparr>)) (\<lambda>paid.
       if rs_status paid = 402 \<or> 400 \<le> rs_status paid then
         throw (X402 (PaymentRejectedError (rs_status paid)
           (extractRejectionReason (xd_json deps) paid)))
       else
         andThen (recordSpendFor deps requirements amount) (\<lambda>_.
         ret \<lparr>xr_response = paid, xr_paid = True,
              xr_settlement = readSettlement (xd_json deps) paid requirements amount
                (xd_network deps)\<rparr>))))))"

definition createX402Client :: "x402_deps \<Rightarrow> unit outcome" where
  "createX402Client deps =
     ebind (assertValidX402RpcUrl (xd_parsesAsUrl deps) (xd_rpcUrl deps)) (\<lambda>_.
       assertValidBudgetAttributeRules (xd_budgetAttributes deps))"

text \<open>
  The facade builds the client on every call: without configuration it throws, otherwise the
  construction checks run before the operation.
\<close>

definition facadeClient :: "x402_deps option \<Rightarrow> x402_deps outcome" where
  "facadeClient config =
     (case config of
        None \<Rightarrow> Inl (X402 (X402NotConfiguredError ''wallet.x402 requires x402 config''))
      | Some deps \<Rightarrow> ebind (createX402Client deps) (\<lambda>_. Inr deps))"

definition facadeFetch :: "x402_deps option \<Rightarrow> string \<Rightarrow> fetch_init \<Rightarrow> x402_response client" where
  "facadeFetch config url init =
     andThen (lift (facadeClient config)) (\<lambda>deps. x402Fetch deps url init)"

definition facadeCreatePayment ::
    "x402_deps option \<Rightarrow> payment_requirements \<Rightarrow> x402_pay_options \<Rightarrow> signed_payment client" where
  "facadeCreatePayment config requirements opts =
     andThen (lift (facadeClient config)) (\<lambda>deps. createPayment deps requirements opts)"

end
