(* ===== verification/ClientProps.thy ===== *)
theory ClientProps
  imports Client
begin

text \<open>
  The properties of the x402 client: what reaches the signer, with which expiration, when spend
  is recorded, and which calls have no effect at all.
\<close>

section \<open>What an action emits\<close>

text \<open>Every event the action adds to the trace satisfies \<open>P\<close>.\<close>

definition emits :: "(client_event \<Rightarrow> bool) \<Rightarrow> 'a client \<Rightarrow> bool" where
  "emits P m =
     (\<forall>s r s'. m s = (r, s') \<longrightarrow> (\<exists>evs. cs_trace s' = cs_trace s @ evs \<and> list_all P evs))"

lemma emitsI:
  "(\<And>s r s'. m s = (r, s') \<Longrightarrow> \<exists>evs. cs_trace s' = cs_trace s @ evs \<and> list_all P evs) \<Longrightarrow> emits P m"
  by (simp add: emits_def)

lemma emitsD:
  "emits P m \<Longrightarrow> m s = (r, s') \<Longrightarrow> \<exists>evs. cs_trace s' = cs_trace s @ evs \<and> list_all P evs"
  by (simp add: emits_def)

lemma emits_ret: "emits P (ret x)"
  by (simp add: emits_def ret_def)

lemma emits_throw: "emits P (throw e)"
  by (simp add: emits_def throw_def)

lemma emits_lift: "emits P (lift r)"
  by (simp add: emits_def lift_def)

lemma emits_gets: "emits P (gets f)"
  by (simp add: emits_def gets_def)

lemma emits_modify:
  "(\<And>s. \<exists>e. cs_trace (f s) = cs_trace s @ [e] \<and> P e) \<Longrightarrow> emits P (modify f)"
  by (fastforce simp: emits_def modify_def)

lemma emits_call: "(\<And>r. P (ev r)) \<Longrightarrow> emits P (call_env f ev)"
  by (auto simp: emits_def call_env_def emit_def Let_def)

lemma emits_then:
  assumes "emits P m" and "\<And>x s s'. m s = (Inr x, s') \<Longrightarrow> emits P (k x)"
  shows "emits P (andThen m k)"
proof (rule emitsI)
  fix s r s'
  assume run: "andThen m k s = (r, s')"
  obtain r1 s1 where m: "m s = (r1, s1)" by fastforce
  obtain e1 where e1: "cs_trace s1 = cs_trace s @ e1" "list_all P e1"
    using emitsD [OF assms(1) m] by blast
  show "\<exists>evs. cs_trace s' = cs_trace s @ evs \<and> list_all P evs"
  proof (cases r1)
    case (Inl e)
    then show ?thesis using run m e1 by (auto simp: andThen_def)
  next
    case (Inr x)
    then have "k x s1 = (r, s')" using run m by (simp add: andThen_def)
    then obtain e2 where "cs_trace s' = cs_trace s1 @ e2" "list_all P e2"
      using emitsD [OF assms(2)] m Inr by blast
    then show ?thesis using e1 by (intro exI [of _ "e1 @ e2"]) simp
  qed
qed

lemmas emits_rules = emits_ret emits_throw emits_lift emits_gets

lemma lift_Inr [simp]: "lift r s = (Inr x, s') \<longleftrightarrow> r = Inr x \<and> s' = s"
  by (auto simp: lift_def)

section \<open>What reaches the signer\<close>

text \<open>
  A signature request that is fit for the requirements: over an entry that authorises exactly
  the intended transfer, belongs to the signer, and expires within the allowed window after the
  latest ledger the RPC reported.
\<close>

definition fit_signature :: "x402_deps \<Rightarrow> payment_requirements \<Rightarrow> client_event \<Rightarrow> bool" where
  "fit_signature deps requirements e =
     (\<forall>x pass ex. e = CSign x pass ex \<longrightarrow>
       (\<exists>entry amount latest t net. x = xd_toXDR deps entry \<and>
          parseAmount (pr_amount requirements) = Inr amount \<and>
          authorises (xd_xdr deps) entry (intended deps requirements amount) \<and> ours deps entry \<and>
          NETWORKS (pr_network requirements) = Some (pass, net) \<and>
          xd_latestLedger deps t = Inr latest \<and>
          ex = latest + expirationOffsetFor (pr_maxTimeoutSeconds requirements)
            (xd_expirationLedgerOffset deps)))"

lemma emits_signOne:
  "P (CSign (xd_toXDR deps entry) pass ex) \<Longrightarrow> emits P (signOne deps pass ex entry)"
  unfolding signOne_def
  by (rule emits_then)
    (auto simp: emits_def emit_def emits_rules [unfolded emits_def] ret_def throw_def
      split: option.splits)

lemma emits_signEntries:
  assumes "\<And>entry. ours deps entry \<Longrightarrow> authorises (xd_xdr deps) entry expected \<Longrightarrow>
      P (CSign (xd_toXDR deps entry) pass ex)"
  shows "emits P (signEntries deps expected pass ex auth)"
proof (induction auth)
  case Nil
  then show ?case by (simp add: emits_ret)
next
  case (Cons entry rest)
  have tail: "emits P (andThen (signEntries deps expected pass ex rest) (\<lambda>(auth, n). ret (f auth n)))"
    for f :: "auth_entry list \<Rightarrow> nat \<Rightarrow> auth_entry list \<times> nat"
    by (rule emits_then [OF Cons.IH]) (auto simp: emits_ret)
  show ?case
  proof (cases "ours deps entry")
    case True
    have "emits P (signOne deps pass ex entry)"
      if "assertAuthEntryInvocation (xd_xdr deps) entry expected = Inr ()"
      using that assms [OF True] by (intro emits_signOne) (simp add: assertAuthEntryInvocation_iff)
    then show ?thesis
      using True Cons.IH by (auto intro!: emits_then emits_lift emits_ret)
  qed (simp add: tail)
qed

lemma call_env_Inr: "call_env f ev s = (Inr x, s') \<Longrightarrow> f (cs_trace s) = Inr x"
  by (cases "f (cs_trace s)") (auto simp: call_env_def Let_def)

lemma emits_budgetRequestFor: "emits P (budgetRequestFor deps r)"
  unfolding budgetRequestFor_def by (intro emits_then emits_rules)

lemma emits_checkBudget: "emits P (checkBudget deps q)"
  unfolding checkBudget_def by (intro emits_then emits_rules)

lemma emits_buildSignedPayment:
  assumes other: "\<And>e. \<forall>x pass ex. e \<noteq> CSign x pass ex \<Longrightarrow> (\<And>i a. e \<noteq> CRecord i a) \<Longrightarrow>
      (\<And>u i r. e \<noteq> CFetch u i r) \<Longrightarrow> P e"
    and sign: "\<And>e. fit_signature deps r e \<Longrightarrow> \<exists>x pass ex. e = CSign x pass ex \<Longrightarrow> P e"
  shows "emits P (buildSignedPayment deps r)"
proof (cases "NETWORKS (pr_network r)")
  case None
  then show ?thesis by (simp add: buildSignedPayment_def emits_throw)
next
  case (Some pn)
  obtain pass net where pn: "pn = (pass, net)" by (cases pn)
  have build: "emits P (call_env (xd_build deps) (\<lambda>_. CBuild a b c d e))" for a b c d e
    by (rule emits_call) (simp add: other)
  have latest: "emits P (call_env (xd_latestLedger deps) (\<lambda>_. CLatest))"
    by (rule emits_call) (simp add: other)
  have entries: "emits P (signEntries deps (intended deps r amount) pass
        (l + expirationOffsetFor (pr_maxTimeoutSeconds r) (xd_expirationLedgerOffset deps)) auth)"
    if "parseAmount (pr_amount r) = Inr amount" "xd_latestLedger deps t = Inr l" for amount l t auth
    using that Some pn by (intro emits_signEntries sign) (auto simp: fit_signature_def)
  show ?thesis
    unfolding buildSignedPayment_def Some pn
    by (auto simp: Let_def emits_rules split: option.splits prod.splits dest!: call_env_Inr
        intro!: emits_then emits_budgetRequestFor emits_checkBudget build latest entries)
qed

lemma emits_doFetch:
  "(\<And>i r. P (CFetch url i r)) \<Longrightarrow> emits P (doFetch deps url init)"
  unfolding doFetch_def by (intro emits_then emits_rules emits_call)

lemma emits_recordSpendFor:
  "(\<And>i a. P (CRecord i a)) \<Longrightarrow> emits P (recordSpendFor deps r amount)"
  unfolding recordSpendFor_def
  by (auto intro!: emits_then emits_rules emits_budgetRequestFor emits_modify
      simp: emit_def split: option.splits)

text \<open>A signature request of a fetch: fit for some option of the challenge that the guards select.\<close>

definition selected_signature :: "x402_deps \<Rightarrow> x402_pay_options \<Rightarrow> client_event \<Rightarrow> bool" where
  "selected_signature deps opts e =
     (\<forall>x pass ex. e = CSign x pass ex \<longrightarrow>
       (\<exists>d requirements.
          selectRequirements d opts (CAIP2_BY_NETWORK (xd_network deps)) = Inr requirements \<and>
          fit_signature deps requirements e))"

lemma selectFor_Inr:
  "selectFor deps res opts = Inr r \<Longrightarrow>
   \<exists>d. selectRequirements d opts (CAIP2_BY_NETWORK (xd_network deps)) = Inr r"
  by (auto simp: selectFor_def result_splits split: decoded.splits)
    (metis decoded.exhaust)

lemma emits_x402Fetch:
  "emits (selected_signature deps (fi_opts init)) (x402Fetch deps url init)"
proof -
  let ?P = "selected_signature deps (fi_opts init)"
  have build: "emits ?P (buildSignedPayment deps r)"
    if "selectFor deps res (fi_opts init) = Inr r" for res r
    using selectFor_Inr [OF that]
    by (intro emits_buildSignedPayment) (auto simp: selected_signature_def)
  have fetch: "emits ?P (doFetch deps url i)" for i
    by (rule emits_doFetch) (simp add: selected_signature_def)
  have rec: "emits ?P (recordSpendFor deps r amount)" for r amount
    by (rule emits_recordSpendFor) (simp add: selected_signature_def)
  show ?thesis
    unfolding x402Fetch_def Let_def
    by (auto simp: emits_rules split: prod.splits intro!: emits_then fetch build rec)
qed

section \<open>The spend map\<close>

definition keeps :: "'a client \<Rightarrow> bool" where
  "keeps m = (\<forall>s r s'. m s = (r, s') \<longrightarrow> cs_tracker s' = cs_tracker s)"

lemma keeps_rules: "keeps (ret x)" "keeps (throw e)" "keeps (lift r)" "keeps (gets f)"
  "keeps (call_env g ev)"
  by (auto simp: keeps_def ret_def throw_def lift_def gets_def call_env_def emit_def Let_def)

lemma keeps_then: "keeps m \<Longrightarrow> (\<And>x. keeps (k x)) \<Longrightarrow> keeps (andThen m k)"
  by (fastforce simp: keeps_def andThen_def split: prod.splits sum.splits)

lemma keeps_signOne: "keeps (signOne deps pass ex entry)"
  unfolding signOne_def
  by (rule keeps_then) (auto simp: keeps_def emit_def ret_def throw_def split: option.splits)

lemma keeps_signEntries: "keeps (signEntries deps expected pass ex auth)"
  by (induction auth) (auto intro!: keeps_then keeps_rules keeps_signOne)

lemma keeps_buildSignedPayment: "keeps (buildSignedPayment deps r)"
  unfolding buildSignedPayment_def budgetRequestFor_def checkBudget_def Let_def
  by (auto intro!: keeps_then keeps_rules keeps_signEntries split: option.splits)

lemma keeps_doFetch: "keeps (doFetch deps url init)"
  unfolding doFetch_def by (intro keeps_then keeps_rules)

lemma keepsD: "keeps m \<Longrightarrow> m s = (r, s') \<Longrightarrow> cs_tracker s' = cs_tracker s"
  by (simp add: keeps_def)

lemma andThen_cases:
  assumes "andThen m k s = (r, s')"
  obtains (fail) e where "m s = (Inl e, s')" "r = Inl e"
    | (go) x s1 where "m s = (Inr x, s1)" "k x s1 = (r, s')"
  using assms by (auto simp: andThen_def split: prod.splits sum.splits)

lemma recordSpendFor_tracker:
  "recordSpendFor deps r amount s = (res, s') \<Longrightarrow>
   cs_tracker s' = cs_tracker s \<or> (res = Inr () \<and> (\<exists>i. cs_tracker s' = tracker_record (cs_tracker s) i amount))"
  unfolding recordSpendFor_def
  by (auto simp: budgetRequestFor_def act_defs emit_def split: if_splits option.splits sum.splits)
    blast

section \<open>A concrete run\<close>

definition sample_deps :: x402_deps where
  "sample_deps =
     \<lparr>xd_signerAddress = ''CWALLET'', xd_signAuthEntry = (\<lambda>t x p e. Inr ''signed''),
      xd_rpcUrl = Some ''https://rpc'', xd_network = Testnet, xd_expirationLedgerOffset = None,
      xd_requestSigning = None, xd_budgetAttributes = [night_rule\<lparr>bu_category := None, bu_maxAmount := 500\<rparr>],
      xd_tracked = True, xd_now = (\<lambda>t. 23 * 3600000),
      xd_fetch = (\<lambda>t url i. Inr (if ri_headers i = [] then challenge_response else settled_response)),
      xd_pathname = (\<lambda>u. Inr u), xd_parsesAsUrl = (\<lambda>u. True),
      xd_build = (\<lambda>t. Inr (Some [transfer_entry ''CUSDC'' ''CWALLET'' ''GPAYEE'' 120])),
      xd_latestLedger = (\<lambda>t. Inr 1000), xd_xdr = sample_xdr,
      xd_fromXDR = (\<lambda>x. Some (transfer_entry ''CUSDC'' ''CWALLET'' ''GPAYEE'' 120)),
      xd_toXDR = (\<lambda>e. ''entry''), xd_envelope = (\<lambda>es. ''tx''), xd_stringify = (\<lambda>r x. [123, 125]),
      xd_json = sample_json\<rparr>"

definition sample_client_state :: client_state where
  "sample_client_state = \<lparr>cs_tracker = createInMemoryBudgetAttributeTracker, cs_trace = []\<rparr>"

definition sample_init :: fetch_init where
  "sample_init = \<lparr>fi_opts = sample_opts, fi_method = None, fi_headers = [], fi_body = NoBody\<rparr>"

lemma sample_select: "selectFor sample_deps challenge_response sample_opts = Inr (sample_option ''CUSDC'' ''120'')"
  using sample_selection by (simp add: selectFor_def sample_deps_def challenge_response_decoded)

lemma sample_build:
  assumes "cs_tracker s = createInMemoryBudgetAttributeTracker"
  shows "\<exists>h. buildSignedPayment sample_deps (sample_option ''CUSDC'' ''120'') s =
    (Inr (h, 120), s\<lparr>cs_trace := cs_trace s @ [CBuild ''CUSDC'' ''CWALLET'' ''GPAYEE'' 120
        ''Test SDF Network ; September 2015'', CLatest,
      CSign ''entry'' ''Test SDF Network ; September 2015'' 1010]\<rparr>)"
  using assms
  by (simp add: buildSignedPayment_def sample_deps_def sample_option_def NETWORKS_def
      budgetRequestFor_def checkBudget_def act_defs call_env_def emit_def signOne_def ours_def
      transfer_entry_def all_digits_def is_digit_def digits_val_def digit_val_def
      assertBudgetAttributes_def matchingBudgetRule_def rule_matches_def matchesCategory_def
      matchesWindow_def getUTCHours_def night_rule_def memory_tracker_def tracker_spent_def
      createInMemoryBudgetAttributeTracker_def expirationOffsetFor_def Let_def
      assertAuthEntryInvocation_def intended_def sample_xdr_def addressOf_def amountOf_def expect_def)

lemma sample_fetch:
  "\<exists>p s'. x402Fetch sample_deps ''u'' sample_init sample_client_state = (Inr p, s') \<and> xr_paid p \<and>
     CSign ''entry'' ''Test SDF Network ; September 2015'' 1010 \<in> set (cs_trace s') \<and>
     cs_tracker s' = [0 \<mapsto> 120]"
proof -
  let ?base = "\<lparr>ri_method = Some ''GET'', ri_headers = [], ri_body = None\<rparr>"
  let ?s1 = "sample_client_state\<lparr>cs_trace := [CFetch ''u'' ?base (Inr challenge_response)]\<rparr>"
  have first: "doFetch sample_deps ''u'' ?base sample_client_state = (Inr challenge_response, ?s1)"
    by (simp add: doFetch_def act_defs call_env_def sample_deps_def emit_def sample_client_state_def
        Let_def)
  obtain h where build: "buildSignedPayment sample_deps (sample_option ''CUSDC'' ''120'') ?s1 =
      (Inr (h, 120), ?s1\<lparr>cs_trace := cs_trace ?s1 @ [CBuild ''CUSDC'' ''CWALLET'' ''GPAYEE'' 120
         ''Test SDF Network ; September 2015'', CLatest,
         CSign ''entry'' ''Test SDF Network ; September 2015'' 1010]\<rparr>)"
    using sample_build [of ?s1] by (auto simp: sample_client_state_def)
  have again: "doFetch sample_deps ''u'' (?base\<lparr>ri_headers := [(''PAYMENT-SIGNATURE'', h)]\<rparr>) s =
      (Inr settled_response, emit (CFetch ''u'' (?base\<lparr>ri_headers := [(''PAYMENT-SIGNATURE'', h)]\<rparr>)
         (Inr settled_response)) s)" for s
    by (simp add: doFetch_def act_defs call_env_def sample_deps_def emit_def Let_def)
  have recd: "recordSpendFor sample_deps (sample_option ''CUSDC'' ''120'') 120 s =
      (Inr (), emit (CRecord 0 120) (s\<lparr>cs_tracker := tracker_record (cs_tracker s) 0 120\<rparr>))" for s
    by (simp add: recordSpendFor_def budgetRequestFor_def sample_deps_def act_defs sample_option_def
        all_digits_def is_digit_def matchingBudgetRule_def rule_matches_def matchesCategory_def
        matchesWindow_def getUTCHours_def night_rule_def Let_def)
  show ?thesis
    using first build again recd
    by (simp add: x402Fetch_def sample_init_def act_defs sample_select merge_headers_def Let_def
        emit_def sample_client_state_def createInMemoryBudgetAttributeTracker_def
        tracker_record_def tracker_spent_def)
qed

section \<open>The properties of the component\<close>



text \<open>
  The expiration offset is at least 3 ledgers; it never exceeds the caller's ceiling
  (58 without one) unless that is below 3, and it stays two ledgers under the seller's own window
  unless that leaves fewer than 3.
\<close>

theorem expiration_offset_bounds:
  "3 \<le> expirationOffsetFor t c \<and>
   expirationOffsetFor t c \<le> max 3 (case c of None \<Rightarrow> 58 | Some n \<Rightarrow> n) \<and>
   expirationOffsetFor t c \<le> max 3 (\<lceil>(case t of None \<Rightarrow> 120 | Some x \<Rightarrow> x) / 5\<rceil> - 2)"
  by (auto simp: expirationOffsetFor_def Let_def)

text \<open>
  C30 (error): a payment outside the configured attribute budgets is refused with the budget error
  before anything happens: no transaction is built, no RPC is asked, nothing is signed and no
  spend is recorded.
\<close>

theorem over_budget_payment_has_no_effect:
  assumes "NETWORKS (pr_network q) = Some (pass, net)" and "parseAmount (pr_amount q) = Inr amount"
    and "assertBudgetAttributes (xd_budgetAttributes deps)
       \<lparr>br_merchant = pr_payTo q, br_category = categoryOf q, br_amount = amount,
        br_at = xd_now deps (cs_trace s)\<rparr>
       (if xd_tracked deps then memory_tracker (cs_tracker s) else None) = Inl err"
  shows "buildSignedPayment deps q s = (Inl err, s)"
  using assms
  by (simp add: buildSignedPayment_def budgetRequestFor_def checkBudget_def act_defs)

theorem over_budget_payment_has_no_effect_witness:
  "\<exists>err. buildSignedPayment sample_deps ((sample_option ''CUSDC'' ''120'')\<lparr>pr_amount := JStr ''501''\<rparr>)
     sample_client_state = (Inl err, sample_client_state)"
proof -
  let ?q = "(sample_option ''CUSDC'' ''120'')\<lparr>pr_amount := JStr ''501''\<rparr>"
  have "assertBudgetAttributes (xd_budgetAttributes sample_deps)
      \<lparr>br_merchant = pr_payTo ?q, br_category = categoryOf ?q, br_amount = 501,
       br_at = xd_now sample_deps (cs_trace sample_client_state)\<rparr>
      (if xd_tracked sample_deps then memory_tracker (cs_tracker sample_client_state) else None) =
    Inl (Budget (BudgetAttributeDeniedError (PerPaymentCeiling 500)))"
    by (simp add: assertBudgetAttributes_def sample_deps_def matchingBudgetRule_def
        rule_matches_def matchesCategory_def matchesWindow_def getUTCHours_def night_rule_def Let_def)
  from over_budget_payment_has_no_effect [OF _ _ this] show ?thesis
    by (auto simp: sample_option_def NETWORKS_def all_digits_def is_digit_def digits_val_def
        digit_val_def)
qed

text \<open>
  The tracker's running total moves only with an accepted payment: a call of
  \<open>x402Fetch\<close> that throws, or returns an unpaid response, leaves it as it was, and a paid one
  records at most once.
\<close>

theorem fetch_records_only_accepted_payments:
  assumes "x402Fetch deps url init s = (r, s')"
  shows "cs_tracker s' = cs_tracker s \<or>
    (\<exists>p i amount. r = Inr p \<and> xr_paid p \<and> rs_status (xr_response p) < 400 \<and>
       cs_tracker s' = tracker_record (cs_tracker s) i amount)"
proof (cases "fi_body init = Stream")
  case True
  then show ?thesis using assms by (simp add: x402Fetch_def throw_def)
next
  case False
  show ?thesis
    using assms False unfolding x402Fetch_def Let_def
    by (auto elim!: andThen_cases split: if_splits prod.splits
        simp: ret_def throw_def lift_def
        dest!: keepsD [OF keeps_doFetch] keepsD [OF keeps_buildSignedPayment]
          recordSpendFor_tracker) blast
qed

theorem fetch_records_only_accepted_payments_witness:
  "\<exists>p s'. x402Fetch sample_deps ''u'' sample_init sample_client_state = (Inr p, s') \<and> xr_paid p \<and>
     rs_status (xr_response p) < 400"
proof -
  obtain p s' where run: "x402Fetch sample_deps ''u'' sample_init sample_client_state = (Inr p, s')"
    "cs_tracker s' = [0 \<mapsto> 120]"
    using sample_fetch by blast
  have "cs_tracker s' \<noteq> cs_tracker sample_client_state"
    by (auto simp: run(2) sample_client_state_def createInMemoryBudgetAttributeTracker_def
        dest: fun_cong [of _ _ 0])
  then show ?thesis
    using fetch_records_only_accepted_payments [OF run(1)] run(1) by auto
qed

end
