(* ===== verification/Scheme.thy ===== *)
theory Scheme
  imports ClientProps PayerConfig Json
begin

text \<open>
  How the MCP payer signs from a smart account:
  \<open>packages/mcp-x402-payer/src/smart-account-scheme.ts\<close> (the scheme client) and
  \<open>packages/mcp-x402-payer/src/signer.ts\<close> (the payment signer with its selection tripwire).

  The scheme runs the same loop over the authorization entries as the SDK's client, so it uses
  \<open>signEntries\<close> of \<open>Client\<close>, with the signer, RPC and XDR fields of an \<open>x402_deps\<close>. The seller's
  \<open>maxTimeoutSeconds\<close> is a number, as the challenge type declares. Which option the
  \<open>@x402/core\<close> client selects, and how it encodes a payload, are arguments. The tripwire compares
  option values where the code compares object identities.
\<close>

section \<open>The signature lifetime\<close>

definition ESTIMATED_LEDGER_SECONDS :: rat where
  "ESTIMATED_LEDGER_SECONDS = 5"

definition EXPIRATION_SAFETY_MARGIN :: int where
  "EXPIRATION_SAFETY_MARGIN = 2"

definition MIN_EXPIRATION_LEDGERS :: int where
  "MIN_EXPIRATION_LEDGERS = 3"

definition MAX_EXPIRATION_SECONDS :: rat where
  "MAX_EXPIRATION_SECONDS = 300"

definition MIN_VIABLE_EXPIRATION_LEDGERS :: int where
  "MIN_VIABLE_EXPIRATION_LEDGERS = 5"

lemmas expiration_constants = ESTIMATED_LEDGER_SECONDS_def EXPIRATION_SAFETY_MARGIN_def
  MIN_EXPIRATION_LEDGERS_def MAX_EXPIRATION_SECONDS_def MIN_VIABLE_EXPIRATION_LEDGERS_def

definition expirationLedgersFor :: "rat \<Rightarrow> int outcome" where
  "expirationLedgersFor maxTimeoutSeconds =
    (let requested = min maxTimeoutSeconds MAX_EXPIRATION_SECONDS;
         window = \<lceil>requested / ESTIMATED_LEDGER_SECONDS\<rceil>;
         offset = max (window - EXPIRATION_SAFETY_MARGIN) MIN_EXPIRATION_LEDGERS in
     if offset < MIN_VIABLE_EXPIRATION_LEDGERS
     then Inl (Payer (UnworkableTimeoutError maxTimeoutSeconds offset))
     else Inr offset)"

definition NETWORK_PASSPHRASE :: "string \<Rightarrow> string option" where
  "NETWORK_PASSPHRASE network =
     (if network = ''stellar:testnet'' then Some ''Test SDF Network ; September 2015''
      else if network = ''stellar:pubnet'' then Some ''Public Global Stellar Network ; September 2015''
      else None)"

section \<open>Why the account refused\<close>

text \<open>What follows the first occurrence of a pattern.\<close>

fun after_first :: "string \<Rightarrow> string \<Rightarrow> string option" where
  "after_first p [] = strip_prefix p []"
| "after_first p (c # cs) =
     (case strip_prefix p (c # cs) of Some r \<Rightarrow> Some r | None \<Rightarrow> after_first p cs)"

text \<open>The expression \<open>a.*b\<close> with the \<open>s\<close> flag.\<close>

definition occurs_then :: "string \<Rightarrow> string \<Rightarrow> string \<Rightarrow> bool" where
  "occurs_then a b t = (case after_first a t of None \<Rightarrow> False | Some r \<Rightarrow> after_first b r \<noteq> None)"

definition policyRejected :: "string \<Rightarrow> bool" where
  "policyRejected detail =
     (occurs_then ''try_call failed'' ''policy__'' detail \<or>
      occurs_then ''policy__'' ''Error(Contract, #1)'' detail)"

section \<open>The scheme client\<close>

datatype simulation = SimOk | SimError string | SimMissing

record scheme_deps =
  sc_client :: x402_deps
  sc_simulate :: "client_event list \<Rightarrow> auth_entry list \<Rightarrow> string + simulation"
  sc_number :: "rat \<Rightarrow> string"

definition paymentAmount :: "scheme_deps \<Rightarrow> payment_requirements \<Rightarrow> int outcome" where
  "paymentAmount deps requirements =
     (case toBigInt (sc_number deps) (pr_amount requirements) of
        None \<Rightarrow> Inl (Thrown ''SyntaxError'')
      | Some a \<Rightarrow> Inr a)"

text \<open>Re-simulation after signing: here the account's policies run.\<close>

definition resimulate :: "scheme_deps \<Rightarrow> auth_entry list \<Rightarrow> unit client" where
  "resimulate deps auth =
     andThen (call_env (\<lambda>t. sc_simulate deps t auth) (\<lambda>_. CSimulate)) (\<lambda>sim.
     case sim of
       SimOk \<Rightarrow> ret ()
     | SimError d \<Rightarrow> throw (Payer (SmartAccountAuthError (policyRejected d)))
     | SimMissing \<Rightarrow>
         throw (Payer (SmartAccountAuthError (policyRejected ''unknown simulation failure''))))"

definition createPaymentPayload ::
    "scheme_deps \<Rightarrow> int \<Rightarrow> payment_requirements \<Rightarrow> rat \<Rightarrow> (int \<times> string) client" where
  "createPaymentPayload deps x402Version requirements maxTimeoutSeconds =
    (let c = sc_client deps in
     case NETWORK_PASSPHRASE (pr_network requirements) of
       None \<Rightarrow> throw (Thrown ''Unsupported Stellar network'')
     | Some pass \<Rightarrow>
        if areFeesSponsored requirements \<noteq> JBool True
        then throw (Thrown ''Exact scheme requires areFeesSponsored to be true'')
        else
         andThen (lift (paymentAmount deps requirements)) (\<lambda>amount.
         andThen (call_env (xd_build c) (\<lambda>_. CBuild (pr_asset requirements)
           (xd_signerAddress c) (pr_payTo requirements) amount pass)) (\<lambda>built.
         case built of
           None \<Rightarrow> throw (Thrown ''Failed to assemble the transfer'')
         | Some auth \<Rightarrow>
            andThen (call_env (xd_latestLedger c) (\<lambda>_. CLatest)) (\<lambda>latest.
            andThen (lift (expirationLedgersFor maxTimeoutSeconds)) (\<lambda>offset.
            andThen (signEntries c (intended c requirements amount) pass (latest + offset) auth)
              (\<lambda>(auth', signed).
            if signed = 0 then throw (Thrown ''No auth entry found for the paying wallet'')
            else andThen (resimulate deps auth') (\<lambda>_.
              ret (x402Version, xd_envelope c auth'))))))))"

section \<open>The payment signer\<close>

type_synonym 'a signing = "(payment_requirements option \<times> client_state, js_error, 'a) act"

definition onClient :: "'a client \<Rightarrow> 'a signing" where
  "onClient m = (\<lambda>(expected, s). case m s of (r, s') \<Rightarrow> (r, (expected, s')))"

text \<open>The hook that runs before a payment is created.\<close>

definition selectionTripwire :: "payment_requirements \<Rightarrow> unit signing" where
  "selectionTripwire selected = (\<lambda>(expected, s).
     (case expected of
        None \<Rightarrow> Inl (Payer (SelectionMismatchError ''no cleared requirement recorded''))
      | Some e \<Rightarrow>
          if selected \<noteq> e
          then Inl (Payer (SelectionMismatchError ''other option than the one the guards cleared''))
          else Inr (), (expected, s)))"

record core_client =
  cc_select :: "payment_required \<Rightarrow> payment_requirements outcome"
  cc_version :: "payment_required \<Rightarrow> int"
  cc_timeout :: "payment_requirements \<Rightarrow> rat"
  cc_encode :: "int \<Rightarrow> string \<Rightarrow> (string \<times> string) list"

text \<open>
  \<open>http.createPaymentPayload\<close>: select, run the hook, then the registered scheme. The scheme
  gets the selected option and its \<open>maxTimeoutSeconds\<close>.
\<close>

type_synonym scheme_client = "int \<Rightarrow> payment_requirements \<Rightarrow> rat \<Rightarrow> (int \<times> string) client"

definition corePayload ::
    "core_client \<Rightarrow> scheme_client \<Rightarrow> payment_required \<Rightarrow> (int \<times> string) signing" where
  "corePayload core scheme challenge =
     andThen (lift (cc_select core challenge)) (\<lambda>selected.
     andThen (selectionTripwire selected) (\<lambda>_.
       onClient (scheme (cc_version core challenge) selected (cc_timeout core selected))))"

text \<open>\<open>signPayment\<close>, which both signers share word for word; they differ in the scheme.\<close>

definition signPayment_with ::
    "core_client \<Rightarrow> scheme_client \<Rightarrow> payment_required \<Rightarrow> (string \<times> string) list signing" where
  "signPayment_with core scheme challenge =
     (case accepts_of challenge of
        [option] \<Rightarrow>
          finallyDo
            (andThen (modify (\<lambda>(_, s). (Some option, s))) (\<lambda>_.
             andThen (corePayload core scheme challenge) (\<lambda>(version, transaction).
               ret (cc_encode core version transaction))))
            (\<lambda>(_, s). (None, s))
      | _ \<Rightarrow> throw (Payer (SelectionMismatchError ''signPayment expects exactly one option'')))"

definition signPayment_smart ::
    "core_client \<Rightarrow> scheme_deps \<Rightarrow> payment_required \<Rightarrow> (string \<times> string) list signing" where
  "signPayment_smart core deps = signPayment_with core (createPaymentPayload deps)"

text \<open>
  The smart-account signer of a configuration: without a wallet address there is none. The
  session-key signer of the SDK signs; its audit trail is a function of the trace.
\<close>

definition createSmartAccountSigner ::
    "signer_env \<Rightarrow> payer_config \<Rightarrow> x402_signer_rec outcome" where
  "createSmartAccountSigner env config =
     (case pc_walletAddress config of
        None \<Rightarrow> Inl (Thrown ''createSmartAccountSigner requires VELLAR_X402_WALLET'')
      | Some wallet \<Rightarrow>
          if wallet = [] then Inl (Thrown ''createSmartAccountSigner requires VELLAR_X402_WALLET'')
          else createSessionKeySigner env \<lparr>sk_address = wallet, sk_secretKey = pc_secret config,
            sk_policies = pc_policies config, sk_capabilities = []\<rparr>)"

definition scheme_signer ::
    "(client_event list \<Rightarrow> signer_event list) \<Rightarrow> x402_signer_rec \<Rightarrow> x402_deps \<Rightarrow> x402_deps" where
  "scheme_signer trail signer deps =
     deps\<lparr>xd_signerAddress := sg_address signer,
       xd_signAuthEntry := (\<lambda>t x pass e. fst (sg_signAuthEntry signer x pass e (trail t)))\<rparr>"

section \<open>What reaches the signer\<close>

definition fit_scheme_signature :: "scheme_deps \<Rightarrow> payment_requirements \<Rightarrow> client_event \<Rightarrow> bool" where
  "fit_scheme_signature deps requirements e =
     (\<forall>x pass ex. e = CSign x pass ex \<longrightarrow>
       (\<exists>entry amount latest t. x = xd_toXDR (sc_client deps) entry \<and>
          toBigInt (sc_number deps) (pr_amount requirements) = Some amount \<and>
          authorises (xd_xdr (sc_client deps)) entry (intended (sc_client deps) requirements amount) \<and>
          ours (sc_client deps) entry \<and>
          NETWORK_PASSPHRASE (pr_network requirements) = Some pass \<and>
          xd_latestLedger (sc_client deps) t = Inr latest \<and>
          latest + 5 \<le> ex \<and> ex \<le> latest + 58))"

lemma expirationLedgersFor_range:
  "expirationLedgersFor t = Inr n \<Longrightarrow> 5 \<le> n \<and> n \<le> 58"
proof -
  assume "expirationLedgersFor t = Inr n"
  moreover have "\<lceil>min t 300 / 5\<rceil> \<le> (60::int)" by (simp add: ceiling_le_iff)
  ultimately show ?thesis
    by (auto simp: expirationLedgersFor_def expiration_constants Let_def split: if_splits)
qed

lemma emits_resimulate: "P CSimulate \<Longrightarrow> emits P (resimulate deps auth)"
  unfolding resimulate_def
  by (auto intro!: emits_then emits_call emits_rules split: simulation.splits)

lemma emits_createPaymentPayload:
  "emits (fit_scheme_signature deps requirements)
     (createPaymentPayload deps v requirements maxTimeoutSeconds)"
proof -
  let ?P = "fit_scheme_signature deps requirements" and ?c = "sc_client deps"
  have other: "?P e" if "\<forall>x pass ex. e \<noteq> CSign x pass ex" for e
    using that by (simp add: fit_scheme_signature_def)
  have entries: "emits ?P (signEntries ?c (intended ?c requirements amount) pass (latest + offset) auth)"
    if "NETWORK_PASSPHRASE (pr_network requirements) = Some pass"
      "paymentAmount deps requirements = Inr amount" "xd_latestLedger ?c t = Inr latest"
      "expirationLedgersFor maxTimeoutSeconds = Inr offset" for pass amount latest t offset auth
  proof (rule emits_signEntries)
    fix entry
    assume "ours ?c entry" "authorises (xd_xdr ?c) entry (intended ?c requirements amount)"
    moreover have "toBigInt (sc_number deps) (pr_amount requirements) = Some amount"
      using that(2) by (simp add: paymentAmount_def split: option.splits)
    ultimately show "?P (CSign (xd_toXDR ?c entry) pass (latest + offset))"
      using that(1,3) expirationLedgersFor_range [OF that(4)]
      unfolding fit_scheme_signature_def by force
  qed
  show ?thesis
    unfolding createPaymentPayload_def Let_def
    by (auto simp: emits_rules split: option.splits prod.splits dest!: call_env_Inr
        intro!: emits_then emits_call emits_resimulate entries other)
qed

section \<open>The tripwire\<close>

text \<open>The scheme runs on the cleared option or not at all.\<close>

lemma corePayload_selected:
  assumes "corePayload core scheme challenge (Some opt, s) = (r, (expected, s'))"
  shows "(s' = s \<and> (\<exists>e. r = Inl e)) \<or>
    (cc_select core challenge = Inr opt \<and> expected = Some opt \<and>
     scheme (cc_version core challenge) opt (cc_timeout core opt) s = (r, s'))"
  using assms
  by (auto simp: corePayload_def onClient_def selectionTripwire_def act_defs
      split: sum.splits prod.splits if_splits)

lemma signPayment_runs_scheme:
  assumes "signPayment_with core scheme challenge (cur, s) = (r, (cur', s'))"
  shows "(s' = s \<and> (\<exists>e. r = Inl e)) \<or>
    (\<exists>opt r'. accepts_of challenge = [opt] \<and> cc_select core challenge = Inr opt \<and> cur' = None \<and>
       scheme (cc_version core challenge) opt (cc_timeout core opt) s = (r', s') \<and>
       r = map_sum id (\<lambda>(v, tx). cc_encode core v tx) r')"
proof (cases "\<exists>opt. accepts_of challenge = [opt]")
  case False
  then have "r = Inl (Payer (SelectionMismatchError ''signPayment expects exactly one option''))" "s' = s"
    using assms by (auto simp: signPayment_with_def throw_def split: list.splits)
  then show ?thesis by simp
next
  case True
  then obtain opt where opt: "accepts_of challenge = [opt]" by blast
  obtain r1 e1 s1 where core: "corePayload core scheme challenge (Some opt, s) = (r1, (e1, s1))"
    by (metis prod_cases3)
  have "cur' = None" "s' = s1" "r = map_sum id (\<lambda>(v, tx). cc_encode core v tx) r1"
    using assms opt core by (auto simp: signPayment_with_def act_defs split: sum.splits prod.splits)
  then show ?thesis
    using corePayload_selected [OF core] opt by auto
qed

lemma signPayment_smart_fit:
  assumes "signPayment_smart core deps challenge (cur, s) = (r, (cur', s'))"
  shows "\<exists>evs. cs_trace s' = cs_trace s @ evs \<and>
    (evs = [] \<and> (\<exists>e. r = Inl e) \<or>
     (\<exists>opt. accepts_of challenge = [opt] \<and> cc_select core challenge = Inr opt \<and> cur' = None \<and>
        list_all (fit_scheme_signature deps opt) evs))"
  using signPayment_runs_scheme [OF assms [unfolded signPayment_smart_def]]
    emitsD [OF emits_createPaymentPayload] by fastforce

section \<open>What a payload carries\<close>

text \<open>
  With a signer that keeps what it signs, the entries of the wallet that go into the envelope are
  exactly the signed ones, and each authorises the intended transfer.
\<close>

lemma signEntries_authorise:
  assumes sign: "\<And>t entry sx. ours deps entry \<Longrightarrow> authorises (xd_xdr deps) entry expected \<Longrightarrow>
      xd_signAuthEntry deps t (xd_toXDR deps entry) pass ex = Inr sx \<Longrightarrow>
      \<exists>signed. xd_fromXDR deps sx = Some signed \<and> ours deps signed \<and>
        authorises (xd_xdr deps) signed expected"
    and run: "signEntries deps expected pass ex auth s = (Inr (auth', n), s')"
  shows "list_all (\<lambda>e. ours deps e \<longrightarrow> authorises (xd_xdr deps) e expected) auth' \<and>
    n = length (filter (ours deps) auth')"
  using run
proof (induction auth arbitrary: auth' n s s')
  case (Cons entry rest)
  show ?case
  proof (cases "ours deps entry")
    case False
    then obtain auth1 where rest: "signEntries deps expected pass ex rest s = (Inr (auth1, n), s')"
      and "auth' = entry # auth1"
      using Cons.prems by (auto elim!: andThen_cases simp: ret_def split: prod.splits)
    then show ?thesis using Cons.IH [OF rest] False by simp
  next
    case True
    then obtain signed auth1 m s1 s2 where
      ok: "assertAuthEntryInvocation (xd_xdr deps) entry expected = Inr ()"
      and one: "signOne deps pass ex entry s1 = (Inr signed, s2)"
      and rest: "signEntries deps expected pass ex rest s2 = (Inr (auth1, m), s')"
      and eq: "auth' = signed # auth1" "n = Suc m"
      using Cons.prems by (auto elim!: andThen_cases simp: ret_def split: prod.splits)
    obtain sx t where "xd_signAuthEntry deps t (xd_toXDR deps entry) pass ex = Inr sx"
      "xd_fromXDR deps sx = Some signed"
      using one by (auto simp: signOne_def act_defs split: sum.splits option.splits)
    then have "ours deps signed \<and> authorises (xd_xdr deps) signed expected"
      using sign [OF True] ok by (fastforce simp: assertAuthEntryInvocation_iff)
    then show ?thesis using Cons.IH [OF rest] eq by simp
  qed
qed (simp add: ret_def)

lemma createPaymentPayload_Inr:
  assumes "createPaymentPayload deps v requirements t s = (Inr (v', tx), s')"
  obtains pass amount latest offset auth auth' n s1 s2 where
    "NETWORK_PASSPHRASE (pr_network requirements) = Some pass"
    "toBigInt (sc_number deps) (pr_amount requirements) = Some amount"
    "expirationLedgersFor t = Inr offset"
    "signEntries (sc_client deps) (intended (sc_client deps) requirements amount) pass
       (latest + offset) auth s1 = (Inr (auth', n), s2)"
    "n \<noteq> 0" "tx = xd_envelope (sc_client deps) auth'" "v' = v"
  using assms unfolding createPaymentPayload_def Let_def
  by (auto simp: ret_def throw_def paymentAmount_def elim!: andThen_cases
      split: option.splits if_splits prod.splits)

lemma session_key_signer_kept:
  assumes "createSmartAccountSigner env config = Inr signer"
    and codec: "\<And>e. se_fromXDR env (se_toXDR env e) = Some e"
    and "authorises xe entry expected"
    and "sg_signAuthEntry signer (se_toXDR env entry) pass ex trail = (Inr sx, trail')"
  shows "\<exists>signed. se_fromXDR env sx = Some signed \<and> authorises xe signed expected \<and>
    signed_form entry (sg_address signer) ex signed"
proof -
  obtain wallet rawPk sign where
    "signer = \<lparr>sg_address = wallet,
       sg_signAuthEntry = sessionKeySign env wallet rawPk sign (pc_policies config)\<rparr>"
    using assms(1)
    by (auto simp: createSmartAccountSigner_def createSessionKeySigner_def result_splits
        split: option.splits if_splits)
  then show ?thesis
    using session_key.signed_authorises [OF codec assms(3)] assms(4) by simp
qed

lemma payload_authorises:
  assumes signer: "createSmartAccountSigner env config = Inr signer"
    and codec: "\<And>e. se_fromXDR env (se_toXDR env e) = Some e"
    and deps: "sc_client deps = scheme_signer trail signer base"
      "xd_fromXDR base = se_fromXDR env" "xd_toXDR base = se_toXDR env"
    and run: "createPaymentPayload deps v requirements t s = (Inr (v', tx), s')"
  shows "\<exists>auth amount. tx = xd_envelope base auth \<and>
    toBigInt (sc_number deps) (pr_amount requirements) = Some amount \<and>
    list_all (\<lambda>e. ours (sc_client deps) e \<longrightarrow>
      authorises (xd_xdr base) e (intended (sc_client deps) requirements amount)) auth \<and>
    list_ex (ours (sc_client deps)) auth"
proof -
  let ?c = "sc_client deps"
  have c: "xd_fromXDR ?c = se_fromXDR env" "xd_toXDR ?c = se_toXDR env" "xd_xdr ?c = xd_xdr base"
    "xd_envelope ?c = xd_envelope base" "xd_signerAddress ?c = sg_address signer"
    "xd_signAuthEntry ?c = (\<lambda>t x pass e. fst (sg_signAuthEntry signer x pass e (trail t)))"
    using deps by (simp_all add: scheme_signer_def)
  obtain pass amount latest offset auth auth' n s1 s2 where
    amount: "toBigInt (sc_number deps) (pr_amount requirements) = Some amount"
    and entries: "signEntries ?c (intended ?c requirements amount) pass (latest + offset) auth s1 =
      (Inr (auth', n), s2)"
    and n: "n \<noteq> 0" and tx: "tx = xd_envelope ?c auth'"
    using createPaymentPayload_Inr [OF run] by metis
  have "list_all (\<lambda>e. ours ?c e \<longrightarrow> authorises (xd_xdr ?c) e (intended ?c requirements amount)) auth' \<and>
      n = length (filter (ours ?c) auth')"
  proof (rule signEntries_authorise [OF _ entries])
    fix t entry sx
    assume a: "authorises (xd_xdr ?c) entry (intended ?c requirements amount)"
      and "xd_signAuthEntry ?c t (xd_toXDR ?c entry) pass (latest + offset) = Inr sx"
    then obtain trail' where
      "sg_signAuthEntry signer (se_toXDR env entry) pass (latest + offset) (trail t) = (Inr sx, trail')"
      using c by (metis prod.collapse)
    from session_key_signer_kept [OF signer codec a this]
    show "\<exists>signed. xd_fromXDR ?c sx = Some signed \<and> ours ?c signed \<and>
        authorises (xd_xdr ?c) signed (intended ?c requirements amount)"
      using c by (auto simp: signed_form_def ours_def)
  qed
  moreover from this have "list_ex (ours ?c) auth'"
    using n by (auto simp: list_ex_iff filter_empty_conv)
  ultimately show ?thesis
    using amount tx c by auto
qed

section \<open>Properties\<close>

text \<open>
  C35 (bounds): the lifetime of a smart-account signature is decided by the seller's timeout alone.
  A timeout of at most 30 seconds is refused before anything is signed; a longer one gives between
  5 and 58 ledgers, and at five seconds a ledger that always ends more than five seconds before
  the seller's window, however long a window the seller asks for.
\<close>

theorem signature_lifetime_exact:
  "case expirationLedgersFor t of
     Inl e \<Rightarrow> t \<le> 30 \<and> e = Payer (UnworkableTimeoutError t (max (\<lceil>t / 5\<rceil> - 2) 3))
   | Inr n \<Rightarrow> 30 < t \<and> n = \<lceil>min t 300 / 5\<rceil> - 2 \<and> 5 \<le> n \<and> n \<le> 58 \<and> 5 * of_int n < t - 5"
proof (cases "t \<le> 30")
  case True
  then have "\<lceil>t / 5\<rceil> \<le> 6" by (simp add: ceiling_le_iff)
  then show ?thesis
    using True by (simp add: expirationLedgersFor_def expiration_constants Let_def)
next
  case False
  have w: "7 \<le> \<lceil>min t 300 / 5\<rceil>"
    using False by (simp add: le_ceiling_iff)
  then have eq: "expirationLedgersFor t = Inr (\<lceil>min t 300 / 5\<rceil> - 2)"
    by (simp add: expirationLedgersFor_def expiration_constants Let_def)
  have "of_int \<lceil>min t 300 / 5\<rceil> - 1 < min t 300 / 5" "min t 300 \<le> t"
    using ceiling_correct [of "min t 300 / 5"] by simp_all
  moreover have "5 * (c - 2) < t - 5" if "c - 1 < m / 5" "m \<le> t" for c m :: rat
    using that by (simp add: field_simps)
  ultimately have "5 * of_int (\<lceil>min t 300 / 5\<rceil> - 2) < t - 5"
    by simp
  then show ?thesis using False eq w expirationLedgersFor_range [OF eq] by simp
qed

end
