(* ===== verification/Session.thy ===== *)
theory Session
  imports Errors Json
begin

text \<open>
  The wallet session store (\<open>src/session.ts\<close>): the persistence adapters, the store's operations
  and the optional refresh polling.

  A session that was loaded from storage is an untyped object, so the store holds a JSON value;
  \<open>wallet_session\<close> is the declared type and \<open>session_json\<close> the object of that type. A storage
  adapter is three actions on its own state \<open>'s\<close>. The locale \<open>session_storage\<close> is what the store
  relies on; both adapters of the file interpret it.
\<close>

section \<open>Sessions\<close>

record wallet_session =
  accountId :: string
  ws_network :: string
  connected :: bool
  authMethod :: string
  createdAt :: string
  lastActiveAt :: string
  serverSessionId :: "string option"
  keyId :: "string option"

definition opt_json :: "string option \<Rightarrow> json" where
  "opt_json v = (case v of None \<Rightarrow> JUndefined | Some s \<Rightarrow> JStr s)"

text \<open>The object of a session; a property that is not set is not there.\<close>

definition session_json :: "wallet_session \<Rightarrow> json" where
  "session_json s = JObj (filter (\<lambda>(k, v). v \<noteq> JUndefined)
     [(''accountId'', JStr (accountId s)), (''network'', JStr (ws_network s)),
      (''connected'', JBool (connected s)), (''authMethod'', JStr (authMethod s)),
      (''createdAt'', JStr (createdAt s)), (''lastActiveAt'', JStr (lastActiveAt s)),
      (''serverSessionId'', opt_json (serverSessionId s)), (''keyId'', opt_json (keyId s))])"

fun is_str :: "json \<Rightarrow> bool" where
  "is_str (JStr _) = True"
| "is_str _ = False"

fun is_bool :: "json \<Rightarrow> bool" where
  "is_bool (JBool _) = True"
| "is_bool _ = False"

text \<open>Arrays are objects too; they have none of the properties.\<close>

definition isWalletSession :: "json \<Rightarrow> bool" where
  "isWalletSession v =
     (case v of
        JObj kvs \<Rightarrow>
          is_str (jprop v ''accountId'') \<and> jprop v ''accountId'' \<noteq> JStr [] \<and>
          (jprop v ''network'' = JStr ''testnet'' \<or> jprop v ''network'' = JStr ''mainnet'') \<and>
          is_bool (jprop v ''connected'') \<and>
          jprop v ''authMethod'' = JStr ''passkey'' \<and>
          is_str (jprop v ''createdAt'') \<and> is_str (jprop v ''lastActiveAt'')
      | _ \<Rightarrow> False)"

section \<open>Storage adapters\<close>

record 's storage_adapter =
  load :: "('s, js_error, json option) act"
  save :: "json \<Rightarrow> ('s, js_error, unit) act"
  clear :: "('s, js_error, unit) act"

text \<open>
  A \<open>Storage\<close>-like object: its items, and whether it has room for a value (\<open>setItem\<close> throws
  when it has not).
\<close>

record web_storage =
  items :: "string \<Rightarrow> string option"
  hasRoom :: "string \<Rightarrow> string \<Rightarrow> bool"

definition getItem :: "string \<Rightarrow> web_storage \<Rightarrow> string option" where
  "getItem key st = items st key"

definition setItem :: "string \<Rightarrow> string \<Rightarrow> (web_storage, js_error, unit) act" where
  "setItem key v = (\<lambda>st. if hasRoom st key v then (Inr (), st\<lparr>items := (items st)(key := Some v)\<rparr>)
     else (Inl (Thrown ''QuotaExceededError''), st))"

definition removeItem :: "string \<Rightarrow> (web_storage, js_error, unit) act" where
  "removeItem key = modify (\<lambda>st. st\<lparr>items := (items st)(key := None)\<rparr>)"

definition createWebStorageAdapter :: "(rat \<Rightarrow> string) \<Rightarrow> string \<Rightarrow> web_storage storage_adapter" where
  "createWebStorageAdapter num key =
     \<lparr>load = andThen (gets (getItem key)) (\<lambda>raw.
        case raw of
          None \<Rightarrow> ret None
        | Some text \<Rightarrow>
            (case JSON_parse text of
               None \<Rightarrow> throw (Thrown ''SyntaxError'')
             | Some parsed \<Rightarrow> ret (if isWalletSession parsed then Some parsed else None))),
      save = (\<lambda>session. setItem key (stringify num session)),
      clear = removeItem key\<rparr>"

definition createMemoryStorageAdapter :: "json option storage_adapter" where
  "createMemoryStorageAdapter =
     \<lparr>load = gets (\<lambda>stored. stored),
      save = (\<lambda>session. modify (\<lambda>_. Some session)),
      clear = modify (\<lambda>_. None)\<rparr>"

section \<open>The store\<close>

datatype session_status = Loading | Connected | Disconnected

record 's session_store =
  session :: "json option"
  status :: session_status
  timer :: bool
  disposed :: bool
  storage :: 's

text \<open>The initial store over a storage.\<close>

definition createSessionStore :: "'s \<Rightarrow> 's session_store" where
  "createSessionStore st =
     \<lparr>session = None, status = Loading, timer = False, disposed = False, storage = st\<rparr>"

definition onStorage :: "('s, 'e, 'a) act \<Rightarrow> ('s session_store, 'e, 'a) act" where
  "onStorage m = (\<lambda>st. case m (storage st) of (r, s') \<Rightarrow> (r, st\<lparr>storage := s'\<rparr>))"

text \<open>\<open>refreshIntervalMs\<close> is \<open>None\<close> when polling is not configured.\<close>

definition startRefresh :: "int option \<Rightarrow> 's session_store \<Rightarrow> 's session_store" where
  "startRefresh refreshIntervalMs st =
     (if disposed st then st
      else if timer st then st
      else if refreshIntervalMs = None \<or> the refreshIntervalMs \<le> 0 then st
      else st\<lparr>timer := True\<rparr>)"

definition stopRefresh :: "'s session_store \<Rightarrow> 's session_store" where
  "stopRefresh st = (if timer st then st\<lparr>timer := False\<rparr> else st)"

definition start_session ::
  "'s storage_adapter \<Rightarrow> int option \<Rightarrow> json \<Rightarrow> ('s session_store, js_error, unit) act" where
  "start_session a interval v =
     andThen (onStorage (save a v)) (\<lambda>_.
     modify (\<lambda>st. startRefresh interval (st\<lparr>session := Some v, status := Connected\<rparr>)))"

text \<open>\<open>{ ...session, lastActiveAt }\<close>.\<close>

fun touched :: "string \<Rightarrow> json \<Rightarrow> json" where
  "touched now (JObj kvs) = JObj (jset ''lastActiveAt'' (JStr now) kvs)"
| "touched now v = JObj [(''lastActiveAt'', JStr now)]"

text \<open>What \<open>touch\<close> does when its \<open>await\<close> is over.\<close>

definition touchCommit :: "json \<Rightarrow> 's session_store \<Rightarrow> 's session_store" where
  "touchCommit updated st = st\<lparr>session := Some updated\<rparr>"

definition touch :: "'s storage_adapter \<Rightarrow> string \<Rightarrow> ('s session_store, js_error, unit) act" where
  "touch a now =
     andThen (gets session) (\<lambda>cur.
     case cur of
       None \<Rightarrow> ret ()
     | Some s \<Rightarrow>
         andThen (onStorage (save a (touched now s))) (\<lambda>_. modify (touchCommit (touched now s))))"

definition end_session :: "'s storage_adapter \<Rightarrow> ('s session_store, js_error, unit) act" where
  "end_session a =
     andThen (onStorage (clear a)) (\<lambda>_.
     modify (\<lambda>st. (stopRefresh st)\<lparr>session := None, status := Disconnected\<rparr>))"

definition restore :: "'s storage_adapter \<Rightarrow> int option \<Rightarrow> ('s session_store, js_error, unit) act" where
  "restore a interval =
     tryCatch
       (andThen (onStorage (load a)) (\<lambda>stored.
        case stored of
          Some v \<Rightarrow>
            if isWalletSession v
            then modify (\<lambda>st. startRefresh interval (st\<lparr>session := Some v, status := Connected\<rparr>))
            else modify (\<lambda>st. st\<lparr>session := None, status := Disconnected\<rparr>)
        | None \<Rightarrow> modify (\<lambda>st. st\<lparr>session := None, status := Disconnected\<rparr>)))
       (\<lambda>_. modify (\<lambda>st. st\<lparr>session := None, status := Disconnected\<rparr>))"

definition dispose :: "'s session_store \<Rightarrow> 's session_store" where
  "dispose st = stopRefresh (st\<lparr>disposed := True\<rparr>)"

text \<open>The callback of the polling timer; a failure of the touch is not awaited by anyone.\<close>

definition refreshTick :: "'s storage_adapter \<Rightarrow> string \<Rightarrow> 's session_store \<Rightarrow> 's session_store" where
  "refreshTick a now st = (if disposed st then st else snd (touch a now st))"

text \<open>The operations, each awaited before the next one is called.\<close>

datatype session_op = OpStart json | OpTouch string | OpEnd | OpRestore | OpDispose | OpTick string

fun run_op :: "'s storage_adapter \<Rightarrow> int option \<Rightarrow> session_op \<Rightarrow> 's session_store \<Rightarrow> 's session_store" where
  "run_op a i (OpStart v) st = snd (start_session a i v st)"
| "run_op a i (OpTouch now) st = snd (touch a now st)"
| "run_op a i OpEnd st = snd (end_session a st)"
| "run_op a i OpRestore st = snd (restore a i st)"
| "run_op a i OpDispose st = dispose st"
| "run_op a i (OpTick now) st = (if timer st then refreshTick a now st else st)"

definition run_ops ::
  "'s storage_adapter \<Rightarrow> int option \<Rightarrow> session_op list \<Rightarrow> 's session_store \<Rightarrow> 's session_store" where
  "run_ops a i ops st = fold (run_op a i) ops st"

fun starts_with_valid :: "(json \<Rightarrow> bool) \<Rightarrow> session_op \<Rightarrow> bool" where
  "starts_with_valid P (OpStart v) = P v"
| "starts_with_valid P _ = True"

section \<open>Touching a session\<close>

lemma map_of_jset: "map_of (jset k v kvs) k' = (if k' = k then Some v else map_of kvs k')"
  by (induction kvs) auto

lemma isWalletSession_touched: "isWalletSession v \<Longrightarrow> isWalletSession (touched now v)"
proof (cases v)
  case (JObj kvs)
  assume "isWalletSession v"
  then show ?thesis by (simp add: isWalletSession_def JObj map_of_jset)
qed (simp_all add: isWalletSession_def)

lemma set_jset: "set (jset k v kvs) \<subseteq> insert (k, v) (set kvs)"
  by (induction kvs) (auto split: if_splits)

lemma fst_jset: "fst ` set (jset k v kvs) = insert k (fst ` set kvs)"
  unfolding dom_map_of_conv_image_fst [symmetric] by (auto simp: map_of_jset dom_def)

lemma distinct_jset: "distinct (map fst kvs) \<Longrightarrow> distinct (map fst (jset k v kvs))"
proof (induction kvs)
  case (Cons kv kvs)
  obtain k1 v1 where kv: "kv = (k1, v1)" by (cases kv)
  have "set (map fst (jset k v kvs)) = insert k (set (map fst kvs))"
    using fst_jset [of k v kvs] by simp
  then show ?case using Cons kv by auto
qed simp

lemma printable_touched: "printable v \<Longrightarrow> printable (touched now v)"
proof (cases v)
  case (JObj kvs)
  assume "printable v"
  then show ?thesis
    using JObj set_jset [of "''lastActiveAt''" "JStr now" kvs]
    by (auto simp: distinct_jset list_all_iff)
qed simp_all

section \<open>What the store relies on\<close>

text \<open>
  An adapter returns what it saved last and nothing after a clear, reading changes nothing, and
  an operation that throws leaves the stored session as it was.
\<close>

locale session_storage =
  fixes a :: "'s storage_adapter" and storable :: "json \<Rightarrow> bool"
  assumes save_load: "storable v \<Longrightarrow> save a v s = (Inr u, s') \<Longrightarrow> load a s' = (Inr (Some v), s')"
    and save_fail: "save a v s = (Inl e, s') \<Longrightarrow> s' = s"
    and clear_load: "clear a s = (Inr u, s') \<Longrightarrow> load a s' = (Inr None, s')"
    and clear_fail: "clear a s = (Inl e, s') \<Longrightarrow> s' = s"
    and storable_valid: "storable v \<Longrightarrow> isWalletSession v"
    and storable_touched: "storable v \<Longrightarrow> storable (touched now v)"
begin

text \<open>The store holds what a reload would find.\<close>

definition mirrored :: "'s session_store \<Rightarrow> bool" where
  "mirrored st = (load a (storage st) = (Inr (session st), storage st) \<and>
     (\<forall>v. session st = Some v \<longrightarrow> storable v) \<and>
     status st = (if session st = None then Disconnected else Connected))"

lemma start_mirrored:
  assumes "storable v" "start_session a i v st = (Inr u, st')"
  shows "mirrored st' \<and> session st' = Some v"
  using assms
  by (auto simp: start_session_def onStorage_def act_defs mirrored_def startRefresh_def
      dest: save_load split: prod.splits sum.splits if_splits)

lemma start_keeps:
  assumes "storable v" "mirrored st"
  shows "mirrored (snd (start_session a i v st))"
proof (cases "save a v (storage st)")
  case (Pair r s')
  then show ?thesis
    using assms save_fail save_load
    by (cases r) (auto simp: start_session_def onStorage_def act_defs mirrored_def startRefresh_def)
qed

lemma touch_keeps: "mirrored st \<Longrightarrow> mirrored (snd (touch a now st))"
proof (cases "session st")
  case None
  then show "mirrored st \<Longrightarrow> ?thesis" by (simp add: touch_def act_defs)
next
  case (Some v)
  assume m: "mirrored st"
  then have "storable (touched now v)" using Some storable_touched by (simp add: mirrored_def)
  then show ?thesis
    using m Some save_fail save_load
    by (cases "save a (touched now v) (storage st)")
      (auto simp: touch_def touchCommit_def onStorage_def act_defs mirrored_def split: sum.splits)
qed

lemma end_keeps: "mirrored st \<Longrightarrow> mirrored (snd (end_session a st))"
proof (cases "clear a (storage st)")
  case (Pair r s')
  moreover assume "mirrored st"
  ultimately show ?thesis
    using clear_fail [of "storage st" _ s'] clear_load [of "storage st" _ s']
    by (cases r) (auto simp: end_session_def onStorage_def act_defs mirrored_def stopRefresh_def)
qed

lemma restore_keeps: "mirrored st \<Longrightarrow> mirrored (snd (restore a i st))"
  using storable_valid
  by (cases "session st")
    (auto simp: restore_def onStorage_def act_defs mirrored_def startRefresh_def)

lemma run_op_keeps: "starts_with_valid storable op \<Longrightarrow> mirrored st \<Longrightarrow> mirrored (run_op a i op st)"
proof (cases op)
  case OpDispose
  then show "mirrored st \<Longrightarrow> ?thesis"
    by (simp add: dispose_def stopRefresh_def mirrored_def)
qed (auto simp: start_keeps touch_keeps end_keeps restore_keeps refreshTick_def)

lemma run_ops_keeps:
  "list_all (starts_with_valid storable) ops \<Longrightarrow> mirrored st \<Longrightarrow> mirrored (run_ops a i ops st)"
  unfolding run_ops_def by (induction ops arbitrary: st) (auto simp: run_op_keeps)

lemma reload_equal:
  assumes "mirrored st"
  shows "\<exists>st'. restore a i (createSessionStore (storage st)) = (Inr (), st') \<and>
    session st' = session st \<and> status st' = status st \<and> storage st' = storage st"
  using assms storable_valid
  by (cases "session st")
    (auto simp: restore_def onStorage_def act_defs mirrored_def createSessionStore_def startRefresh_def)

lemma reload_resumes:
  assumes "storable v" "start_session a i v st = (Inr u, st1)"
    and "list_all (starts_with_valid storable) ops" "st2 = run_ops a i ops st1"
  shows "\<exists>st'. restore a i (createSessionStore (storage st2)) = (Inr (), st') \<and>
    session st' = session st2 \<and> status st' = status st2 \<and> storage st' = storage st2"
  using reload_equal [OF run_ops_keeps] start_mirrored [OF assms(1,2)] assms(3,4) by blast

end

text \<open>Sessions that the web adapter can print and read back.\<close>

definition web_storable :: "json \<Rightarrow> bool" where
  "web_storable v = (isWalletSession v \<and> printable v)"

interpretation web: session_storage "createWebStorageAdapter num key" web_storable for num key
  by unfold_locales
    (auto simp: createWebStorageAdapter_def web_storable_def setItem_def removeItem_def getItem_def
      act_defs JSON_roundtrip isWalletSession_touched printable_touched split: if_splits)

interpretation memory: session_storage createMemoryStorageAdapter isWalletSession
  by unfold_locales
    (auto simp: createMemoryStorageAdapter_def act_defs isWalletSession_touched)

section \<open>Consistency of the store\<close>

definition store_inv :: "int option \<Rightarrow> 's session_store \<Rightarrow> bool" where
  "store_inv i st =
     ((session st \<noteq> None \<longleftrightarrow> status st = Connected) \<and>
      (\<forall>v. session st = Some v \<longrightarrow> isWalletSession v) \<and>
      (disposed st \<longrightarrow> \<not> timer st) \<and>
      (timer st \<longrightarrow> (\<exists>ms. i = Some ms \<and> 0 < ms)))"

lemma store_inv_refresh: "store_inv i st \<Longrightarrow> store_inv i (startRefresh i st)"
  by (auto simp: store_inv_def startRefresh_def)

lemma store_inv_storage: "store_inv i (st\<lparr>storage := s\<rparr>) = store_inv i st"
  by (simp add: store_inv_def)

lemma store_inv_connect:
  "store_inv i st \<Longrightarrow> isWalletSession v \<Longrightarrow> store_inv i (st\<lparr>session := Some v, status := Connected\<rparr>)"
  by (simp add: store_inv_def)

lemma store_inv_disconnect:
  "store_inv i st \<Longrightarrow> store_inv i (st\<lparr>session := None, status := Disconnected\<rparr>)"
  by (simp add: store_inv_def)

lemma store_inv_start:
  assumes "store_inv i st" "isWalletSession v"
  shows "store_inv i (snd (start_session a i v st))"
proof (cases "save a v (storage st)")
  case (Pair r s')
  have "store_inv i (startRefresh i (st\<lparr>storage := s', session := Some v, status := Connected\<rparr>))"
    using assms by (intro store_inv_refresh) (simp add: store_inv_def)
  then show ?thesis
    using Pair assms by (cases r) (auto simp: start_session_def onStorage_def act_defs store_inv_storage)
qed

lemma store_inv_touch:
  assumes "store_inv i st"
  shows "store_inv i (snd (touch a now st))"
proof (cases "session st")
  case None
  then show ?thesis using assms by (simp add: touch_def act_defs)
next
  case (Some v)
  then have "isWalletSession (touched now v)"
    using assms by (simp add: store_inv_def isWalletSession_touched)
  then show ?thesis
    using assms Some
    by (cases "save a (touched now v) (storage st)")
      (auto simp: touch_def touchCommit_def onStorage_def act_defs store_inv_def split: sum.splits)
qed

lemma store_inv_end: "store_inv i st \<Longrightarrow> store_inv i (snd (end_session a st))"
  by (cases "clear a (storage st)")
    (auto simp: end_session_def onStorage_def act_defs store_inv_def stopRefresh_def split: sum.splits)

text \<open>What \<open>restore\<close> makes of the adapter's answer; it never throws.\<close>

lemma restore_outcome:
  assumes "load a (storage st) = (r, s')"
  shows "restore a i st = (Inr (),
    case r of
      Inr (Some v) \<Rightarrow>
        if isWalletSession v
        then startRefresh i (st\<lparr>storage := s', session := Some v, status := Connected\<rparr>)
        else st\<lparr>storage := s', session := None, status := Disconnected\<rparr>
    | _ \<Rightarrow> st\<lparr>storage := s', session := None, status := Disconnected\<rparr>)"
  using assms by (auto simp: restore_def onStorage_def act_defs split: sum.splits option.splits)

lemma store_inv_restore:
  assumes "store_inv i st"
  shows "store_inv i (snd (restore a i st))"
proof (cases "load a (storage st)")
  case (Pair r s')
  have ok: "store_inv i (startRefresh i (st\<lparr>storage := s', session := Some v, status := Connected\<rparr>))"
    if "isWalletSession v" for v
    using assms that by (intro store_inv_refresh) (simp add: store_inv_def)
  have "store_inv i (st\<lparr>storage := s', session := None, status := Disconnected\<rparr>)"
    using assms by (simp add: store_inv_def)
  then show ?thesis
    using ok restore_outcome [OF Pair, of i] by (auto split: sum.splits option.splits)
qed

lemma store_inv_op:
  assumes "store_inv i st" "starts_with_valid isWalletSession op"
  shows "store_inv i (run_op a i op st)"
proof (cases op)
  case OpDispose
  then show ?thesis using assms by (simp add: dispose_def stopRefresh_def store_inv_def)
qed (use assms in \<open>auto simp: store_inv_start store_inv_touch store_inv_end store_inv_restore
       refreshTick_def\<close>)

lemma store_inv_ops:
  assumes "store_inv i st" "list_all (starts_with_valid isWalletSession) ops"
  shows "store_inv i (run_ops a i ops st)"
  using assms unfolding run_ops_def by (induction ops arbitrary: st) (auto simp: store_inv_op)

text \<open>
  When the two are called without waiting, \<open>touch\<close> can come back after \<open>end\<close>: the store then
  holds a session although it is disconnected.
\<close>

lemma late_touch_resurrects:
  assumes "session st = Some v" "end_session a st = (Inr u, st')"
  shows "status (touchCommit (touched now v) st') = Disconnected \<and>
    session (touchCommit (touched now v) st') = Some (touched now v)"
  using assms
  by (auto simp: end_session_def onStorage_def act_defs touchCommit_def stopRefresh_def
      split: prod.splits sum.splits)

section \<open>Properties\<close>


definition sample_session :: wallet_session where
  "sample_session = \<lparr>accountId = ''C1'', ws_network = ''testnet'', connected = True,
     authMethod = ''passkey'', createdAt = ''t0'', lastActiveAt = ''t0'', serverSessionId = None,
     keyId = Some ''k''\<rparr>"

definition sample_web :: web_storage where
  "sample_web = \<lparr>items = (\<lambda>_. None), hasRoom = (\<lambda>_ _. True)\<rparr>"

lemma sample_session_valid:
  "isWalletSession (session_json sample_session)" "printable (session_json sample_session)"
  by (simp_all add: isWalletSession_def session_json_def sample_session_def opt_json_def)

lemma sample_start:
  "fst (start_session (createWebStorageAdapter (\<lambda>_. []) ''s'') None (session_json sample_session)
     (createSessionStore sample_web)) = Inr ()"
  by (simp add: start_session_def onStorage_def act_defs createWebStorageAdapter_def setItem_def
      createSessionStore_def sample_web_def)


text \<open>
  Over any sequence of store operations and refresh ticks, with any storage
  adapter, also one that fails or returns arbitrary values, the store is consistent: it is
  connected exactly while it holds a session, what it holds passes \<open>isWalletSession\<close>, a polling
  timer runs only with a positive interval and never after \<open>dispose\<close>; and \<open>restore\<close> never
  throws.
\<close>

theorem store_stays_consistent:
  assumes "list_all (starts_with_valid isWalletSession) ops"
    and "st = run_ops a i ops (createSessionStore s0)"
  shows "(session st \<noteq> None \<longleftrightarrow> status st = Connected) \<and>
    (\<forall>v. session st = Some v \<longrightarrow> isWalletSession v) \<and>
    (disposed st \<longrightarrow> \<not> timer st) \<and> (timer st \<longrightarrow> (\<exists>ms. i = Some ms \<and> 0 < ms)) \<and>
    fst (restore a i st) = Inr ()"
proof -
  have "store_inv i (createSessionStore s0)"
    by (simp add: store_inv_def createSessionStore_def)
  then have "store_inv i st" using assms store_inv_ops by blast
  moreover have "fst (restore a i st) = Inr ()"
    using restore_outcome [of a st] by (cases "load a (storage st)") simp
  ultimately show ?thesis by (simp add: store_inv_def)
qed

theorem store_stays_consistent_witness:
  "let st = run_ops createMemoryStorageAdapter (Some 60000)
        [OpStart (session_json sample_session), OpTick ''t1'', OpDispose]
        (createSessionStore None)
   in status st = Connected \<and> session st \<noteq> None \<and> \<not> timer st"
proof -
  let ?st = "run_ops createMemoryStorageAdapter (Some 60000)
        [OpStart (session_json sample_session), OpTick ''t1'', OpDispose] (createSessionStore None)"
  have "status ?st = Connected \<and> disposed ?st"
    by (simp add: run_ops_def start_session_def touch_def touchCommit_def refreshTick_def
        onStorage_def act_defs createMemoryStorageAdapter_def createSessionStore_def
        startRefresh_def dispose_def stopRefresh_def)
  then show ?thesis
    using store_stays_consistent [of "[OpStart (session_json sample_session), OpTick ''t1'', OpDispose]"
        ?st createMemoryStorageAdapter "Some 60000" None] sample_session_valid(1)
    by (simp add: Let_def)
qed

end
