(* ===== verification/CircuitBreaker.thy ===== *)
theory CircuitBreaker
  imports Prelude
begin

text \<open>
  The circuit breaker in front of the facilitator (\<open>src/circuit-breaker.ts\<close>).

  The breaker's closure variables are a record. The clock is an argument: each function takes the
  time that its (single) call of \<open>now\<close> returns. A rejection value is an \<open>'e option\<close>, with
  \<open>None\<close> for \<open>undefined\<close>. \<open>execute\<close> has an \<open>await\<close> in its middle, where other calls run; it is
  the composition of \<open>startCall\<close>, the call and \<open>finishCall\<close>, and the step relation
  \<open>breaker_step\<close> interleaves the two halves of any number of calls.
\<close>

section \<open>Options, state and transitions\<close>

datatype circuit_state = Closed | Open | HalfOpen

record 'e breaker_options =
  failureThreshold :: int
  openDurationMs :: int
  halfOpenMaxCalls :: int
  isFailure :: "(bool \<Rightarrow> 'e option \<Rightarrow> 'e option + bool) option"

text \<open>What the options default to.\<close>

definition default_options :: "'e breaker_options" where
  "default_options = \<lparr>failureThreshold = 5, openDurationMs = 30000, halfOpenMaxCalls = 1,
     isFailure = None\<rparr>"

record breaker =
  circuit :: circuit_state
  failures :: int
  openedAt :: int
  halfOpenUsed :: int

definition createCircuitBreaker :: breaker where
  "createCircuitBreaker = \<lparr>circuit = Closed, failures = 0, openedAt = 0, halfOpenUsed = 0\<rparr>"

definition open_breaker :: "'e breaker_options \<Rightarrow> int \<Rightarrow> breaker \<Rightarrow> breaker" where
  "open_breaker cfg t b = b\<lparr>circuit := Open, openedAt := t, failures := failureThreshold cfg\<rparr>"

definition half_open :: "breaker \<Rightarrow> breaker" where
  "half_open b = b\<lparr>circuit := HalfOpen, halfOpenUsed := 0\<rparr>"

definition close_breaker :: "breaker \<Rightarrow> breaker" where
  "close_breaker b = b\<lparr>circuit := Closed, failures := 0, openedAt := 0, halfOpenUsed := 0\<rparr>"

definition recordFailure :: "'e breaker_options \<Rightarrow> int \<Rightarrow> breaker \<Rightarrow> breaker" where
  "recordFailure cfg t b =
     (let b' = b\<lparr>failures := failures b + 1\<rparr> in
      if circuit b' = HalfOpen \<and> failures b' \<ge> 1 then open_breaker cfg t b'
      else if failures b' \<ge> failureThreshold cfg then open_breaker cfg t b' else b')"

text \<open>A custom \<open>isFailure\<close> may itself throw; the state is then as it was.\<close>

definition classify ::
  "'e breaker_options \<Rightarrow> int \<Rightarrow> bool \<Rightarrow> 'e option \<Rightarrow> breaker \<Rightarrow> ('e option + unit) \<times> breaker" where
  "classify cfg t ok err b =
     (case isFailure cfg of
        Some p \<Rightarrow>
          (case p ok err of
             Inl e \<Rightarrow> (Inl e, b)
           | Inr failed \<Rightarrow> (Inr (), if failed then recordFailure cfg t b else close_breaker b))
      | None \<Rightarrow> (Inr (), if err \<noteq> None then recordFailure cfg t b else close_breaker b))"

text \<open>The \<open>state\<close> getter: reading an open breaker after the cooldown moves it to half-open.\<close>

definition readState :: "'e breaker_options \<Rightarrow> int \<Rightarrow> breaker \<Rightarrow> breaker" where
  "readState cfg t b =
     (if circuit b = Open \<and> t - openedAt b \<ge> openDurationMs cfg then half_open b else b)"

section \<open>execute\<close>

datatype 'e execute_error =
    CircuitOpenError string
  | Downstream "'e option"

definition open_message :: string where
  "open_message =
     ''The vellar-facilitator circuit is open (downstream outage); call refused.''"

definition exhausted_message :: string where
  "exhausted_message =
     ''The vellar-facilitator circuit is half-open and trial calls are exhausted; call refused.''"

text \<open>
  Up to the \<open>await\<close>. The second read of \<open>this.state\<close> finds a breaker that is not open, so it
  does not consult the clock.
\<close>

definition startCall :: "'e breaker_options \<Rightarrow> int \<Rightarrow> breaker \<Rightarrow> ('e execute_error + unit) \<times> breaker" where
  "startCall cfg t b =
     (let b1 = readState cfg t b in
      if circuit b1 = Open then (Inl (CircuitOpenError open_message), b1)
      else
        let b2 = readState cfg t b1 in
        if circuit b2 = HalfOpen then
          (if halfOpenUsed b2 \<ge> halfOpenMaxCalls cfg then (Inl (CircuitOpenError exhausted_message), b2)
           else (Inr (), b2\<lparr>halfOpenUsed := halfOpenUsed b2 + 1\<rparr>))
        else (Inr (), b2))"

text \<open>
  From the \<open>await\<close> on: a throw in the \<open>try\<close> block, also one of \<open>classify\<close>, is classified
  as a failure and thrown again.
\<close>

definition classifyError ::
  "'e breaker_options \<Rightarrow> int \<Rightarrow> 'e option \<Rightarrow> breaker \<Rightarrow> ('e execute_error + 'a) \<times> breaker" where
  "classifyError cfg t err b =
     (case classify cfg t False err b of
        (Inl e, b') \<Rightarrow> (Inl (Downstream e), b')
      | (Inr _, b') \<Rightarrow> (Inl (Downstream err), b'))"

definition finishCall ::
  "'e breaker_options \<Rightarrow> int \<Rightarrow> 'e option + 'a \<Rightarrow> breaker \<Rightarrow> ('e execute_error + 'a) \<times> breaker" where
  "finishCall cfg t r b =
     (case r of
        Inl err \<Rightarrow> classifyError cfg t err b
      | Inr x \<Rightarrow>
          (case classify cfg t True None b of
             (Inl e, b') \<Rightarrow> classifyError cfg t e b'
           | (Inr _, b') \<Rightarrow> (Inr x, b')))"

text \<open>
  One call with nothing else in between. The downstream call acts on a world \<open>'w\<close>, which also
  tells the time.
\<close>

definition execute ::
  "'e breaker_options \<Rightarrow> ('w \<Rightarrow> int) \<Rightarrow> ('w, 'e option, 'a) act \<Rightarrow>
   (breaker \<times> 'w, 'e execute_error, 'a) act" where
  "execute cfg now fn = (\<lambda>(b, w).
     case startCall cfg (now w) b of
       (Inl e, b') \<Rightarrow> (Inl e, (b', w))
     | (Inr _, b') \<Rightarrow>
         (case fn w of (r, w') \<Rightarrow>
            (case finishCall cfg (now w') r b' of (res, b'') \<Rightarrow> (res, (b'', w')))))"

section \<open>The wrapped backend\<close>

text \<open>A property of the backend object: a function of its arguments, or any other value.\<close>

datatype ('f, 'v) member = Callable 'f | Plain 'v

definition createCircuitBreakingBackend ::
  "'e breaker_options \<Rightarrow> ('w \<Rightarrow> int) \<Rightarrow>
   (string \<times> ('args \<Rightarrow> ('w, 'e option, 'a) act, 'v) member) list \<Rightarrow>
   (string \<times> ('args \<Rightarrow> (breaker \<times> 'w, 'e execute_error, 'a) act, 'v) member) list" where
  "createCircuitBreakingBackend cfg now backend =
     map (\<lambda>(key, m). (key, case m of
        Callable f \<Rightarrow> Callable (\<lambda>args. execute cfg now (f args))
      | Plain v \<Rightarrow> Plain v)) backend"

section \<open>Interleaved calls\<close>

text \<open>
  The breaker with the calls that are waiting for the downstream service. Any number of calls may
  have started before the first of them ends; time passes, the state is read and the breaker is
  reset at any moment.
\<close>

record breaker_system =
  br :: breaker
  clock :: int
  inFlight :: nat

inductive breaker_step :: "'e breaker_options \<Rightarrow> breaker_system \<Rightarrow> breaker_system \<Rightarrow> bool"
  for cfg where
  tick: "0 \<le> d \<Longrightarrow> breaker_step cfg s (s\<lparr>clock := clock s + d\<rparr>)"
| observe: "breaker_step cfg s (s\<lparr>br := readState cfg (clock s) (br s)\<rparr>)"
| reset: "breaker_step cfg s (s\<lparr>br := close_breaker (br s)\<rparr>)"
| refuse: "startCall cfg (clock s) (br s) = (Inl e, b) \<Longrightarrow> breaker_step cfg s (s\<lparr>br := b\<rparr>)"
| admit: "startCall cfg (clock s) (br s) = (Inr u, b) \<Longrightarrow>
    breaker_step cfg s (s\<lparr>br := b, inFlight := Suc (inFlight s)\<rparr>)"
| settle: "inFlight s = Suc n \<Longrightarrow> finishCall cfg (clock s) (r :: 'e option + unit) (br s) = (res, b) \<Longrightarrow>
    breaker_step cfg s (s\<lparr>br := b, inFlight := n\<rparr>)"

definition breaker_init :: "breaker_system \<Rightarrow> bool" where
  "breaker_init s = (br s = createCircuitBreaker \<and> inFlight s = 0)"

text \<open>The custom predicate, when there is one, always returns.\<close>

definition total_classifier :: "'e breaker_options \<Rightarrow> bool" where
  "total_classifier cfg = (\<forall>p ok err. isFailure cfg = Some p \<longrightarrow> (\<exists>f. p ok err = Inr f))"

lemmas breaker_defs = open_breaker_def half_open_def close_breaker_def recordFailure_def
  createCircuitBreaker_def Let_def


section \<open>The invariant\<close>

definition breaker_inv :: "'e breaker_options \<Rightarrow> breaker_system \<Rightarrow> bool" where
  "breaker_inv cfg s =
     (let b = br s in
      case circuit b of
        Closed \<Rightarrow> 0 \<le> failures b \<and> failures b < max 1 (failureThreshold cfg)
      | Open \<Rightarrow> failures b = failureThreshold cfg \<and> openedAt b \<le> clock s
      | HalfOpen \<Rightarrow> failures b = failureThreshold cfg \<and> openedAt b \<le> clock s \<and>
          0 \<le> halfOpenUsed b \<and> halfOpenUsed b \<le> max 0 (halfOpenMaxCalls cfg) \<and>
          halfOpenUsed b \<le> int (inFlight s))"

text \<open>With a predicate that returns, the end of a call always moves the breaker.\<close>

lemma finishCall_moves:
  assumes "total_classifier cfg" "finishCall cfg t r b = (res, b')"
  shows "b' = recordFailure cfg t b \<or> b' = close_breaker b"
proof (cases "isFailure cfg")
  case None
  then show ?thesis using assms
    by (auto simp: finishCall_def classifyError_def classify_def split: sum.splits if_splits)
next
  case (Some p)
  then have "\<And>ok err. \<exists>f. p ok err = Inr f"
    using assms(1) by (auto simp: total_classifier_def)
  then obtain f where "\<And>ok err. p ok err = Inr (f ok err)" by metis
  then show ?thesis using assms(2) Some
    by (auto simp: finishCall_def classifyError_def classify_def split: sum.splits if_splits)
qed

lemma recordFailure_inv:
  assumes "breaker_inv cfg s" "br s = b"
  shows "breaker_inv cfg (s\<lparr>br := recordFailure cfg (clock s) b, inFlight := n\<rparr>)"
  using assms by (auto simp: breaker_inv_def breaker_defs split: circuit_state.splits)

lemma close_inv: "breaker_inv cfg (s\<lparr>br := close_breaker b, inFlight := n\<rparr>)"
  by (simp add: breaker_inv_def breaker_defs)

lemma readState_inv:
  assumes "breaker_inv cfg s"
  shows "breaker_inv cfg (s\<lparr>br := readState cfg (clock s) (br s)\<rparr>)"
  using assms by (auto simp: breaker_inv_def readState_def breaker_defs split: circuit_state.splits)

lemma startCall_cases:
  assumes "startCall cfg t b = (r, b')"
  obtains (openRefused) "r = Inl (CircuitOpenError open_message)" "b' = readState cfg t b"
      "circuit b' = Open"
  | (exhausted) "r = Inl (CircuitOpenError exhausted_message)" "b' = readState cfg t b"
      "circuit b' = HalfOpen" "halfOpenUsed b' \<ge> halfOpenMaxCalls cfg"
  | (trial) b1 where "r = Inr ()" "b1 = readState cfg t b" "circuit b1 = HalfOpen"
      "halfOpenUsed b1 < halfOpenMaxCalls cfg" "b' = b1\<lparr>halfOpenUsed := halfOpenUsed b1 + 1\<rparr>"
  | (normal) "r = Inr ()" "b' = b" "circuit b = Closed"
proof -
  let ?b = "readState cfg t b"
  have again: "readState cfg t ?b = ?b"
    by (auto simp: readState_def half_open_def)
  have same: "?b = b" if "circuit ?b = Closed"
    using that by (auto simp: readState_def half_open_def split: if_splits)
  show thesis
  proof (cases "circuit ?b")
    case Open
    then have "r = Inl (CircuitOpenError open_message)" "b' = ?b"
      using assms by (simp_all add: startCall_def Let_def)
    then show thesis using Open openRefused by simp
  next
    case Closed
    then have "r = Inr ()" "b' = ?b"
      using assms again by (simp_all add: startCall_def Let_def)
    then show thesis using Closed same normal by simp
  next
    case HalfOpen
    show thesis
    proof (cases "halfOpenUsed ?b \<ge> halfOpenMaxCalls cfg")
      case True
      then have "r = Inl (CircuitOpenError exhausted_message)" "b' = ?b"
        using assms again HalfOpen by (simp_all add: startCall_def Let_def)
      then show thesis using HalfOpen True exhausted by simp
    next
      case False
      then have "r = Inr ()" "b' = ?b\<lparr>halfOpenUsed := halfOpenUsed ?b + 1\<rparr>"
        using assms again HalfOpen by (simp_all add: startCall_def Let_def)
      then show thesis using HalfOpen False trial by simp
    qed
  qed
qed

lemma refuse_state:
  "startCall cfg t b = (Inl e, b') \<Longrightarrow> b' = readState cfg t b"
  by (erule startCall_cases) auto

lemma admit_inv:
  assumes inv: "breaker_inv cfg s" and start: "startCall cfg (clock s) (br s) = (Inr u, b)"
  shows "breaker_inv cfg (s\<lparr>br := b, inFlight := Suc (inFlight s)\<rparr>)"
  using start
proof (cases rule: startCall_cases)
  case (trial b1)
  then show ?thesis
    using readState_inv [OF inv] by (auto simp: breaker_inv_def Let_def)
next
  case normal
  then show ?thesis using inv by (auto simp: breaker_inv_def Let_def)
qed auto

interpretation breaker_machine: preserved
  breaker_init "\<lambda>s t. total_classifier cfg \<and> breaker_step cfg s t" "breaker_inv cfg" for cfg
proof unfold_locales
  show "breaker_inv cfg s" if "breaker_init s" for s
    using that by (simp add: breaker_init_def breaker_inv_def breaker_defs)
next
  fix s t
  assume step: "total_classifier cfg \<and> breaker_step cfg s t" and inv: "breaker_inv cfg s"
  from step have total: "total_classifier cfg" and "breaker_step cfg s t" by auto
  from this(2) show "breaker_inv cfg t"
  proof (cases rule: breaker_step.cases)
    case (tick d)
    then show ?thesis using inv by (auto simp: breaker_inv_def Let_def split: circuit_state.splits)
  next
    case observe
    then show ?thesis using readState_inv [OF inv] by simp
  next
    case reset
    then show ?thesis by (simp add: breaker_inv_def breaker_defs)
  next
    case (refuse e b)
    then show ?thesis using readState_inv [OF inv] by (auto dest: refuse_state)
  next
    case (admit u b)
    then show ?thesis using admit_inv [OF inv] by simp
  next
    case (settle n r res b)
    then show ?thesis
      using finishCall_moves [OF total settle(3)] recordFailure_inv [OF inv refl, of n]
        close_inv [where n = n] by auto
  qed
qed

section \<open>Consecutive failures\<close>

text \<open>
  The outcomes that count as failures by default: a rejection with anything but \<open>undefined\<close>.
\<close>

fun failing :: "'e option + 'a \<Rightarrow> bool" where
  "failing (Inl (Some e)) = True"
| "failing _ = False"

text \<open>Calls made one after the other, each with its duration and its outcome.\<close>

definition sequentially ::
  "'e breaker_options \<Rightarrow> (int \<times> ('e option + 'a)) list \<Rightarrow> breaker \<times> int \<Rightarrow> breaker \<times> int" where
  "sequentially cfg calls s =
     foldl (\<lambda>s (d, r). snd (execute cfg id (\<lambda>w. (r, w + d)) s)) s calls"

definition has_run :: "nat \<Rightarrow> ('e option + 'a) list \<Rightarrow> bool" where
  "has_run n rs = (\<exists>pre mid suf. rs = pre @ mid @ suf \<and> length mid = n \<and> list_all failing mid)"

definition trailing :: "('e option + 'a) list \<Rightarrow> nat" where
  "trailing rs = length (takeWhile failing (rev rs))"

lemma trailing_snoc: "trailing (rs @ [r]) = (if failing r then Suc (trailing rs) else 0)"
  by (simp add: trailing_def)

lemma trailing_run: "n \<le> trailing rs \<Longrightarrow> has_run n rs"
proof -
  assume n: "n \<le> trailing rs"
  define mid where "mid = take n (takeWhile failing (rev rs))"
  have "list_all failing mid"
    unfolding mid_def by (metis in_set_takeD list.pred_set set_takeWhileD)
  moreover have "length mid = n"
    using n by (simp add: mid_def trailing_def)
  moreover have "rev rs = mid @ drop n (rev rs)"
  proof -
    have "take n (rev rs) = mid"
      using n unfolding mid_def trailing_def by (metis min.absorb1 take_take takeWhile_eq_take)
    then show ?thesis by (metis append_take_drop_id)
  qed
  then have "rs = rev (drop n (rev rs)) @ rev mid @ []"
    by (metis append_Nil2 rev_append rev_rev_ident)
  ultimately show "has_run n rs"
    unfolding has_run_def by (metis length_rev list_all_rev)
qed

lemma run_at_end:
  assumes "rs = pre @ mid" "list_all failing mid"
  shows "length mid \<le> trailing rs"
proof -
  have "takeWhile failing (rev rs) = rev mid @ takeWhile failing (rev pre)"
    using assms takeWhile_append2 [of "rev mid" failing "rev pre"] by (simp add: list_all_iff)
  then show ?thesis by (simp add: trailing_def)
qed

lemma has_run_snoc: "has_run n (rs @ [r]) \<longleftrightarrow> has_run n rs \<or> n \<le> trailing (rs @ [r])"
proof
  assume "has_run n (rs @ [r])"
  then obtain pre mid suf where w: "rs @ [r] = pre @ mid @ suf" "length mid = n" "list_all failing mid"
    by (auto simp: has_run_def)
  show "has_run n rs \<or> n \<le> trailing (rs @ [r])"
  proof (cases suf rule: rev_cases)
    case Nil
    then show ?thesis using run_at_end [of "rs @ [r]" pre mid] w by simp
  next
    case (snoc suf' x)
    then have "rs = pre @ mid @ suf'" using w(1) by simp
    then show ?thesis using w unfolding has_run_def by blast
  qed
next
  have "has_run n (rs @ [r])" if "has_run n rs"
  proof -
    from that obtain pre mid suf where "rs = pre @ mid @ suf" "length mid = n" "list_all failing mid"
      by (auto simp: has_run_def)
    then have "rs @ [r] = pre @ mid @ (suf @ [r]) \<and> length mid = n \<and> list_all failing mid" by simp
    then show ?thesis unfolding has_run_def by blast
  qed
  then show "has_run n rs \<or> n \<le> trailing (rs @ [r]) \<Longrightarrow> has_run n (rs @ [r])"
    using trailing_run by blast
qed

text \<open>What one call does to a closed and to a freshly opened breaker.\<close>

lemma execute_closed:
  assumes "isFailure cfg = None" "circuit b = Closed"
  shows "snd (execute cfg id (\<lambda>w. (r, w + d)) (b, t)) =
    (if failing r then recordFailure cfg (t + d) b else close_breaker b, t + d)"
proof (cases r)
  case (Inl e)
  then show ?thesis using assms
    by (cases e) (auto simp: execute_def startCall_def readState_def finishCall_def
      classifyError_def classify_def)
next
  case (Inr x)
  then show ?thesis using assms
    by (auto simp: execute_def startCall_def readState_def finishCall_def
      classifyError_def classify_def)
qed

lemma execute_open:
  assumes "circuit b = Open" "now w - openedAt b < openDurationMs cfg"
  shows "execute cfg now f (b, w) = (Inl (CircuitOpenError open_message), (b, w))"
  using assms by (simp add: execute_def startCall_def readState_def)

lemma sequentially_state:
  assumes cfg: "isFailure cfg = None" "0 < failureThreshold cfg"
    and b: "circuit b = Closed" "failures b = 0"
    and time: "\<forall>(d, r) \<in> set calls. 0 \<le> d" "sum_list (map fst calls) < openDurationMs cfg"
    and run: "sequentially cfg calls (b, t) = (b', t')"
  shows "t \<le> t' \<and> t' \<le> t + sum_list (map fst calls) \<and>
    (if has_run (nat (failureThreshold cfg)) (map snd calls)
     then circuit b' = Open \<and> t \<le> openedAt b'
     else circuit b' = Closed \<and> failures b' = int (trailing (map snd calls)))"
  using time run
proof (induction calls arbitrary: b' t' rule: rev_induct)
  case Nil
  then show ?case using b cfg by (auto simp: sequentially_def has_run_def trailing_def)
next
  case (snoc c calls)
  obtain d r where c: "c = (d, r)" by (cases c)
  obtain b1 t1 where s1: "sequentially cfg calls (b, t) = (b1, t1)"
    by (cases "sequentially cfg calls (b, t)")
  have d: "0 \<le> d" using snoc.prems c by auto
  have IH: "t \<le> t1 \<and> t1 \<le> t + sum_list (map fst calls) \<and>
    (if has_run (nat (failureThreshold cfg)) (map snd calls)
     then circuit b1 = Open \<and> t \<le> openedAt b1
     else circuit b1 = Closed \<and> failures b1 = int (trailing (map snd calls)))"
    using snoc.IH [OF _ _ s1] snoc.prems c d by auto
  have last: "(b', t') = snd (execute cfg id (\<lambda>w. (r, w + d)) (b1, t1))"
    using snoc.prems(3) s1 by (simp add: sequentially_def c)
  show ?case
  proof (cases "has_run (nat (failureThreshold cfg)) (map snd calls)")
    case True
    then have "id t1 - openedAt b1 < openDurationMs cfg" "circuit b1 = Open"
      using IH snoc.prems(2) c d by auto
    then have "b' = b1" "t' = t1" using last by (simp_all add: execute_open)
    then show ?thesis using True IH c d has_run_snoc [of _ "map snd calls" r] by auto
  next
    case False
    then have "circuit b1 = Closed" "failures b1 = int (trailing (map snd calls))" using IH by auto
    then have "b' = (if failing r then recordFailure cfg (t1 + d) b1 else close_breaker b1)"
      and "t' = t1 + d" and f: "failures b1 = int (trailing (map snd calls))"
        "circuit b1 = Closed"
      using last by (simp_all add: execute_closed [OF cfg(1)])
    then show ?thesis using False IH c d cfg(2)
      by (auto simp: has_run_snoc trailing_snoc breaker_defs nat_le_iff)
  qed
qed

section \<open>Properties\<close>

text \<open>
  Calls made one after the other trip a fresh breaker exactly on
  \<open>failureThreshold\<close> failures in a row, however many successes and shorter failure runs come
  before; until then it stays closed and counts the current run.
\<close>

theorem trips_exactly_on_consecutive_failures:
  assumes "isFailure cfg = None" "0 < failureThreshold cfg"
    and "\<forall>(d, r) \<in> set calls. 0 \<le> d" "sum_list (map fst calls) < openDurationMs cfg"
    and "sequentially cfg calls (createCircuitBreaker, t) = (b, t')"
  shows "(circuit b = Open \<longleftrightarrow> has_run (nat (failureThreshold cfg)) (map snd calls)) \<and>
    (circuit b \<noteq> Open \<longrightarrow> circuit b = Closed \<and> failures b = int (trailing (map snd calls)))"
  using sequentially_state [OF assms(1,2) _ _ assms(3-5)]
  by (auto simp: createCircuitBreaker_def split: if_splits)

definition sample_options :: "nat breaker_options" where
  "sample_options = default_options\<lparr>failureThreshold := 2\<rparr>"

definition sample_calls :: "(int \<times> (nat option + unit)) list" where
  "sample_calls = [(5, Inl (Some 0)), (5, Inr ()), (5, Inl (Some 1)), (5, Inl (Some 2)), (5, Inr ())]"

lemmas breaker_eval = sequentially_def execute_def startCall_def readState_def finishCall_def
  classifyError_def classify_def breaker_defs sample_options_def default_options_def
  sample_calls_def

theorem trips_exactly_on_consecutive_failures_witness:
  "circuit (fst (sequentially sample_options sample_calls (createCircuitBreaker, 1000))) = Open \<and>
   has_run 2 (map snd sample_calls)"
proof -
  let ?s = "sequentially sample_options sample_calls (createCircuitBreaker, 1000)"
  have "circuit (fst ?s) = Open"
    by (simp add: breaker_eval)
  moreover have "(circuit (fst ?s) = Open \<longleftrightarrow>
      has_run (nat (failureThreshold sample_options)) (map snd sample_calls)) \<and>
    (circuit (fst ?s) \<noteq> Open \<longrightarrow> circuit (fst ?s) = Closed \<and>
      failures (fst ?s) = int (trailing (map snd sample_calls)))"
    by (rule trips_exactly_on_consecutive_failures [where t = 1000 and t' = "snd ?s"])
      (simp_all add: sample_options_def default_options_def sample_calls_def)
  ultimately show ?thesis
    by (simp add: sample_options_def)
qed

text \<open>
  C36 (invariant): however calls start and end, the clock advances, the state is read and the
  breaker is reset, the breaker's counters agree with its state: closed means fewer failures in a
  row than the threshold; open and half-open mean a full count and an opening time in the past;
  and a half-open period lets at most \<open>halfOpenMaxCalls\<close> trial calls through, each of which is
  still waiting for its outcome.
\<close>

theorem breaker_counts_agree:
  assumes "reach breaker_init (\<lambda>s t. total_classifier cfg \<and> breaker_step cfg s t) s"
  shows "(circuit (br s) = Closed \<longrightarrow>
            0 \<le> failures (br s) \<and> failures (br s) < max 1 (failureThreshold cfg)) \<and>
    (circuit (br s) \<noteq> Closed \<longrightarrow>
            failures (br s) = failureThreshold cfg \<and> openedAt (br s) \<le> clock s) \<and>
    (circuit (br s) = HalfOpen \<longrightarrow>
            halfOpenUsed (br s) \<le> max 0 (halfOpenMaxCalls cfg) \<and>
            halfOpenUsed (br s) \<le> int (inFlight s))"
  using breaker_machine.inv_reach [OF assms]
  by (auto simp: breaker_inv_def Let_def split: circuit_state.splits)

text \<open>A breaker with threshold 1 that one failing call has opened at time 7.\<close>

definition sample_cfg :: "nat breaker_options" where
  "sample_cfg = default_options\<lparr>failureThreshold := 1\<rparr>"

definition sample_open :: breaker where
  "sample_open = \<lparr>circuit = Open, failures = 1, openedAt = 7, halfOpenUsed = 0\<rparr>"

definition sample_system :: breaker_system where
  "sample_system = \<lparr>br = sample_open, clock = 30007, inFlight = 0\<rparr>"

lemmas sample_breaker_defs = sample_cfg_def sample_open_def sample_system_def default_options_def

lemma total_sample_cfg: "total_classifier sample_cfg"
  by (simp add: total_classifier_def sample_breaker_defs)

lemma sample_system_reached:
  "reach breaker_init (\<lambda>s t. total_classifier sample_cfg \<and> breaker_step sample_cfg s t)
     sample_system"
proof -
  let ?step = "\<lambda>s t. total_classifier sample_cfg \<and> breaker_step sample_cfg s t"
  let ?at = "\<lambda>b t n. \<lparr>br = b, clock = t, inFlight = n\<rparr>"
  have "reach breaker_init ?step (?at createCircuitBreaker 7 0)"
    by (rule reach_init) (simp add: breaker_init_def)
  moreover have "breaker_step sample_cfg (?at createCircuitBreaker 7 0) (?at createCircuitBreaker 7 1)"
    using breaker_step.admit [of sample_cfg "?at createCircuitBreaker 7 0" "()" createCircuitBreaker]
    by (simp add: breaker_eval)
  moreover have "breaker_step sample_cfg (?at createCircuitBreaker 7 1) (?at sample_open 7 0)"
    using breaker_step.settle [of "?at createCircuitBreaker 7 1" 0 sample_cfg "Inl (Some 3)"
        "Inl (Downstream (Some 3))" sample_open]
    by (simp add: breaker_eval sample_breaker_defs)
  moreover have "breaker_step sample_cfg (?at sample_open 7 0) sample_system"
    using breaker_step.tick [of 30000 sample_cfg "?at sample_open 7 0"]
    by (simp add: sample_breaker_defs)
  ultimately show ?thesis
    by (blast intro: reach_step total_sample_cfg)
qed

theorem breaker_counts_agree_witness:
  "circuit (br sample_system) = Open \<and> failures (br sample_system) = failureThreshold sample_cfg \<and>
   openedAt (br sample_system) \<le> clock sample_system"
  using breaker_counts_agree [OF sample_system_reached]
  by (simp add: sample_breaker_defs)

text \<open>
  An idle breaker never gets stuck. In any reachable state with no call waiting
  and the cooldown over, the next call is let through; its success closes the breaker with a clean
  count, and a failure of the trial opens it again for a full cooldown.
\<close>

theorem idle_breaker_recovers:
  assumes "reach breaker_init (\<lambda>s t. total_classifier cfg \<and> breaker_step cfg s t) s"
    and "isFailure cfg = None" "1 \<le> halfOpenMaxCalls cfg" "inFlight s = 0"
    and "circuit (br s) = Open \<longrightarrow> openDurationMs cfg \<le> clock s - openedAt (br s)"
  shows "\<exists>b. startCall cfg (clock s) (br s) = (Inr (), b) \<and>
    (\<forall>t x. \<exists>b'. finishCall cfg t (Inr x) b = (Inr x, b') \<and> circuit b' = Closed \<and> failures b' = 0) \<and>
    (circuit (br s) \<noteq> Closed \<longrightarrow> (\<forall>t e. \<exists>b'. finishCall cfg t (Inl (Some e)) b =
       (Inl (Downstream (Some e)) :: _ + unit, b') \<and> circuit b' = Open \<and> openedAt b' = t))"
proof -
  have inv: "breaker_inv cfg s"
    by (rule breaker_machine.inv_reach [OF assms(1)])
  obtain r b where start: "startCall cfg (clock s) (br s) = (r, b)"
    by (cases "startCall cfg (clock s) (br s)")
  then have "r = Inr () \<and> (circuit b = Closed \<or> circuit b = HalfOpen) \<and>
      (circuit (br s) \<noteq> Closed \<longrightarrow> circuit b = HalfOpen)"
    by (cases rule: startCall_cases)
      (use inv assms(3-5) in \<open>auto simp: readState_def breaker_inv_def half_open_def Let_def
         split: if_splits circuit_state.splits\<close>)
  moreover have "\<exists>b'. finishCall cfg t (Inl (Some e)) b =
      (Inl (Downstream (Some e)) :: _ + unit, b') \<and> circuit b' = Open \<and> openedAt b' = t"
    if "circuit b = HalfOpen" "failures b = failureThreshold cfg" for t e
    using that assms(2)
    by (auto simp: finishCall_def classifyError_def classify_def breaker_defs)
  moreover have "failures b = failureThreshold cfg" if "circuit (br s) \<noteq> Closed"
    using start that
    by (cases rule: startCall_cases)
      (use inv in \<open>auto simp: readState_def breaker_inv_def half_open_def Let_def
         split: if_splits circuit_state.splits\<close>)
  ultimately show ?thesis
    using start assms(2)
    by (auto simp: finishCall_def classify_def breaker_defs)
qed

theorem idle_breaker_recovers_witness:
  "fst (startCall sample_cfg (clock sample_system) (br sample_system)) = Inr () \<and>
   circuit (br sample_system) = Open"
  using idle_breaker_recovers [OF sample_system_reached]
  by (auto simp: sample_breaker_defs)

text \<open>
  While the breaker is open and the cooldown runs, every function of the wrapped
  backend is refused with \<open>CircuitOpenError\<close> and never reaches the downstream service: neither
  the world nor the breaker changes. Properties that are not functions pass through, and the
  wrapped object has exactly the backend's properties.
\<close>

theorem open_circuit_shields_backend:
  assumes "circuit b = Open" "now w - openedAt b < openDurationMs cfg"
    and "(key, m) \<in> set (createCircuitBreakingBackend cfg now backend)"
  shows "map fst (createCircuitBreakingBackend cfg now backend) = map fst backend \<and>
    (case m of
       Callable f \<Rightarrow> \<forall>args. f args (b, w) = (Inl (CircuitOpenError open_message), (b, w))
     | Plain v \<Rightarrow> (key, Plain v) \<in> set backend)"
  using assms
  by (auto simp: createCircuitBreakingBackend_def execute_open split: member.splits)

definition sample_backend ::
  "(string \<times> (nat \<Rightarrow> (int, nat option, nat) act, string) member) list" where
  "sample_backend = [(''baseUrl'', Plain ''x''), (''submitTransaction'', Callable (\<lambda>a w. (Inr a, w + 1)))]"

theorem open_circuit_shields_backend_witness:
  "case map_of (createCircuitBreakingBackend sample_cfg id sample_backend) ''submitTransaction'' of
     Some (Callable f) \<Rightarrow>
       f 4 (sample_open, 100) = (Inl (CircuitOpenError open_message), (sample_open, 100))
   | _ \<Rightarrow> False"
  using open_circuit_shields_backend [of sample_open id 100 sample_cfg "''submitTransaction''"
      "Callable (\<lambda>args. execute sample_cfg id (\<lambda>w. (Inr args, w + 1)))" sample_backend]
  by (simp add: createCircuitBreakingBackend_def sample_backend_def sample_breaker_defs)

end
