(* ===== verification/Wallet.thy ===== *)
theory Wallet
  imports Session CircuitBreaker
begin

text \<open>
  The wallet client: the passkey connector (\<open>src/passkeykit-connector.ts\<close>), the payment client
  (\<open>src/payments-client.ts\<close>) and the public facade (\<open>src/client.ts\<close>) over them.

  Each function is an action on \<open>wallet_state\<close>: the facade's session, the connector's active
  session key, the circuit breaker in front of the backend, and the trace of what was asked of the
  passkey kit, the backend and the token client, with what they answered. Those parties are the
  fields of \<open>wallet_env\<close>, arbitrary functions of the trace. The kit asks the connector's
  \<open>getContractId\<close> callback for at most one key. Every backend call goes through \<open>execute\<close> of
  \<open>CircuitBreaker\<close>, unless the breaker is disabled.
\<close>

section \<open>State and environment\<close>

text \<open>What the kit hands back: a text, an object with \<open>toXDR\<close>, or something else.\<close>

datatype kit_value = KText string | KTx string | KOther

datatype wallet_event =
    WKitCreate string string "string + string \<times> string \<times> kit_value"
  | WSubmitCreation string string "string + string"
  | WLookup string "string + (string \<times> string) option"
  | WKitConnect "js_error + string \<times> string"
  | WKitResume string "string + string \<times> string"
  | WMint "string + string"
  | WRevoke string "string + unit"
  | WTransfer string string string int "string + kit_value"
  | WKitSign kit_value "string + kit_value option"
  | WSubmit string "string + string"

record wallet_env =
  we_network :: string
  we_appName :: string
  we_browser :: "wallet_event list \<Rightarrow> bool"
  we_isoNow :: "wallet_event list \<Rightarrow> string"
  we_now :: "wallet_event list \<Rightarrow> int"
  we_circuitBreaker :: "js_error breaker_options option"
  we_kitCreate :: "wallet_event list \<Rightarrow> string \<Rightarrow> string \<Rightarrow> string + string \<times> string \<times> kit_value"
  we_kitAsks :: "wallet_event list \<Rightarrow> string option"
  we_kitConnect ::
    "wallet_event list \<Rightarrow> (js_error + string option) option \<Rightarrow> js_error + string \<times> string"
  we_kitWallet :: "wallet_event list \<Rightarrow> bool"
  we_kitResume :: "wallet_event list \<Rightarrow> string \<Rightarrow> string + string \<times> string"
  we_kitSign :: "wallet_event list \<Rightarrow> kit_value \<Rightarrow> string + kit_value option"
  we_submitCreation :: "wallet_event list \<Rightarrow> string \<Rightarrow> string \<Rightarrow> kit_value \<Rightarrow> string + string"
  we_lookup :: "wallet_event list \<Rightarrow> string \<Rightarrow> string + (string \<times> string) option"
  we_submit :: "wallet_event list \<Rightarrow> string \<Rightarrow> string + string"
  we_rotation ::
    "((wallet_event list \<Rightarrow> string + string) \<times> (wallet_event list \<Rightarrow> string \<Rightarrow> string + unit)) option"
  we_transfer :: "wallet_event list \<Rightarrow> string \<Rightarrow> string \<Rightarrow> string \<Rightarrow> int \<Rightarrow> string + kit_value"
  we_isValidAddress :: "string \<Rightarrow> bool"

record wallet_state =
  wa_session :: "wallet_session option"
  wa_activeKey :: "string option"
  wa_breaker :: breaker
  wa_trace :: "wallet_event list"

type_synonym 'a wallet = "(wallet_state, js_error, 'a) act"

definition happen :: "wallet_event \<Rightarrow> wallet_state \<Rightarrow> wallet_state" where
  "happen e s = s\<lparr>wa_trace := wa_trace s @ [e]\<rparr>"

text \<open>A call outside, logged with its answer.\<close>

definition ask :: "(wallet_event list \<Rightarrow> string + 'a) \<Rightarrow> (string + 'a \<Rightarrow> wallet_event) \<Rightarrow> 'a wallet" where
  "ask f ev = (\<lambda>s. let r = f (wa_trace s) in (map_sum Thrown id r, happen (ev r) s))"

fun breakerError :: "js_error execute_error \<Rightarrow> js_error" where
  "breakerError (CircuitOpenError m) = CircuitOpen m"
| "breakerError (Downstream (Some e)) = e"
| "breakerError (Downstream None) = Thrown ''undefined''"

text \<open>A backend method, wrapped by the circuit breaker.\<close>

definition backendCall ::
    "wallet_env \<Rightarrow> (wallet_event list \<Rightarrow> string + 'a) \<Rightarrow> (string + 'a \<Rightarrow> wallet_event) \<Rightarrow> 'a wallet" where
  "backendCall env f ev =
     (case we_circuitBreaker env of
        None \<Rightarrow> ask f ev
      | Some cfg \<Rightarrow> (\<lambda>s.
          case execute cfg (\<lambda>w. we_now env (wa_trace w))
              (\<lambda>w. case ask f ev w of (r, w') \<Rightarrow> (map_sum Some id r, w')) (wa_breaker s, s) of
            (r, (b, s')) \<Rightarrow> (map_sum breakerError id r, s'\<lparr>wa_breaker := b\<rparr>)))"

section \<open>The connector\<close>

text \<open>Attaches a fresh kit to the session's key, unless it has a wallet already.\<close>

definition resumeKitConnection :: "wallet_env \<Rightarrow> string \<Rightarrow> unit wallet" where
  "resumeKitConnection env key = (\<lambda>s.
     if we_kitWallet env (wa_trace s) then (Inr (), s)
     else andThen (ask (\<lambda>t. we_kitResume env t key) (WKitResume key)) (\<lambda>_. ret ()) s)"

fun defaultSignedToXdr :: "kit_value \<Rightarrow> string outcome" where
  "defaultSignedToXdr (KText s) = Inr s"
| "defaultSignedToXdr (KTx x) = Inr x"
| "defaultSignedToXdr KOther = Inl JsTypeError"

definition assertBrowserWebAuthnContext :: "wallet_env \<Rightarrow> string \<Rightarrow> unit wallet" where
  "assertBrowserWebAuthnContext env operation = (\<lambda>s.
     (require (we_browser env (wa_trace s)) (Wallet (PasskeyBrowserRequiredError operation)), s))"

definition assertNetwork :: "wallet_env \<Rightarrow> string \<Rightarrow> unit outcome" where
  "assertNetwork env requested =
     require (requested = we_network env)
       (Wallet (WalletNetworkMismatchError (we_network env) requested))"

definition sessionFor ::
    "wallet_env \<Rightarrow> string \<Rightarrow> string option \<Rightarrow> string option \<Rightarrow> wallet_session wallet" where
  "sessionFor env contractId key serverId =
     gets (\<lambda>s. let timestamp = we_isoNow env (wa_trace s) in
       \<lparr>accountId = contractId, ws_network = we_network env, connected = True,
        authMethod = ''passkey'', createdAt = timestamp, lastActiveAt = timestamp,
        serverSessionId = serverId, keyId = key\<rparr>)"

text \<open>Mint, then revoke the key minted before; failures are swallowed.\<close>

definition rotateSessionKey :: "wallet_env \<Rightarrow> unit wallet" where
  "rotateSessionKey env =
     (case we_rotation env of
        None \<Rightarrow> ret ()
      | Some (mint, revoke) \<Rightarrow>
          andThen (gets wa_activeKey) (\<lambda>previousPublicKey.
          tryCatch
            (andThen (ask mint WMint) (\<lambda>publicKey.
             andThen (modify (\<lambda>s. s\<lparr>wa_activeKey := Some publicKey\<rparr>)) (\<lambda>_.
             case previousPublicKey of
               None \<Rightarrow> ret ()
             | Some previous \<Rightarrow>
                 if previous = [] then ret ()
                 else tryCatch (ask (\<lambda>t. revoke t previous) (WRevoke previous)) (\<lambda>_. ret ()))))
            (\<lambda>_. ret ())))"

definition displayName :: "string option \<Rightarrow> string" where
  "displayName username =
     (case username of
        None \<Rightarrow> ''Vellar user''
      | Some u \<Rightarrow> if trim u = [] then ''Vellar user'' else trim u)"

definition createWallet :: "wallet_env \<Rightarrow> string \<Rightarrow> string option \<Rightarrow> wallet_session wallet" where
  "createWallet env network username =
     andThen (assertBrowserWebAuthnContext env ''createWallet() (vellar.create())'') (\<lambda>_.
     andThen (lift (assertNetwork env network)) (\<lambda>_.
     andThen (ask (\<lambda>t. we_kitCreate env t (we_appName env) (displayName username))
       (WKitCreate (we_appName env) (displayName username))) (\<lambda>(key, contractId, signedTx).
     andThen (backendCall env (\<lambda>t. we_submitCreation env t key contractId signedTx)
       (WSubmitCreation key contractId)) (\<lambda>sessionId.
       sessionFor env contractId (Some key) (Some sessionId)))))"

text \<open>The callback the kit may call: the result of the lookup, with its server session.\<close>

definition lookupCallback ::
    "wallet_env \<Rightarrow> ((js_error + string option) option \<times> string option) wallet" where
  "lookupCallback env = (\<lambda>s.
     case we_kitAsks env (wa_trace s) of
       None \<Rightarrow> (Inr (None, None), s)
     | Some key \<Rightarrow>
         (case backendCall env (\<lambda>t. we_lookup env t key) (WLookup key) s of
            (Inl e, s') \<Rightarrow> (Inr (Some (Inl e), None), s')
          | (Inr found, s') \<Rightarrow>
              (Inr (Some (Inr (map_option fst found)), map_option snd found), s')))"

definition kit_connect :: "wallet_env \<Rightarrow> (js_error + string option) option \<Rightarrow> (string \<times> string) wallet" where
  "kit_connect env answer =
     (\<lambda>s. let r = we_kitConnect env (wa_trace s) answer in (r, happen (WKitConnect r) s))"

definition connectWallet :: "wallet_env \<Rightarrow> string \<Rightarrow> wallet_session wallet" where
  "connectWallet env requested =
     andThen (assertBrowserWebAuthnContext env ''connectWallet() (vellar.connect())'') (\<lambda>_.
     andThen (lift (assertNetwork env requested)) (\<lambda>_.
     andThen (lookupCallback env) (\<lambda>(answer, serverId).
     andThen (kit_connect env answer) (\<lambda>(key, contractId).
     andThen (rotateSessionKey env) (\<lambda>_.
       sessionFor env contractId (Some key) serverId)))))"

definition signTransaction :: "wallet_env \<Rightarrow> string \<Rightarrow> string \<Rightarrow> string wallet" where
  "signTransaction env network xdr =
     andThen (lift (assertNetwork env network)) (\<lambda>_.
     andThen (ask (\<lambda>t. we_kitSign env t (KText xdr)) (WKitSign (KText xdr))) (\<lambda>signed.
       lift (case signed of None \<Rightarrow> Inl JsTypeError | Some v \<Rightarrow> defaultSignedToXdr v)))"

section \<open>The payment client\<close>

text \<open>\<open>preparePayment\<close>: the checks, then building and simulating the transfer.\<close>

definition preparePayment ::
    "wallet_env \<Rightarrow> string \<Rightarrow> string \<Rightarrow> string \<Rightarrow> int \<Rightarrow> kit_value wallet" where
  "preparePayment env contract from to amount =
     (if \<not> we_isValidAddress env to
      then throw (Wallet (InvalidRecipientError ''not a valid Stellar address''))
      else if to = from
      then throw (Wallet (InvalidRecipientError ''Recipient must differ from the sending account''))
      else if amount \<le> 0
      then throw (Wallet (InvalidAmountError ''Amount must be greater than zero''))
      else ask (\<lambda>t. we_transfer env t contract from to amount) (WTransfer contract from to amount))"

definition confirmPayment :: "wallet_env \<Rightarrow> kit_value \<Rightarrow> string wallet" where
  "confirmPayment env tx =
     andThen (ask (\<lambda>t. we_kitSign env t tx) (WKitSign tx)) (\<lambda>signed.
     andThen (lift (defaultSignedToXdr (case signed of None \<Rightarrow> tx | Some v \<Rightarrow> v))) (\<lambda>xdr.
       backendCall env (\<lambda>t. we_submit env t xdr) (WSubmit xdr)))"

section \<open>The facade\<close>

definition vellarCreate :: "wallet_env \<Rightarrow> string option \<Rightarrow> wallet_session wallet" where
  "vellarCreate env username =
     andThen (createWallet env (we_network env) username) (\<lambda>ses.
     andThen (modify (\<lambda>s. s\<lparr>wa_session := Some ses\<rparr>)) (\<lambda>_. ret ses))"

definition vellarConnect :: "wallet_env \<Rightarrow> wallet_session wallet" where
  "vellarConnect env =
     andThen (connectWallet env (we_network env)) (\<lambda>ses.
     andThen (modify (\<lambda>s. s\<lparr>wa_session := Some ses\<rparr>)) (\<lambda>_. ret ses))"

definition requireSession :: "string \<Rightarrow> wallet_session wallet" where
  "requireSession what = (\<lambda>s.
     (case wa_session s of
        None \<Rightarrow> Inl (Wallet (WalletNotReadyError what))
      | Some ses \<Rightarrow> Inr ses, s))"

definition vellarPay :: "wallet_env \<Rightarrow> string \<Rightarrow> int \<Rightarrow> string \<Rightarrow> string wallet" where
  "vellarPay env to amount contract =
     andThen (requireSession ''Call create() or connect() before pay()'') (\<lambda>ses.
     andThen (preparePayment env contract (accountId ses) to amount) (\<lambda>tx.
       confirmPayment env tx))"

text \<open>
  \<open>resolveSigner\<close> of the x402 configuration: the signer must be for the connected wallet. The
  argument is the address of the configured signer, \<open>None\<close> without configuration.
\<close>

definition resolveSigner :: "string option \<Rightarrow> wallet_session option \<Rightarrow> string outcome" where
  "resolveSigner signerAddress ses =
     (case signerAddress of
        None \<Rightarrow> Inl (X402 (X402NotConfiguredError ''wallet.x402 requires x402 config''))
      | Some a \<Rightarrow>
          (case ses of
             None \<Rightarrow> Inr a
           | Some w \<Rightarrow>
               if a \<noteq> accountId w
               then Inl (X402 (X402NotConfiguredError ''x402 signer address does not match''))
               else Inr a))"

text \<open>The getter \<open>policies\<close> needs the gateway's URL.\<close>

definition policiesGetter :: "string option \<Rightarrow> unit outcome" where
  "policiesGetter apiUrl =
     (case apiUrl of
        None \<Rightarrow> Inl (Wallet (WalletNotReadyError ''wallet.policies requires apiUrl''))
      | Some u \<Rightarrow> require (u \<noteq> []) (Wallet (WalletNotReadyError ''wallet.policies requires apiUrl'')))"

text \<open>A new client: no session, no session key, a closed breaker.\<close>

definition createVellarWallet :: wallet_state where
  "createVellarWallet = \<lparr>wa_session = None, wa_activeKey = None, wa_breaker = createCircuitBreaker,
     wa_trace = []\<rparr>"

section \<open>What a call may leave behind\<close>

lemma happen_simps [simp]:
  "wa_trace (happen e s) = wa_trace s @ [e]" "wa_session (happen e s) = wa_session s"
  "wa_activeKey (happen e s) = wa_activeKey s" "wa_breaker (happen e s) = wa_breaker s"
  by (simp_all add: happen_def)

lemma wp_ask [wp]:
  "wp (ask f ev) Q s = Q (map_sum Thrown id (f (wa_trace s))) (happen (ev (f (wa_trace s))) s)"
  by (simp add: wp_def ask_def Let_def)

text \<open>
  A wrapped backend call is refused by the breaker, with nothing asked, or asks once. It gives the
  backend's answer only when it asked.
\<close>

lemma finishCall_Inr: "finishCall cfg t r b = (Inr x, b') \<Longrightarrow> r = Inr x"
  by (auto simp: finishCall_def classifyError_def split: sum.splits prod.splits)

lemma backendCall_cases:
  assumes "backendCall env f ev s = (r, s')"
  obtains (refused) m b where "r = Inl (CircuitOpen m)" "s' = s\<lparr>wa_breaker := b\<rparr>"
  | (asked) b where "s' = (happen (ev (f (wa_trace s))) s)\<lparr>wa_breaker := b\<rparr>"
      "\<And>x. r = Inr x \<Longrightarrow> f (wa_trace s) = Inr x"
proof (cases "we_circuitBreaker env")
  case None
  then show ?thesis
    using assms by (intro asked [of "wa_breaker s"])
      (auto simp: backendCall_def ask_def Let_def happen_def map_sum_def split: sum.splits)
next
  case (Some cfg)
  obtain st b1 where st: "startCall cfg (we_now env (wa_trace s)) (wa_breaker s) = (st, b1)"
    by fastforce
  show ?thesis
  proof (cases st)
    case (Inl e)
    then obtain m where "e = CircuitOpenError m"
      using st by (auto simp: startCall_def Let_def split: if_splits)
    then show ?thesis
      using assms Some st Inl by (intro refused) (auto simp: backendCall_def execute_def)
  next
    case (Inr u)
    let ?a = "f (wa_trace s)" and ?s = "happen (ev (f (wa_trace s))) s"
    obtain x b2 where fin: "finishCall cfg (we_now env (wa_trace ?s))
        (map_sum Some id (map_sum Thrown id ?a)) b1 = (x, b2)"
      by fastforce
    then have r: "r = map_sum breakerError id x" "s' = ?s\<lparr>wa_breaker := b2\<rparr>"
      using assms Some st Inr by (auto simp: backendCall_def execute_def ask_def Let_def)
    have "?a = Inr v" if "r = Inr v" for v
    proof -
      have "x = Inr v" using that r(1) by (cases x) auto
      then show ?thesis using fin finishCall_Inr by (cases ?a) fastforce+
    qed
    then show ?thesis using r(2) by (rule asked [rotated])
  qed
qed

lemma wp_backendCall:
  assumes "\<And>m b. Q (Inl (CircuitOpen m)) (s\<lparr>wa_breaker := b\<rparr>)"
    and "\<And>r b. (\<And>x. r = Inr x \<Longrightarrow> f (wa_trace s) = Inr x) \<Longrightarrow>
      Q r ((happen (ev (f (wa_trace s))) s)\<lparr>wa_breaker := b\<rparr>)"
  shows "wp (backendCall env f ev) Q s"
proof (rule wpI)
  fix r s'
  assume "backendCall env f ev s = (r, s')"
  then show "Q r s'"
    using assms by (cases rule: backendCall_cases) auto
qed

section \<open>Payments\<close>

text \<open>What \<open>pay\<close> may add to the trace, and what its hash stands for.\<close>

definition payment_events ::
    "wallet_env \<Rightarrow> string \<Rightarrow> string \<Rightarrow> string \<Rightarrow> int \<Rightarrow> js_error + string \<Rightarrow> wallet_event list \<Rightarrow> bool" where
  "payment_events env contract from to amount r evs = (\<exists>built.
     evs = [WTransfer contract from to amount built] \<and> (\<exists>e. built = Inl e) \<and> (\<forall>h. r \<noteq> Inr h) \<or>
     (\<exists>tx signed. built = Inr tx \<and>
       (evs = [WTransfer contract from to amount built, WKitSign tx signed] \<and> (\<forall>h. r \<noteq> Inr h) \<or>
        (\<exists>v xdr answer. signed = Inr v \<and>
           defaultSignedToXdr (case v of None \<Rightarrow> tx | Some w \<Rightarrow> w) = Inr xdr \<and>
           evs = [WTransfer contract from to amount built, WKitSign tx signed, WSubmit xdr answer] \<and>
           (\<forall>h. r = Inr h \<longrightarrow> answer = Inr h)))))"

lemma preparePayment_confirm:
  assumes "andThen (preparePayment env contract from to amount) (confirmPayment env) s = (r, s')"
  shows "wa_session s' = wa_session s \<and> wa_activeKey s' = wa_activeKey s \<and>
    (\<exists>evs. wa_trace s' = wa_trace s @ evs \<and>
      (evs = [] \<and> (\<forall>h. r \<noteq> Inr h) \<or>
       we_isValidAddress env to \<and> to \<noteq> from \<and> 0 < amount \<and>
       payment_events env contract from to amount r evs))"
proof -
  let ?Q = "\<lambda>r s'. wa_session s' = wa_session s \<and> wa_activeKey s' = wa_activeKey s \<and>
    (\<exists>evs. wa_trace s' = wa_trace s @ evs \<and>
      (evs = [] \<and> (\<forall>h. r \<noteq> Inr h) \<or>
       we_isValidAddress env to \<and> to \<noteq> from \<and> 0 < amount \<and>
       payment_events env contract from to amount r evs))"
  have "wp (andThen (preparePayment env contract from to amount) (confirmPayment env)) ?Q s"
    unfolding preparePayment_def confirmPayment_def wp
    by (auto simp: wp payment_events_def split: sum.splits intro!: wp_backendCall)
  then show ?thesis
    using assms by (rule wpD)
qed

section \<open>The life of a client\<close>

text \<open>
  What an application does with a client, in any order: create, connect, pay, resuming the kit,
  and the connector's \<open>signTransaction\<close>.
\<close>

inductive wallet_step :: "wallet_env \<Rightarrow> wallet_state \<Rightarrow> wallet_state \<Rightarrow> bool" for env where
  step_create: "vellarCreate env username s = (r, t) \<Longrightarrow> wallet_step env s t"
| step_connect: "vellarConnect env s = (r, t) \<Longrightarrow> wallet_step env s t"
| step_pay: "vellarPay env to amount contract s = (x, t) \<Longrightarrow> wallet_step env s t"
| step_resume: "resumeKitConnection env key s = (u, t) \<Longrightarrow> wallet_step env s t"
| step_sign: "signTransaction env network xdr s = (x, t) \<Longrightarrow> wallet_step env s t"

inductive_cases wallet_stepE: "wallet_step env s t"

text \<open>A step that leaves the session and the session key alone.\<close>

definition quiet :: "wallet_event \<Rightarrow> bool" where
  "quiet e = (case e of WMint _ \<Rightarrow> False | WRevoke _ _ \<Rightarrow> False | _ \<Rightarrow> True)"

definition grows :: "wallet_state \<Rightarrow> wallet_state \<Rightarrow> bool" where
  "grows s t = (wa_session t = wa_session s \<and> wa_activeKey t = wa_activeKey s \<and>
     (\<exists>evs. wa_trace t = wa_trace s @ evs \<and> list_all quiet evs))"

lemma grows_refl [simp]: "grows s s"
  by (simp add: grows_def)

lemma grows_breaker [simp]: "grows s (t\<lparr>wa_breaker := b\<rparr>) = grows s t"
  by (simp add: grows_def)

lemma grows_happen: "grows s t \<Longrightarrow> quiet e \<Longrightarrow> grows s (happen e t)"
  by (auto simp: grows_def)

lemma vellarPay_effects:
  assumes "vellarPay env to amount contract s = (r, t)"
  shows "wa_session t = wa_session s \<and> wa_activeKey t = wa_activeKey s \<and>
    (\<exists>evs. wa_trace t = wa_trace s @ evs \<and>
      (evs = [] \<and> (\<forall>h. r \<noteq> Inr h) \<or>
       (\<exists>ses. wa_session s = Some ses \<and>
          we_isValidAddress env to \<and> to \<noteq> accountId ses \<and> 0 < amount \<and>
          payment_events env contract (accountId ses) to amount r evs)))"
proof (cases "wa_session s")
  case None
  then show ?thesis
    using assms by (auto simp: vellarPay_def requireSession_def andThen_def)
next
  case (Some ses)
  then have "andThen (preparePayment env contract (accountId ses) to amount) (confirmPayment env) s
      = (r, t)"
    using assms by (simp add: vellarPay_def requireSession_def andThen_def)
  from preparePayment_confirm [OF this] show ?thesis
    using Some by auto
qed

lemma payment_events_quiet: "payment_events env contract from to amount r evs \<Longrightarrow> list_all quiet evs"
  by (auto simp: payment_events_def quiet_def)

lemma vellarPay_grows: "vellarPay env to amount contract s = (r, t) \<Longrightarrow> grows s t"
  using vellarPay_effects [of env to amount contract s r t]
  by (auto simp: grows_def dest: payment_events_quiet)

lemma signTransaction_grows:
  assumes "signTransaction env network xdr s = (r, t)"
  shows "grows s t"
proof -
  have "wp (signTransaction env network xdr) (\<lambda>_. grows s) s"
    unfolding signTransaction_def wp
    by (auto simp: wp quiet_def intro: grows_happen split: sum.splits)
  then show ?thesis using assms by (rule wpD)
qed

lemma resumeKitConnection_grows: "resumeKitConnection env key s = (r, t) \<Longrightarrow> grows s t"
  by (auto simp: resumeKitConnection_def andThen_def ask_def ret_def Let_def quiet_def
      split: if_splits sum.splits intro: grows_happen)

text \<open>What stands behind a session that the connector returns.\<close>

definition backed :: "wallet_env \<Rightarrow> wallet_event list \<Rightarrow> wallet_session \<Rightarrow> bool" where
  "backed env tr ses = (ws_network ses = we_network env \<and> connected ses \<and>
     authMethod ses = ''passkey'' \<and>
     (\<exists>key. keyId ses = Some key \<and>
       ((\<exists>sid. serverSessionId ses = Some sid \<and>
           WSubmitCreation key (accountId ses) (Inr sid) \<in> set tr) \<or>
        WKitConnect (Inr (key, accountId ses)) \<in> set tr)))"

lemma backed_mono: "backed env tr ses \<Longrightarrow> set tr \<subseteq> set tr' \<Longrightarrow> backed env tr' ses"
  by (auto simp: backed_def)

lemma wp_assertBrowser [wp]:
  "wp (assertBrowserWebAuthnContext env op) Q s =
     Q (require (we_browser env (wa_trace s)) (Wallet (PasskeyBrowserRequiredError op))) s"
  by (simp add: wp_def assertBrowserWebAuthnContext_def)

lemma wp_createWallet:
  assumes "\<And>e t. grows s t \<Longrightarrow> Q (Inl e) t"
    and "\<And>ses t. grows s t \<Longrightarrow> backed env (wa_trace t) ses \<Longrightarrow> Q (Inr ses) t"
  shows "wp (createWallet env network username) Q s"
  unfolding createWallet_def sessionFor_def wp
  by (auto simp: wp quiet_def backed_def Let_def
      intro!: wp_backendCall assms grows_happen split: sum.splits)

text \<open>What a rotation does: nothing, a failed mint, or a mint and a revoke of the key before.\<close>

definition rotated :: "wallet_state \<Rightarrow> wallet_state \<Rightarrow> bool" where
  "rotated s t = (wa_session t = wa_session s \<and>
     (wa_trace t = wa_trace s \<and> wa_activeKey t = wa_activeKey s \<or>
      (\<exists>e. wa_trace t = wa_trace s @ [WMint (Inl e)] \<and> wa_activeKey t = wa_activeKey s) \<or>
      (\<exists>k. wa_activeKey t = Some k \<and>
        (wa_trace t = wa_trace s @ [WMint (Inr k)] \<and>
           (wa_activeKey s = None \<or> wa_activeKey s = Some []) \<or>
         (\<exists>p x. wa_activeKey s = Some p \<and> p \<noteq> [] \<and>
            wa_trace t = wa_trace s @ [WMint (Inr k), WRevoke p x])))))"

text \<open>The rotation a connector runs gives keys it has not given before.\<close>

definition mints_fresh :: "wallet_env \<Rightarrow> bool" where
  "mints_fresh env = (\<forall>mint revoke tr k. we_rotation env = Some (mint, revoke) \<longrightarrow>
     mint tr = Inr k \<longrightarrow> WMint (Inr k) \<notin> set tr)"

definition minted :: "wallet_state \<Rightarrow> string set" where
  "minted s = {k. WMint (Inr k) \<in> set (wa_trace s)}"

definition revoked :: "wallet_state \<Rightarrow> string set" where
  "revoked s = {k. \<exists>x. WRevoke k x \<in> set (wa_trace s)}"

definition fresh_since :: "wallet_env \<Rightarrow> wallet_state \<Rightarrow> wallet_state \<Rightarrow> bool" where
  "fresh_since env s t = (mints_fresh env \<longrightarrow>
     (\<forall>k. WMint (Inr k) \<in> set (drop (length (wa_trace s)) (wa_trace t)) \<longrightarrow> k \<notin> minted s))"

lemma wp_rotateSessionKey:
  assumes "\<And>t. rotated s t \<Longrightarrow> fresh_since env s t \<Longrightarrow> Q (Inr ()) t"
  shows "wp (rotateSessionKey env) Q s"
proof (cases "we_rotation env")
  case None
  then show ?thesis
    by (auto simp: rotateSessionKey_def wp rotated_def fresh_since_def intro!: assms)
next
  case (Some rt)
  obtain mint revoke where rt: "rt = (mint, revoke)" by fastforce
  show ?thesis
    unfolding rotateSessionKey_def Some rt
    by (auto simp: wp rotated_def Some rt fresh_since_def mints_fresh_def minted_def
      intro!: assms split: sum.splits option.splits)
qed

lemma wp_lookupCallback:
  assumes "\<And>a t. grows s t \<Longrightarrow> Q (Inr a) t"
  shows "wp (lookupCallback env) Q s"
proof (rule wpI)
  fix r t
  assume call: "lookupCallback env s = (r, t)"
  have "grows s t \<and> (\<exists>a. r = Inr a)"
  proof (cases "we_kitAsks env (wa_trace s)")
    case None
    then show ?thesis using call by (auto simp: lookupCallback_def)
  next
    case (Some key)
    obtain x u where b: "backendCall env (\<lambda>t. we_lookup env t key) (WLookup key) s = (x, u)"
      by fastforce
    then have "grows s u"
      by (cases rule: backendCall_cases) (auto simp: quiet_def intro: grows_happen)
    then show ?thesis
      using call Some b by (auto simp: lookupCallback_def split: sum.splits)
  qed
  then show "Q r t" using assms by auto
qed

lemma wp_kit_connect [wp]:
  "wp (kit_connect env answer) Q s =
     Q (we_kitConnect env (wa_trace s) answer)
       (happen (WKitConnect (we_kitConnect env (wa_trace s) answer)) s)"
  by (simp add: wp_def kit_connect_def Let_def)

lemma wp_connectWallet:
  assumes "\<And>e t. grows s t \<Longrightarrow> Q (Inl e) t"
    and "\<And>ses t u. grows s t \<Longrightarrow> backed env (wa_trace t) ses \<Longrightarrow> rotated t u \<Longrightarrow>
      fresh_since env t u \<Longrightarrow> Q (Inr ses) u"
  shows "wp (connectWallet env network) Q s"
  unfolding connectWallet_def sessionFor_def wp
  by (auto simp: wp quiet_def Let_def backed_def intro!: wp_lookupCallback
      wp_rotateSessionKey assms(1) grows_happen assms(2) [rotated 2] split: sum.splits)

lemma vellarCreate_effects:
  assumes "vellarCreate env username s = (r, t)"
  shows "\<exists>u. grows s u \<and> (t = u \<or> (\<exists>ses. backed env (wa_trace u) ses \<and> t = u\<lparr>wa_session := Some ses\<rparr>))"
proof -
  have "wp (vellarCreate env username) (\<lambda>r t. \<exists>u. grows s u \<and>
      (t = u \<or> (\<exists>ses. backed env (wa_trace u) ses \<and> t = u\<lparr>wa_session := Some ses\<rparr>))) s"
    unfolding vellarCreate_def wp by (rule wp_createWallet) (auto simp: wp)
  then show ?thesis using assms by (rule wpD)
qed

lemma vellarConnect_effects:
  assumes "vellarConnect env s = (r, t)"
  shows "\<exists>u. grows s u \<and> (t = u \<or> (\<exists>v ses. backed env (wa_trace u) ses \<and> rotated u v \<and>
    fresh_since env u v \<and> t = v\<lparr>wa_session := Some ses\<rparr>))"
proof -
  have "wp (vellarConnect env) (\<lambda>r t. \<exists>u. grows s u \<and>
      (t = u \<or> (\<exists>v ses. backed env (wa_trace u) ses \<and> rotated u v \<and>
        fresh_since env u v \<and> t = v\<lparr>wa_session := Some ses\<rparr>))) s"
    unfolding vellarConnect_def wp by (rule wp_connectWallet) (auto simp: wp)
  then show ?thesis using assms by (rule wpD)
qed

text \<open>Every step is one of these.\<close>

lemma wallet_step_shape:
  assumes "wallet_step env s t"
  obtains (quiet_step) u where "grows s u" "t = u"
  | (new_session) u ses where "grows s u" "backed env (wa_trace u) ses"
      "t = u\<lparr>wa_session := Some ses\<rparr>"
  | (rotating) u v ses where "grows s u" "backed env (wa_trace u) ses" "rotated u v"
      "fresh_since env u v" "t = v\<lparr>wa_session := Some ses\<rparr>"
  using assms
  by (cases rule: wallet_step.cases)
    (blast dest: vellarCreate_effects vellarConnect_effects vellarPay_grows signTransaction_grows
      resumeKitConnection_grows)+

section \<open>Invariants of the client\<close>

lemma grows_trace:
  assumes "grows s t"
  shows "set (wa_trace s) \<subseteq> set (wa_trace t)" "minted t = minted s" "revoked t = revoked s"
  using assms by (auto simp: grows_def minted_def revoked_def quiet_def list_all_iff split: wallet_event.splits)

lemma rotated_trace: "rotated s t \<Longrightarrow> set (wa_trace s) \<subseteq> set (wa_trace t)"
  by (auto simp: rotated_def)

definition session_backed :: "wallet_env \<Rightarrow> wallet_state \<Rightarrow> bool" where
  "session_backed env s = (\<forall>ses. wa_session s = Some ses \<longrightarrow> backed env (wa_trace s) ses)"

definition one_live_key :: "wallet_state \<Rightarrow> bool" where
  "one_live_key s = (revoked s \<subseteq> minted s \<and>
     (wa_activeKey s = None \<longrightarrow> minted s = {}) \<and>
     (\<forall>k. wa_activeKey s = Some k \<longrightarrow>
        k \<in> minted s \<and> k \<notin> revoked s \<and> minted s \<subseteq> insert k (insert [] (revoked s))))"

lemma session_backed_step: "wallet_step env s t \<Longrightarrow> session_backed env s \<Longrightarrow> session_backed env t"
proof (erule wallet_step_shape)
  fix u assume "session_backed env s" "grows s u" "t = u"
  then show ?thesis
    using grows_trace(1) [of s u] by (auto simp: session_backed_def grows_def intro: backed_mono)
next
  fix u ses assume "backed env (wa_trace u) ses" "t = u\<lparr>wa_session := Some ses\<rparr>"
  then show ?thesis by (simp add: session_backed_def)
next
  fix u v ses
  assume "backed env (wa_trace u) ses" "rotated u v" "t = v\<lparr>wa_session := Some ses\<rparr>"
  then show ?thesis
    using rotated_trace [of u v] by (auto simp: session_backed_def intro: backed_mono)
qed

lemma one_live_key_cong:
  "one_live_key s \<Longrightarrow> minted t = minted s \<Longrightarrow> revoked t = revoked s \<Longrightarrow>
   wa_activeKey t = wa_activeKey s \<Longrightarrow> one_live_key t"
  by (simp add: one_live_key_def)

lemma one_live_key_grows: "grows s t \<Longrightarrow> one_live_key s \<Longrightarrow> one_live_key t"
  using grows_trace [of s t] by (auto simp: grows_def intro: one_live_key_cong)

lemma one_live_key_session [simp]: "one_live_key (s\<lparr>wa_session := x\<rparr>) = one_live_key s"
  by (simp add: one_live_key_def minted_def revoked_def)

lemma rotated_keys:
  assumes "rotated s t" "fresh_since env s t" "mints_fresh env"
  obtains (same) "minted t = minted s" "revoked t = revoked s" "wa_activeKey t = wa_activeKey s"
  | (first) k where "minted t = insert k (minted s)" "revoked t = revoked s" "k \<notin> minted s"
      "wa_activeKey t = Some k" "wa_activeKey s = None \<or> wa_activeKey s = Some []"
  | (next_key) k p where "minted t = insert k (minted s)" "revoked t = insert p (revoked s)"
      "k \<notin> minted s" "wa_activeKey t = Some k" "wa_activeKey s = Some p"
proof -
  have keys: "minted t = minted s \<union> {k. WMint (Inr k) \<in> set evs}"
      "revoked t = revoked s \<union> {k. \<exists>x. WRevoke k x \<in> set evs}"
      "WMint (Inr k) \<in> set evs \<Longrightarrow> k \<notin> minted s"
    if "wa_trace t = wa_trace s @ evs" for evs k
    using that assms(2,3) by (auto simp: minted_def revoked_def fresh_since_def)
  show ?thesis
    using assms(1) unfolding rotated_def
  proof (elim conjE disjE exE, goal_cases)
    case 1
    then show ?case using keys [of "[]"] by (intro same) auto
  next
    case (2 e)
    then show ?case using keys [of "[WMint (Inl e)]"] by (intro same) auto
  next
    case (3 k)
    then show ?case using keys [of "[WMint (Inr k)]"] by (intro first [of k]) auto
  next
    case (4 k)
    then show ?case using keys [of "[WMint (Inr k)]"] by (intro first [of k]) auto
  next
    case (5 k p x)
    then show ?case using keys [of "[WMint (Inr k), WRevoke p x]"] by (intro next_key [of k p]) auto
  qed
qed

lemma one_live_key_rotated:
  assumes "rotated s t" "fresh_since env s t" "mints_fresh env" "one_live_key s"
  shows "one_live_key t"
  using assms(1-3)
proof (cases rule: rotated_keys)
  case same
  then show ?thesis using assms(4) one_live_key_cong by blast
next
  case (first k)
  then show ?thesis using assms(4) by (auto simp: one_live_key_def)
next
  case (next_key k p)
  then show ?thesis using assms(4) by (auto simp: one_live_key_def)
qed

lemma one_live_key_step:
  "wallet_step env s t \<Longrightarrow> mints_fresh env \<Longrightarrow> one_live_key s \<Longrightarrow> one_live_key t"
  by (erule wallet_step_shape) (auto dest: one_live_key_grows one_live_key_rotated)

interpretation client: preserved
  "\<lambda>s. s = createVellarWallet" "wallet_step env" "session_backed env" for env
  by unfold_locales (auto simp: createVellarWallet_def session_backed_def
      dest: session_backed_step [unfolded session_backed_def])

interpretation rotation: preserved
  "\<lambda>s. s = createVellarWallet" "wallet_step env" "\<lambda>s. mints_fresh env \<longrightarrow> one_live_key s" for env
proof unfold_locales
  show "mints_fresh env \<longrightarrow> one_live_key s" if "s = createVellarWallet" for s
    using that by (simp add: createVellarWallet_def one_live_key_def minted_def revoked_def)
qed (auto intro: one_live_key_step)

section \<open>The properties of the component\<close>

definition is_prompt :: "wallet_event \<Rightarrow> bool" where
  "is_prompt e = (case e of WKitSign _ _ \<Rightarrow> True | _ \<Rightarrow> False)"

text \<open>
  C12 (safety): a payment through the wallet facade signs and submits only what was asked. A transfer
  is built only for a connected wallet, from its account, to the given, valid and different
  recipient, of the given positive amount; the passkey is prompted at most once, and only with a
  transfer that was built and simulated; what is submitted is what the kit signed; a hash is
  returned only when the backend accepted the submission; the session does not change.
\<close>

theorem wallet_pays_only_as_asked:
  assumes "vellarPay env to amount contract s = (r, t)" "wa_trace t = wa_trace s @ evs"
  shows "wa_session t = wa_session s \<and>
    (\<forall>c f d a b. WTransfer c f d a b \<in> set evs \<longrightarrow> c = contract \<and> d = to \<and> a = amount \<and> 0 < a \<and>
       we_isValidAddress env d \<and> d \<noteq> f \<and> map_option accountId (wa_session s) = Some f) \<and>
    length (filter is_prompt evs) \<le> 1 \<and>
    (\<forall>tx x. WKitSign tx x \<in> set evs \<longrightarrow> (\<exists>f. WTransfer contract f to amount (Inr tx) \<in> set evs)) \<and>
    (\<forall>xdr x. WSubmit xdr x \<in> set evs \<longrightarrow> (\<exists>tx v. WKitSign tx (Inr v) \<in> set evs \<and>
       defaultSignedToXdr (case v of None \<Rightarrow> tx | Some w \<Rightarrow> w) = Inr xdr)) \<and>
    (\<forall>hash. r = Inr hash \<longrightarrow> (\<exists>xdr. WSubmit xdr (Inr hash) \<in> set evs))"
proof -
  from vellarPay_effects [OF assms(1)] assms(2)
  have "wa_session t = wa_session s" and "evs = [] \<and> (\<forall>h. r \<noteq> Inr h) \<or>
       (\<exists>ses. wa_session s = Some ses \<and>
          we_isValidAddress env to \<and> to \<noteq> accountId ses \<and> 0 < amount \<and>
          payment_events env contract (accountId ses) to amount r evs)"
    by auto
  then show ?thesis
    by (elim disjE exE) (auto simp: payment_events_def is_prompt_def)
qed

text \<open>
  C13 (invariant): whatever the application does with a client, and whatever the passkey kit and the
  backend answer, a session stands for a wallet of the configured network that either the backend
  accepted for deployment in this client's life (under the server session it carries) or the
  passkey kit connected to; with a non-empty account id it is a session that the session store
  accepts.
\<close>

theorem session_is_backed:
  assumes "reach (\<lambda>s. s = createVellarWallet) (wallet_step env) s" "wa_session s = Some ses"
  shows "ws_network ses = we_network env \<and>
    (\<exists>key. keyId ses = Some key \<and>
       ((\<exists>sid. serverSessionId ses = Some sid \<and>
           WSubmitCreation key (accountId ses) (Inr sid) \<in> set (wa_trace s)) \<or>
        WKitConnect (Inr (key, accountId ses)) \<in> set (wa_trace s))) \<and>
    (we_network env \<in> {''testnet'', ''mainnet''} \<and> accountId ses \<noteq> [] \<longrightarrow>
       isWalletSession (session_json ses))"
proof -
  have "backed env (wa_trace s) ses"
    using client.inv_reach [OF assms(1)] assms(2) by (simp add: session_backed_def)
  then show ?thesis
    by (auto simp: backed_def isWalletSession_def session_json_def opt_json_def split: option.splits)
qed


section \<open>Witnesses\<close>

definition sample_wallet_env :: wallet_env where
  "sample_wallet_env = \<lparr>we_network = ''testnet'', we_appName = ''app'', we_browser = (\<lambda>t. True),
     we_isoNow = (\<lambda>t. ''2026-01-01''), we_now = (\<lambda>t. int (length t)),
     we_circuitBreaker = Some default_options,
     we_kitCreate = (\<lambda>t app user. Inr (''cred'', ''CW'', KText ''deploy'')),
     we_kitAsks = (\<lambda>t. Some ''cred''),
     we_kitConnect = (\<lambda>t answer. case answer of
         Some (Inr (Some c)) \<Rightarrow> Inr (''cred'', c) | _ \<Rightarrow> Inl JsTypeError),
     we_kitWallet = (\<lambda>t. False), we_kitResume = (\<lambda>t k. Inr (k, ''CW'')),
     we_kitSign = (\<lambda>t v. Inr (Some (KTx ''signed''))),
     we_submitCreation = (\<lambda>t k c v. Inr ''sid''), we_lookup = (\<lambda>t k. Inr (Some (''CW'', ''sid''))),
     we_submit = (\<lambda>t x. Inr ''hash''),
     we_rotation = Some (\<lambda>t. Inr (CHR ''k'' # concat (map (\<lambda>e. case e of
         WMint (Inr k) \<Rightarrow> k | _ \<Rightarrow> []) t)), \<lambda>t k. Inr ()),
     we_transfer = (\<lambda>t c f d a. Inr (KText ''tx'')),
     we_isValidAddress = (\<lambda>a. a \<noteq> [])\<rparr>"

definition sample_client :: wallet_state where
  "sample_client = snd (vellarConnect sample_wallet_env (snd (vellarConnect sample_wallet_env
     (snd (vellarCreate sample_wallet_env None createVellarWallet)))))"

lemma sample_client_reach:
  "reach (\<lambda>s. s = createVellarWallet) (wallet_step sample_wallet_env) sample_client"
proof -
  let ?R = "reach (\<lambda>s. s = createVellarWallet) (wallet_step sample_wallet_env)"
  have connect: "?R s \<Longrightarrow> ?R (snd (vellarConnect sample_wallet_env s))" for s
    by (erule reach_step) (rule step_connect [OF surjective_pairing])
  have "?R (snd (vellarCreate sample_wallet_env None createVellarWallet))"
    by (rule reach_step [of _ _ createVellarWallet])
      (auto intro: reach_init step_create [OF surjective_pairing])
  then show ?thesis
    unfolding sample_client_def by (intro connect)
qed

lemma sample_mints_fresh: "mints_fresh sample_wallet_env"
proof -
  have "length k \<le> length (concat (map (\<lambda>e. case e of WMint (Inr k) \<Rightarrow> k | _ \<Rightarrow> []) tr))"
    if "WMint (Inr k) \<in> set tr" for k and tr :: "wallet_event list"
    using that by (induction tr) auto
  then show ?thesis
    by (force simp: mints_fresh_def sample_wallet_env_def)
qed

theorem wallet_pays_only_as_asked_witness:
  "fst (vellarPay sample_wallet_env ''GB'' 5 ''CT'' sample_client) = Inr ''hash'' \<and>
   (\<exists>xdr. WSubmit xdr (Inr ''hash'') \<in>
     set (wa_trace (snd (vellarPay sample_wallet_env ''GB'' 5 ''CT'' sample_client))))"
proof -
  let ?p = "vellarPay sample_wallet_env ''GB'' 5 ''CT'' sample_client"
  have r: "fst ?p = Inr ''hash''"
    by code_simp
  have "wa_trace (snd ?p) = wa_trace sample_client @
      [WTransfer ''CT'' ''CW'' ''GB'' 5 (Inr (KText ''tx'')),
       WKitSign (KText ''tx'') (Inr (Some (KTx ''signed''))), WSubmit ''signed'' (Inr ''hash'')]"
    by code_simp
  then show ?thesis
    using wallet_pays_only_as_asked [OF surjective_pairing, of sample_wallet_env "''GB''" 5 "''CT''"
        sample_client] r by fastforce
qed

theorem session_is_backed_witness:
  "\<exists>ses. wa_session sample_client = Some ses \<and> isWalletSession (session_json ses)"
proof -
  let ?ses = "\<lparr>accountId = ''CW'', ws_network = ''testnet'', connected = True,
    authMethod = ''passkey'', createdAt = ''2026-01-01'', lastActiveAt = ''2026-01-01'',
    serverSessionId = Some ''sid'', keyId = Some ''cred''\<rparr>"
  have "wa_session sample_client = Some ?ses"
    by code_simp
  then show ?thesis
    using session_is_backed [OF sample_client_reach, of ?ses]
    by (simp add: sample_wallet_env_def)
qed


end
