(* ===== verification/Amounts.thy ===== *)
theory Amounts
  imports Errors
begin

text \<open>
  Token amounts: \<open>formatTokenAmount\<close> and the balance service of \<open>src/balances.ts\<close>,
  \<open>parseTokenAmount\<close> of \<open>src/payments.ts\<close>, and \<open>stroopsToXlm\<close> of \<open>src/policy-types.ts\<close>.

  Amounts are unbounded integers. The number of decimals is a JavaScript number, here a rational,
  because both functions check that it is a non-negative integer.
\<close>

section \<open>Padding and trailing zeros\<close>

definition padStart :: "nat \<Rightarrow> string \<Rightarrow> string" where
  "padStart k s = replicate (k - length s) CHR ''0'' @ s"

definition padEnd :: "nat \<Rightarrow> string \<Rightarrow> string" where
  "padEnd k s = s @ replicate (k - length s) CHR ''0''"

text \<open>\<open>replace(/0+$/, "")\<close>.\<close>

definition strip_zeros :: "string \<Rightarrow> string" where
  "strip_zeros s = rev (dropWhile (\<lambda>c. c = CHR ''0'') (rev s))"

lemma strip_zeros_tail: "\<exists>n. s = strip_zeros s @ replicate n CHR ''0''"
proof -
  let ?z = "takeWhile (\<lambda>c. c = CHR ''0'') (rev s)"
  have "?z = replicate (length ?z) CHR ''0''"
    by (rule replicate_length_same [symmetric]) (auto dest: set_takeWhileD)
  then have "rev ?z = replicate (length ?z) CHR ''0''"
    by (metis rev_replicate)
  moreover have "s = strip_zeros s @ rev ?z"
    unfolding strip_zeros_def by (metis rev_append rev_rev_ident takeWhile_dropWhile_id)
  ultimately show ?thesis by metis
qed

lemma padEnd_strip_zeros: "length s = k \<Longrightarrow> padEnd k (strip_zeros s) = s"
proof -
  assume len: "length s = k"
  obtain n where n: "s = strip_zeros s @ replicate n CHR ''0''" using strip_zeros_tail by blast
  then have "n = k - length (strip_zeros s)" using len by (metis add_diff_cancel_left' length_append length_replicate)
  then show ?thesis using n by (simp add: padEnd_def)
qed

lemma strip_zeros_length: "length (strip_zeros s) \<le> length s"
  by (metis strip_zeros_tail le_add1 length_append)

lemma strip_zeros_digits: "list_all is_digit s \<Longrightarrow> list_all is_digit (strip_zeros s)"
  by (metis strip_zeros_tail list_all_append)

lemma padStart_length: "length s \<le> k \<Longrightarrow> length (padStart k s) = k"
  by (simp add: padStart_def)

lemma is_digit_0: "is_digit CHR ''0''"
  by (simp add: is_digit_def)

lemma padStart_digits: "list_all is_digit s \<Longrightarrow> list_all is_digit (padStart k s)"
  by (auto simp: padStart_def list_all_iff is_digit_0)

lemma digits_val_padStart: "digits_val (padStart k s) = digits_val s"
  by (simp add: padStart_def digits_val_zeros_append)

section \<open>Formatting\<close>

definition valid_decimals :: "rat \<Rightarrow> bool" where
  "valid_decimals decimals = (\<not> decimals < 0 \<and> of_int \<lfloor>decimals\<rfloor> = decimals)"

definition formatTokenAmount :: "int \<Rightarrow> rat \<Rightarrow> string outcome" where
  "formatTokenAmount amount decimals =
    (if \<not> valid_decimals decimals then Inl (Wallet (RangeError decimals))
     else
       let k = nat \<lfloor>decimals\<rfloor>;
           negative = amount < 0;
           absolute = (if negative then - amount else amount);
           base = 10 ^ k;
           whole = absolute div base;
           fraction = strip_zeros (padStart k (show_int (absolute mod base)));
           sgn_text = (if negative then ''-'' else '''') in
       Inr (if fraction = [] then sgn_text @ show_int whole
            else sgn_text @ show_int whole @ ''.'' @ fraction))"

text \<open>\<open>stroopsToXlm\<close>; BigInt division and remainder truncate towards zero.\<close>

definition stroopsToXlm :: "string \<Rightarrow> string outcome" where
  "stroopsToXlm stroops =
     (case BigInt stroops of
        None \<Rightarrow> Inl (Thrown ''SyntaxError'')
      | Some n \<Rightarrow>
          let whole = sgn n * (\<bar>n\<bar> div 10000000);
              frac = strip_zeros (padStart 7 (show_int (sgn n * (\<bar>n\<bar> mod 10000000)))) in
          Inr (if frac \<noteq> [] then show_int whole @ ''.'' @ frac else show_int whole))"

section \<open>Parsing\<close>

text \<open>The expression \<open>^\d+(\.\d+)?$\<close>, with the two groups that \<open>split(".")\<close> gives.\<close>

definition decimal_parts :: "string \<Rightarrow> (string \<times> string) option" where
  "decimal_parts s =
     (case split_on CHR ''.'' s of
        [w] \<Rightarrow> if all_digits w then Some (w, []) else None
      | [w, f] \<Rightarrow> if all_digits w \<and> all_digits f then Some (w, f) else None
      | _ \<Rightarrow> None)"

definition parseTokenAmount :: "string \<Rightarrow> rat \<Rightarrow> int outcome" where
  "parseTokenAmount input decimals =
    (if \<not> valid_decimals decimals then Inl (Wallet (RangeError decimals))
     else
       let k = nat \<lfloor>decimals\<rfloor> in
       case decimal_parts (trim input) of
         None \<Rightarrow> Inl (Wallet (InvalidAmountError ''not a valid amount''))
       | Some (whole, fraction) \<Rightarrow>
           if length fraction > k then Inl (Wallet (InvalidAmountError ''too many decimal places''))
           else
             let raw = digits_val whole * 10 ^ k + digits_val (padEnd k fraction) in
             if raw = 0 then Inl (Wallet (InvalidAmountError ''Amount must be greater than zero''))
             else Inr raw)"

section \<open>The round trip\<close>

lemma show_int_nonneg: "0 \<le> i \<Longrightarrow> show_int i = show_nat (nat i)"
  by (simp add: show_int_def)

lemma fraction_text:
  assumes "0 \<le> r" "r < 10 ^ k"
  shows "digits_val (padEnd k (strip_zeros (padStart k (show_int r)))) = r \<and>
    length (strip_zeros (padStart k (show_int r))) \<le> k \<and>
    list_all is_digit (strip_zeros (padStart k (show_int r)))"
proof (cases "k = 0")
  case True
  then have "r = 0" using assms by simp
  then show ?thesis
    using True by (simp add: show_int_nonneg show_nat.simps padStart_def strip_zeros_def padEnd_def
        digit_char_def char_of_def bit_0)
next
  case False
  let ?p = "padStart k (show_int r)"
  have "nat r < 10 ^ k" using assms by (metis nat_less_iff of_nat_numeral of_nat_power)
  then have len: "length ?p = k"
    using length_show_nat [of "nat r" k] False assms(1)
    by (simp add: padStart_length show_int_nonneg)
  moreover have "digits_val ?p = r"
    using assms(1) by (simp add: digits_val_padStart show_int_nonneg)
  moreover have "list_all is_digit (strip_zeros ?p)"
    using assms(1)
    by (intro strip_zeros_digits padStart_digits) (simp add: show_int_nonneg show_nat_digits)
  ultimately show ?thesis
    using padEnd_strip_zeros [OF len] strip_zeros_length [of ?p] by simp
qed

lemma dot_not_digit: "list_all is_digit s \<Longrightarrow> CHR ''.'' \<notin> set s"
  by (auto simp: list_all_iff is_digit_def)

lemma decimal_parts_print:
  assumes "all_digits w" "list_all is_digit f"
  shows "decimal_parts (if f = [] then w else w @ ''.'' @ f) = Some (w, f)"
  using assms
  by (auto simp: decimal_parts_def all_digits_def split_on_no_sep split_on_append dot_not_digit)

lemma trim_decimal:
  assumes "list_all is_digit w" "list_all is_digit f"
  shows "trim (if f = [] then w else w @ ''.'' @ f) = (if f = [] then w else w @ ''.'' @ f)"
proof -
  have "\<not> is_ws CHR ''.''" by (simp add: is_ws_def)
  then show ?thesis
    using assms by (intro trim_id) (auto simp: list_all_iff digit_not_ws)
qed

text \<open>
  A positive amount printed by \<open>formatTokenAmount\<close> is read back exactly by
  \<open>parseTokenAmount\<close> with the same number of decimals, for amounts and decimals of any size: neither
  direction rounds.
\<close>

theorem token_amount_roundtrip:
  assumes "0 < amount" "valid_decimals decimals"
  shows "\<exists>text. formatTokenAmount amount decimals = Inr text \<and>
    parseTokenAmount text decimals = Inr amount"
proof -
  define k where "k = nat \<lfloor>decimals\<rfloor>"
  define w where "w = show_int (amount div 10 ^ k)"
  define f where "f = strip_zeros (padStart k (show_int (amount mod 10 ^ k)))"
  define out where "out = (if f = [] then w else w @ ''.'' @ f)"
  have f: "digits_val (padEnd k f) = amount mod 10 ^ k" "length f \<le> k" "list_all is_digit f"
    using fraction_text [of "amount mod 10 ^ k" k] by (simp_all add: f_def)
  have w: "all_digits w" "digits_val w = amount div 10 ^ k"
    using assms(1)
    by (simp_all add: w_def show_int_nonneg pos_imp_zdiv_nonneg_iff all_digits_show_nat)
  have "formatTokenAmount amount decimals = Inr out"
    using assms by (simp add: formatTokenAmount_def Let_def out_def w_def f_def k_def)
  moreover have "trim out = out" "decimal_parts out = Some (w, f)"
    using trim_decimal [of w f] decimal_parts_print [OF w(1) f(3)] w(1) f(3)
    by (simp_all add: out_def all_digits_def)
  then have "parseTokenAmount out decimals = Inr amount"
    using assms f w div_mult_mod_eq [of amount "10 ^ k"]
    by (simp add: parseTokenAmount_def Let_def flip: k_def)
  ultimately show ?thesis by blast
qed

theorem token_amount_roundtrip_witness:
  "\<exists>text. formatTokenAmount 10000001 7 = Inr text \<and> parseTokenAmount text 7 = Inr 10000001"
  using token_amount_roundtrip [of 10000001 7] by (simp add: valid_decimals_def)

text \<open>
  For amounts that are not negative, \<open>stroopsToXlm\<close> is \<open>formatTokenAmount\<close> with
  seven decimals, on every decimal spelling of the number of stroops; text that is not a number is
  refused with a \<open>SyntaxError\<close> instead.
\<close>

theorem stroopsToXlm_formats:
  "case BigInt stroops of
     None \<Rightarrow> stroopsToXlm stroops = Inl (Thrown ''SyntaxError'')
   | Some n \<Rightarrow> n < 0 \<or> stroopsToXlm stroops = formatTokenAmount n 7"
proof (cases "BigInt stroops")
  case None
  then show ?thesis by (simp add: stroopsToXlm_def)
next
  case (Some n)
  have "sgn n * (\<bar>n\<bar> div 10000000) = n div 10000000" "sgn n * (\<bar>n\<bar> mod 10000000) = n mod 10000000"
    if "0 \<le> n"
    using that by (cases "n = 0"; simp)+
  then show ?thesis
    using Some by (auto simp: stroopsToXlm_def formatTokenAmount_def valid_decimals_def Let_def)
qed

section \<open>The balance service\<close>

record token_info =
  ti_symbol :: string
  ti_contractId :: string
  ti_decimals :: rat

definition MAX_BATCH_BALANCE_SIZE :: nat where
  "MAX_BATCH_BALANCE_SIZE = 32"

datatype batch_balance = BalanceOk string int | BalanceFailed string string

text \<open>
  A balance reader answers each read with an amount or an error. The reads of one request run
  concurrently and independently, so each read has its own answer, told apart by its position.
\<close>

type_synonym balance_reader = "nat \<Rightarrow> string \<Rightarrow> string \<Rightarrow> string + int"

definition readOne :: "balance_reader \<Rightarrow> string \<Rightarrow> nat \<times> string \<Rightarrow> batch_balance" where
  "readOne reader holder = (\<lambda>(i, contractId).
     case reader i contractId holder of
       Inr amount \<Rightarrow> BalanceOk contractId amount
     | Inl err \<Rightarrow> BalanceFailed contractId err)"

definition fetchBalancesBatch ::
    "balance_reader \<Rightarrow> string \<Rightarrow> string list \<Rightarrow> batch_balance list outcome" where
  "fetchBalancesBatch reader holder contractIds =
     (if length contractIds > MAX_BATCH_BALANCE_SIZE
      then Inl (Wallet (BatchBalanceSizeError MAX_BATCH_BALANCE_SIZE (length contractIds)))
      else Inr (map (readOne reader holder) (enumerate 0 contractIds)))"

text \<open>\<open>getBalances\<close>: one failed read rejects the whole call.\<close>

primrec collect :: "('e + 'a) list \<Rightarrow> 'e + 'a list" where
  "collect [] = Inr []"
| "collect (r # rs) = ebind r (\<lambda>x. ebind (collect rs) (\<lambda>xs. Inr (x # xs)))"

definition getBalances ::
    "balance_reader \<Rightarrow> token_info list \<Rightarrow> string \<Rightarrow> (token_info \<times> int) list outcome" where
  "getBalances reader tokens holder =
     collect (map (\<lambda>(i, token).
       ebind (map_sum Thrown id (reader i (ti_contractId token) holder)) (\<lambda>amount.
         Inr (token, amount))) (enumerate 0 tokens))"

lemma collect_Inr: "collect rs = Inr xs \<longleftrightarrow> rs = map Inr xs"
  by (induction rs arbitrary: xs) (auto simp: result_splits Cons_eq_map_conv)

text \<open>A batch has one answer per requested contract, in order, and each only depends on its read.\<close>

lemma batch_pointwise:
  assumes "fetchBalancesBatch reader holder ids = Inr rs"
  shows "length rs = length ids \<and> length ids \<le> 32 \<and>
    (\<forall>i < length ids. rs ! i = readOne reader holder (i, ids ! i))"
  using assms
  by (auto simp: fetchBalancesBatch_def MAX_BATCH_BALANCE_SIZE_def nth_enumerate_eq split: if_splits)

text \<open>Where no read fails, the batch and \<open>getBalances\<close> report the same amounts.\<close>

lemma getBalances_batch:
  assumes "getBalances reader tokens holder = Inr bs" "length tokens \<le> 32"
  shows "fetchBalancesBatch reader holder (map ti_contractId tokens) =
    Inr (map (\<lambda>(token, amount). BalanceOk (ti_contractId token) amount) bs)"
proof -
  have "map (\<lambda>(i, token). ebind (map_sum Thrown id (reader i (ti_contractId token) holder))
      (\<lambda>amount. Inr (token, amount))) (enumerate k tokens) = map Inr bs \<Longrightarrow>
    map (readOne reader holder) (enumerate k (map ti_contractId tokens)) =
      map (\<lambda>(token, amount). BalanceOk (ti_contractId token) amount) bs" for k
  proof (induction tokens arbitrary: k bs)
    case (Cons token tokens)
    then obtain amount bs' where "bs = (token, amount) # bs'"
      "reader k (ti_contractId token) holder = Inr amount"
      by (cases "reader k (ti_contractId token) holder"; cases bs) auto
    then show ?case using Cons by (auto simp: readOne_def)
  qed simp
  then show ?thesis
    using assms by (simp add: getBalances_def collect_Inr fetchBalancesBatch_def MAX_BATCH_BALANCE_SIZE_def)
qed

end
