(* ===== verification/TxTracking.thy ===== *)
theory TxTracking
  imports Errors
begin

text \<open>
  Transaction status and submission: the polling loop of \<open>src/tx-status.ts\<close>, and the token bucket,
  the status reader and the submitter of \<open>src/tx-rpc.ts\<close>.

  The world \<open>'w\<close> holds the clock and everything the RPC depends on. Reading a status is an action
  on it that may throw, \<open>sleep\<close> moves it on, and \<open>now\<close> reads its clock. The loop has no bound of its
  own, so it is a \<open>partial_function\<close>; that it returns is a theorem. Token counts are exact
  rationals where the code has floating-point numbers.
\<close>

section \<open>Waiting for a transaction\<close>

datatype tx_status = Pending | Success | Failed

record 'w tx_env =
  te_getStatus :: "string \<Rightarrow> ('w, string, tx_status) act"
  te_sleep :: "int \<Rightarrow> 'w \<Rightarrow> 'w"
  te_now :: "'w \<Rightarrow> int"

partial_function (option) poll ::
    "'w tx_env \<Rightarrow> string \<Rightarrow> int \<Rightarrow> int \<Rightarrow> int \<Rightarrow> 'w \<Rightarrow> ((js_error + tx_status) \<times> 'w) option" where
  "poll env hash timeoutMs intervalMs deadline w =
     (case te_getStatus env hash w of (r, w1) \<Rightarrow>
        if r = Inr Success \<or> r = Inr Failed then Some (map_sum Thrown id r, w1)
        else if te_now env w1 + intervalMs > deadline
        then Some (Inl (Wallet (TransactionTimeoutError hash timeoutMs)), w1)
        else poll env hash timeoutMs intervalMs deadline (te_sleep env intervalMs w1))"

definition waitForTransaction ::
    "'w tx_env \<Rightarrow> string \<Rightarrow> int option \<Rightarrow> int option \<Rightarrow> 'w \<Rightarrow> ((js_error + tx_status) \<times> 'w) option" where
  "waitForTransaction env hash timeout interval w =
    (let timeoutMs = (case timeout of None \<Rightarrow> 60000 | Some t \<Rightarrow> t);
         intervalMs = (case interval of None \<Rightarrow> 2000 | Some i \<Rightarrow> i);
         deadline = te_now env w + timeoutMs in
     poll env hash timeoutMs intervalMs deadline w)"

section \<open>The RPC status reader\<close>

datatype rpc_status = RPC_SUCCESS | RPC_FAILED | RPC_NOT_FOUND

fun readRpcStatus :: "string + rpc_status \<Rightarrow> string + tx_status" where
  "readRpcStatus (Inl e) = Inl e"
| "readRpcStatus (Inr RPC_SUCCESS) = Inr Success"
| "readRpcStatus (Inr RPC_FAILED) = Inr Failed"
| "readRpcStatus (Inr RPC_NOT_FOUND) = Inr Pending"

text \<open>\<open>isValidStellarAddress\<close>, over the two checks of the strkey library.\<close>

definition isValidStellarAddress :: "(string \<Rightarrow> bool) \<Rightarrow> (string \<Rightarrow> bool) \<Rightarrow> string \<Rightarrow> bool" where
  "isValidStellarAddress isEd25519 isContract address = (isEd25519 address \<or> isContract address)"

section \<open>The token bucket\<close>

record token_bucket =
  tb_capacity :: rat
  tb_refillPerMs :: rat
  tb_tokens :: rat
  tb_lastRefill :: rat

definition newTokenBucket :: "rat \<Rightarrow> rat \<Rightarrow> rat \<Rightarrow> token_bucket" where
  "newTokenBucket capacity refillPerMs now =
     \<lparr>tb_capacity = capacity, tb_refillPerMs = refillPerMs, tb_tokens = capacity,
      tb_lastRefill = now\<rparr>"

definition refill :: "rat \<Rightarrow> token_bucket \<Rightarrow> token_bucket" where
  "refill t b =
    (let elapsed = t - tb_lastRefill b in
     b\<lparr>tb_tokens := min (tb_capacity b) (tb_tokens b + elapsed * tb_refillPerMs b),
       tb_lastRefill := t\<rparr>)"

definition tryConsume :: "rat \<Rightarrow> token_bucket \<Rightarrow> bool \<times> token_bucket" where
  "tryConsume t b =
    (let b1 = refill t b in
     if tb_tokens b1 \<ge> 1 then (True, b1\<lparr>tb_tokens := tb_tokens b1 - 1\<rparr>) else (False, b1))"

section \<open>The submitter\<close>

datatype send_result = SendError "string option" | SendOk "string option"

record submitter_state =
  su_limiter :: "token_bucket option"
  su_sent :: "string list"

text \<open>\<open>createRpcTxSubmitter\<close>: the limiter of the options, in tokens per millisecond.\<close>

definition createRpcTxSubmitter :: "(rat \<times> rat) option \<Rightarrow> rat \<Rightarrow> submitter_state" where
  "createRpcTxSubmitter rateLimit now =
     \<lparr>su_limiter = map_option (\<lambda>(bucketSize, refillRate).
        newTokenBucket bucketSize (refillRate / 1000) now) rateLimit,
      su_sent = []\<rparr>"

text \<open>
  \<open>submitTransaction\<close>: the limiter first, then the XDR decoding, then the RPC. \<open>su_sent\<close> logs what
  reaches the RPC.
\<close>

definition submitTransaction ::
    "(string \<Rightarrow> bool) \<Rightarrow> (string list \<Rightarrow> string \<Rightarrow> string + send_result) \<Rightarrow> rat \<Rightarrow> string \<Rightarrow>
     (submitter_state, js_error, string) act" where
  "submitTransaction decodes send now signedXdr = (\<lambda>s.
    (let (admitted, limiter) = (case su_limiter s of
           None \<Rightarrow> (True, None)
         | Some b \<Rightarrow> (case tryConsume now b of (ok, b') \<Rightarrow> (ok, Some b')));
         s1 = s\<lparr>su_limiter := limiter\<rparr> in
     if \<not> admitted then (Inl (Wallet RateLimitError), s1)
     else if \<not> decodes signedXdr then (Inl (Thrown ''XDR''), s1)
     else
       let s2 = s1\<lparr>su_sent := su_sent s1 @ [signedXdr]\<rparr> in
       case send (su_sent s1) signedXdr of
         Inl e \<Rightarrow> (Inl (Thrown e), s2)
       | Inr (SendError detail) \<Rightarrow>
           (Inl (Thrown (case detail of None \<Rightarrow> ''sendTransaction failed'' | Some d \<Rightarrow> d)), s2)
       | Inr (SendOk hash) \<Rightarrow>
           (case hash of
              None \<Rightarrow> (Inl (Thrown ''sendTransaction returned no hash''), s2)
            | Some h \<Rightarrow>
                if h = [] then (Inl (Thrown ''sendTransaction returned no hash''), s2)
                else (Inr h, s2))))"

section \<open>The polling loop returns\<close>

text \<open>What a result of the loop says.\<close>

definition poll_result ::
    "'w tx_env \<Rightarrow> string \<Rightarrow> int \<Rightarrow> int \<Rightarrow> int \<Rightarrow> js_error + tx_status \<Rightarrow> 'w \<Rightarrow> bool" where
  "poll_result env hash timeoutMs intervalMs deadline r w' =
     ((\<exists>st w0. te_getStatus env hash w0 = (Inr st, w') \<and> st \<noteq> Pending \<and> r = Inr st) \<or>
      (r = Inl (Wallet (TransactionTimeoutError hash timeoutMs)) \<and>
       te_now env w' + intervalMs > deadline))"

lemma poll_returns:
  assumes "0 < intervalMs"
    and read: "\<And>w r w1. te_getStatus env hash w = (r, w1) \<Longrightarrow> te_now env w \<le> te_now env w1"
    and sleep: "\<And>w. te_now env w + intervalMs \<le> te_now env (te_sleep env intervalMs w)"
  shows "\<exists>r w'. poll env hash timeoutMs intervalMs deadline w = Some (r, w') \<and>
    poll_result env hash timeoutMs intervalMs deadline r w'"
proof (induction "nat (deadline - te_now env w)" arbitrary: w rule: less_induct)
  case less
  obtain r w1 where rd: "te_getStatus env hash w = (r, w1)" by fastforce
  show ?case
  proof (cases "r = Inr Success \<or> r = Inr Failed")
    case True
    then have "poll env hash timeoutMs intervalMs deadline w = Some (map_sum Thrown id r, w1)"
      using rd by (subst poll.simps) auto
    moreover have "poll_result env hash timeoutMs intervalMs deadline (map_sum Thrown id r) w1"
      using True rd unfolding poll_result_def by (auto intro: exI [of _ w])
    ultimately show ?thesis by blast
  next
    case notFinal: False
    show ?thesis
    proof (cases "te_now env w1 + intervalMs > deadline")
      case True
      then have "poll env hash timeoutMs intervalMs deadline w =
          Some (Inl (Wallet (TransactionTimeoutError hash timeoutMs)), w1)"
        using rd notFinal by (subst poll.simps) auto
      then show ?thesis using True by (auto simp: poll_result_def)
    next
      case False
      let ?w = "te_sleep env intervalMs w1"
      have "te_now env w + intervalMs \<le> te_now env ?w" "te_now env w + intervalMs \<le> deadline"
        using read [OF rd] sleep [of w1] False by linarith+
      then have "nat (deadline - te_now env ?w) < nat (deadline - te_now env w)"
        using assms(1) by linarith
      moreover have "poll env hash timeoutMs intervalMs deadline w =
          poll env hash timeoutMs intervalMs deadline ?w"
        using rd notFinal False by (subst poll.simps) auto
      ultimately show ?thesis using less by simp
    qed
  qed
qed

section \<open>The rate\<close>

text \<open>The level of the bucket after an attempt, with the token the attempt took.\<close>

lemma tryConsume_level:
  assumes "tryConsume t b = (ok, b')"
  shows "tb_tokens b' + of_bool ok = min (tb_capacity b) (tb_tokens b + (t - tb_lastRefill b) * tb_refillPerMs b) \<and>
    tb_lastRefill b' = t \<and> tb_capacity b' = tb_capacity b \<and> tb_refillPerMs b' = tb_refillPerMs b \<and>
    (ok \<longleftrightarrow> 1 \<le> tb_tokens b' + of_bool ok)"
  using assms by (auto simp: tryConsume_def refill_def Let_def split: if_splits)

text \<open>Refilling lazily, only when somebody asks, is refilling all the time.\<close>

lemma refill_lazy:
  assumes "t1 \<le> t2" "tb_lastRefill b \<le> t1" "0 \<le> tb_refillPerMs b"
  shows "refill t2 (refill t1 b) = refill t2 b"
proof -
  let ?r = "tb_refillPerMs b" and ?c = "tb_capacity b" and ?x = "tb_tokens b"
  have "0 \<le> (t2 - t1) * ?r" using assms by simp
  moreover have "(t1 - tb_lastRefill b) * ?r + (t2 - t1) * ?r = (t2 - tb_lastRefill b) * ?r"
    by (simp add: algebra_simps)
  ultimately have "min ?c (min ?c (?x + (t1 - tb_lastRefill b) * ?r) + (t2 - t1) * ?r) =
      min ?c (?x + (t2 - tb_lastRefill b) * ?r)"
    by (auto simp: min_def)
  then show ?thesis by (simp add: refill_def Let_def)
qed

definition bucket_inv :: "token_bucket \<Rightarrow> bool" where
  "bucket_inv b = (0 \<le> tb_tokens b \<and> tb_tokens b \<le> tb_capacity b \<and> 0 \<le> tb_refillPerMs b)"

lemma tryConsume_inv:
  assumes "bucket_inv b" "tb_lastRefill b \<le> t" "tryConsume t b = (ok, b')"
  shows "bucket_inv b'"
proof -
  have "0 \<le> (t - tb_lastRefill b) * tb_refillPerMs b"
    using assms by (simp add: bucket_inv_def)
  then show ?thesis
    using assms(1) tryConsume_level [OF assms(3)] by (auto simp: bucket_inv_def)
qed

text \<open>Submissions one after the other, each at its time.\<close>

primrec submitAll ::
    "(string \<Rightarrow> bool) \<Rightarrow> (string list \<Rightarrow> string \<Rightarrow> string + send_result) \<Rightarrow>
     (rat \<times> string) list \<Rightarrow> submitter_state \<Rightarrow> submitter_state" where
  "submitAll decodes send [] s = s"
| "submitAll decodes send (c # cs) s =
     submitAll decodes send cs (snd (submitTransaction decodes send (fst c) (snd c) s))"

lemma submit_limited:
  assumes "su_limiter s = Some b" "tryConsume t b = (ok, b')"
  shows "su_limiter (snd (submitTransaction decodes send t x s)) = Some b' \<and>
    length (su_sent (snd (submitTransaction decodes send t x s))) \<le> length (su_sent s) + of_bool ok"
  using assms
  by (auto simp: submitTransaction_def Let_def split: sum.splits send_result.splits option.splits)

lemma submitAll_append: "submitAll decodes send (cs @ ds) s = submitAll decodes send ds (submitAll decodes send cs s)"
  by (induction cs arbitrary: s) simp_all

lemma submitAll_rate:
  assumes "su_limiter s = Some b" "bucket_inv b" "sorted (tb_lastRefill b # map fst cs)"
  shows "\<exists>b'. su_limiter (submitAll decodes send cs s) = Some b' \<and> bucket_inv b' \<and>
    tb_capacity b' = tb_capacity b \<and> tb_refillPerMs b' = tb_refillPerMs b \<and>
    tb_lastRefill b' = last (tb_lastRefill b # map fst cs) \<and>
    of_nat (length (su_sent (submitAll decodes send cs s))) + tb_tokens b' \<le>
      of_nat (length (su_sent s)) + tb_tokens b + (tb_lastRefill b' - tb_lastRefill b) * tb_refillPerMs b"
  using assms
proof (induction cs arbitrary: s b)
  case Nil
  then show ?case by simp
next
  case (Cons c cs)
  obtain t x where c: "c = (t, x)" by (cases c)
  obtain ok b1 where con: "tryConsume t b = (ok, b1)" by fastforce
  let ?s1 = "snd (submitTransaction decodes send t x s)"
  have lim: "su_limiter ?s1 = Some b1"
    and sent: "length (su_sent ?s1) \<le> length (su_sent s) + of_bool ok"
    using submit_limited [OF Cons.prems(1) con] by auto
  have lvl: "tb_tokens b1 + of_bool ok \<le> tb_tokens b + (t - tb_lastRefill b) * tb_refillPerMs b"
    and b1: "tb_lastRefill b1 = t" "tb_capacity b1 = tb_capacity b" "tb_refillPerMs b1 = tb_refillPerMs b"
    using tryConsume_level [OF con] by auto
  have "bucket_inv b1"
    by (rule tryConsume_inv [OF Cons.prems(2) _ con]) (use Cons.prems(3) c in simp)
  moreover have "sorted (tb_lastRefill b1 # map fst cs)"
    using Cons.prems(3) c b1 by simp
  ultimately obtain b' where b': "su_limiter (submitAll decodes send cs ?s1) = Some b'" "bucket_inv b'"
      "tb_capacity b' = tb_capacity b1" "tb_refillPerMs b' = tb_refillPerMs b1"
      "tb_lastRefill b' = last (tb_lastRefill b1 # map fst cs)"
    and IH: "of_nat (length (su_sent (submitAll decodes send cs ?s1))) + tb_tokens b' \<le>
      of_nat (length (su_sent ?s1)) + tb_tokens b1 + (tb_lastRefill b' - tb_lastRefill b1) * tb_refillPerMs b1"
    using Cons.IH [OF lim] by blast
  have "(of_nat (length (su_sent ?s1)) :: rat) \<le> of_nat (length (su_sent s)) + of_bool ok"
    using sent by (metis of_nat_add of_nat_le_iff of_nat_of_bool)
  moreover have "(t - tb_lastRefill b) * tb_refillPerMs b + (tb_lastRefill b' - t) * tb_refillPerMs b =
      (tb_lastRefill b' - tb_lastRefill b) * tb_refillPerMs b"
    by (simp add: algebra_simps)
  ultimately show ?case
    using IH lvl b1 b' c by (intro exI [of _ b']) auto
qed

section \<open>The bucket that fills all the time\<close>

text \<open>
  What the token bucket stands for: a level that rises with time up to the capacity and sinks by
  one with every request it grants. The implementation stores the level of the last request only.
\<close>

record leaky_bucket =
  lb_capacity :: rat
  lb_rate :: rat
  lb_level :: rat

datatype bucket_op = Pass rat | Request

fun abstract_op :: "bucket_op \<Rightarrow> leaky_bucket \<Rightarrow> bool option \<times> leaky_bucket" where
  "abstract_op (Pass d) a =
     (None, a\<lparr>lb_level := min (lb_capacity a) (lb_level a + d * lb_rate a)\<rparr>)"
| "abstract_op Request a =
     (if lb_level a \<ge> 1 then (Some True, a\<lparr>lb_level := lb_level a - 1\<rparr>) else (Some False, a))"

fun bucket_run_op :: "bucket_op \<Rightarrow> token_bucket \<times> rat \<Rightarrow> bool option \<times> token_bucket \<times> rat" where
  "bucket_run_op (Pass d) (b, t) = (None, b, t + d)"
| "bucket_run_op Request (b, t) = (case tryConsume t b of (ok, b') \<Rightarrow> (Some ok, b', t))"

fun bucket_allowed :: "bucket_op \<Rightarrow> bool" where
  "bucket_allowed (Pass d) = (0 \<le> d)"
| "bucket_allowed Request = True"

definition bucket_abs :: "token_bucket \<times> rat \<Rightarrow> leaky_bucket" where
  "bucket_abs = (\<lambda>(b, t). \<lparr>lb_capacity = tb_capacity b, lb_rate = tb_refillPerMs b,
     lb_level = tb_tokens (refill t b)\<rparr>)"

definition bucket_ok :: "token_bucket \<times> rat \<Rightarrow> bool" where
  "bucket_ok = (\<lambda>(b, t). bucket_inv b \<and> tb_lastRefill b \<le> t)"

lemma refill_simps [simp]:
  "tb_capacity (refill t b) = tb_capacity b" "tb_refillPerMs (refill t b) = tb_refillPerMs b"
  "tb_lastRefill (refill t b) = t"
  "tb_tokens (refill t b) = min (tb_capacity b) (tb_tokens b + (t - tb_lastRefill b) * tb_refillPerMs b)"
  by (simp_all add: refill_def Let_def)

lemma tryConsume_at: "tryConsume t b = (ok, b') \<Longrightarrow> tb_lastRefill b' = t"
  using tryConsume_level by blast

interpretation bucket: functional_refinement bucket_abs bucket_ok bucket_allowed bucket_run_op
  abstract_op
proof unfold_locales
  fix c :: "token_bucket \<times> rat" and e
  assume ok: "bucket_ok c" "bucket_allowed e"
  obtain b t where c: "c = (b, t)" by (cases c)
  have b: "bucket_inv b" "tb_lastRefill b \<le> t" using ok c by (simp_all add: bucket_ok_def)
  obtain ans b' where con: "tryConsume t b = (ans, b')" by fastforce
  show "bucket_ok (snd (bucket_run_op e c))"
    using ok b c con tryConsume_inv [OF b con] tryConsume_at [OF con]
    by (cases e) (auto simp: bucket_ok_def)
  show "abstract_op e (bucket_abs c) = (fst (bucket_run_op e c), bucket_abs (snd (bucket_run_op e c)))"
  proof (cases e)
    case (Pass d)
    have "refill (t + d) (refill t b) = refill (t + d) b"
      using ok b Pass by (intro refill_lazy) (auto simp: bucket_inv_def)
    then have "tb_tokens (refill (t + d) (refill t b)) = tb_tokens (refill (t + d) b)" by simp
    then show ?thesis using Pass c by (simp add: bucket_abs_def)
  next
    case Request
    have "tb_tokens (refill t b) = tb_tokens b' + of_bool ans" "ans \<longleftrightarrow> 1 \<le> tb_tokens b' + of_bool ans"
      "tb_capacity b' = tb_capacity b" "tb_refillPerMs b' = tb_refillPerMs b"
      using tryConsume_level [OF con] by auto
    moreover have "tb_tokens (refill t b') = tb_tokens b'"
      using tryConsume_inv [OF b con] tryConsume_at [OF con] by (auto simp: bucket_inv_def)
    ultimately show ?thesis
      using Request c con by (cases ans) (auto simp: bucket_abs_def simp del: refill_simps(4))
  qed
qed

section \<open>Properties\<close>

text \<open>
  Waiting for a transaction ends. When time does not run backwards during a
  status read and a sleep lasts at least the (positive) interval, \<open>waitForTransaction\<close> returns, for
  every hash, timeout and behaviour of the reader, also one that always throws or always says
  pending. It returns a final status that the last read reported, or throws the timeout error once
  another interval would pass the deadline; a read error never surfaces.
\<close>

theorem waiting_terminates:
  assumes "0 < (case interval of None \<Rightarrow> 2000 | Some i \<Rightarrow> i)"
    and "\<And>w r w1. te_getStatus env hash w = (r, w1) \<Longrightarrow> te_now env w \<le> te_now env w1"
    and "\<And>w i. te_now env w + i \<le> te_now env (te_sleep env i w)"
  shows "\<exists>r w'. waitForTransaction env hash timeout interval w = Some (r, w') \<and>
    ((\<exists>st w0. te_getStatus env hash w0 = (Inr st, w') \<and> st \<noteq> Pending \<and> r = Inr st) \<or>
     (\<exists>ms. r = Inl (Wallet (TransactionTimeoutError hash ms)) \<and>
       te_now env w' + (case interval of None \<Rightarrow> 2000 | Some i \<Rightarrow> i) > te_now env w + ms))"
proof -
  let ?i = "case interval of None \<Rightarrow> 2000 | Some i \<Rightarrow> i"
  let ?t = "case timeout of None \<Rightarrow> 60000 | Some t \<Rightarrow> t"
  obtain r w' where "poll env hash ?t ?i (te_now env w + ?t) w = Some (r, w')"
    "poll_result env hash ?t ?i (te_now env w + ?t) r w'"
    using poll_returns [of ?i env hash ?t "te_now env w + ?t" w] assms by blast
  then show ?thesis
    unfolding waitForTransaction_def Let_def poll_result_def by blast
qed

text \<open>A reader that finds the transaction after five seconds, on a world that is its clock.\<close>

definition sample_tx_env :: "int tx_env" where
  "sample_tx_env =
     \<lparr>te_getStatus = (\<lambda>h w. (if w < 1000 then Inl ''down'' else if w < 5000 then Inr Pending
        else Inr Success, w)),
      te_sleep = (\<lambda>i w. w + \<bar>i\<bar>), te_now = id\<rparr>"

theorem waiting_terminates_witness:
  "\<exists>r w'. waitForTransaction sample_tx_env ''h'' None None 0 = Some (r, w')"
proof -
  have "\<exists>r w'. waitForTransaction sample_tx_env ''h'' None None 0 = Some (r, w') \<and>
    ((\<exists>st w0. te_getStatus sample_tx_env ''h'' w0 = (Inr st, w') \<and> st \<noteq> Pending \<and> r = Inr st) \<or>
     (\<exists>ms. r = Inl (Wallet (TransactionTimeoutError ''h'' ms)) \<and>
       te_now sample_tx_env w' + (case None of None \<Rightarrow> 2000 | Some i \<Rightarrow> i) > te_now sample_tx_env 0 + ms))"
    by (rule waiting_terminates) (auto simp: sample_tx_env_def split: if_splits)
  then show ?thesis by blast
qed

text \<open>
  The rate limit holds in every window. However submissions were made before, over
  any later run of submissions the RPC receives at most \<open>bucketSize\<close> transactions plus
  \<open>refillRate\<close> for each second between the first and the last of them; a submission over the limit is
  refused before it reaches the RPC.
\<close>

theorem submission_rate_bounded:
  assumes "0 \<le> bucketSize" "0 \<le> refillRate" "sorted (t0 # map fst (cs @ d # ds))"
    and "s1 = submitAll decodes send cs (createRpcTxSubmitter (Some (bucketSize, refillRate)) t0)"
    and "s2 = submitAll decodes send (d # ds) s1"
  shows "of_nat (length (su_sent s2)) \<le> of_nat (length (su_sent s1)) + bucketSize +
    (last (map fst (d # ds)) - fst d) / 1000 * refillRate"
proof -
  let ?b0 = "newTokenBucket bucketSize (refillRate / 1000) t0"
  have "bucket_inv ?b0" "tb_lastRefill ?b0 = t0"
    using assms(1,2) by (simp_all add: bucket_inv_def newTokenBucket_def)
  moreover have "sorted (t0 # map fst cs)"
    using assms(3) by (simp add: sorted_append)
  ultimately obtain b1 where b1: "su_limiter s1 = Some b1" "bucket_inv b1"
    "tb_capacity b1 = bucketSize" "tb_refillPerMs b1 = refillRate / 1000"
    "tb_lastRefill b1 = last (t0 # map fst cs)"
    using submitAll_rate [of "createRpcTxSubmitter (Some (bucketSize, refillRate)) t0" ?b0 cs decodes send]
      assms(4) by (auto simp: createRpcTxSubmitter_def newTokenBucket_def)
  obtain t x where d: "d = (t, x)" by (cases d)
  obtain ok b2 where con: "tryConsume t b1 = (ok, b2)" by fastforce
  let ?s = "snd (submitTransaction decodes send t x s1)"
  have s: "su_limiter ?s = Some b2" "length (su_sent ?s) \<le> length (su_sent s1) + of_bool ok"
    using submit_limited [OF b1(1) con] by auto
  have b2: "tb_tokens b2 + of_bool ok \<le> bucketSize" "tb_lastRefill b2 = t"
    "tb_refillPerMs b2 = refillRate / 1000"
    using tryConsume_level [OF con] b1 by auto
  have "last (t0 # map fst cs) \<le> t"
    using assms(3) d by (cases cs rule: rev_cases) (auto simp: sorted_append)
  then have inv: "bucket_inv b2" using tryConsume_inv [OF b1(2) _ con] b1(5) by simp
  have "sorted (tb_lastRefill b2 # map fst ds)"
    using assms(3) d b2 by (simp add: sorted_append)
  then obtain b3 where b3: "bucket_inv b3" "tb_lastRefill b3 = last (t # map fst ds)"
    and le: "of_nat (length (su_sent s2)) + tb_tokens b3 \<le>
      of_nat (length (su_sent ?s)) + tb_tokens b2 + (tb_lastRefill b3 - t) * (refillRate / 1000)"
    using submitAll_rate [OF s(1) inv, of ds decodes send] assms(5) d b2 by auto
  have "(of_nat (length (su_sent ?s)) :: rat) \<le> of_nat (length (su_sent s1)) + of_bool ok"
    using s(2) by (metis of_nat_add of_nat_le_iff of_nat_of_bool)
  moreover have "0 \<le> tb_tokens b3" using b3 by (simp add: bucket_inv_def)
  ultimately show ?thesis
    using le b2 b3(2) d by auto
qed

theorem submission_rate_bounded_witness:
  "of_nat (length (su_sent (submitAll (\<lambda>_. True) (\<lambda>_ _. Inr (SendOk (Some ''h'')))
      [(0, ''a''), (1, ''b''), (500, ''c'')] (createRpcTxSubmitter (Some (1, 2)) 0)))) \<le>
   (1 :: rat) + 500 / 1000 * 2"
  using submission_rate_bounded [of 1 2 0 "[]" "(0, ''a'')" "[(1, ''b''), (500, ''c'')]"
      "submitAll (\<lambda>_. True) (\<lambda>_ _. Inr (SendOk (Some ''h''))) [] (createRpcTxSubmitter (Some (1, 2)) 0)"
      "\<lambda>_. True" "\<lambda>_ _. Inr (SendOk (Some ''h''))"]
  by (simp add: createRpcTxSubmitter_def del: submitAll.simps(2))



end
