(* ===== verification/Services.thy ===== *)
theory Services
  imports Errors Json Encoding
begin

text \<open>
  The HTTP services of the wallet: the backend client (\<open>src/http-backend.ts\<close>), the policy client
  (\<open>src/policy-client.ts\<close> with the types and the retry rule of \<open>src/policy-types.ts\<close>) and the policy
  facade (\<open>src/policy-facade.ts\<close>).

  Each function is an action on the trace of what was asked of the outside, with what it answered:
  HTTP requests and the calls of the host's passkey-attach runtime. \<open>fetch\<close> and the runtime are
  parameters, arbitrary functions of the trace. The program casts the JSON it receives to its
  declared type without a check, so those values stay JSON.
\<close>

section \<open>HTTP\<close>

record http_request =
  rq_url :: string
  rq_post :: bool
  rq_body :: "json option"

text \<open>\<open>rs_json\<close> is what \<open>res.json()\<close> gives: the value, or the parse error.\<close>

record http_response =
  rs_status :: nat
  rs_json :: "string + json"

definition response_ok :: "http_response \<Rightarrow> bool" where
  "response_ok r = (200 \<le> rs_status r \<and> rs_status r < 300)"

datatype service_event =
    SRequest http_request "string + http_response"
  | SResume string "string + unit"
  | SAttach json "string + json"

type_synonym 'a service = "(service_event list, js_error, 'a) act"
type_synonym http_fetch = "service_event list \<Rightarrow> http_request \<Rightarrow> string + http_response"

text \<open>\<open>apiUrl.replace(/\/+$/, "")\<close>\<close>

definition strip_slashes :: "string \<Rightarrow> string" where
  "strip_slashes s = rev (dropWhile (\<lambda>c. c = CHR ''/'') (rev s))"

text \<open>\<open>a ?? b\<close>\<close>

definition nullish :: "json \<Rightarrow> json \<Rightarrow> json" where
  "nullish a b = (if a = JUndefined \<or> a = JNull then b else a)"

section \<open>The wallet backend\<close>

definition toApiError :: "http_response \<Rightarrow> js_error" where
  "toApiError res =
    (let payload = (case rs_json res of Inl _ \<Rightarrow> JUndefined | Inr v \<Rightarrow> v) in
     Wallet (WalletApiError
       (nullish (jprop payload ''message'') (nullish (jprop payload ''error'')
         (JStr (''Wallet API request failed ('' @ show_nat (rs_status res) @ '')''))))
       (rs_status res) (jprop payload ''error'')))"

definition post :: "http_fetch \<Rightarrow> string \<Rightarrow> string \<Rightarrow> json \<Rightarrow> http_response service" where
  "post fetchImpl apiUrl path body =
    (let rq = \<lparr>rq_url = strip_slashes apiUrl @ path, rq_post = True, rq_body = Some body\<rparr> in
     loggedCall (\<lambda>tr. fetchImpl tr rq) (SRequest rq))"

text \<open>The body of a response that must be fine.\<close>

definition okJson :: "http_response \<Rightarrow> json outcome" where
  "okJson res = (if \<not> response_ok res then Inl (toApiError res) else map_sum Thrown id (rs_json res))"

text \<open>\<open>signedTx\<close> is the transaction after \<open>defaultSignedToXdr\<close>, which may throw.\<close>

definition submitWalletCreation ::
    "http_fetch \<Rightarrow> string \<Rightarrow> string \<Rightarrow> string \<Rightarrow> string \<Rightarrow> string outcome \<Rightarrow> json service" where
  "submitWalletCreation fetchImpl apiUrl key contractId network signedTx =
     andThen (lift signedTx) (\<lambda>xdr.
     andThen (post fetchImpl apiUrl ''/wallet/create''
       (JObj [(''keyId'', JStr key), (''contractId'', JStr contractId), (''network'', JStr network),
         (''signedTx'', JStr xdr)])) (\<lambda>res. lift (okJson res)))"

text \<open>404 is the answer that there is no such wallet.\<close>

definition lookupContractId :: "http_fetch \<Rightarrow> string \<Rightarrow> string \<Rightarrow> string \<Rightarrow> json option service" where
  "lookupContractId fetchImpl apiUrl key network =
     andThen (post fetchImpl apiUrl ''/wallet/connect''
       (JObj [(''keyId'', JStr key), (''network'', JStr network)])) (\<lambda>res.
       if rs_status res = 404 then ret None else lift (map_sum id Some (okJson res)))"

definition submitSigned :: "http_fetch \<Rightarrow> string \<Rightarrow> string \<Rightarrow> string \<Rightarrow> json service" where
  "submitSigned fetchImpl apiUrl signedXdr network =
     andThen (post fetchImpl apiUrl ''/wallet/submit''
       (JObj [(''signedXdr'', JStr signedXdr), (''network'', JStr network)])) (\<lambda>res. lift (okJson res))"

section \<open>Policy types\<close>

datatype enforcement =
    PolicyContract string json
  | SignerLimits
  | NoEnforcement
  | CustomContractPending

fun enforcementLabel :: "enforcement \<Rightarrow> jstext" where
  "enforcementLabel (PolicyContract wasmHash args) =
     codes ''Enforced on-chain by a dedicated policy contract deployed for your account (a cumulative rolling-window spending allowance).''"
| "enforcementLabel SignerLimits = codes ''Enforced by the smart wallet's native signer limits.''"
| "enforcementLabel NoEnforcement =
     codes ''Default single-owner behaviour '' @ [0x2014] @ codes '' no extra on-chain enforcement.''"
| "enforcementLabel CustomContractPending =
     codes ''Requires a custom policy contract (coming in a later phase).''"

definition isRetryableStatus :: "nat \<Rightarrow> bool" where
  "isRetryableStatus status =
     (if status = 0 then True else if status = 408 \<or> status = 429 then True else status \<ge> 500)"

text \<open>The \<open>retryable\<close> field of a \<open>PolicyApiError\<close>.\<close>

definition retryable :: "js_error \<Rightarrow> bool" where
  "retryable e = (case e of Wallet (PolicyApiError m status errs) \<Rightarrow> isRetryableStatus status | _ \<Rightarrow> False)"

section \<open>The policy client\<close>

record policy_filters =
  pf_status :: "string option"
  pf_createdAfter :: "string option"
  pf_createdBefore :: "string option"

text \<open>A property that is set and not empty.\<close>

definition truthy :: "string option \<Rightarrow> string option" where
  "truthy v = (case v of None \<Rightarrow> None | Some s \<Rightarrow> if s = [] then None else Some s)"

text \<open>\<open>Date.parse\<close> is a parameter: whether it accepts a text.\<close>

definition parseFilterDate :: "(string \<Rightarrow> bool) \<Rightarrow> string \<Rightarrow> string option \<Rightarrow> (string \<times> string) list outcome" where
  "parseFilterDate isDate name v =
     (case truthy v of
        None \<Rightarrow> Inr []
      | Some s \<Rightarrow>
          if isDate s then Inr [(name, s)] else Inl (Wallet (PolicyListFilterError name)))"

text \<open>\<open>URLSearchParams\<close>: the form encoding of a text, by its UTF-8 bytes.\<close>

definition form_safe :: "nat \<Rightarrow> bool" where
  "form_safe b = (48 \<le> b \<and> b \<le> 57 \<or> 65 \<le> b \<and> b \<le> 90 \<or> 97 \<le> b \<and> b \<le> 122 \<or>
     b \<in> set [42, 45, 46, 95])"

definition upper_hex :: "nat \<Rightarrow> char" where
  "upper_hex d = (if d < 10 then char_of (48 + d) else char_of (55 + d))"

definition form_byte :: "nat \<Rightarrow> string" where
  "form_byte b =
     (if form_safe b then [char_of b]
      else if b = 32 then ''+''
      else [CHR ''%'', upper_hex (b div 16), upper_hex (b mod 16)])"

definition form_encode :: "string \<Rightarrow> string" where
  "form_encode s = concat (map form_byte (utf8_encode (codes s)))"

definition form_pairs :: "(string \<times> string) list \<Rightarrow> string" where
  "form_pairs kvs = join ''&'' (map (\<lambda>(k, v). form_encode k @ ''='' @ form_encode v) kvs)"

definition buildListQuery :: "(string \<Rightarrow> bool) \<Rightarrow> policy_filters option \<Rightarrow> string outcome" where
  "buildListQuery isDate filters =
     (case filters of
        None \<Rightarrow> Inr []
      | Some f \<Rightarrow>
          ebind (parseFilterDate isDate ''created_after'' (pf_createdAfter f)) (\<lambda>after.
          ebind (parseFilterDate isDate ''created_before'' (pf_createdBefore f)) (\<lambda>before.
            let qs = form_pairs ((case truthy (pf_status f) of None \<Rightarrow> [] | Some s \<Rightarrow> [(''status'', s)]) @
              after @ before) in
            Inr (if qs = [] then [] else ''?'' @ qs))))"

record policy_env =
  pl_apiUrl :: string
  pl_network :: string
  pl_fetch :: http_fetch

text \<open>
  \<open>req\<close>: a rejected \<open>fetch\<close> has status 0; a body that is no JSON counts as the empty object; reading
  a property of a \<open>null\<close> payload throws a \<open>TypeError\<close>.
\<close>

fun req_result :: "string + http_response \<Rightarrow> json outcome" where
  "req_result (Inl message) = Inl (Wallet (PolicyApiError (JStr message) 0 JUndefined))"
| "req_result (Inr res) =
    (let payload = (case rs_json res of Inl _ \<Rightarrow> JObj [] | Inr v \<Rightarrow> v) in
     if response_ok res then Inr payload
     else if payload = JNull then Inl JsTypeError
     else Inl (Wallet (PolicyApiError
       (nullish (jprop payload ''message'') (nullish (jprop payload ''error'')
         (JStr (''Request failed ('' @ show_nat (rs_status res) @ '')''))))
       (rs_status res) (jprop payload ''errors''))))"

definition policy_request :: "policy_env \<Rightarrow> string \<Rightarrow> json option \<Rightarrow> http_request" where
  "policy_request env path body =
     \<lparr>rq_url = strip_slashes (pl_apiUrl env) @ ''/policies'' @ path, rq_post = (body \<noteq> None),
      rq_body = body\<rparr>"

definition req :: "policy_env \<Rightarrow> string \<Rightarrow> json option \<Rightarrow> json service" where
  "req env path body = (\<lambda>tr.
     let rq = policy_request env path body; r = pl_fetch env tr rq in
     (req_result r, tr @ [SRequest rq r]))"

text \<open>Destructuring one property of an object.\<close>

definition member_of :: "string \<Rightarrow> json \<Rightarrow> json outcome" where
  "member_of k v = (if v = JNull \<or> v = JUndefined then Inl JsTypeError else Inr (jprop v k))"

definition listTemplates :: "policy_env \<Rightarrow> json service" where
  "listTemplates env = req env ''/templates'' None"

definition listPolicies :: "policy_env \<Rightarrow> (string \<Rightarrow> bool) \<Rightarrow> policy_filters option \<Rightarrow> json service" where
  "listPolicies env isDate filters =
     andThen (lift (buildListQuery isDate filters)) (\<lambda>query. req env query None)"

definition validatePolicy :: "policy_env \<Rightarrow> json \<Rightarrow> json service" where
  "validatePolicy env policyDef = req env ''/validate'' (Some policyDef)"

definition generatePolicy :: "policy_env \<Rightarrow> json \<Rightarrow> json service" where
  "generatePolicy env policyDef =
     andThen (req env ''/generate'' (Some (JObj [(''definition'', policyDef),
       (''network'', JStr (pl_network env))]))) (\<lambda>v. lift (member_of ''policy'' v))"

definition simulatePolicy :: "policy_env \<Rightarrow> string \<Rightarrow> string \<Rightarrow> json service" where
  "simulatePolicy env policyId wallet =
     req env (''/'' @ policyId @ ''/simulate'') (Some (JObj [(''wallet'', JStr wallet)]))"

definition deployInstance :: "policy_env \<Rightarrow> string \<Rightarrow> string \<Rightarrow> json service" where
  "deployInstance env policyId wallet =
     andThen (req env (''/'' @ policyId @ ''/deploy-instance'') (Some (JObj [(''wallet'', JStr wallet)])))
       (\<lambda>v. lift (member_of ''contractId'' v))"

definition recordDeployment :: "policy_env \<Rightarrow> string \<Rightarrow> json \<Rightarrow> json \<Rightarrow> json service" where
  "recordDeployment env policyId txHash contractId =
     andThen (req env ''/deploy'' (Some (JObj [(''policyId'', JStr policyId), (''txHash'', txHash),
       (''contractId'', contractId)]))) (\<lambda>v. lift (member_of ''policy'' v))"

section \<open>The policy facade\<close>

text \<open>The host's runtime: \<open>resume\<close> may be missing; \<open>attachPolicy\<close> prompts for the passkey.\<close>

record attach_runtime =
  ar_resume :: "(service_event list \<Rightarrow> string \<Rightarrow> string + unit) option"
  ar_attach :: "service_event list \<Rightarrow> json \<Rightarrow> string + json"

record deploy_result =
  dr_policy :: json
  dr_contractId :: json
  dr_attachTxHash :: json

text \<open>The session is the account id and the key id, or the error \<open>requireSession\<close> throws.\<close>

type_synonym facade_session = "(string \<times> string option) outcome"

definition resumeKey :: "attach_runtime \<Rightarrow> string option \<Rightarrow> unit service" where
  "resumeKey rt key =
     (case (truthy key, ar_resume rt) of
        (Some k, Some resume) \<Rightarrow>
          loggedCall (\<lambda>tr. resume tr k) (SResume k)
      | _ \<Rightarrow> ret ())"

definition facadeSimulate :: "policy_env \<Rightarrow> facade_session \<Rightarrow> string \<Rightarrow> json service" where
  "facadeSimulate env ses policyId =
     andThen (lift ses) (\<lambda>(accountId, key). simulatePolicy env policyId accountId)"

definition facadeDeploy ::
    "policy_env \<Rightarrow> facade_session \<Rightarrow> attach_runtime option \<Rightarrow> string \<Rightarrow> deploy_result service" where
  "facadeDeploy env ses attach policyId =
     andThen (lift ses) (\<lambda>(accountId, key).
     case attach of
       None \<Rightarrow> throw (Wallet PolicyNotDeployableError)
     | Some rt \<Rightarrow>
         andThen (deployInstance env policyId accountId) (\<lambda>contractId.
         andThen (resumeKey rt key) (\<lambda>_.
         andThen (loggedCall (\<lambda>tr. ar_attach rt tr contractId) (SAttach contractId)) (\<lambda>attached.
         andThen (lift (member_of ''hash'' attached)) (\<lambda>txHash.
         andThen (recordDeployment env policyId txHash contractId) (\<lambda>policy.
           ret \<lparr>dr_policy = policy, dr_contractId = contractId, dr_attachTxHash = txHash\<rparr>))))))"

section \<open>The order of a deployment\<close>

lemma wp_req [wp]:
  "wp (req env path body) Q tr =
     (let r = pl_fetch env tr (policy_request env path body) in
      Q (req_result r) (tr @ [SRequest (policy_request env path body) r]))"
  by (simp add: wp_def req_def Let_def)

lemma wp_resumeKey:
  assumes "\<And>r. Q r tr" "\<And>r k x. Q r (tr @ [SResume k x])"
  shows "wp (resumeKey rt key) Q tr"
  using assms by (auto simp: resumeKey_def wp split: option.splits)

text \<open>The two requests of a deployment.\<close>

abbreviation instance_request :: "policy_env \<Rightarrow> string \<Rightarrow> string \<Rightarrow> http_request" where
  "instance_request env policyId account \<equiv>
     policy_request env (CHR ''/'' # policyId @ ''/deploy-instance'')
       (Some (JObj [(''wallet'', JStr account)]))"

abbreviation record_request :: "policy_env \<Rightarrow> string \<Rightarrow> json \<Rightarrow> json \<Rightarrow> http_request" where
  "record_request env policyId txHash contractId \<equiv>
     policy_request env ''/deploy'' (Some (JObj [(''policyId'', JStr policyId), (''txHash'', txHash),
       (''contractId'', contractId)]))"

definition resumes :: "service_event list \<Rightarrow> bool" where
  "resumes evs = (evs = [] \<or> (\<exists>k x. evs = [SResume k x]))"

text \<open>How far a deployment may get.\<close>

inductive deploy_events ::
    "policy_env \<Rightarrow> string \<Rightarrow> string \<Rightarrow> js_error + deploy_result \<Rightarrow> service_event list \<Rightarrow> bool"
  for env policyId account where
  no_instance: "deploy_events env policyId account (Inl e)
    [SRequest (instance_request env policyId account) answer]"
| not_resumed: "req_result answer = Inr v \<Longrightarrow> resumes mid \<Longrightarrow>
    deploy_events env policyId account (Inl e)
      (SRequest (instance_request env policyId account) answer # mid)"
| not_attached: "req_result answer = Inr v \<Longrightarrow> resumes mid \<Longrightarrow>
    deploy_events env policyId account (Inl e)
      (SRequest (instance_request env policyId account) answer # mid @
       [SAttach (jprop v ''contractId'') attached])"
| recorded: "req_result answer = Inr v \<Longrightarrow> resumes mid \<Longrightarrow>
    (\<And>d. r = Inr d \<Longrightarrow> dr_contractId d = jprop v ''contractId'' \<and> dr_attachTxHash d = jprop h ''hash'' \<and>
       (\<exists>p. req_result rec_answer = Inr p \<and> dr_policy d = jprop p ''policy'')) \<Longrightarrow>
    deploy_events env policyId account r
      (SRequest (instance_request env policyId account) answer # mid @
       [SAttach (jprop v ''contractId'') (Inr h),
        SRequest (record_request env policyId (jprop h ''hash'') (jprop v ''contractId'')) rec_answer])"

inductive_cases deploy_eventsE: "deploy_events env policyId account r evs"

lemma wp_attach:
  assumes "\<And>e attached. Q (Inl e) (tr @ [SAttach c attached])"
    and "\<And>r h answer. (\<And>d. r = Inr d \<Longrightarrow> dr_contractId d = c \<and> dr_attachTxHash d = jprop h ''hash'' \<and>
        (\<exists>p. req_result answer = Inr p \<and> dr_policy d = jprop p ''policy'')) \<Longrightarrow>
      Q r (tr @ [SAttach c (Inr h), SRequest (record_request env policyId (jprop h ''hash'') c) answer])"
  shows "wp (andThen (loggedCall (\<lambda>tr. ar_attach rt tr c) (SAttach c)) (\<lambda>attached.
       andThen (lift (member_of ''hash'' attached)) (\<lambda>txHash.
       andThen (recordDeployment env policyId txHash c) (\<lambda>policy.
         ret \<lparr>dr_policy = policy, dr_contractId = c, dr_attachTxHash = txHash\<rparr>)))) Q tr"
proof (cases "ar_attach rt tr c")
  case (Inl e)
  then show ?thesis using assms(1) by (simp add: wp)
next
  case (Inr h)
  then show ?thesis
    using assms(1) [of JsTypeError "Inr h"]
    by (auto simp: wp Let_def member_of_def recordDeployment_def split: sum.splits intro!: assms(2))
qed

lemma facadeDeploy_events:
  assumes "facadeDeploy env (Inr (account, key)) (Some rt) policyId tr = (r, tr')"
  shows "\<exists>evs. tr' = tr @ evs \<and> deploy_events env policyId account r evs"
proof -
  let ?Q = "\<lambda>r tr'. \<exists>evs. tr' = tr @ evs \<and> deploy_events env policyId account r evs"
  let ?rq = "instance_request env policyId account"
  let ?ans = "pl_fetch env tr ?rq"
  have "wp (facadeDeploy env (Inr (account, key)) (Some rt) policyId) ?Q tr"
  proof (cases "ebind (req_result ?ans) (member_of ''contractId'')")
    case (Inl e)
    then show ?thesis
      by (auto simp: facadeDeploy_def deployInstance_def wp Let_def ebind_eq_Inl split: sum.splits
          intro: no_instance)
  next
    case (Inr c)
    then obtain v where v: "req_result ?ans = Inr v" "c = jprop v ''contractId''"
      "member_of ''contractId'' v = Inr c"
      by (auto simp: ebind_eq_Inr member_of_def split: if_splits)
    have tail: "wp (andThen (loggedCall (\<lambda>tr. ar_attach rt tr c) (SAttach c)) (\<lambda>attached.
       andThen (lift (member_of ''hash'' attached)) (\<lambda>txHash.
       andThen (recordDeployment env policyId txHash c) (\<lambda>policy.
         ret \<lparr>dr_policy = policy, dr_contractId = c, dr_attachTxHash = txHash\<rparr>)))) ?Q
       (tr @ SRequest ?rq ?ans # mid)" if "resumes mid" for mid
      by (rule wp_attach)
        (use not_attached [OF v(1) that] recorded [OF v(1) that] v(2) in \<open>fastforce+\<close>)
    have fail: "?Q (Inl e) (tr @ SRequest ?rq ?ans # mid)" if "resumes mid" for e mid
      using not_resumed [OF v(1) that] by blast
    show ?thesis
      unfolding facadeDeploy_def deployInstance_def
      by (simp add: wp v(1,3) Let_def)
        (rule wp_resumeKey; use fail tail in \<open>auto simp: resumes_def split: sum.splits\<close>)
  qed
  then show ?thesis using assms by (rule wpD)
qed

lemma facadeDeploy_early:
  "facadeDeploy env (Inl e) attach policyId tr = (Inl e, tr)"
  "facadeDeploy env (Inr s) None policyId tr = (Inl (Wallet PolicyNotDeployableError), tr)"
  by (simp_all add: facadeDeploy_def act_defs split: prod.splits)

section \<open>The properties of the component\<close>

definition is_attach :: "service_event \<Rightarrow> bool" where
  "is_attach e = (case e of SAttach _ _ \<Rightarrow> True | _ \<Rightarrow> False)"

text \<open>
  C15 (safety): a policy is attached only as it was deployed. In a \<open>deploy\<close> the passkey is prompted
  at most once, and only to attach the contract that the policy service returned for this policy
  and the connected account; the service is told of an attachment only when it succeeded, with its
  transaction hash and contract; and \<open>deploy\<close> returns only when the service recorded it. Without a
  session or a runtime nothing is asked of anyone.
\<close>

theorem policy_attached_only_as_deployed:
  assumes "facadeDeploy env ses attach policyId tr = (r, tr @ evs)"
  shows "length (filter is_attach evs) \<le> 1 \<and>
    (evs = [] \<or> (\<exists>account key answer rest. ses = Inr (account, key) \<and>
       evs = SRequest (instance_request env policyId account) answer # rest)) \<and>
    (\<forall>c x. SAttach c x \<in> set evs \<longrightarrow> (\<exists>account key answer v. ses = Inr (account, key) \<and>
       SRequest (instance_request env policyId account) answer \<in> set evs \<and>
       req_result answer = Inr v \<and> c = jprop v ''contractId'')) \<and>
    (\<forall>rq x. SRequest rq x \<in> set (tl evs) \<longrightarrow> (\<exists>c h. SAttach c (Inr h) \<in> set evs \<and>
       rq = record_request env policyId (jprop h ''hash'') c)) \<and>
    (\<forall>d. r = Inr d \<longrightarrow> (\<exists>h answer p. SAttach (dr_contractId d) (Inr h) \<in> set evs \<and>
       dr_attachTxHash d = jprop h ''hash'' \<and> req_result answer = Inr p \<and> dr_policy d = jprop p ''policy'' \<and>
       SRequest (record_request env policyId (dr_attachTxHash d) (dr_contractId d)) answer \<in> set evs))"
proof (cases ses)
  case (Inl e)
  then show ?thesis using assms facadeDeploy_early(1) by auto
next
  case (Inr s)
  obtain account key where s: "s = (account, key)" by (cases s)
  show ?thesis
  proof (cases attach)
    case None
    then show ?thesis using assms Inr facadeDeploy_early(2) by auto
  next
    case (Some rt)
    then have "deploy_events env policyId account r evs"
      using facadeDeploy_events [of env account key rt policyId tr r "tr @ evs"] assms Inr s by auto
    then show ?thesis
      by (cases rule: deploy_eventsE) (auto simp: Inr s is_attach_def resumes_def, blast+)
  qed
qed

text \<open>
  A policy request fails with the error that tells a caller whether to retry. It
  succeeds exactly on a 2xx answer; otherwise it raises a \<open>PolicyApiError\<close> (a bare \<open>TypeError\<close> when
  the error body is the JSON value null), which is retryable exactly when the request did not reach
  the service or the service answered 408, 429 or 5xx (or more).
\<close>

theorem policy_request_errors:
  assumes "req env path body tr = (r, tr')"
    and "answer = pl_fetch env tr (policy_request env path body)"
    and "\<And>res. answer = Inr res \<Longrightarrow> 100 \<le> rs_status res"
  shows "((\<exists>v. r = Inr v) \<longleftrightarrow> (\<exists>res. answer = Inr res \<and> response_ok res)) \<and>
    (\<forall>e. r = Inl e \<longrightarrow>
       (e = JsTypeError \<and> (\<exists>res. answer = Inr res \<and> rs_json res = Inr JNull)) \<or>
       ((\<exists>m st errs. e = Wallet (PolicyApiError m st errs)) \<and>
        (retryable e \<longleftrightarrow> (\<forall>res. answer = Inr res \<longrightarrow>
           rs_status res = 408 \<or> rs_status res = 429 \<or> 500 \<le> rs_status res))))"
proof -
  have r: "r = req_result answer"
    using assms(1,2) by (simp add: req_def Let_def)
  show ?thesis
  proof (cases answer)
    case (Inl m)
    then show ?thesis by (simp add: r retryable_def isRetryableStatus_def)
  next
    case (Inr res)
    then show ?thesis
      using assms(3) [OF Inr]
      by (auto simp: r Let_def retryable_def isRetryableStatus_def split: sum.splits if_splits)
  qed
qed

section \<open>Witnesses\<close>

definition sample_policy_env :: policy_env where
  "sample_policy_env = \<lparr>pl_apiUrl = ''https://api/'', pl_network = ''testnet'',
     pl_fetch = (\<lambda>tr rq. Inr \<lparr>rs_status = 200, rs_json = Inr (JObj
       [(''contractId'', JStr ''CP''), (''policy'', JStr ''done'')])\<rparr>)\<rparr>"

definition sample_runtime :: attach_runtime where
  "sample_runtime = \<lparr>ar_resume = None, ar_attach = (\<lambda>tr c. Inr (JObj [(''hash'', JStr ''h'')]))\<rparr>"

theorem policy_attached_only_as_deployed_witness:
  "\<exists>d evs. facadeDeploy sample_policy_env (Inr (''CW'', None)) (Some sample_runtime) ''p1'' [] = (Inr d, evs) \<and>
     length (filter is_attach evs) \<le> 1"
proof -
  obtain r evs where d:
    "facadeDeploy sample_policy_env (Inr (''CW'', None)) (Some sample_runtime) ''p1'' [] = (r, [] @ evs)"
    by (metis append_Nil surj_pair)
  have "fst (facadeDeploy sample_policy_env (Inr (''CW'', None)) (Some sample_runtime) ''p1'' []) =
      Inr \<lparr>dr_policy = JStr ''done'', dr_contractId = JStr ''CP'', dr_attachTxHash = JStr ''h''\<rparr>"
    by code_simp
  then show ?thesis
    using policy_attached_only_as_deployed [OF d] d by simp
qed

theorem policy_request_errors_witness:
  "\<exists>v. fst (req sample_policy_env ''/templates'' None []) = Inr v"
proof -
  obtain r tr where "req sample_policy_env ''/templates'' None [] = (r, tr)" by fastforce
  from policy_request_errors [OF this refl] this show ?thesis
    by (simp add: sample_policy_env_def response_ok_def)
qed

end
