(* ===== verification/Agents.thy ===== *)
theory Agents
  imports Errors
begin

text \<open>
  Agent session keys (\<open>src/agents-facade.ts\<close>): minting and revoking scoped signers through the
  host's wallet-admin runtime.

  The functions are actions on the trace of the runtime's calls, with their answers; the runtime is
  an arbitrary function of the trace. A time is a number of milliseconds or seconds, \<open>None\<close> where
  the JavaScript number is not finite. \<open>toISOString\<close> is a parameter within the range of a \<open>Date\<close>,
  and throws outside it.
\<close>

section \<open>Input\<close>

record agent_grant =
  gr_token :: string
  gr_policies :: "string list"

datatype expiry = AtDate "rat option" | AtSeconds "rat option"

datatype signer_store = Persistent | Temporary

record mint_input =
  mi_publicKey :: string
  mi_grants :: "agent_grant list"
  mi_expiresAt :: "expiry option"
  mi_store :: "signer_store option"

record mint_result =
  mr_hash :: string
  mr_publicKey :: string
  mr_expiresAt :: "string option"

datatype agent_event =
    AResume string "string + unit"
  | AAdd string "agent_grant list" "int option" signer_store "string + string"
  | ARemove string "string + string"

type_synonym 'a agent = "(agent_event list, js_error, 'a) act"

record agent_runtime =
  ag_resume :: "(agent_event list \<Rightarrow> string \<Rightarrow> string + unit) option"
  ag_add :: "agent_event list \<Rightarrow> string \<Rightarrow> agent_grant list \<Rightarrow> int option \<Rightarrow> signer_store \<Rightarrow> string + string"
  ag_remove :: "agent_event list \<Rightarrow> string \<Rightarrow> string + string"

text \<open>What the facade is built with: the session or the error, the runtime and the clock.\<close>

record agent_deps =
  ad_session :: "(string \<times> string option) outcome"
  ad_runtime :: "agent_runtime option"
  ad_now :: rat
  ad_toISO :: "int \<Rightarrow> string"

section \<open>Validation\<close>

definition is_public_key :: "string \<Rightarrow> bool" where
  "is_public_key = is_strkey ''G''"

definition is_contract_id :: "string \<Rightarrow> bool" where
  "is_contract_id = is_strkey ''C''"

definition toExpirationSeconds :: "rat \<Rightarrow> expiry option \<Rightarrow> int option outcome" where
  "toExpirationSeconds now expiresAt =
     (case expiresAt of
        None \<Rightarrow> Inr None
      | Some e \<Rightarrow>
          let seconds = (case e of AtDate ms \<Rightarrow> map_option (\<lambda>m. \<lfloor>m / 1000\<rfloor>) ms
                                 | AtSeconds s \<Rightarrow> map_option floor s) in
          (case seconds of
             None \<Rightarrow> Inl (Wallet (InvalidAgentInputError ''expiresAt must be in the future''))
           | Some s \<Rightarrow>
               if s \<le> \<lfloor>now / 1000\<rfloor>
               then Inl (Wallet (InvalidAgentInputError ''expiresAt must be in the future''))
               else Inr (Some s)))"

fun validatePolicies :: "string list \<Rightarrow> unit outcome" where
  "validatePolicies [] = Inr ()"
| "validatePolicies (p # ps) =
     (if \<not> is_contract_id p then Inl (Wallet (InvalidAgentInputError ''policy must be a contract id''))
      else validatePolicies ps)"

fun validateGrants :: "agent_grant list \<Rightarrow> unit outcome" where
  "validateGrants [] = Inr ()"
| "validateGrants (g # gs) =
     (if \<not> is_contract_id (gr_token g)
      then Inl (Wallet (InvalidAgentInputError ''grant token must be a contract id''))
      else if gr_policies g = [] then Inl (Wallet (InvalidAgentInputError ''grant has no policies''))
      else ebind (validatePolicies (gr_policies g)) (\<lambda>_. validateGrants gs))"

definition validateMint :: "mint_input \<Rightarrow> unit outcome" where
  "validateMint input =
     (if \<not> is_public_key (mi_publicKey input)
      then Inl (Wallet (InvalidAgentInputError ''publicKey must be an ed25519 public key''))
      else if mi_grants input = []
      then Inl (Wallet (InvalidAgentInputError ''at least one token grant is required''))
      else validateGrants (mi_grants input))"

section \<open>mint and revoke\<close>

definition requireRuntime :: "agent_deps \<Rightarrow> agent_runtime outcome" where
  "requireRuntime deps =
     (case ad_runtime deps of None \<Rightarrow> Inl (Wallet AgentsNotConfiguredError) | Some rt \<Rightarrow> Inr rt)"

definition resumeAgent :: "agent_runtime \<Rightarrow> string option \<Rightarrow> unit agent" where
  "resumeAgent rt key =
     (case (key, ag_resume rt) of
        (Some k, Some resume) \<Rightarrow>
          if k = [] then ret () else loggedCall (\<lambda>tr. resume tr k) (AResume k)
      | _ \<Rightarrow> ret ())"

text \<open>\<open>new Date(seconds * 1000).toISOString()\<close>\<close>

definition isoOf :: "agent_deps \<Rightarrow> int option \<Rightarrow> string option outcome" where
  "isoOf deps seconds =
     (case seconds of
        None \<Rightarrow> Inr None
      | Some s \<Rightarrow>
          if \<bar>s * 1000\<bar> \<le> 8640000000000000 then Inr (Some (ad_toISO deps s))
          else Inl (Wallet (RangeError (of_int (s * 1000)))))"

definition mint :: "agent_deps \<Rightarrow> mint_input \<Rightarrow> mint_result agent" where
  "mint deps input =
     andThen (lift (requireRuntime deps)) (\<lambda>rt.
     andThen (lift (ad_session deps)) (\<lambda>(account, key).
     andThen (lift (validateMint input)) (\<lambda>_.
     andThen (lift (toExpirationSeconds (ad_now deps) (mi_expiresAt input))) (\<lambda>expiration.
     andThen (resumeAgent rt key) (\<lambda>_.
     let store = (case mi_store input of None \<Rightarrow> Persistent | Some st \<Rightarrow> st) in
     andThen (loggedCall (\<lambda>tr. ag_add rt tr (mi_publicKey input) (mi_grants input) expiration store)
       (AAdd (mi_publicKey input) (mi_grants input) expiration store)) (\<lambda>hash.
     andThen (lift (isoOf deps expiration)) (\<lambda>iso.
       ret \<lparr>mr_hash = hash, mr_publicKey = mi_publicKey input, mr_expiresAt = iso\<rparr>)))))))"

definition revoke :: "agent_deps \<Rightarrow> string \<Rightarrow> string agent" where
  "revoke deps publicKey =
     andThen (lift (requireRuntime deps)) (\<lambda>rt.
     andThen (lift (ad_session deps)) (\<lambda>(account, key).
       if \<not> is_public_key publicKey
       then throw (Wallet (InvalidAgentInputError ''publicKey must be an ed25519 public key''))
       else
         andThen (resumeAgent rt key) (\<lambda>_.
           loggedCall (\<lambda>tr. ag_remove rt tr publicKey) (ARemove publicKey))))"

section \<open>What is mintable\<close>

text \<open>A signer that is limited on every token it may touch.\<close>

definition restricted :: "agent_grant list \<Rightarrow> bool" where
  "restricted gs = (gs \<noteq> [] \<and> list_all (\<lambda>g. is_contract_id (gr_token g) \<and> gr_policies g \<noteq> [] \<and>
     list_all is_contract_id (gr_policies g)) gs)"

lemma validatePolicies_iff: "validatePolicies ps = Inr () \<longleftrightarrow> list_all is_contract_id ps"
  by (induction ps) simp_all

lemma validateGrants_iff:
  "validateGrants gs = Inr () \<longleftrightarrow> list_all (\<lambda>g. is_contract_id (gr_token g) \<and> gr_policies g \<noteq> [] \<and>
     list_all is_contract_id (gr_policies g)) gs"
  by (induction gs) (auto simp: ebind_eq_Inr validatePolicies_iff)

lemma validateMint_iff:
  "validateMint input = Inr () \<longleftrightarrow> is_public_key (mi_publicKey input) \<and> restricted (mi_grants input)"
  by (simp add: validateMint_def restricted_def validateGrants_iff)

lemma toExpirationSeconds_future:
  "toExpirationSeconds now e = Inr (Some s) \<Longrightarrow> \<lfloor>now / 1000\<rfloor> < s"
  by (auto simp: toExpirationSeconds_def Let_def split: option.splits expiry.splits if_splits)

lemma wp_resumeAgent:
  assumes "Q (Inr ()) tr" "\<And>r k x. Q r (tr @ [AResume k x])"
  shows "wp (resumeAgent rt key) Q tr"
  using assms by (auto simp: resumeAgent_def wp split: option.splits)

definition is_add :: "agent_event \<Rightarrow> bool" where
  "is_add e = (case e of AAdd _ _ _ _ _ \<Rightarrow> True | _ \<Rightarrow> False)"

lemma mint_events:
  assumes "mint deps input tr = (r, tr')"
  shows "\<exists>evs. tr' = tr @ evs \<and> length (filter is_add evs) \<le> 1 \<and>
    (\<forall>pk gs ex st x. AAdd pk gs ex st x \<in> set evs \<longrightarrow>
       validateMint input = Inr () \<and> toExpirationSeconds (ad_now deps) (mi_expiresAt input) = Inr ex \<and>
       pk = mi_publicKey input \<and> gs = mi_grants input) \<and>
    (\<forall>m. r = Inr m \<longrightarrow> (\<exists>ex st. AAdd (mr_publicKey m) (mi_grants input) ex st (Inr (mr_hash m)) \<in> set evs))"
    (is "?P r tr'")
proof -
  have "wp (mint deps input) ?P tr"
    unfolding mint_def wp
    by (auto simp: wp is_add_def Let_def split: sum.splits intro!: wp_resumeAgent)
  then show ?thesis using assms by (rule wpD)
qed

section \<open>The properties of the component\<close>

lemma toExpirationSeconds_None: "toExpirationSeconds now e = Inr None \<longleftrightarrow> e = None"
  by (auto simp: toExpirationSeconds_def Let_def split: option.splits expiry.splits if_splits)

lemma mint_submits:
  assumes "ad_runtime deps = Some rt" "ag_resume rt = None" "ad_session deps = Inr ses"
    and "validateMint input = Inr ()" "toExpirationSeconds (ad_now deps) (mi_expiresAt input) = Inr ex"
    and "mint deps input tr = (r, tr')"
  shows "\<exists>st x. AAdd (mi_publicKey input) (mi_grants input) ex st x \<in> set (drop (length tr) tr')"
proof -
  obtain account key where ses: "ses = (account, key)" by (cases ses)
  have "wp (mint deps input)
      (\<lambda>r tr'. \<exists>st x. AAdd (mi_publicKey input) (mi_grants input) ex st x \<in>
        set (drop (length tr) tr')) tr"
    using assms(1-5) unfolding mint_def wp ses
    by (auto simp: wp requireRuntime_def resumeAgent_def Let_def split: sum.splits option.splits)
  then show ?thesis using assms(6) by (rule wpD)
qed


section \<open>Witnesses\<close>

definition sample_key :: "char \<Rightarrow> string" where
  "sample_key c = c # replicate 55 CHR ''A''"

definition sample_agent_deps :: agent_deps where
  "sample_agent_deps = \<lparr>ad_session = Inr (''CW'', None),
     ad_runtime = Some \<lparr>ag_resume = None, ag_add = (\<lambda>tr pk gs ex st. Inr ''hash''),
       ag_remove = (\<lambda>tr pk. Inr ''hash'')\<rparr>,
     ad_now = 1000000, ad_toISO = (\<lambda>s. ''iso'')\<rparr>"

definition sample_mint :: "expiry option \<Rightarrow> mint_input" where
  "sample_mint e = \<lparr>mi_publicKey = sample_key CHR ''G'',
     mi_grants = [\<lparr>gr_token = sample_key CHR ''C'', gr_policies = [sample_key CHR ''C'']\<rparr>],
     mi_expiresAt = e, mi_store = None\<rparr>"

lemma sample_mint_valid: "validateMint (sample_mint e) = Inr ()"
  by (simp add: validateMint_iff sample_mint_def sample_key_def restricted_def is_public_key_def
      is_contract_id_def is_strkey_def is_base32_def list_all_iff)


text \<open>
  An expiration beyond the range of a \<open>Date\<close> is accepted; the key is added, and then the conversion
  of the expiration throws, so that the caller sees a failure.
\<close>

lemma mint_fails_after_adding:
  "mint sample_agent_deps (sample_mint (Some (AtSeconds (Some 10000000000000)))) [] =
     (Inl (Wallet (RangeError 10000000000000000)),
      [AAdd (sample_key CHR ''G'') (mi_grants (sample_mint None)) (Some 10000000000000) Persistent
        (Inr ''hash'')])"
  using sample_mint_valid [of "Some (AtSeconds (Some 10000000000000))"]
  by (simp add: mint_def act_defs requireRuntime_def sample_agent_deps_def toExpirationSeconds_def
      resumeAgent_def loggedCall_def isoOf_def sample_mint_def)

end
