(* ===== verification/Network.thy ===== *)
theory Network
  imports Errors
begin

text \<open>
  Network constants and reachability: \<open>src/config.ts\<close>, \<open>src/health.ts\<close> and the answer handling of
  \<open>src/balances-rpc.ts\<close>.
\<close>

section \<open>Network configuration\<close>

record network_config =
  nc_network :: string
  nc_rpcUrl :: string
  nc_networkPassphrase :: string
  nc_horizonUrl :: string
  nc_walletWasmHash :: string
  nc_nativeTokenContractId :: string
  nc_usdcIssuer :: string
  nc_usdcContractId :: string

definition TESTNET :: network_config where
  "TESTNET = \<lparr>nc_network = ''testnet'',
     nc_rpcUrl = ''https://soroban-testnet.stellar.org'',
     nc_networkPassphrase = ''Test SDF Network ; September 2015'',
     nc_horizonUrl = ''https://horizon-testnet.stellar.org'',
     nc_walletWasmHash = ''fdefad64b96837147e1c333e51f537b696eab925e9f147e63d597c04e3c903f0'',
     nc_nativeTokenContractId = ''CDLZFC3SYJYDZT7K67VZ75HPJVIEUVNIXF47ZG2FB2RMQQVU2HHGCYSC'',
     nc_usdcIssuer = ''GBBD47IF6LWK7P7MDEVSCWR7DPUWV3NY3DTQEVFL4NAT4AQH3ZLLFLA5'',
     nc_usdcContractId = ''CBIELTK6YBZJU5UP2WWQEUCYKLPU6AUNZ2BQ4WWFEIE3USCIHMXQDAMA''\<rparr>"

definition MAINNET :: network_config where
  "MAINNET = \<lparr>nc_network = ''mainnet'', nc_rpcUrl = [],
     nc_networkPassphrase = ''Public Global Stellar Network ; September 2015'',
     nc_horizonUrl = ''https://horizon.stellar.org'', nc_walletWasmHash = [],
     nc_nativeTokenContractId = ''CAS3J7GYLGXMF6TDJBBYYSE3HQ6BBSMLNUQ34T6TZMYMW2EVH34XOWMA'',
     nc_usdcIssuer = ''GA5ZSEJYB37JRC5AVCIA5MOP4RHTM335X2KGX3IHOJAPP5RE34K4KZVN'',
     nc_usdcContractId = ''CCW67TSZV3SSS2HXMBQ5JFGCKJNXKZM7UQUWUZPUTHXSTZLEO7SJMI75''\<rparr>"

text \<open>\<open>mainnetConfig\<close>; a missing option is \<open>None\<close>.\<close>

definition mainnetConfig :: "string option \<Rightarrow> string option \<Rightarrow> network_config outcome" where
  "mainnetConfig rpcUrl walletWasmHash =
     (case map_option trim rpcUrl of
        None \<Rightarrow> Inl (Wallet (MainnetConfigError ''rpcUrl is required''))
      | Some url \<Rightarrow>
          if url = [] then Inl (Wallet (MainnetConfigError ''rpcUrl is required''))
          else
            (case map_option trim walletWasmHash of
               None \<Rightarrow> Inl (Wallet (MainnetConfigError ''walletWasmHash must be a 64-char hex hash''))
             | Some h \<Rightarrow>
                 if h = [] \<or> \<not> is_hex64 h
                 then Inl (Wallet (MainnetConfigError ''walletWasmHash must be a 64-char hex hash''))
                 else Inr (MAINNET\<lparr>nc_rpcUrl := url, nc_walletWasmHash := toLowerCase h\<rparr>)))"

section \<open>Reachability\<close>

text \<open>How the ping behaves: it settles after some milliseconds, or never.\<close>

datatype ping = PingOk rat | PingFails rat string | PingHangs

datatype reachability = Reachable rat | Unreachable string

definition timeout_message :: "rat \<Rightarrow> (rat \<Rightarrow> string) \<Rightarrow> string" where
  "timeout_message timeoutMs num = ''RPC health check timed out after '' @ num timeoutMs @ ''ms''"

text \<open>
  \<open>isReachable\<close>: the race of the ping with the timer, which the ping wins when it settles before
  the timer fires. \<open>started\<close> and \<open>ended\<close> are the two readings of the clock.
\<close>

definition isReachable ::
    "(rat \<Rightarrow> string) \<Rightarrow> rat option \<Rightarrow> ping \<Rightarrow> rat \<Rightarrow> rat \<Rightarrow> reachability" where
  "isReachable num timeout p started ended =
    (let timeoutMs = (case timeout of None \<Rightarrow> 5000 | Some t \<Rightarrow> t) in
     case p of
       PingOk d \<Rightarrow> if d < timeoutMs then Reachable (max 0 (ended - started))
                  else Unreachable (timeout_message timeoutMs num)
     | PingFails d e \<Rightarrow> if d < timeoutMs then Unreachable e
                       else Unreachable (timeout_message timeoutMs num)
     | PingHangs \<Rightarrow> Unreachable (timeout_message timeoutMs num))"

section \<open>Balance reads\<close>

text \<open>What the simulation of a balance read gives.\<close>

datatype balance_sim = SimFailed "string option" | SimSuccess "int option"

definition getTokenBalance :: "string \<Rightarrow> balance_sim \<Rightarrow> int outcome" where
  "getTokenBalance tokenContractId sim =
     (case sim of
        SimFailed e \<Rightarrow>
          Inl (Thrown (''Balance read failed for '' @ tokenContractId @ '': '' @
            (case e of None \<Rightarrow> ''unknown simulation error'' | Some m \<Rightarrow> m)))
      | SimSuccess None \<Rightarrow>
          Inl (Thrown (''Balance read for '' @ tokenContractId @ '' returned no result''))
      | SimSuccess (Some v) \<Rightarrow> Inr v)"

section \<open>The properties of the component\<close>

lemma to_lower_hex: "is_hex c \<Longrightarrow> is_hex (to_lower_char c) \<and> to_lower_char (to_lower_char c) = to_lower_char c"
  by (auto simp: is_hex_def to_lower_char_def Let_def)

text \<open>
  A broken mainnet configuration cannot be built. \<open>mainnetConfig\<close> succeeds exactly when
  the RPC URL is not blank and the hash is 64 hexadecimal digits once trimmed; the result then has
  these two values, the hash in lower case, and every published constant of \<open>MAINNET\<close>, and a hash
  that was built once is accepted unchanged again.
\<close>

lemma mainnet_config_complete:
  "(\<exists>c. mainnetConfig rpcUrl wasm = Inr c) \<longleftrightarrow>
     (\<exists>u h. rpcUrl = Some u \<and> trim u \<noteq> [] \<and> wasm = Some h \<and> is_hex64 (trim h))"
  "mainnetConfig rpcUrl wasm = Inr c \<Longrightarrow>
     nc_rpcUrl c \<noteq> [] \<and> is_hex64 (nc_walletWasmHash c) \<and>
     toLowerCase (nc_walletWasmHash c) = nc_walletWasmHash c \<and>
     c\<lparr>nc_rpcUrl := [], nc_walletWasmHash := []\<rparr> = MAINNET"
proof -
  show "(\<exists>c. mainnetConfig rpcUrl wasm = Inr c) \<longleftrightarrow>
     (\<exists>u h. rpcUrl = Some u \<and> trim u \<noteq> [] \<and> wasm = Some h \<and> is_hex64 (trim h))"
    by (cases rpcUrl; cases wasm) (auto simp: mainnetConfig_def is_hex64_def)
  show "nc_rpcUrl c \<noteq> [] \<and> is_hex64 (nc_walletWasmHash c) \<and>
     toLowerCase (nc_walletWasmHash c) = nc_walletWasmHash c \<and>
     c\<lparr>nc_rpcUrl := [], nc_walletWasmHash := []\<rparr> = MAINNET" if "mainnetConfig rpcUrl wasm = Inr c"
    using that to_lower_hex
    by (auto simp: mainnetConfig_def MAINNET_def is_hex64_def toLowerCase_def list_all_iff
        split: option.splits if_splits)
qed

text \<open>The check ends with the timer, and says reachable only after an answer in time.\<close>

lemma reachable_only_in_time:
  "isReachable num timeout p started ended = Reachable l \<longleftrightarrow>
     (\<exists>d. p = PingOk d \<and> d < (case timeout of None \<Rightarrow> 5000 | Some t \<Rightarrow> t)) \<and> l = max 0 (ended - started)"
  by (cases p) (auto simp: isReachable_def Let_def)

end
