(* ===== verification/Replacement.thy ===== *)
theory Replacement
  imports Encoding "HOL-Library.Sublist"
begin

text \<open>
  Global replacement in a text: what the sanitiser (\<open>Untrusted\<close>) and the redactor (\<open>Redaction\<close>)
  share. Each of their \<open>replace\<close> calls scans a text from left to right, puts a bracketed marker
  where a pattern matches and copies every other character. The interface \<open>bracketed_replace\<close>
  states that, with \<open>'p\<close> for what the pattern sees before the position; its client lemmas say that
  a piece of the output without brackets is a piece of the input at which nothing matched.
\<close>

section \<open>Pieces of a text\<close>

lemma codes_simps [simp]: "codes [] = []" "codes (c # cs) = of_char c # codes cs"
  by (simp_all add: codes_def)

lemma piece_char: "s = a @ q @ b \<Longrightarrow> c \<in> set q \<Longrightarrow> c \<in> set s"
  by simp

text \<open>A piece without the separator is on one side of it.\<close>

lemma split_at:
  assumes "x @ d # y = a @ q @ b" "d \<notin> set q"
  shows "(\<exists>b'. x = a @ q @ b') \<or> (\<exists>a'. y = a' @ q @ b \<and> a = x @ d # a')"
proof -
  from assms(1) have "x @ d # y = (a @ q) @ b" by simp
  then consider us where "x = (a @ q) @ us" | us where "x @ us = a @ q" "d # y = us @ b"
    unfolding append_eq_append_conv2 [of x "d # y" "a @ q" b] by blast
  then show ?thesis
  proof cases
    case 1
    then show ?thesis by auto
  next
    case (2 us)
    show ?thesis
    proof (cases us)
      case Nil
      then show ?thesis using 2 by auto
    next
      case (Cons e us')
      then have e: "e = d" "y = us' @ b" using 2(2) by auto
      from 2(1) Cons e have "a @ q = x @ d # us'" by simp
      then consider vs where "a = x @ vs" "vs @ q = d # us'" | vs where "x = a @ vs" "q = vs @ d # us'"
        unfolding append_eq_append_conv2 [of a q x "d # us'"] by auto
      then show ?thesis
      proof cases
        case (1 vs)
        then show ?thesis using assms(2) e by (cases vs) auto
      next
        case (2 vs)
        then show ?thesis using assms(2) by simp
      qed
    qed
  qed
qed

section \<open>The interface\<close>

locale bracketed_replace =
  fixes scan :: "'p \<Rightarrow> jstext \<Rightarrow> jstext" and hit :: "'p \<Rightarrow> jstext \<Rightarrow> jstext option"
    and marker :: jstext
  assumes scan_Nil: "scan p [] = []"
    and scan_miss: "hit p (c # cs) = None \<Longrightarrow> \<exists>p'. scan p (c # cs) = c # scan p' cs"
    and scan_hit: "hit p s = Some rest \<Longrightarrow> \<exists>p'. scan p s = 91 # marker @ 93 # scan p' rest"
    and hit_suffix: "hit p s = Some rest \<Longrightarrow> \<exists>m. m \<noteq> [] \<and> s = m @ rest"
begin

lemma output_prefix: "scan p s = q @ b \<Longrightarrow> 91 \<notin> set q \<Longrightarrow> \<exists>d. s = q @ d"
proof (induction q arbitrary: p s)
  case (Cons c q)
  have "hit p s = None"
    using Cons.prems scan_hit [of p s] by (cases "hit p s") auto
  moreover obtain x cs where s: "s = x # cs"
    using Cons.prems(1) scan_Nil by (cases s) auto
  ultimately obtain p' where "x = c" "scan p' cs = q @ b"
    using Cons.prems(1) scan_miss [of p x cs] by auto
  then show ?case using Cons s by auto
qed simp

lemma output_piece:
  assumes "q \<noteq> []" "91 \<notin> set q" "93 \<notin> set q" "\<not> sublist q marker"
  shows "scan p s = a @ q @ b \<Longrightarrow> \<exists>p' c d. s = c @ q @ d \<and> hit p' (q @ d) = None"
proof (induction "length s" arbitrary: p s a rule: less_induct)
  case less
  show ?case
  proof (cases "hit p s")
    case (Some rest)
    then obtain p' m where scan: "scan p s = 91 # marker @ 93 # scan p' rest" and m: "m \<noteq> []" "s = m @ rest"
      using scan_hit hit_suffix by blast
    have "[] @ 91 # marker @ 93 # scan p' rest = a @ q @ b"
      using less.prems scan by simp
    from split_at [OF this assms(2)] assms(1) obtain a1 where "marker @ 93 # scan p' rest = a1 @ q @ b"
      by auto
    from split_at [OF this assms(3)] assms(4) obtain a2 where "scan p' rest = a2 @ q @ b"
      by (auto simp: sublist_def)
    moreover have "length rest < length s" using m by simp
    ultimately obtain p2 c d where "rest = c @ q @ d" "hit p2 (q @ d) = None"
      using less.hyps by blast
    then show ?thesis using m(2) by (metis append.assoc)
  next
    case None
    show ?thesis
    proof (cases a)
      case Nil
      then obtain d where "s = q @ d"
        using less.prems assms(2) output_prefix [of p s q b] by auto
      then show ?thesis using None by (metis append_Nil)
    next
      case (Cons x a')
      obtain y cs where "s = y # cs"
        using less.prems Cons scan_Nil by (cases s) auto
      moreover from this None obtain p' where "scan p s = y # scan p' cs"
        using scan_miss by blast
      ultimately have "s = x # cs" "scan p' cs = a' @ q @ b"
        using less.prems Cons by simp_all
      moreover from this obtain p2 c d where "cs = c @ q @ d" "hit p2 (q @ d) = None"
        using less.hyps [of cs p' a'] by auto
      ultimately show ?thesis by (metis append_Cons)
    qed
  qed
qed

text \<open>A character of the output is one of the input or of the marker.\<close>

lemma output_char: "c \<in> set (scan p s) \<Longrightarrow> c \<in> set s \<or> c \<in> insert 91 (insert 93 (set marker))"
proof (induction "length s" arbitrary: p s rule: less_induct)
  case less
  show ?case
  proof (cases "hit p s")
    case (Some rest)
    then obtain p' m where "scan p s = 91 # marker @ 93 # scan p' rest" "m \<noteq> []" "s = m @ rest"
      using scan_hit hit_suffix by blast
    then show ?thesis using less.hyps [of rest p'] less.prems by auto
  next
    case None
    show ?thesis
    proof (cases s)
      case Nil
      then show ?thesis using less.prems scan_Nil by simp
    next
      case (Cons x cs)
      then obtain p' where "scan p s = x # scan p' cs" using None scan_miss by blast
      then show ?thesis using less.hyps [of cs p'] less.prems Cons by auto
    qed
  qed
qed

text \<open>Nothing changes where nothing matches.\<close>

lemma unchanged: "(\<And>p' c d. s = c @ d \<Longrightarrow> hit p' d = None) \<Longrightarrow> scan p s = s"
proof (induction s arbitrary: p)
  case (Cons x cs)
  have "hit p (x # cs) = None" using Cons.prems [of "[]" "x # cs"] by simp
  then obtain p' where "scan p (x # cs) = x # scan p' cs" using scan_miss by blast
  moreover have "scan p' cs = cs"
    by (rule Cons.IH) (metis Cons.prems append_Cons)
  ultimately show ?case by simp
qed (rule scan_Nil)

end

end
