(* ===== verification/Redaction.thy ===== *)
theory Redaction
  imports Untrusted Json
begin

text \<open>
  What leaves the payer process (\<open>packages/mcp-x402-payer/src/output.ts\<close>, with
  \<open>src/log-level.ts\<close> and \<open>startStdio\<close> of \<open>server.ts\<close>): the redactor, the formatting of errors, the
  log and the two output channels.

  The registry of secrets is a list without repetitions, in the order of registration. The process
  is a record of the chunks written to each channel; \<open>po_diverted\<close> says that \<open>process.stdout.write\<close>
  has been replaced.
\<close>

section \<open>Log levels\<close>

datatype log_level = Debug | Info | Warn | Error | Silent

fun level_name :: "log_level \<Rightarrow> string" where
  "level_name Debug = ''debug''"
| "level_name Info = ''info''"
| "level_name Warn = ''warn''"
| "level_name Error = ''error''"
| "level_name Silent = ''silent''"

definition LOG_LEVELS :: "log_level list" where
  "LOG_LEVELS = [Debug, Info, Warn, Error, Silent]"

fun SEVERITY :: "log_level \<Rightarrow> nat" where
  "SEVERITY Debug = 0"
| "SEVERITY Info = 1"
| "SEVERITY Warn = 2"
| "SEVERITY Error = 3"
| "SEVERITY Silent = 4"

definition DEFAULT_LOG_LEVEL :: log_level where
  "DEFAULT_LOG_LEVEL = Info"

definition isLogLevel :: "string \<Rightarrow> log_level option" where
  "isLogLevel s = find (\<lambda>l. level_name l = s) LOG_LEVELS"

definition getConfiguredLogLevel :: "(string \<Rightarrow> string option) \<Rightarrow> log_level" where
  "getConfiguredLogLevel env =
     (case env ''VELLAR_LOG_LEVEL'' of
        None \<Rightarrow> DEFAULT_LOG_LEVEL
      | Some v \<Rightarrow>
          (case isLogLevel (toLowerCase (trim v)) of None \<Rightarrow> DEFAULT_LOG_LEVEL | Some l \<Rightarrow> l))"

definition shouldLog :: "log_level \<Rightarrow> log_level \<Rightarrow> bool" where
  "shouldLog level threshold = (SEVERITY level \<ge> SEVERITY threshold)"

section \<open>The redactor\<close>

definition REDACTED :: jstext where
  "REDACTED = codes ''[REDACTED]''"

definition registerSecret :: "jstext \<Rightarrow> jstext list \<Rightarrow> jstext list" where
  "registerSecret secret registered =
     (if secret = [] \<or> secret \<in> set registered then registered else registered @ [secret])"

definition clearRegisteredSecrets :: "jstext list \<Rightarrow> jstext list" where
  "clearRegisteredSecrets registered = []"

text \<open>\<open>out.split(secret).join(REDACTED)\<close>\<close>

definition secret_at :: "jstext \<Rightarrow> jstext \<Rightarrow> jstext option" where
  "secret_at secret s =
     (if secret \<noteq> [] \<and> take (length secret) s = secret then Some (drop (length secret) s) else None)"

lemma secret_at_Some: "secret_at q s = Some r \<longleftrightarrow> q \<noteq> [] \<and> s = q @ r"
  by (auto simp: secret_at_def) (metis append_take_drop_id)

function replace_secret :: "jstext \<Rightarrow> jstext \<Rightarrow> jstext" where
  "replace_secret secret s =
     (case secret_at secret s of
        Some rest \<Rightarrow> REDACTED @ replace_secret secret rest
      | None \<Rightarrow> (case s of [] \<Rightarrow> [] | c # cs \<Rightarrow> c # replace_secret secret cs))"
  by pat_completeness auto
termination
  by (relation "measure (length \<circ> snd)") (auto simp: secret_at_Some)

declare replace_secret.simps [simp del]

text \<open>
  \<open>/\bS[A-Z2-7]{55}\b/g\<close>: \<open>prev\<close> is the character before the position. A word boundary there means
  that \<open>prev\<close> is no word character.
\<close>

definition is_word :: "nat \<Rightarrow> bool" where
  "is_word c = (48 \<le> c \<and> c \<le> 57 \<or> 65 \<le> c \<and> c \<le> 90 \<or> c = 95 \<or> 97 \<le> c \<and> c \<le> 122)"

definition is_base32_code :: "nat \<Rightarrow> bool" where
  "is_base32_code c = (65 \<le> c \<and> c \<le> 90 \<or> 50 \<le> c \<and> c \<le> 55)"

definition is_seed :: "jstext \<Rightarrow> bool" where
  "is_seed q = (case q of [] \<Rightarrow> False | c # cs \<Rightarrow> c = 83 \<and> length cs = 55 \<and> list_all is_base32_code cs)"

definition word_before :: "nat option \<Rightarrow> bool" where
  "word_before prev = (case prev of None \<Rightarrow> False | Some c \<Rightarrow> is_word c)"

definition word_after :: "jstext \<Rightarrow> bool" where
  "word_after s = (s \<noteq> [] \<and> is_word (hd s))"

definition seed_at :: "nat option \<Rightarrow> jstext \<Rightarrow> jstext option" where
  "seed_at prev s =
     (if \<not> word_before prev \<and> is_seed (take 56 s) \<and> \<not> word_after (drop 56 s)
      then Some (drop 56 s) else None)"

lemma is_seed_length: "is_seed q \<Longrightarrow> length q = 56"
  by (auto simp: is_seed_def split: list.splits)

lemma seed_at_length: "seed_at prev s = Some r \<Longrightarrow> length r < length s"
  using is_seed_length [of "take 56 s"] by (auto simp: seed_at_def min_def split: if_splits)

function replace_seeds :: "nat option \<Rightarrow> jstext \<Rightarrow> jstext" where
  "replace_seeds prev s =
     (case seed_at prev s of
        Some rest \<Rightarrow> REDACTED @ replace_seeds (Some (s ! 55)) rest
      | None \<Rightarrow> (case s of [] \<Rightarrow> [] | c # cs \<Rightarrow> c # replace_seeds (Some c) cs))"
  by pat_completeness auto
termination
  by (relation "measure (length \<circ> snd)") (auto dest: seed_at_length)

declare replace_seeds.simps [simp del]

definition redact :: "jstext list \<Rightarrow> jstext \<Rightarrow> jstext" where
  "redact registered t =
     replace_seeds None (foldl (\<lambda>out secret. replace_secret secret out) t registered)"

section \<open>Errors and untrusted text\<close>

datatype thrown_value =
    ErrorObject jstext jstext
  | TextValue jstext
  | OtherValue jstext

text \<open>
  \<open>formatError\<close>: an \<open>Error\<close> has a name and a message; of another value that is no string,
  \<open>OtherValue\<close> carries \<open>JSON.stringify(err) ?? String(err)\<close>.
\<close>

fun formatError :: "jstext list \<Rightarrow> thrown_value \<Rightarrow> jstext" where
  "formatError registered (ErrorObject name message) =
     (if name \<noteq> [] \<and> name \<noteq> codes ''Error'' then name @ codes '': '' @ redact registered message
      else redact registered message)"
| "formatError registered (TextValue s) = redact registered s"
| "formatError registered (OtherValue s) = redact registered s"

definition renderRedacted ::
    "jstext list \<Rightarrow> bytes option \<Rightarrow> jstext \<Rightarrow> jstext \<Rightarrow> sanitize_options \<Rightarrow> jstext outcome" where
  "renderRedacted registered webcrypto label content opts =
     renderUntrusted webcrypto label (redact registered content) opts"

definition sanitizeRedacted :: "jstext list \<Rightarrow> jstext \<Rightarrow> jstext" where
  "sanitizeRedacted registered content = sanitizeMetadata (redact registered content)"

section \<open>The output channels\<close>

record process_out =
  po_registered :: "jstext list"
  po_threshold :: log_level
  po_stdout :: "jstext list"
  po_stderr :: "jstext list"
  po_diverted :: bool

text \<open>Fields of a log line, or fields that cannot be serialised.\<close>

datatype log_fields = Fields "(string \<times> json) list" | Unserializable

definition log_line :: "(rat \<Rightarrow> string) \<Rightarrow> log_level \<Rightarrow> string \<Rightarrow> log_fields \<Rightarrow> jstext" where
  "log_line num level message flds =
    (let head = [(''level'', JStr (level_name level)), (''msg'', JStr message)] in
     codes (stringify num (JObj (case flds of
       Fields kvs \<Rightarrow> foldl (\<lambda>obj (k, v). jset k v obj) head kvs
     | Unserializable \<Rightarrow> head @ [(''fields'', JStr ''[unserializable]'')]))))"

definition writeLog :: "(rat \<Rightarrow> string) \<Rightarrow> log_level \<Rightarrow> string \<Rightarrow> log_fields \<Rightarrow> process_out \<Rightarrow> process_out" where
  "writeLog num level message flds p =
     (if \<not> shouldLog level (po_threshold p) then p
      else p\<lparr>po_stderr := po_stderr p @
        [redact (po_registered p) (log_line num level message flds) @ [10]]\<rparr>)"

text \<open>Any other code of the process that writes to \<open>process.stdout\<close>.\<close>

definition writeStdout :: "jstext \<Rightarrow> process_out \<Rightarrow> process_out" where
  "writeStdout chunk p =
     (if po_diverted p
      then p\<lparr>po_stderr := po_stderr p @ [redact (po_registered p) (codes ''[diverted-stdout] '' @ chunk)]\<rparr>
      else p\<lparr>po_stdout := po_stdout p @ [chunk]\<rparr>)"

definition divertStdoutToStderr :: "process_out \<Rightarrow> process_out" where
  "divertStdoutToStderr p = p\<lparr>po_diverted := True\<rparr>"

text \<open>The transport of \<open>startStdio\<close> holds the write function from before the diversion.\<close>

definition protocolWrite :: "jstext \<Rightarrow> process_out \<Rightarrow> process_out" where
  "protocolWrite chunk p = p\<lparr>po_stdout := po_stdout p @ [chunk]\<rparr>"

datatype out_op =
    Protocol jstext
  | Stray jstext
  | LogLine log_level string log_fields

fun out_step :: "(rat \<Rightarrow> string) \<Rightarrow> out_op \<Rightarrow> process_out \<Rightarrow> process_out" where
  "out_step num (Protocol chunk) p = protocolWrite chunk p"
| "out_step num (Stray chunk) p = writeStdout chunk p"
| "out_step num (LogLine level message flds) p = writeLog num level message flds p"

definition startStdio :: "process_out \<Rightarrow> process_out" where
  "startStdio p = divertStdoutToStderr p"

section \<open>The replacements\<close>

lemmas redacted_marker = REDACTED_def

lemma replace_seeds_miss:
  "seed_at p (c # cs) = None \<Longrightarrow> replace_seeds p (c # cs) = c # replace_seeds (Some c) cs"
  by (simp add: replace_seeds.simps [of p "c # cs"])

interpretation secrets: bracketed_replace "\<lambda>_ :: unit. replace_secret secret" "\<lambda>_. secret_at secret"
  "codes ''REDACTED''" for secret
proof unfold_locales
  show "replace_secret secret [] = []"
    by (subst replace_secret.simps) (auto simp: secret_at_def)
  show "\<exists>p' :: unit. replace_secret secret (c # cs) = c # replace_secret secret cs"
    if "secret_at secret (c # cs) = None" for c cs
    using that by (simp add: replace_secret.simps [of secret "c # cs"])
  show "\<exists>p' :: unit. replace_secret secret s = 91 # codes ''REDACTED'' @ 93 # replace_secret secret rest"
    if "secret_at secret s = Some rest" for s rest
    using that by (simp add: replace_secret.simps [of secret s] redacted_marker)
qed (auto simp: secret_at_Some)

interpretation seeds: bracketed_replace replace_seeds seed_at "codes ''REDACTED''"
proof unfold_locales
  show "replace_seeds p [] = []" for p
    by (simp add: replace_seeds.simps [of p "[]"] seed_at_def is_seed_def)
  show "\<exists>p'. replace_seeds p (c # cs) = c # replace_seeds p' cs" if "seed_at p (c # cs) = None" for p c cs
    using that by (auto simp: replace_seeds_miss)
  show "\<exists>p'. replace_seeds p s = 91 # codes ''REDACTED'' @ 93 # replace_seeds p' rest"
    if "seed_at p s = Some rest" for p s rest
    using that by (auto simp: replace_seeds.simps [of p s] redacted_marker)
  show "\<exists>m. m \<noteq> [] \<and> s = m @ rest" if "seed_at p s = Some rest" for p s rest
    using that is_seed_length [of "take 56 s"]
    by (intro exI [of _ "take 56 s"]) (auto simp: seed_at_def split: if_splits)
qed

text \<open>A secret as a key encoding has it: word characters, and longer than the marker.\<close>

definition key_like :: "jstext \<Rightarrow> bool" where
  "key_like q = (list_all is_word q \<and> 8 < length q)"

lemma key_like_piece:
  assumes "key_like q"
  shows "q \<noteq> []" "91 \<notin> set q" "93 \<notin> set q" "\<not> sublist q (codes ''REDACTED'')"
  using assms sublist_length_le [of q "codes ''REDACTED''"]
  by (auto simp: key_like_def list_all_iff is_word_def)

lemma replace_secret_keeps_out:
  assumes "key_like q" "\<not> sublist q s"
  shows "\<not> sublist q (replace_secret secret s)"
  using assms(2) secrets.output_piece [OF key_like_piece [OF assms(1)], of secret s]
  by (auto simp: sublist_def)

lemma replace_secret_removes:
  assumes "key_like q"
  shows "\<not> sublist q (replace_secret q s)"
proof
  assume "sublist q (replace_secret q s)"
  then obtain a b where "replace_secret q s = a @ q @ b" by (auto simp: sublist_def)
  then obtain d where "secret_at q (q @ d) = None"
    using secrets.output_piece [OF key_like_piece [OF assms], of q s a b] by blast
  then show False using key_like_piece(1) [OF assms] by (simp add: secret_at_def)
qed

lemma fold_keeps_out:
  "key_like q \<Longrightarrow> \<not> sublist q s \<Longrightarrow> \<not> sublist q (foldl (\<lambda>out secret. replace_secret secret out) s registered)"
  by (induction registered arbitrary: s) (simp_all add: replace_secret_keeps_out)

lemma fold_removes:
  "key_like q \<Longrightarrow> q \<in> set registered \<Longrightarrow>
   \<not> sublist q (foldl (\<lambda>out secret. replace_secret secret out) s registered)"
  by (induction registered arbitrary: s) (auto simp: replace_secret_removes fold_keeps_out)

lemma redact_removes: "key_like q \<Longrightarrow> q \<in> set registered \<Longrightarrow> \<not> sublist q (redact registered t)"
  using seeds.output_piece [OF key_like_piece [of q]]
    fold_removes [of q registered t]
  unfolding redact_def sublist_def by blast

section \<open>No seed stands alone\<close>

text \<open>A seed in a text, with a word boundary on both sides; \<open>prev\<close> is the character before the text.\<close>

definition exposed :: "nat option \<Rightarrow> jstext \<Rightarrow> bool" where
  "exposed prev s = (\<exists>a q b. s = a @ q @ b \<and> is_seed q \<and>
     \<not> word_before (if a = [] then prev else Some (last a)) \<and> \<not> word_after b)"

lemma exposed_Cons:
  assumes "exposed prev (c # cs)"
  shows "(\<not> word_before prev \<and> (\<exists>q b. c # cs = q @ b \<and> is_seed q \<and> \<not> word_after b)) \<or>
    exposed (Some c) cs"
proof -
  obtain a q b where s: "c # cs = a @ q @ b" "is_seed q" "\<not> word_after b"
    "\<not> word_before (if a = [] then prev else Some (last a))"
    using assms by (auto simp: exposed_def)
  show ?thesis
  proof (cases a)
    case Nil
    then show ?thesis using s by auto
  next
    case (Cons x a')
    then have "cs = a' @ q @ b" "\<not> word_before (if a' = [] then Some c else Some (last a'))"
      using s by auto
    then show ?thesis using s unfolding exposed_def by blast
  qed
qed

lemma exposed_skip: "c \<noteq> 83 \<Longrightarrow> exposed prev (c # cs) \<Longrightarrow> exposed (Some c) cs"
  using exposed_Cons [of prev c cs] by (auto simp: is_seed_def Cons_eq_append_conv)

lemma is_seed_word: "is_seed q \<Longrightarrow> c \<in> set q \<Longrightarrow> is_word c"
  by (auto simp: is_seed_def is_word_def is_base32_code_def list_all_iff split: list.splits)

text \<open>After a word character no seed begins, so word characters are copied up to the boundary.\<close>

lemma replace_seeds_word_prefix:
  assumes "replace_seeds (Some w) s = q @ b" "is_word w" "list_all is_word q" "\<not> word_after b"
  shows "\<exists>d. s = q @ d \<and> \<not> word_after d"
  using assms
proof (induction q arbitrary: w s)
  case Nil
  have "seed_at (Some w) s = None" using Nil by (simp add: seed_at_def word_before_def)
  then show ?case
    using Nil by (cases s) (auto simp: replace_seeds_miss word_after_def)
next
  case (Cons x q)
  have "seed_at (Some w) s = None" using Cons.prems by (simp add: seed_at_def word_before_def)
  then obtain cs where "s = x # cs" "replace_seeds (Some x) cs = q @ b"
    using Cons.prems(1) seeds.scan_Nil by (cases s) (auto simp: replace_seeds_miss)
  then show ?case using Cons by auto
qed

lemma seed_at_seed: "is_seed q \<Longrightarrow> \<not> word_before p \<Longrightarrow> \<not> word_after d \<Longrightarrow> seed_at p (q @ d) \<noteq> None"
  using is_seed_length [of q] by (simp add: seed_at_def)

lemma replace_seeds_not_exposed:
  "p' = p \<or> \<not> word_after s \<Longrightarrow> \<not> exposed p' (replace_seeds p s)"
proof (induction p s arbitrary: p' rule: replace_seeds.induct)
  case (1 p s)
  show ?case
  proof (cases "seed_at p s")
    case (Some rest)
    then have "\<not> word_after rest" by (auto simp: seed_at_def split: if_splits)
    then have IH: "\<not> exposed (Some 93) (replace_seeds (Some (s ! 55)) rest)"
      using "1.IH"(2) [OF Some] by blast
    have out: "replace_seeds p s = codes ''[REDACTED]'' @ replace_seeds (Some (s ! 55)) rest"
      using Some by (simp add: replace_seeds.simps [of p s] REDACTED_def)
    show ?thesis
      unfolding out using IH by (auto dest!: exposed_skip [rotated])
  next
    case None
    show ?thesis
    proof (cases s)
      case Nil
      then show ?thesis using seeds.scan_Nil by (auto simp: exposed_def is_seed_def)
    next
      case (Cons c cs)
      have out: "replace_seeds p s = c # replace_seeds (Some c) cs"
        using None Cons by (simp add: replace_seeds_miss)
      have IH: "\<not> exposed (Some c) (replace_seeds (Some c) cs)"
        using "1.IH"(1) [OF None Cons] by blast
      show ?thesis
      proof
        assume "exposed p' (replace_seeds p s)"
        with IH obtain q b where q: "\<not> word_before p'" "c # replace_seeds (Some c) cs = q @ b"
            "is_seed q" "\<not> word_after b"
          unfolding out by (blast dest: exposed_Cons)
        then obtain q' where q': "q = c # q'" "replace_seeds (Some c) cs = q' @ b"
          by (cases q) (auto simp: is_seed_def)
        have w: "is_word c" "list_all is_word q'"
          using is_seed_word [OF q(3)] q'(1) by (auto simp: list_all_iff)
        obtain d where "cs = q' @ d" "\<not> word_after d"
          using replace_seeds_word_prefix [OF q'(2) w q(4)] by blast
        moreover have "p' = p" using "1.prems" Cons w by (auto simp: word_after_def)
        ultimately have "seed_at p s \<noteq> None"
          using seed_at_seed [OF q(3), of p d] q(1) q'(1) Cons by simp
        then show False using None by simp
      qed
    qed
  qed
qed

lemma replace_seeds_unchanged: "\<not> exposed p s \<Longrightarrow> replace_seeds p s = s"
proof (induction s arbitrary: p)
  case Nil
  show ?case by (rule seeds.scan_Nil)
next
  case (Cons c cs)
  have "seed_at p (c # cs) = None"
  proof (rule ccontr)
    assume "seed_at p (c # cs) \<noteq> None"
    then have "is_seed (take 56 (c # cs))" "\<not> word_before p" "\<not> word_after (drop 56 (c # cs))"
      by (auto simp: seed_at_def split: if_splits)
    then have "exposed p (c # cs)"
      unfolding exposed_def by (intro exI [of _ "[]"] exI [of _ "take 56 (c # cs)"]
        exI [of _ "drop 56 (c # cs)"]) simp
    then show False using Cons.prems by blast
  qed
  moreover have "\<not> exposed (Some c) cs"
  proof
    assume "exposed (Some c) cs"
    then obtain a q b where "cs = a @ q @ b" "is_seed q" "\<not> word_after b"
      "\<not> word_before (if a = [] then Some c else Some (last a))"
      by (auto simp: exposed_def)
    then have "exposed p (c # cs)"
      unfolding exposed_def by (intro exI [of _ "c # a"] exI [of _ q] exI [of _ b]) auto
    then show False using Cons.prems by blast
  qed
  ultimately show ?case
    using Cons.IH by (simp add: replace_seeds_miss)
qed

lemma replace_secret_unchanged: "\<not> sublist secret s \<Longrightarrow> replace_secret secret s = s"
  by (rule secrets.unchanged) (auto simp: secret_at_def sublist_def, metis append_take_drop_id)

section \<open>The properties of the component\<close>

text \<open>
  C26 (safety): redaction removes what it should and nothing else. No registered secret that looks
  like a key (word characters, more than eight of them) occurs anywhere in a redacted text, and no
  Stellar secret seed stands in it as a word, registered or not; a text without either is unchanged.
\<close>

theorem redaction_is_exact:
  "(\<forall>q \<in> set registered. key_like q \<longrightarrow> \<not> sublist q (redact registered t)) \<and>
   \<not> exposed None (redact registered t) \<and>
   ((\<forall>q \<in> set registered. \<not> sublist q t) \<and> \<not> exposed None t \<longrightarrow> redact registered t = t)"
proof -
  have "foldl (\<lambda>out secret. replace_secret secret out) t registered = t"
    if "\<forall>q \<in> set registered. \<not> sublist q t"
    using that by (induction registered) (simp_all add: replace_secret_unchanged)
  then show ?thesis
    using redact_removes replace_seeds_not_exposed
    by (auto simp: redact_def replace_seeds_unchanged)
qed

theorem redaction_is_exact_witness:
  "\<not> sublist (codes ''SECRETSECRET'') (redact [codes ''SECRETSECRET''] (codes ''key=SECRETSECRET!'')) \<and>
   redact [codes ''SECRETSECRET''] (codes ''paid'') = codes ''paid''"
proof -
  have "\<not> exposed None (codes ''paid'')"
    by (auto simp: exposed_def dest!: is_seed_length arg_cong [where f = length])
  then show ?thesis
    using redaction_is_exact [of "[codes ''SECRETSECRET'']" "codes ''key=SECRETSECRET!''"]
      redaction_is_exact [of "[codes ''SECRETSECRET'']" "codes ''paid''"]
    by (simp add: key_like_def is_word_def sublist_Cons_right)
qed

text \<open>A log chunk ends in a line feed, which no key has.\<close>

lemma redact_removes_line:
  assumes "key_like q" "q \<in> set registered"
  shows "\<not> sublist q (redact registered t @ [10])"
proof
  assume "sublist q (redact registered t @ [10])"
  then obtain a b where "redact registered t @ 10 # [] = a @ q @ b" by (auto simp: sublist_def)
  moreover have "10 \<notin> set q" using assms(1) by (auto simp: key_like_def list_all_iff is_word_def)
  ultimately have "sublist q (redact registered t)"
    using split_at [of "redact registered t" 10 "[]" a q b] key_like_piece(1) [OF assms(1)]
    by (auto simp: sublist_def)
  then show False using redact_removes assms by blast
qed

definition clean_stderr :: "process_out \<Rightarrow> bool" where
  "clean_stderr p = (\<forall>chunk \<in> set (po_stderr p). \<forall>q \<in> set (po_registered p).
     key_like q \<longrightarrow> \<not> sublist q chunk)"

lemma out_step_frame:
  "po_registered (out_step num e p) = po_registered p" "po_diverted (out_step num e p) = po_diverted p"
  by (cases e; simp add: protocolWrite_def writeStdout_def writeLog_def)+

lemma out_step_clean: "clean_stderr p \<Longrightarrow> clean_stderr (out_step num e p)"
  by (cases e) (auto simp: clean_stderr_def protocolWrite_def writeStdout_def writeLog_def
      redact_removes redact_removes_line)

lemma out_step_stdout:
  "po_diverted p \<Longrightarrow> po_stdout (out_step num e p) =
     po_stdout p @ (case e of Protocol chunk \<Rightarrow> [chunk] | _ \<Rightarrow> [])"
  by (cases e) (auto simp: protocolWrite_def writeStdout_def writeLog_def)

text \<open>
  Once the server is connected, stdout carries the protocol and nothing else, and
  nothing on stderr shows a key. Over any sequence of protocol messages, log lines at any level
  with any fields, and writes to \<open>process.stdout\<close> by other code of the process, what is added to
  stdout is exactly the protocol messages in their order, and no chunk on stderr contains a
  registered secret.
\<close>

theorem stdout_carries_only_the_protocol:
  assumes "clean_stderr p"
  shows "po_stdout (foldl (\<lambda>p e. out_step num e p) (startStdio p) ops) =
      po_stdout p @ concat (map (\<lambda>e. case e of Protocol chunk \<Rightarrow> [chunk] | _ \<Rightarrow> []) ops) \<and>
    clean_stderr (foldl (\<lambda>p e. out_step num e p) (startStdio p) ops)"
proof -
  have "po_stdout (foldl (\<lambda>p e. out_step num e p) p ops) =
      po_stdout p @ concat (map (\<lambda>e. case e of Protocol chunk \<Rightarrow> [chunk] | _ \<Rightarrow> []) ops) \<and>
    clean_stderr (foldl (\<lambda>p e. out_step num e p) p ops)"
    if "po_diverted p" "clean_stderr p" for p
    using that by (induction ops arbitrary: p) (simp_all add: out_step_frame out_step_clean out_step_stdout)
  from this [of "startStdio p"] assms show ?thesis
    by (simp add: startStdio_def divertStdoutToStderr_def clean_stderr_def)
qed

definition sample_out :: process_out where
  "sample_out = \<lparr>po_registered = [codes ''SECRETSECRET''], po_threshold = Info, po_stdout = [],
     po_stderr = [], po_diverted = False\<rparr>"

theorem stdout_carries_only_the_protocol_witness:
  "po_stdout (foldl (\<lambda>p e. out_step (\<lambda>q. []) e p) (startStdio sample_out)
     [Stray (codes ''debug SECRETSECRET''), Protocol (codes ''ok''), LogLine Warn ''x'' Unserializable])
   = [codes ''ok'']"
  using stdout_carries_only_the_protocol [of sample_out "\<lambda>q. []"
      "[Stray (codes ''debug SECRETSECRET''), Protocol (codes ''ok''), LogLine Warn ''x'' Unserializable]"]
  by (simp add: sample_out_def clean_stderr_def)

text \<open>
  Redacting before the text is sanitised is not enough there: a secret broken up by a character of
  zero width passes the redactor, and the sanitiser then removes that character.
\<close>

lemma sanitiser_reassembles_secret:
  "sanitizeRedacted [codes ''SECRETSECRET''] (codes ''SECRET'' @ 0x200B # codes ''SECRET'') =
   codes ''SECRETSECRET''"
proof -
  let ?t = "codes ''SECRET'' @ 0x200B # codes ''SECRET''"
  have "\<not> exposed None ?t"
    by (auto simp: exposed_def dest!: is_seed_length arg_cong [where f = length])
  moreover have "\<not> sublist (codes ''SECRETSECRET'') ?t"
    by (simp add: sublist_Cons_right)
  ultimately have "redact [codes ''SECRETSECRET''] ?t = ?t"
    by (simp add: redact_def replace_seeds_unchanged replace_secret_unchanged)
  then show ?thesis
    by (simp add: sanitizeRedacted_def sanitizeMetadata_def sanitizeUntrusted_def scrub_None
        fence_match_def eat_next_def class_defs METADATA_MAX_CHARS_def utf16_length_def units_def)
qed

end
