(* ===== verification/Server.thy ===== *)
theory Server
  imports PayAndCall Redaction
begin

text \<open>
  The tools of the MCP server (\<open>packages/mcp-x402-payer/src/server.ts\<close>): what each of the four tool
  handlers does and the text it returns to the model.

  A handler acts on the payer's state and on the output channels, where it logs. Texts are lists of
  code points. What an error prints (its name and message) and the random bytes of the two fences a
  text may have are parameters. The schema validation of the arguments is the MCP library's.
\<close>

section \<open>Rendering\<close>

record server_env =
  sv_discovery :: discovery_env
  sv_describe :: "js_error \<Rightarrow> thrown_value"
  sv_random :: "nat \<Rightarrow> bytes option"
  sv_number :: "rat \<Rightarrow> string"

record tool_result =
  tl_text :: jstext
  tl_isError :: bool

definition textResult :: "jstext \<Rightarrow> bool \<Rightarrow> tool_result" where
  "textResult t isError = \<lparr>tl_text = t, tl_isError = isError\<rparr>"

definition plain :: sanitize_options where
  "plain = \<lparr>singleLine = False, maxChars = None\<rparr>"

fun message_of :: "thrown_value \<Rightarrow> jstext" where
  "message_of (ErrorObject name message) = message"
| "message_of (TextValue s) = s"
| "message_of (OtherValue s) = s"

definition metadata_field :: "jstext list \<Rightarrow> string \<Rightarrow> string option \<Rightarrow> jstext list" where
  "metadata_field registered name v =
     (case v of None \<Rightarrow> [] | Some s \<Rightarrow> [codes (name @ '': '') @ sanitizeRedacted registered (codes s)])"

definition metadata_lines :: "jstext list \<Rightarrow> resource_info \<Rightarrow> jstext list" where
  "metadata_lines registered r =
     metadata_field registered ''service'' (ri_serviceName r) @
     metadata_field registered ''description'' (ri_description r) @
     metadata_field registered ''mimeType'' (ri_mimeType r) @
     metadata_field registered ''url'' (ri_url r) @
     (case ri_tags r of
        None \<Rightarrow> []
      | Some tags \<Rightarrow>
          if tags = [] then [] else metadata_field registered ''tags'' (Some (join '', '' tags)))"

text \<open>The metadata block, as a list of at most one part.\<close>

definition renderResourceMetadata ::
    "server_env \<Rightarrow> jstext list \<Rightarrow> resource_info option \<Rightarrow> jstext list outcome" where
  "renderResourceMetadata env registered resource =
     (case resource of
        None \<Rightarrow> Inr []
      | Some r \<Rightarrow>
          (let lines = metadata_lines registered r in
           if lines = [] then Inr []
           else map_sum id (\<lambda>b. [b]) (renderRedacted registered (sv_random env 0)
             (codes ''resource metadata'') (join_lines lines) plain)))"

definition refusalText :: "server_env \<Rightarrow> refusal \<Rightarrow> jstext" where
  "refusalText env r =
     (case r of
        OverSessionRemaining amount remaining asset \<Rightarrow>
          codes (''The price '' @ show_int amount @ '' exceeds this session's remaining ceiling ('' @
            show_int remaining @ '') for asset '' @ asset @ ''.'')
      | RefusedBy e \<Rightarrow> message_of (sv_describe env e))"

definition remaining_line :: "string option \<Rightarrow> jstext list" where
  "remaining_line remaining =
     (case remaining of
        None \<Rightarrow> []
      | Some n \<Rightarrow> [codes (''Session ceiling remaining for that asset: '' @ n @ '' base units.'')])"

definition selected_line :: "server_env \<Rightarrow> quoted_option \<Rightarrow> jstext" where
  "selected_line env o1 =
     codes (''Would pay: '' @ to_string (sv_number env) (qo_amount o1) @ '' base units of asset '' @
       qo_asset o1 @ '' on '' @ qo_network o1 @ '' to '' @ qo_payTo o1 @ ''.'')"

definition quote_lines :: "server_env \<Rightarrow> quote_result \<Rightarrow> jstext list" where
  "quote_lines env r =
     (if \<not> qr_requiresPayment r then
        [codes (''No payment required. The resource answered HTTP '' @ show_nat (qr_status r) @
           '' without an x402 challenge.'')]
      else
        [codes (''Payment required (HTTP '' @ show_nat (qr_status r) @ '').'')] @
        (case qr_selected r of None \<Rightarrow> [] | Some o1 \<Rightarrow> [selected_line env o1]) @
        remaining_line (qr_sessionRemaining r) @
        [if qr_payable r then codes ''This resource is payable.''
         else codes ''This resource is NOT payable.''] @
        (case qr_refusal r of
           None \<Rightarrow> []
         | Some f \<Rightarrow> if refusalText env f = [] then [] else [codes ''Reason: '' @ refusalText env f]) @
        (case qr_offered r of
           None \<Rightarrow> []
         | Some os \<Rightarrow>
             if length os > 1 then
               [codes (''The server offered '' @ show_nat (length os) @
                  '' options; the cheapest allowed one is shown.'')] else []) @
        [codes ''No payment was made and nothing was signed by this call.''])"

definition renderQuote :: "server_env \<Rightarrow> jstext list \<Rightarrow> quote_result \<Rightarrow> jstext outcome" where
  "renderQuote env registered r =
     ebind (renderResourceMetadata env registered (qr_resource r)) (\<lambda>metadata.
       Inr (join_lines (quote_lines env r @ metadata)))"

fun network_text :: "network \<Rightarrow> string" where
  "network_text Testnet = ''testnet''"
| "network_text Mainnet = ''mainnet''"

text \<open>The lines about the payment; \<open>result.settlement!\<close> of a paid result without one is a \<open>TypeError\<close>.\<close>

definition payment_lines :: "pay_result \<Rightarrow> jstext list outcome" where
  "payment_lines r =
     (if \<not> py_paid r then
        Inr [codes (''No payment was required. The resource answered HTTP '' @ show_nat (py_status r) @
          '' directly, so nothing was spent.'')]
      else
        (case py_settlement r of
           None \<Rightarrow> Inl JsTypeError
         | Some st \<Rightarrow> Inr (
             [codes (''Paid '' @ st_amount st @ '' base units of asset '' @ st_asset st @ '' on '' @
                network_text (st_network st) @ ''.''),
              codes (''Settlement transaction: '' @ st_transaction st)] @
             (case py_attempts r of
                None \<Rightarrow> []
              | Some n \<Rightarrow>
                  if n > 1 then [codes (''Took '' @ show_nat n @ '' signed attempts '') @ [0x2014] @
                    codes '' earlier attempts returned no settlement transaction, which means nothing was spent on them.'']
                  else []) @
             remaining_line (py_sessionRemaining r))))"

text \<open>The line about the content, and the content where it is text.\<close>

definition content_line :: "jstext list \<Rightarrow> resource_content \<Rightarrow> jstext" where
  "content_line registered c =
     (if rc_binaryOmitted c = Some True then
        codes (''The resource returned '' @ show_nat (rc_bytes c) @ '' bytes of '') @
        sanitizeRedacted registered (codes (rc_contentType c)) @
        codes '', which is not text and was not inlined. The payment above still settled.''
      else
        codes ''Content ('' @ sanitizeRedacted registered (codes (rc_contentType c)) @
        codes ('', '' @ show_nat (rc_bytes c) @ '' bytes'' @
          (if rc_truncated c = Some True then '', truncated'' else []) @ ''):''))"

definition content_block :: "server_env \<Rightarrow> jstext list \<Rightarrow> resource_content \<Rightarrow> jstext list outcome" where
  "content_block env registered c =
     (if rc_binaryOmitted c = Some True then Inr []
      else map_sum id (\<lambda>b. [b]) (renderRedacted registered (sv_random env 1) (codes ''resource content'')
        (case rc_text c of None \<Rightarrow> [] | Some t \<Rightarrow> t) plain))"

definition renderPayment :: "server_env \<Rightarrow> jstext list \<Rightarrow> pay_result \<Rightarrow> jstext outcome" where
  "renderPayment env registered r =
     ebind (payment_lines r) (\<lambda>own.
     ebind (renderResourceMetadata env registered (py_resource r)) (\<lambda>metadata.
     ebind (content_block env registered (py_content r)) (\<lambda>block.
       Inr (join_lines (own @ metadata @ [content_line registered (py_content r)] @ block)))))"

section \<open>The tools\<close>

type_synonym server_state = "payer_state \<times> process_out"

text \<open>A text in a log field; the JSON printer's texts are of one-byte characters.\<close>

definition field_text :: "jstext \<Rightarrow> json" where
  "field_text t = JStr (map char_of t)"

definition failed ::
    "server_env \<Rightarrow> string \<Rightarrow> string \<Rightarrow> (string \<times> json) list \<Rightarrow> js_error \<Rightarrow> server_state \<Rightarrow>
     tool_result \<times> server_state" where
  "failed env event prefix_text flds e = (\<lambda>(p, out).
    (let message = formatError (po_registered out) (sv_describe env e) in
     (textResult (codes prefix_text @ message) True,
      (p, writeLog (sv_number env) Warn event (Fields (flds @ [(''error'', field_text message)])) out))))"

text \<open>Run an operation of the payer, log, render; anything thrown on the way is the tool's error.\<close>

definition tool ::
    "server_env \<Rightarrow> 'a payer \<Rightarrow> ('a \<Rightarrow> string \<times> (string \<times> json) list) \<Rightarrow> (jstext list \<Rightarrow> 'a \<Rightarrow> jstext outcome) \<Rightarrow>
     string \<Rightarrow> string \<Rightarrow> (string \<times> json) list \<Rightarrow> server_state \<Rightarrow> tool_result \<times> server_state" where
  "tool env operation entry render event prefix_text flds = (\<lambda>(p, out).
     case operation p of
       (Inl e, p') \<Rightarrow> failed env event prefix_text flds e (p', out)
     | (Inr r, p') \<Rightarrow>
         (let out' = writeLog (sv_number env) Info (fst (entry r)) (Fields (snd (entry r))) out in
          case render (po_registered out) r of
            Inl e \<Rightarrow> failed env event prefix_text flds e (p', out')
          | Inr t \<Rightarrow> (textResult t False, (p', out'))))"

definition opt_num :: "nat option \<Rightarrow> json" where
  "opt_num v = (case v of None \<Rightarrow> JUndefined | Some n \<Rightarrow> JNum (of_nat n))"

definition transaction_of :: "pay_result \<Rightarrow> json" where
  "transaction_of r = (case py_settlement r of None \<Rightarrow> JUndefined | Some st \<Rightarrow> JStr (st_transaction st))"

definition x402_quote :: "server_env \<Rightarrow> string \<Rightarrow> server_state \<Rightarrow> tool_result \<times> server_state" where
  "x402_quote env url =
     tool env (quote (de_payer (sv_discovery env)) url)
       (\<lambda>r. (''quote'', [(''url'', JStr url), (''requiresPayment'', JBool (qr_requiresPayment r)),
          (''payable'', JBool (qr_payable r))]))
       (renderQuote env) ''quote failed'' ''Quote failed: '' [(''url'', JStr url)]"

definition x402_pay :: "server_env \<Rightarrow> string \<Rightarrow> string \<Rightarrow> server_state \<Rightarrow> tool_result \<times> server_state" where
  "x402_pay env url max_amount =
     tool env (payExclusively (de_payer (sv_discovery env)) url (JStr max_amount))
       (\<lambda>r. (''payment'', [(''url'', JStr url), (''paid'', JBool (py_paid r)),
          (''attempts'', opt_num (py_attempts r)), (''transaction'', transaction_of r)]))
       (renderPayment env) ''payment refused or failed'' ''Payment did not complete: '' [(''url'', JStr url)]"

definition budget_row :: "spend_snapshot \<Rightarrow> jstext" where
  "budget_row r = codes (ss_asset r @ '': '' @ ss_spent r @ '' spent of '' @ ss_ceiling r @ '', '' @
     ss_remaining r @ '' remaining'')"

definition x402_session_budget :: "server_env \<Rightarrow> server_state \<Rightarrow> tool_result \<times> server_state" where
  "x402_session_budget env = (\<lambda>(p, out).
    (let payer = de_payer (sv_discovery env) in
     (textResult (join_lines (
        [codes (''Payer address: '' @ pe_address payer),
         codes (''Network: '' @ network_text (pc_network (pe_config payer))),
         codes ''Per-asset session ceilings (base units):''] @
        map budget_row (snapshot (ps_ledger p)) @
        [[], codes ''These ceilings are enforced by this process, NOT on-chain, and reset when it'',
         codes ''restarts. The key is a hot wallet. Do not report this as an on-chain limit.''])) False,
      (p, out))))"

definition x402_pay_and_call :: "server_env \<Rightarrow> string \<Rightarrow> string \<Rightarrow> server_state \<Rightarrow> tool_result \<times> server_state" where
  "x402_pay_and_call env query max_amount =
     tool env (payAndCall (sv_discovery env) query max_amount)
       (\<lambda>r. (''pay_and_call'', [(''query'', JStr query), (''url'', JStr (pr_selectedUrl r)),
          (''resultsFound'', JNum (of_nat (pr_resultsFound r))),
          (''resultsPayable'', JNum (of_nat (pr_resultsPayable r))),
          (''transaction'', transaction_of (pr_result r))]))
       (\<lambda>registered r. ebind (renderPayment env registered (pr_result r)) (\<lambda>t. Inr (join_lines
          [codes ''Query: '' @ sanitizeRedacted registered (codes query),
           codes (''Selected: '' @ pr_selectedUrl r @ '' (cheapest of '' @ show_nat (pr_resultsPayable r) @
             '' payable result(s), from '' @ show_nat (pr_resultsFound r) @ '' found)''), t])))
       ''pay_and_call refused or failed'' ''pay_and_call did not complete: '' [(''query'', JStr query)]"

section \<open>Lines without breaks\<close>

definition one_line :: "jstext \<Rightarrow> bool" where
  "one_line l = list_all (\<lambda>c. \<not> newline_or_tab c) l"

lemma one_line_append [simp]: "one_line (a @ b) = (one_line a \<and> one_line b)"
  by (simp add: one_line_def)

lemma one_line_simps [simp]:
  "one_line []" "one_line (c # l) = (\<not> newline_or_tab c \<and> one_line l)"
  by (simp_all add: one_line_def)

lemma codes_append [simp]: "codes (a @ b) = codes a @ codes b"
  by (simp add: codes_def)

lemma one_line_digits: "list_all is_digit s \<Longrightarrow> one_line (codes s)"
  by (auto simp: one_line_def codes_def list_all_iff is_digit_def newline_or_tab_def Let_def)

lemma one_line_show_nat [simp]: "one_line (codes (show_nat n))"
  by (rule one_line_digits [OF show_nat_digits])

lemma one_line_show_int [simp]: "one_line (codes (show_int i))"
  using one_line_show_nat [of "nat i"] one_line_show_nat [of "nat (- i)"]
  by (auto simp: show_int_def newline_or_tab_def)

lemma one_line_hex64: "is_hex64 s \<Longrightarrow> one_line (codes s)"
  by (auto simp: one_line_def codes_def list_all_iff is_hex64_def is_hex_def newline_or_tab_def Let_def)

lemma codes_valid: "valid_text (codes s)"
proof -
  have "(of_char c :: nat) < 0x110000" for c
  proof -
    have "(of_char c :: nat) < 256" by simp
    then show ?thesis by linarith
  qed
  then show ?thesis by (simp add: valid_text_def codes_def list_all_iff)
qed

lemma redact_valid:
  assumes "valid_text t"
  shows "valid_text (redact registered t)"
proof -
  have marker: "c < 0x110000" if "c \<in> insert 91 (insert 93 (set (codes ''REDACTED'')))" for c
    using that by auto
  have secret: "valid_text (replace_secret q s)" if "valid_text s" for q s
    using that marker secrets.output_char [of _ q s] by (fastforce simp: valid_text_def list_all_iff)
  have "valid_text (foldl (\<lambda>out q. replace_secret q out) t registered)"
    using assms by (induction registered arbitrary: t) (simp_all add: secret)
  then show ?thesis
    using marker seeds.output_char [of _ None] by (fastforce simp: redact_def valid_text_def list_all_iff)
qed

lemma one_line_sanitized: "one_line (sanitizeRedacted registered (codes s))"
  using metadata_is_one_bounded_line [OF redact_valid [OF codes_valid], of registered s]
  by (simp add: one_line_def sanitizeRedacted_def list_all_iff)

lemma one_line_remaining: "l \<in> set (remaining_line (Some (show_int n))) \<Longrightarrow> one_line l"
  by (simp add: remaining_line_def newline_or_tab_def)

section \<open>What a payment result says\<close>

definition own_settlement :: "payer_config \<Rightarrow> pay_result \<Rightarrow> bool" where
  "own_settlement config r =
     (case py_settlement r of
        None \<Rightarrow> \<not> py_paid r
      | Some st \<Rightarrow> is_hex64 (st_transaction st) \<and> st_asset st \<in> set (pc_allowedAssets config) \<and>
          (\<exists>amount remaining. st_amount st = show_int amount \<and>
             py_sessionRemaining r = Some (show_int remaining)))"

lemma andThen_Inr:
  "andThen m k s = (Inr y, s') \<longleftrightarrow> (\<exists>x s1. m s = (Inr x, s1) \<and> k x s1 = (Inr y, s'))"
  by (auto simp: andThen_def split: prod.splits sum.splits)

lemma settled_hex: "classifySettlement je res = Settled tx payer \<Longrightarrow> is_hex64 tx"
  using classifySettlement_Settled by blast

lemma payAttempts_settlement:
  assumes "payAttempts env url challenge chosen amount left attempt reason s = (Inr r, s')"
    and "pr_asset chosen \<in> set (pc_allowedAssets (pe_config env))"
  shows "own_settlement (pe_config env) r"
  using assms(1)
proof (induction left arbitrary: attempt reason s)
  case 0
  then show ?case by (simp add: throw_def)
next
  case (Suc left)
  note IH = Suc.IH and hex = settled_hex [of "pe_json env"]
  from Suc.prems show ?case
    unfolding payAttempts.simps(2) andThen_Inr Let_def
    apply (elim exE conjE)
    subgoal for _ s1 headers s2 res s3
      by (auto simp: andThen_Inr Let_def throw_def ret_def own_settlement_def assms(2)
        split: if_splits settlement_outcome.splits dest: IH [unfolded own_settlement_def] hex)
    done
qed

lemma payExclusively_settlement:
  assumes "payExclusively env url m s = (Inr r, s')"
  shows "own_settlement (pe_config env) r"
proof -
  have asset: "pr_asset chosen \<in> set (pc_allowedAssets (pe_config env))"
    if "clearOneOption (pe_config env) c maxA = Inr (chosen, amount)" for c maxA chosen amount
    using clearOneOption_cleared [OF that] by (auto simp: cleared_def payable_option_def)
  have lifted: "clearOneOption (pe_config env) c maxA = Inr x"
    if "lift (clearOneOption (pe_config env) c maxA) t = (Inr x, t')" for c maxA x t t'
    using that by (auto simp: lift_def)
  from assms show ?thesis
    unfolding payExclusively_def andThen_Inr
    by (auto simp: andThen_Inr ret_def own_settlement_def [of _ "\<lparr>py_url = _, py_paid = False, py_content = _,
          py_settlement = _, py_attempts = _, py_sessionRemaining = _, py_resource = _, py_status = _\<rparr>"]
        split: if_splits dest!: lifted dest: asset payAttempts_settlement)
qed


section \<open>What is inside and outside the fences\<close>

definition good_random :: "server_env \<Rightarrow> bool" where
  "good_random env = (\<forall>i. \<exists>bs. sv_random env i = Some bs \<and> length bs = NONCE_BYTES \<and> list_all (\<lambda>b. b < 256) bs)"

definition fenced :: "jstext list \<Rightarrow> bool" where
  "fenced parts = (length parts \<le> 1 \<and> (\<forall>b \<in> set parts. \<exists>n. is_nonce n \<and> closed_once n b))"

lemma renderRedacted_fenced:
  assumes "good_random env" "45 \<notin> set label"
  shows "\<exists>parts. map_sum id (\<lambda>b. [b]) (renderRedacted registered (sv_random env i) label content plain) = Inr parts \<and>
    fenced parts"
proof -
  obtain bs where bs: "sv_random env i = Some bs" "length bs = NONCE_BYTES" "list_all (\<lambda>b. b < 256) bs"
    using assms(1) by (auto simp: good_random_def)
  show ?thesis
    using render_closed_once [of plain "redact registered content" label bs] assms(2) bs
    by (auto simp: plain_def renderRedacted_def fenced_def)
qed

lemma metadata_fenced:
  assumes "good_random env"
  shows "\<exists>parts. renderResourceMetadata env registered resource = Inr parts \<and> fenced parts"
proof -
  have "45 \<notin> set (codes ''resource metadata'')" by simp
  from renderRedacted_fenced [OF assms this] show ?thesis
    by (auto simp: renderResourceMetadata_def Let_def fenced_def split: option.splits)
qed

lemma content_fenced:
  assumes "good_random env"
  shows "\<exists>parts. content_block env registered c = Inr parts \<and> fenced parts"
proof -
  have "45 \<notin> set (codes ''resource content'')" by simp
  from renderRedacted_fenced [OF assms this] show ?thesis
    by (auto simp: content_block_def fenced_def simp del: codes_simps)
qed

lemma one_line_network [simp]: "one_line (codes (network_text n))"
  by (cases n) (simp_all add: newline_or_tab_def)

lemma one_line_content: "one_line (content_line registered c)"
  by (simp add: content_line_def one_line_sanitized newline_or_tab_def)

lemma payment_lines_own:
  assumes "own_settlement config r" "\<forall>a \<in> set (pc_allowedAssets config). one_line (codes a)"
  shows "\<exists>own. payment_lines r = Inr own \<and> own \<noteq> [] \<and> list_all one_line own"
proof (cases "py_paid r")
  case False
  then show ?thesis by (simp add: payment_lines_def newline_or_tab_def)
next
  case True
  then obtain st where st: "py_settlement r = Some st" using assms(1) by (auto simp: own_settlement_def split: option.splits)
  then have "one_line (codes (st_transaction st))" "one_line (codes (st_asset st))" "one_line (codes (st_amount st))"
    "list_all one_line (remaining_line (py_sessionRemaining r))"
    using assms by (auto simp: own_settlement_def list_all_iff one_line_hex64 one_line_remaining)
  then show ?thesis
    using True st by (auto simp: payment_lines_def newline_or_tab_def split: option.splits)
qed

lemma renderPayment_parts:
  assumes "own_settlement config r" "\<forall>a \<in> set (pc_allowedAssets config). one_line (codes a)" "good_random env"
  shows "\<exists>own metadata block. renderPayment env registered r =
      Inr (join_lines (own @ metadata @ [content_line registered (py_content r)] @ block)) \<and>
    own \<noteq> [] \<and> list_all one_line own \<and> payment_lines r = Inr own \<and> fenced metadata \<and> fenced block"
proof -
  obtain own metadata block where
    "payment_lines r = Inr own" "own \<noteq> []" "list_all one_line own"
    "renderResourceMetadata env registered (py_resource r) = Inr metadata" "fenced metadata"
    "content_block env registered (py_content r) = Inr block" "fenced block"
    using payment_lines_own [OF assms(1,2)] metadata_fenced [OF assms(3)] content_fenced [OF assms(3)]
    by meson
  then show ?thesis
    by (intro exI [of _ own] exI [of _ metadata] exI [of _ block]) (simp add: renderPayment_def)
qed

section \<open>The properties of the component\<close>


definition sample_server :: server_env where
  "sample_server = \<lparr>sv_discovery = sample_discovery\<lparr>de_payer := sample_payer\<rparr>,
     sv_describe = (\<lambda>e. TextValue (codes ''refused'')), sv_random = (\<lambda>i. Some (replicate NONCE_BYTES 7)),
     sv_number = (\<lambda>x. ''0'')\<rparr>"

definition sample_out :: process_out where
  "sample_out = \<lparr>po_registered = [], po_threshold = Info, po_stdout = [], po_stderr = [],
     po_diverted = True\<rparr>"


section \<open>What the fences do not cover\<close>

text \<open>
  The price line of a quote is outside the fences and carries the seller's \<open>payTo\<close> as it came:
  a \<open>payTo\<close> with line breaks adds lines to the text the server speaks in.
\<close>

lemma quote_prints_payTo:
  assumes "qr_requiresPayment q" "qr_selected q = Some o1" "renderQuote env registered q = Inr t"
  shows "\<exists>rest. t = codes (''Payment required (HTTP '' @ show_nat (qr_status q) @ '').'') @ [10] @
    codes (''Would pay: '' @ to_string (sv_number env) (qo_amount o1) @ '' base units of asset '' @
      qo_asset o1 @ '' on '' @ qo_network o1 @ '' to '') @ codes (qo_payTo o1) @ rest"
proof -
  obtain metadata where t: "t = join_lines (quote_lines env q @ metadata)"
    using assms(3) by (auto simp: renderQuote_def ebind_eq_Inr)
  have "\<exists>l ls. quote_lines env q =
      codes (''Payment required (HTTP '' @ show_nat (qr_status q) @ '').'') # selected_line env o1 # l # ls"
    using assms(1,2) by (cases "remaining_line (qr_sessionRemaining q)") (simp_all add: quote_lines_def del: codes_simps)
  then show ?thesis
    unfolding t by (auto simp: selected_line_def)
qed

text \<open>
  The text of a purchase found by search names the URL of the catalogue as the search service
  returned it, before everything else but the query.
\<close>

lemma pay_and_call_prints_url:
  assumes "payAndCall (sv_discovery env) query max_amount p = (Inr r, p')"
    and "\<not> tl_isError (fst (x402_pay_and_call env query max_amount (p, out)))"
  shows "\<exists>rest. tl_text (fst (x402_pay_and_call env query max_amount (p, out))) =
    codes ''Query: '' @ sanitizeRedacted (po_registered out) (codes query) @ [10] @
    codes ''Selected: '' @ codes (pr_selectedUrl r) @ rest"
  using assms
  by (auto simp: x402_pay_and_call_def tool_def Let_def failed_def textResult_def ebind_eq_Inr
      split: sum.splits)

end
