(* ===== verification/Cli.thy ===== *)
theory Cli
  imports Guards Json Redaction
begin

text \<open>
  The command line (\<open>packages/cli/src\<close>): the commands \<open>quote\<close>, \<open>pay\<close>, \<open>inspect\<close> and \<open>search\<close>, and the
  start-up banner.

  A command is an action on the trace of what the process did: requests, signatures, lines printed.
  It stops with \<open>process.exit\<close> or with an exception; every command body stands in a \<open>try\<close> that
  prints an exception and exits with 1. What a server sends is a JSON value of any shape, read
  with the language's property access. Parameters: \<open>fetch\<close>, the file system, the key
  check of the Stellar library, the x402 library that builds and signs a payment, \<open>JSON.parse\<close>, Node's
  base64 decoder, how numbers and functions print, and the texts of the engine's own errors.
\<close>

section \<open>The process\<close>

record cli_request =
  cq_url :: string
  cq_method :: string
  cq_headers :: "(string \<times> string) list"
  cq_body :: "string option"

record cli_response =
  cs_response :: response
  cs_statusText :: string

datatype cli_event =
    CliFetch cli_request "string + cli_response"
  | CliSign json "string + json"
  | Out jstext
  | OutJson json
  | Err jstext

datatype cli_stop = Exit nat | Raised jstext

type_synonym 'a cli = "(cli_event list, cli_stop, 'a) act"

record cli_env =
  ce_fetch :: "cli_event list \<Rightarrow> cli_request \<Rightarrow> string + cli_response"
  ce_readFile :: "string \<Rightarrow> string + string"
  ce_fromSecret :: "string \<Rightarrow> string option"
  ce_client :: "string \<Rightarrow> string \<Rightarrow> string \<Rightarrow> string + unit"
  ce_createPayload :: "cli_event list \<Rightarrow> string \<Rightarrow> string \<Rightarrow> string \<Rightarrow> json \<Rightarrow> string + json"
  ce_encodeHeader :: "json \<Rightarrow> string + (string \<times> string) list"
  ce_parse :: "jstext \<Rightarrow> json option"
  ce_fromBase64 :: "string \<Rightarrow> bytes"
  ce_number :: "rat \<Rightarrow> string"
  ce_inherited :: "string \<Rightarrow> string"
  ce_searchUrl :: "string \<Rightarrow> string \<Rightarrow> string \<Rightarrow> string + string"
  ce_typeError :: jstext
  ce_syntaxError :: "jstext \<Rightarrow> jstext"
  ce_bigIntError :: "json \<Rightarrow> jstext"

definition cli_emit :: "cli_event \<Rightarrow> unit cli" where
  "cli_emit e = modify (\<lambda>tr. tr @ [e])"

definition say :: "string \<Rightarrow> unit cli" where
  "say s = cli_emit (Out (codes s))"

definition complain :: "string \<Rightarrow> unit cli" where
  "complain s = cli_emit (Err (codes s))"

definition fail :: "string \<Rightarrow> 'a cli" where
  "fail s = andThen (complain s) (\<lambda>_. throw (Exit 1))"

fun sayAll :: "string list \<Rightarrow> unit cli" where
  "sayAll [] = ret ()"
| "sayAll (l # ls) = andThen (say l) (\<lambda>_. sayAll ls)"

definition attempt :: "string + 'a \<Rightarrow> 'a cli" where
  "attempt r = lift (map_sum (\<lambda>m. Raised (codes m)) id r)"

definition fetch :: "cli_env \<Rightarrow> cli_request \<Rightarrow> cli_response cli" where
  "fetch env req = (\<lambda>tr.
     (map_sum (\<lambda>m. Raised (codes m)) id (ce_fetch env tr req), tr @ [CliFetch req (ce_fetch env tr req)]))"

definition text_of :: "cli_response \<Rightarrow> jstext cli" where
  "text_of res = attempt (map_sum id utf8_decode (rs_body (cs_response res)))"

definition status_of :: "cli_response \<Rightarrow> nat" where
  "status_of res = rs_status (cs_response res)"

definition header_of :: "cli_response \<Rightarrow> string \<Rightarrow> string option" where
  "header_of res name = headers_get (rs_headers (cs_response res)) name"

definition status_line :: "string \<Rightarrow> cli_response \<Rightarrow> string" where
  "status_line intro res = intro @ show_nat (status_of res) @ '' '' @ cs_statusText res"

definition typeError :: "cli_env \<Rightarrow> 'a cli" where
  "typeError env = throw (Raised (ce_typeError env))"

text \<open>\<open>v.k\<close>, which throws on \<open>null\<close> and \<open>undefined\<close>.\<close>

definition read_member :: "cli_env \<Rightarrow> json \<Rightarrow> string \<Rightarrow> json cli" where
  "read_member env v k = (if is_nullish v then typeError env else ret (jprop v k))"

text \<open>The \<open>try\<close> around every command.\<close>

definition command :: "unit cli \<Rightarrow> unit cli" where
  "command body = tryCatch body (\<lambda>stop.
     case stop of
       Exit n \<Rightarrow> throw (Exit n)
     | Raised m \<Rightarrow> andThen (cli_emit (Err (codes ''Error: '' @ m))) (\<lambda>_. throw (Exit 1)))"

text \<open>
  A table \<open>Record<string, string>\<close> read with a name the user chose: its own entries, and the
  names every object inherits, whose values are not strings (\<open>Inl\<close>, with how they print).
\<close>

definition inherited_names :: "string list" where
  "inherited_names = [''constructor'', ''hasOwnProperty'', ''isPrototypeOf'', ''propertyIsEnumerable'',
     ''toLocaleString'', ''toString'', ''valueOf'', ''__proto__'', ''__defineGetter__'', ''__defineSetter__'',
     ''__lookupGetter__'', ''__lookupSetter__'']"

definition table_get :: "cli_env \<Rightarrow> (string \<times> string) list \<Rightarrow> string \<Rightarrow> (string + string) option" where
  "table_get env table name =
     (case map_of table name of
        Some v \<Rightarrow> Some (Inr v)
      | None \<Rightarrow> if name \<in> set inherited_names then Some (Inl (ce_inherited env name)) else None)"

fun table_text :: "string + string \<Rightarrow> string" where
  "table_text (Inl t) = t"
| "table_text (Inr t) = t"

section \<open>quote\<close>

definition decodeChallenge :: "cli_env \<Rightarrow> string option \<Rightarrow> jstext \<Rightarrow> json" where
  "decodeChallenge env header body =
     (let fallback = (case ce_parse env body of Some v \<Rightarrow> v | None \<Rightarrow> JNull) in
      case header of
        None \<Rightarrow> fallback
      | Some h \<Rightarrow>
          if h = [] then fallback
          else (case ce_parse env (utf8_decode (ce_fromBase64 env h)) of
             Some v \<Rightarrow> v
           | None \<Rightarrow> (case ce_parse env (codes h) of Some v \<Rightarrow> v | None \<Rightarrow> fallback)))"

definition quote_option :: "cli_env \<Rightarrow> bool \<Rightarrow> nat \<Rightarrow> json \<Rightarrow> unit cli" where
  "quote_option env several i a =
     andThen (if several then say ([CHR 0x0A] @ ''Option '' @ show_nat (i + 1) @ '':'') else ret ()) (\<lambda>_.
     andThen (read_member env a ''scheme'') (\<lambda>scheme.
     sayAll ([''Scheme: '' @ to_string (ce_number env) (or_else scheme ''unknown''),
       ''Network:'' @ to_string (ce_number env) (or_else (jprop a ''network'') ''unknown''),
       ''Amount: '' @ to_string (ce_number env) (or_else (jprop a ''amount'') ''unknown'') @ '' (base units)'',
       ''Asset:  '' @ to_string (ce_number env) (or_else (jprop a ''asset'') ''unknown'')] @
      (if js_truthy (jprop a ''payTo'')
       then [''Pay to: '' @ to_string (ce_number env) (jprop a ''payTo'')] else []) @
      [''Fees:   '' @ (if js_truthy (jprop (jprop a ''extra'') ''areFeesSponsored'')
         then ''sponsored'' else ''NOT sponsored'')])))"

fun quote_options :: "cli_env \<Rightarrow> bool \<Rightarrow> nat \<Rightarrow> json list \<Rightarrow> unit cli" where
  "quote_options env several i [] = ret ()"
| "quote_options env several i (a # as) =
     andThen (quote_option env several i a) (\<lambda>_. quote_options env several (Suc i) as)"

text \<open>\<open>challenge.accepts ?? []\<close>, used as an array.\<close>

definition accepts_array :: "cli_env \<Rightarrow> json \<Rightarrow> json list cli" where
  "accepts_array env v =
     (if is_nullish v \<or> v = JStr [] \<or> jprop v ''length'' = JNum 0 then ret []
      else (case v of JArr as \<Rightarrow> ret as | _ \<Rightarrow> typeError env))"

definition quote_body :: "cli_env \<Rightarrow> string \<Rightarrow> bool \<Rightarrow> unit cli" where
  "quote_body env url as_json =
     andThen (fetch env \<lparr>cq_url = url, cq_method = ''GET'', cq_headers = [], cq_body = None\<rparr>) (\<lambda>res.
     if status_of res \<noteq> 402 then
       (if rs_ok (cs_response res) then say ''Resource is free (no payment required).''
        else fail (status_line ''Unexpected status: '' res))
     else
     andThen (text_of res) (\<lambda>body.
     let challenge = decodeChallenge env (header_of res ''payment-required'') body in
     if \<not> js_truthy challenge then fail ''Got a 402 but could not decode the payment challenge.''
     else if as_json then cli_emit (OutJson challenge)
     else
     andThen (say (''URL:    '' @ url)) (\<lambda>_.
     andThen (accepts_array env (jprop challenge ''accepts'')) (\<lambda>accepts.
     if accepts = [] then say ''The 402 carried no payment options.''
     else
     andThen (quote_options env (length accepts > 1) 0 accepts) (\<lambda>_.
       sayAll [[], ''No payment was made and nothing was signed by this call.''])))))"

definition quote_command :: "cli_env \<Rightarrow> string \<Rightarrow> bool \<Rightarrow> unit cli" where
  "quote_command env url as_json = command (quote_body env url as_json)"

section \<open>pay\<close>

definition RPC_URLS :: "(string \<times> string) list" where
  "RPC_URLS = [(''testnet'', ''https://soroban-testnet.stellar.org''),
     (''mainnet'', ''https://mainnet.sorobanrpc.com'')]"

definition safeJsonParse :: "cli_env \<Rightarrow> jstext \<Rightarrow> json" where
  "safeJsonParse env t = (case ce_parse env t of Some v \<Rightarrow> v | None \<Rightarrow> JNull)"

definition NETWORK_IDS :: "(string \<times> string) list" where
  "NETWORK_IDS = [(''testnet'', ''stellar:testnet''), (''mainnet'', ''stellar:pubnet'')]"

definition ALLOWED_METHODS :: "string list" where
  "ALLOWED_METHODS = [''GET'', ''POST'', ''PUT'', ''PATCH'', ''DELETE'']"

text \<open>\<open>BigInt(a.amount ?? "0")\<close>.\<close>

definition price_of :: "cli_env \<Rightarrow> json \<Rightarrow> cli_stop + int" where
  "price_of env a =
     (let v = or_else (jprop a ''amount'') ''0'' in
      case toBigInt (ce_number env) v of
        Some n \<Rightarrow> Inr n
      | None \<Rightarrow> Inl (Raised (ce_bigIntError env v)))"

fun is_id :: "string + string \<Rightarrow> json \<Rightarrow> bool" where
  "is_id (Inr n) v = (v = JStr n)"
| "is_id (Inl t) v = False"

definition on_network :: "string + string \<Rightarrow> json list \<Rightarrow> json list" where
  "on_network n accepts = filter (\<lambda>a. is_id n (jprop a ''network'')) accepts"

definition exact_only :: "json list \<Rightarrow> json list" where
  "exact_only as = filter (\<lambda>a. jprop a ''scheme'' = JStr ''exact'') as"

definition first_occurrences :: "'a list \<Rightarrow> 'a list" where
  "first_occurrences xs = rev (remdups (rev xs))"

definition quoted :: "string \<Rightarrow> string" where
  "quoted s = [CHR 0x27] @ s @ [CHR 0x27]"

text \<open>
  The chosen option, or the reason there is none. An option that is \<open>null\<close> makes the first filter
  throw.
\<close>

definition selectRequirement ::
    "cli_env \<Rightarrow> json list \<Rightarrow> string + string \<Rightarrow> cli_stop + (string + json)" where
  "selectRequirement env accepts network =
     (let onNetwork = on_network network accepts; exact = exact_only onNetwork in
      if list_ex is_nullish accepts then Inl (Raised (ce_typeError env))
      else if onNetwork = [] then Inr (Inl (''no payment option for '' @ table_text network))
      else (case exact of
        [] \<Rightarrow> Inr (Inl (''no '' @ quoted ''exact'' @ '' option (seller offers: '' @
          join '', '' (map (to_string (ce_number env)) (first_occurrences
            (map (\<lambda>a. or_else (jprop a ''scheme'') ''unknown'') onNetwork))) @ '')''))
      | c # cs \<Rightarrow> map_sum id Inr (reduce_min (price_of env) c cs)))"

record pay_opts =
  op_secret :: "string option"
  op_secretFile :: "string option"
  op_max :: string
  op_network :: string
  op_rpcUrl :: "string option"
  op_method :: string
  op_body :: "string option"
  op_json :: bool

text \<open>What the checks of the options leave: the key, the ceiling and the shape of the requests.\<close>

record pay_plan =
  pl_secret :: string
  pl_publicKey :: string
  pl_max :: int
  pl_method :: string
  pl_hasBody :: bool
  pl_body :: string
  pl_network :: "string + string"
  pl_rpcUrl :: "string + string"

definition no_secret :: "'a cli" where
  "no_secret = fail ''Error: provide --secret-file (preferred), --secret, or the VELLAR_SECRET env var.''"

definition read_secret :: "cli_env \<Rightarrow> pay_opts \<Rightarrow> string cli" where
  "read_secret env opts =
     andThen (case op_secretFile opts of
         None \<Rightarrow> ret (op_secret opts)
       | Some path \<Rightarrow>
           if path = [] then ret (op_secret opts)
           else andThen (attempt (ce_readFile env path)) (\<lambda>t. ret (Some (trim t)))) (\<lambda>secret.
     case secret of None \<Rightarrow> no_secret | Some s \<Rightarrow> if s = [] then no_secret else ret s)"

definition network_error :: "string \<Rightarrow> 'a cli" where
  "network_error n = fail (''Error: --network must be '' @ quoted ''testnet'' @ '' or '' @
     quoted ''mainnet'' @ '', got '' @ quoted n)"

definition read_body :: "cli_env \<Rightarrow> pay_opts \<Rightarrow> string cli" where
  "read_body env opts =
     (case op_body opts of
        None \<Rightarrow> ret ''{}''
      | Some b \<Rightarrow>
          if safeJsonParse env (codes b) = JNull \<and> trim b \<noteq> ''null'' then
            fail (''Error: --body must be valid JSON, got '' @ quoted b)
          else ret b)"

definition check_options :: "cli_env \<Rightarrow> pay_opts \<Rightarrow> pay_plan cli" where
  "check_options env opts =
     (case (table_get env RPC_URLS (op_network opts), table_get env NETWORK_IDS (op_network opts)) of
        (Some rpc, Some network) \<Rightarrow>
          andThen (read_secret env opts) (\<lambda>secret.
          case ce_fromSecret env secret of
            None \<Rightarrow> fail ''Error: invalid Stellar secret key (expected an S... seed).''
          | Some publicKey \<Rightarrow>
          (case BigInt (op_max opts) of
            None \<Rightarrow> fail (''Error: --max must be an integer in base units, got '' @ quoted (op_max opts))
          | Some maxAmount \<Rightarrow>
          (let method = toUpperCase (op_method opts) in
           if method \<notin> set ALLOWED_METHODS then
             fail (''Error: --method must be one of '' @ join '', '' ALLOWED_METHODS @ '', got '' @
               quoted (op_method opts))
           else
           andThen (read_body env opts) (\<lambda>body.
             ret \<lparr>pl_secret = secret, pl_publicKey = publicKey, pl_max = maxAmount, pl_method = method,
                  pl_hasBody = (method \<noteq> ''GET'' \<and> method \<noteq> ''HEAD''), pl_body = body,
                  pl_network = network,
                  pl_rpcUrl = (case op_rpcUrl opts of Some u \<Rightarrow> Inr u | None \<Rightarrow> rpc)\<rparr>))))
      | _ \<Rightarrow> network_error (op_network opts))"

definition json_type :: "(string \<times> string) list" where
  "json_type = [(''Content-Type'', ''application/json'')]"

definition probe_request :: "pay_plan \<Rightarrow> string \<Rightarrow> cli_request" where
  "probe_request plan url =
     \<lparr>cq_url = url, cq_method = pl_method plan,
      cq_headers = (if pl_hasBody plan then json_type else []),
      cq_body = (if pl_hasBody plan then Some (pl_body plan) else None)\<rparr>"

definition paid_request :: "pay_plan \<Rightarrow> string \<Rightarrow> (string \<times> string) list \<Rightarrow> cli_request" where
  "paid_request plan url hs =
     (probe_request plan url)\<lparr>cq_headers := hs @ (if pl_hasBody plan then json_type else [])\<rparr>"

text \<open>\<open>required?.accepts?.length\<close>, and the array it is taken from.\<close>

definition undecoded :: "'a cli" where
  "undecoded = fail ''Got a 402 but could not decode the payment challenge.''"

definition offered :: "cli_env \<Rightarrow> json \<Rightarrow> json list cli" where
  "offered env required =
     (case jprop required ''accepts'' of
        JArr as \<Rightarrow> if as = [] then undecoded else ret as
      | JStr s \<Rightarrow> if s = [] then undecoded else typeError env
      | JObj kvs \<Rightarrow> if js_truthy (jprop (JObj kvs) ''length'') then typeError env else undecoded
      | _ \<Rightarrow> undecoded)"

text \<open>The option the ceiling and the sponsorship were checked on, with its price.\<close>

definition clear_option :: "cli_env \<Rightarrow> pay_plan \<Rightarrow> json \<Rightarrow> (json \<times> int) cli" where
  "clear_option env plan required =
     andThen (offered env required) (\<lambda>accepts.
     andThen (lift (selectRequirement env accepts (pl_network plan))) (\<lambda>choice.
     case choice of
       Inl reason \<Rightarrow> fail (''Error: '' @ reason)
     | Inr chosen \<Rightarrow>
        andThen (lift (price_of env chosen)) (\<lambda>price.
        if price > pl_max plan then
          fail (''Refused: price '' @ show_int price @ '' exceeds --max '' @ show_int (pl_max plan) @
            '' (base units). Nothing was signed.'')
        else if jprop (jprop chosen ''extra'') ''areFeesSponsored'' \<noteq> JBool True then
          fail (''Refused: the seller does not advertise sponsored fees '' @
            ''(extra.areFeesSponsored is not true). Nothing was signed.'')
        else ret (chosen, price))))"

text \<open>\<open>createPaymentPayload(required)\<close>: the library gets the whole challenge.\<close>

definition sign :: "cli_env \<Rightarrow> pay_plan \<Rightarrow> json \<Rightarrow> json cli" where
  "sign env plan required = (\<lambda>tr.
     let r = ce_createPayload env tr (pl_secret plan) (table_text (pl_network plan))
               (table_text (pl_rpcUrl plan)) required in
     (case r of
        Inr payload \<Rightarrow> (Inr payload, tr @ [CliSign required r])
      | Inl m \<Rightarrow> (Inl (Exit 1), tr @ [CliSign required r, Err (codes (''Could not build the payment: '' @ m)),
          Err (codes ''  Common causes: no trustline to the asset, or an empty balance.'')])))"

definition retry_hint :: string where
  "retry_hint = [CHR 0x0A] @ ''  Roughly one settle in three fails on testnet with an empty transaction field.'' @
     [CHR 0x0A] @ ''  An empty transaction means nothing was spent: retry, signing a fresh payload.'' @
     [CHR 0x0A] @ ''  A non-empty transaction means fees were charged: do not retry.''"

definition opt_header :: "string option \<Rightarrow> json" where
  "opt_header h = (case h of None \<Rightarrow> JNull | Some s \<Rightarrow> JStr s)"

definition report_paid ::
    "cli_env \<Rightarrow> pay_opts \<Rightarrow> pay_plan \<Rightarrow> json \<Rightarrow> int \<Rightarrow> cli_response \<Rightarrow> jstext \<Rightarrow> unit cli" where
  "report_paid env opts plan chosen price res text =
     (let ext = opt_header (header_of res ''extension-responses''); body = safeJsonParse env text;
          raw = JObj [(''response'', body), (''extensionResponses'', ext)];
          transaction = jprop (jprop body ''settlement'') ''transaction'' in
      if status_of res \<noteq> 200 then
        (if op_json opts then andThen (cli_emit (OutJson raw)) (\<lambda>_. throw (Exit 1))
         else
         andThen (complain (''Not unlocked: HTTP '' @ show_nat (status_of res))) (\<lambda>_.
         andThen (cli_emit (Err text)) (\<lambda>_. fail retry_hint)))
      else if op_json opts then cli_emit (OutJson raw)
      else
      andThen (if js_truthy transaction then
          andThen (complain (''Payer:      '' @ pl_publicKey plan)) (\<lambda>_.
          andThen (complain (''Paid:       '' @ show_int price @ '' base units of '' @
            to_string (ce_number env) (or_else (jprop chosen ''asset'') ''?''))) (\<lambda>_.
          andThen (complain (''Settlement: '' @ to_string (ce_number env) transaction)) (\<lambda>_.
          andThen (if js_truthy ext then complain (''Extensions: '' @ to_string (ce_number env) ext) else ret ()) (\<lambda>_.
            complain ''---''))))
        else ret ()) (\<lambda>_. cli_emit (Out text)))"

definition pay_challenge :: "cli_env \<Rightarrow> pay_opts \<Rightarrow> pay_plan \<Rightarrow> string \<Rightarrow> json \<Rightarrow> unit cli" where
  "pay_challenge env opts plan url required =
     andThen (clear_option env plan required) (\<lambda>(chosen, price).
     andThen (attempt (ce_client env (pl_secret plan) (table_text (pl_network plan))
       (table_text (pl_rpcUrl plan)))) (\<lambda>_.
     andThen (sign env plan required) (\<lambda>payload.
     andThen (attempt (ce_encodeHeader env payload)) (\<lambda>hs.
     andThen (fetch env (paid_request plan url hs)) (\<lambda>paid.
     andThen (text_of paid) (\<lambda>text.
       report_paid env opts plan chosen price paid text))))))"

definition pay_body :: "cli_env \<Rightarrow> string \<Rightarrow> pay_opts \<Rightarrow> unit cli" where
  "pay_body env url opts =
     andThen (check_options env opts) (\<lambda>plan.
     andThen (fetch env (probe_request plan url)) (\<lambda>unpaid.
     if rs_ok (cs_response unpaid) then
       andThen (text_of unpaid) (\<lambda>t.
       andThen (cli_emit (Out t)) (\<lambda>_. complain ''(No payment was required, so nothing was spent.)''))
     else if status_of unpaid \<noteq> 402 then fail (status_line ''Unexpected status: '' unpaid)
     else
     andThen (text_of unpaid) (\<lambda>body.
       pay_challenge env opts plan url (decodeChallenge env (header_of unpaid ''payment-required'') body))))"

definition pay_command :: "cli_env \<Rightarrow> string \<Rightarrow> pay_opts \<Rightarrow> unit cli" where
  "pay_command env url opts = command (pay_body env url opts)"

section \<open>inspect\<close>

definition HORIZON_URLS :: "(string \<times> string) list" where
  "HORIZON_URLS = [(''testnet'', ''https://horizon-testnet.stellar.org''),
     (''mainnet'', ''https://horizon.stellar.org'')]"

text \<open>\<open>res.json()\<close>.\<close>

definition json_of :: "cli_env \<Rightarrow> cli_response \<Rightarrow> json cli" where
  "json_of env res =
     andThen (text_of res) (\<lambda>t.
       case ce_parse env t of Some v \<Rightarrow> ret v | None \<Rightarrow> throw (Raised (ce_syntaxError env t)))"

definition inspect_lines :: "cli_env \<Rightarrow> string \<Rightarrow> json \<Rightarrow> string list" where
  "inspect_lines env txHash tx =
     (let str = to_string (ce_number env); fee = jprop tx ''fee_account''; src = jprop tx ''source_account'' in
      [''Hash:       '' @ str (or_else (jprop tx ''hash'') txHash),
       ''Successful: '' @ str (jprop tx ''successful''),
       ''Ledger:     '' @ str (jprop tx ''ledger''),
       ''Fee:        '' @ str (jprop tx ''fee_charged'') @ '' stroops'',
       ''Source:     '' @ str src,
       ''Fee acct:   '' @ str fee,
       ''Created:    '' @ str (jprop tx ''created_at'')] @
      (if js_truthy fee \<and> js_truthy src \<and> fee \<noteq> src then
         [[], ''Fee was paid by a different account than the transaction source'',
          ''(fee sponsorship shown on-chain, not asserted).''] else []))"

definition inspect_body :: "cli_env \<Rightarrow> string \<Rightarrow> string \<Rightarrow> bool \<Rightarrow> unit cli" where
  "inspect_body env txHash network as_json =
     (case table_get env HORIZON_URLS network of
        None \<Rightarrow> network_error network
      | Some base \<Rightarrow>
         if \<not> is_hex64 txHash then
           fail (''Error: '' @ quoted txHash @ '' is not a transaction hash (expected 64 hex characters).'')
         else
         andThen (fetch env \<lparr>cq_url = table_text base @ ''/transactions/'' @ txHash, cq_method = ''GET'',
           cq_headers = [], cq_body = None\<rparr>) (\<lambda>res.
         if \<not> rs_ok (cs_response res) then
           (if status_of res = 404 then
              andThen (complain (''Transaction not found on '' @ network @ '': '' @ txHash)) (\<lambda>_.
                fail ''  A testnet hash returns 404 on mainnet Horizon and vice versa.'')
            else fail (status_line ''Horizon returned '' res))
         else
         andThen (json_of env res) (\<lambda>tx.
         if as_json then cli_emit (OutJson tx)
         else if is_nullish tx then typeError env
         else sayAll (inspect_lines env txHash tx))))"

definition inspect_command :: "cli_env \<Rightarrow> string \<Rightarrow> string \<Rightarrow> bool \<Rightarrow> unit cli" where
  "inspect_command env txHash network as_json = command (inspect_body env txHash network as_json)"

section \<open>search\<close>

definition accept_line :: "cli_env \<Rightarrow> json \<Rightarrow> string" where
  "accept_line env a =
     (let str = to_string (ce_number env) in
      ''  '' @ str (or_else (jprop a ''scheme'') ''unknown'') @ '' on '' @
      str (or_else (jprop a ''network'') ''unknown'') @ '': '' @ str (or_else (jprop a ''amount'') ''?'') @
      '' base units of '' @ str (or_else (jprop a ''asset'') ''?''))"

text \<open>A description that is no string is printed whole.\<close>

definition clamp_description :: "cli_env \<Rightarrow> json \<Rightarrow> string" where
  "clamp_description env d =
     (case d of
        JStr s \<Rightarrow> if length s > 200 then take 200 s @ ''...'' else s
      | _ \<Rightarrow> to_string (ce_number env) d)"

definition renderResource :: "cli_env \<Rightarrow> json \<Rightarrow> json list \<Rightarrow> string list" where
  "renderResource env r accepts =
     (let str = to_string (ce_number env); t = jprop r ''trust''; s = jprop t ''settlements'';
          p = jprop t ''uniquePayers'' in
      [str (or_else (jprop r ''resource'') ''(no resource URL)'')] @
      (if js_truthy (jprop r ''serviceName'') then [''  '' @ str (jprop r ''serviceName'')] else []) @
      map (accept_line env) accepts @
      (if js_truthy (jprop r ''description'')
       then [''  '' @ clamp_description env (jprop r ''description'')] else []) @
      (if js_truthy t \<and> (s \<noteq> JUndefined \<or> p \<noteq> JUndefined) then
         [''  trust: '' @ str (or_else s ''0'') @ '' settlements, '' @ str (or_else p ''0'') @ '' unique payers'']
       else []))"

text \<open>An iterable: an array, or for \<open>accepts ?? []\<close> nothing. Elements that are \<open>null\<close> throw.\<close>

definition search_entry :: "cli_env \<Rightarrow> json \<Rightarrow> unit cli" where
  "search_entry env r =
     andThen (say []) (\<lambda>_.
     andThen (read_member env r ''accepts'') (\<lambda>v.
     case (if is_nullish v then JArr [] else v) of
       JArr accepts \<Rightarrow>
         if list_ex is_nullish accepts then typeError env
         else say (join [CHR 0x0A] (renderResource env r accepts))
     | _ \<Rightarrow> typeError env))"

fun search_entries :: "cli_env \<Rightarrow> json list \<Rightarrow> unit cli" where
  "search_entries env [] = ret ()"
| "search_entries env (r # rs) = andThen (search_entry env r) (\<lambda>_. search_entries env rs)"

definition search_body :: "cli_env \<Rightarrow> string \<Rightarrow> string \<Rightarrow> string \<Rightarrow> bool \<Rightarrow> unit cli" where
  "search_body env query facilitator limit as_json =
     andThen (attempt (ce_searchUrl env facilitator query limit)) (\<lambda>url.
     andThen (fetch env \<lparr>cq_url = url, cq_method = ''GET'', cq_headers = [], cq_body = None\<rparr>) (\<lambda>res.
     if \<not> rs_ok (cs_response res) then fail (status_line ''Search failed: '' res)
     else
     andThen (json_of env res) (\<lambda>data.
     if as_json then cli_emit (OutJson data)
     else
     andThen (read_member env data ''resources'') (\<lambda>v.
     andThen (accepts_array env v) (\<lambda>results.
     if results = [] then say ''No results found.''
     else
     andThen (search_entries env results) (\<lambda>_.
     if js_truthy (jprop data ''partialResults'') then
       sayAll [[], ''Note: partial results. Part of the search pipeline was unavailable.'']
     else ret ()))))))"

definition search_command :: "cli_env \<Rightarrow> string \<Rightarrow> string \<Rightarrow> string \<Rightarrow> bool \<Rightarrow> unit cli" where
  "search_command env query facilitator limit as_json = command (search_body env query facilitator limit as_json)"

section \<open>The banner\<close>

datatype option_source = FromFlag | FromEnv | FromDefault

record resolved_option =
  ro_name :: string
  ro_value :: string
  ro_source :: option_source
  ro_envVar :: "string option"

text \<open>The command commander invoked: its name, its options after parsing, those given as flags.\<close>

record invoked =
  iv_name :: string
  iv_opts :: "(string \<times> string) list"
  iv_flags :: "string list"

definition resolveOption ::
    "(string \<Rightarrow> string option) \<Rightarrow> invoked \<Rightarrow> string \<Rightarrow> string option \<Rightarrow> resolved_option option" where
  "resolveOption getenv c name envVar =
     (case map_of (iv_opts c) name of
        None \<Rightarrow> None
      | Some v \<Rightarrow> Some \<lparr>ro_name = name, ro_value = v,
          ro_source = (if name \<in> set (iv_flags c) then FromFlag
             else (case envVar of
                None \<Rightarrow> FromDefault
              | Some e \<Rightarrow> if e \<noteq> [] \<and> getenv e \<noteq> None then FromEnv else FromDefault)),
          ro_envVar = envVar\<rparr>)"

definition formatSource :: "resolved_option \<Rightarrow> string" where
  "formatSource r =
     (case ro_source r of
        FromFlag \<Rightarrow> ''flag''
      | FromEnv \<Rightarrow> ''env '' @ (case ro_envVar r of None \<Rightarrow> ''undefined'' | Some e \<Rightarrow> e)
      | FromDefault \<Rightarrow> ''default'')"

definition printStartupBanner :: "(string \<Rightarrow> string option) \<Rightarrow> log_level \<Rightarrow> bool \<Rightarrow> invoked \<Rightarrow> unit cli" where
  "printStartupBanner getenv threshold quiet c =
     (let resolved = List.map_filter id
        [resolveOption getenv c ''network'' (Some ''VELLAR_NETWORK''),
         resolveOption getenv c ''facilitator'' (Some ''VELLAR_FACILITATOR_URL'')] in
      if quiet \<or> \<not> shouldLog Info threshold \<or> resolved = [] then ret ()
      else complain (''vellar '' @ iv_name c @ '': '' @ join '', ''
        (map (\<lambda>r. ro_name r @ ''='' @ ro_value r @ '' ('' @ formatSource r @ '')'') resolved)))"

section \<open>What a command does outside its own process\<close>

fun signed_of :: "cli_event \<Rightarrow> json list" where
  "signed_of (CliSign c r) = [c]"
| "signed_of _ = []"

fun request_of :: "cli_event \<Rightarrow> cli_request list" where
  "request_of (CliFetch q r) = [q]"
| "request_of _ = []"

definition signs :: "cli_event list \<Rightarrow> json list" where
  "signs tr = concat (map signed_of tr)"

definition requests :: "cli_event list \<Rightarrow> cli_request list" where
  "requests tr = concat (map request_of tr)"

lemma trace_append [simp]:
  "signs [] = []" "requests [] = []"
  "signs (a @ b) = signs a @ signs b" "requests (a @ b) = requests a @ requests b"
  "signs (e # b) = signed_of e @ signs b" "requests (e # b) = request_of e @ requests b"
  by (simp_all add: signs_def requests_def)

text \<open>Actions that only print.\<close>

definition prints_only :: "'a cli \<Rightarrow> bool" where
  "prints_only m = (\<forall>tr r tr'. m tr = (r, tr') \<longrightarrow> signs tr' = signs tr \<and> requests tr' = requests tr)"

named_theorems printing \<open>actions that only print\<close>

lemma prints_only_basic [printing]:
  "prints_only (ret x)" "prints_only (throw e)" "prints_only (lift r)" "prints_only (attempt q)"
  "signed_of ev = [] \<Longrightarrow> request_of ev = [] \<Longrightarrow> prints_only (cli_emit ev)"
  by (simp_all add: prints_only_def cli_emit_def attempt_def act_defs)

lemma prints_only_andThen [printing]: "prints_only m \<Longrightarrow> (\<And>x. prints_only (k x)) \<Longrightarrow> prints_only (andThen m k)"
  unfolding prints_only_def andThen_def by (fastforce split: prod.splits sum.splits)

lemma prints_only_if [printing]: "prints_only m \<Longrightarrow> prints_only n \<Longrightarrow> prints_only (if b then m else n)"
  by simp

lemma prints_only_say [printing]: "prints_only (say s)" "prints_only (complain s)" "prints_only (fail s)" "prints_only (typeError env)"
  by (auto simp: say_def complain_def fail_def typeError_def intro!: printing)

lemma prints_only_text [printing]: "prints_only (text_of res)"
  by (simp add: text_of_def printing)

lemma prints_only_check [printing]: "prints_only (check_options env opts)"
  by (auto simp: check_options_def read_secret_def no_secret_def read_body_def network_error_def Let_def
      intro!: printing split: option.splits)

lemma prints_only_clear [printing]: "prints_only (clear_option env plan c)"
  by (auto simp: clear_option_def offered_def undecoded_def intro!: printing split: json.splits sum.splits)

lemma prints_only_report [printing]: "prints_only (report_paid env opts plan chosen price res t)"
  by (auto simp: report_paid_def Let_def intro!: printing)

lemma prints_only_wp:
  assumes "prints_only m" "\<And>r tr'. m tr = (r, tr') \<Longrightarrow> signs tr' = signs tr \<Longrightarrow> requests tr' = requests tr \<Longrightarrow> Q r tr'"
  shows "wp m Q tr"
  using assms by (auto simp: prints_only_def wp_def split: prod.splits)

section \<open>What the checks establish\<close>

lemma check_options_plan:
  assumes "check_options env opts tr = (Inr plan, tr')"
  shows "BigInt (op_max opts) = Some (pl_max plan) \<and> pl_method plan = toUpperCase (op_method opts) \<and>
    pl_method plan \<in> set ALLOWED_METHODS \<and> pl_hasBody plan = (pl_method plan \<noteq> ''GET'') \<and>
    table_get env NETWORK_IDS (op_network opts) = Some (pl_network plan) \<and>
    ce_fromSecret env (pl_secret plan) = Some (pl_publicKey plan)"
  using assms
  by (auto simp: check_options_def network_error_def fail_def complain_def cli_emit_def act_defs Let_def
      ALLOWED_METHODS_def split: option.splits prod.splits sum.splits if_splits)

text \<open>The option the command checked: the cheapest exact one on the network, affordable and sponsored.\<close>

definition affordable :: "cli_env \<Rightarrow> pay_plan \<Rightarrow> json \<Rightarrow> json \<Rightarrow> int \<Rightarrow> bool" where
  "affordable env plan required chosen price =
     (\<exists>as. jprop required ''accepts'' = JArr as \<and> chosen \<in> set (exact_only (on_network (pl_network plan) as)) \<and>
        price_of env chosen = Inr price \<and> price \<le> pl_max plan \<and>
        jprop (jprop chosen ''extra'') ''areFeesSponsored'' = JBool True \<and>
        (\<forall>a \<in> set (exact_only (on_network (pl_network plan) as)). \<exists>q. price_of env a = Inr q \<and> price \<le> q))"

lemma selectRequirement_least:
  assumes "selectRequirement env as n = Inr (Inr chosen)" "price_of env chosen = Inr price"
  shows "chosen \<in> set (exact_only (on_network n as)) \<and>
    (\<forall>a \<in> set (exact_only (on_network n as)). \<exists>q. price_of env a = Inr q \<and> price \<le> q)"
proof -
  obtain c cs where e: "exact_only (on_network n as) = c # cs" "reduce_min (price_of env) c cs = Inr chosen"
    using assms(1) by (auto simp: selectRequirement_def Let_def map_sum_def split: if_splits list.splits sum.splits)
  then show ?thesis
    using reduce_min_mem [OF e(2)] reduce_min_least [OF e(2) assms(2)] by auto
qed

lemma clear_option_affordable:
  assumes "clear_option env plan required tr = (Inr (chosen, price), tr')"
  shows "affordable env plan required chosen price"
proof -
  obtain as where "jprop required ''accepts'' = JArr as" "selectRequirement env as (pl_network plan) = Inr (Inr chosen)"
    "price_of env chosen = Inr price" "price \<le> pl_max plan"
    "jprop (jprop chosen ''extra'') ''areFeesSponsored'' = JBool True"
    using assms
    by (auto simp: clear_option_def offered_def undecoded_def typeError_def fail_def complain_def cli_emit_def act_defs
        split: json.splits sum.splits if_splits prod.splits)
  then show ?thesis
    using selectRequirement_least by (auto simp: affordable_def)
qed

text \<open>What a run of the payment adds to the trace: nothing, a signature, or a signature and the paid request.\<close>

definition paid_trace ::
    "cli_env \<Rightarrow> pay_plan \<Rightarrow> string \<Rightarrow> json \<Rightarrow> cli_event list \<Rightarrow> cli_event list \<Rightarrow> bool" where
  "paid_trace env plan url c tr tr' =
     ((signs tr' = signs tr \<and> requests tr' = requests tr) \<or>
      (signs tr' = signs tr @ [c] \<and> (\<exists>chosen price. affordable env plan c chosen price) \<and>
        (requests tr' = requests tr \<or> (\<exists>hs. requests tr' = requests tr @ [paid_request plan url hs]))))"

lemma paid_trace_signed:
  "affordable env plan c chosen price \<Longrightarrow> signs tr' = signs tr @ [c] \<Longrightarrow> requests tr' = requests tr \<Longrightarrow>
   paid_trace env plan url c tr tr'"
  by (auto simp: paid_trace_def)

lemma wp_fetch [wp]:
  "wp (fetch env q) Q tr = Q (map_sum (\<lambda>m. Raised (codes m)) id (ce_fetch env tr q)) (tr @ [CliFetch q (ce_fetch env tr q)])"
  by (simp add: wp_def fetch_def)

lemma wp_attempt [wp]: "wp (attempt r) Q tr = Q (map_sum (\<lambda>m. Raised (codes m)) id r) tr"
  by (simp add: wp_def attempt_def lift_def)

lemma prints_only_keeps:
  "prints_only m \<Longrightarrow> (\<And>r tr'. signs tr' = signs tr \<Longrightarrow> requests tr' = requests tr \<Longrightarrow> Q r tr') \<Longrightarrow> wp m Q tr"
  by (rule prints_only_wp)

lemma sent_trace:
  assumes "signs tr = signs tr0 @ [c]" "requests tr = requests tr0" "affordable env plan c chosen price"
  shows "wp (andThen (attempt (ce_encodeHeader env payload)) (\<lambda>hs.
     andThen (fetch env (paid_request plan url hs)) (\<lambda>paid.
     andThen (text_of paid) (\<lambda>text. report_paid env opts plan chosen price paid text))))
    (\<lambda>r tr'. paid_trace env plan url c tr0 tr') tr"
proof (rule wp_seq [where R = "\<lambda>r tr'. tr' = tr"], goal_cases)
  case (3 hs tr1)
  show ?case
  proof (rule wp_seq [where R = "\<lambda>r tr'. signs tr' = signs tr \<and>
      requests tr' = requests tr @ [paid_request plan url hs]"], goal_cases)
    case (3 paid tr2)
    show ?case
      by (rule prints_only_keeps) (use 3 assms in \<open>auto simp: paid_trace_def intro!: printing\<close>)
  qed (use 3 assms in \<open>auto simp: wp paid_trace_def\<close>)
qed (use assms in \<open>auto simp: wp paid_trace_def\<close>)

lemma pay_challenge_trace: "wp (pay_challenge env opts plan url c) (\<lambda>r tr'. paid_trace env plan url c tr tr') tr"
  unfolding pay_challenge_def
proof (rule wp_seq [where R = "\<lambda>r tr'. signs tr' = signs tr \<and> requests tr' = requests tr \<and>
    (\<forall>x. r = Inr x \<longrightarrow> affordable env plan c (fst x) (snd x))"], goal_cases)
  case 1
  show ?case
    by (rule prints_only_wp [OF prints_only_clear]) (auto dest: clear_option_affordable)
next
  case (3 x tr1)
  show ?case
    unfolding split_beta
  proof (rule wp_seq [where R = "\<lambda>r tr'. tr' = tr1"], goal_cases)
    case (3 u tr2)
    show ?case
    proof (rule wp_seq [where R = "\<lambda>r tr'. signs tr' = signs tr @ [c] \<and> requests tr' = requests tr"], goal_cases)
      case 1
      show ?case
        using 3 \<open>signs tr1 = signs tr \<and> _\<close> by (auto simp: wp_def sign_def Let_def split: sum.splits)
    qed (use \<open>signs tr1 = signs tr \<and> _\<close> in \<open>auto intro: sent_trace paid_trace_signed\<close>)
  qed (use 3 in \<open>auto simp: wp paid_trace_def\<close>)
qed (auto simp: paid_trace_def)

text \<open>The runs of the command that reach the network: the probe was answered by a challenge, or was all.\<close>

definition pay_run :: "cli_env \<Rightarrow> string \<Rightarrow> pay_opts \<Rightarrow> cli_event list \<Rightarrow> bool" where
  "pay_run env url opts tr =
     ((signs tr = [] \<and> requests tr = []) \<or>
      (\<exists>plan. BigInt (op_max opts) = Some (pl_max plan) \<and>
         table_get env NETWORK_IDS (op_network opts) = Some (pl_network plan) \<and>
         ((signs tr = [] \<and> requests tr = [probe_request plan url]) \<or>
          (\<exists>c chosen price. signs tr = [c] \<and> affordable env plan c chosen price \<and>
             (requests tr = [probe_request plan url] \<or>
              (\<exists>hs. requests tr = [probe_request plan url, paid_request plan url hs]))))))"

lemma paid_trace_run:
  assumes "paid_trace env plan url c tr tr'" "signs tr = []" "requests tr = [probe_request plan url]"
    and "BigInt (op_max opts) = Some (pl_max plan)"
    and "table_get env NETWORK_IDS (op_network opts) = Some (pl_network plan)"
  shows "pay_run env url opts tr'"
  using assms unfolding paid_trace_def pay_run_def by auto

lemma prints_only_run:
  assumes "prints_only m" "pay_run env url opts tr"
  shows "wp m (\<lambda>r tr'. pay_run env url opts tr') tr"
  by (rule prints_only_keeps) (use assms in \<open>simp_all add: pay_run_def\<close>)

lemma pay_body_run: "wp (pay_body env url opts) (\<lambda>r tr'. pay_run env url opts tr') []"
  unfolding pay_body_def
proof (rule wp_seq [where R = "\<lambda>r tr'. signs tr' = [] \<and> requests tr' = [] \<and>
    (\<forall>plan. r = Inr plan \<longrightarrow> BigInt (op_max opts) = Some (pl_max plan) \<and>
       table_get env NETWORK_IDS (op_network opts) = Some (pl_network plan))"], goal_cases)
  case 1
  show ?case by (rule prints_only_wp [OF prints_only_check]) (auto dest: check_options_plan)
next
  case (3 plan tr1)
  show ?case
  proof (rule wp_seq [where R = "\<lambda>r tr'. signs tr' = [] \<and> requests tr' = [probe_request plan url]"], goal_cases)
    case (3 unpaid tr2)
    have run: "pay_run env url opts tr2"
      using 3 \<open>signs tr1 = [] \<and> _\<close> unfolding pay_run_def by blast
    have challenge: "wp (andThen (text_of unpaid) (\<lambda>body. pay_challenge env opts plan url (decode body)))
        (\<lambda>r tr'. pay_run env url opts tr') tr2" for decode
    proof (rule wp_seq [where R = "\<lambda>r tr'. signs tr' = signs tr2 \<and> requests tr' = requests tr2"], goal_cases)
      case (3 body tr3)
      show ?case
        by (rule wp_mono [OF pay_challenge_trace])
          (use 3 \<open>signs tr1 = [] \<and> _\<close> \<open>signs tr2 = [] \<and> _\<close> in \<open>auto intro: paid_trace_run\<close>)
    qed (use run in \<open>auto simp: pay_run_def intro: prints_only_keeps printing\<close>)
    show ?case
      by (auto intro!: challenge prints_only_run [OF _ run] printing)
  qed (use 3 in \<open>auto simp: wp pay_run_def\<close>)
qed (simp add: pay_run_def)

section \<open>The properties of the component\<close>

text \<open>
  C23 (safety): the command \<open>pay\<close> asks for at most one signature, and only when the challenge it is asked for
  offers an exact option on the user's network that is the cheapest of these, within \<open>--max\<close> and
  with sponsored fees. It sends at most two requests, a probe and then the paid one with the same
  method and body; without a signature it sends no second request.
\<close>

theorem pay_command_signs_once_after_clearing:
  assumes "pay_command env url opts [] = (r, tr)"
  shows "(signs tr = [] \<and> length (requests tr) \<le> 1) \<or>
    (\<exists>plan c chosen price hs. BigInt (op_max opts) = Some (pl_max plan) \<and>
       table_get env NETWORK_IDS (op_network opts) = Some (pl_network plan) \<and>
       signs tr = [c] \<and> affordable env plan c chosen price \<and>
       requests tr \<in> {[probe_request plan url], [probe_request plan url, paid_request plan url hs]})"
proof -
  have "wp (pay_command env url opts) (\<lambda>r tr'. pay_run env url opts tr') []"
    unfolding pay_command_def command_def wp_tryCatch
    by (rule wp_mono [OF pay_body_run])
      (auto split: sum.splits cli_stop.splits intro!: prints_only_run printing)
  then have "pay_run env url opts tr" using assms by (rule wpD)
  then show ?thesis unfolding pay_run_def by fastforce
qed

definition cli_sample_offer :: "string \<Rightarrow> json" where
  "cli_sample_offer amount = JObj [(''scheme'', JStr ''exact''), (''network'', JStr ''stellar:testnet''),
     (''amount'', JStr amount), (''extra'', JObj [(''areFeesSponsored'', JBool True)])]"

definition sample_402 :: json where
  "sample_402 = JObj [(''accepts'', JArr [cli_sample_offer ''900'', cli_sample_offer ''120''])]"

definition sample_cli :: cli_env where
  "sample_cli = \<lparr>ce_fetch = (\<lambda>tr q. Inr \<lparr>cs_response = \<lparr>rs_status = (if tr = [] then 402 else 200),
       rs_headers = [], rs_body = Inr []\<rparr>, cs_statusText = []\<rparr>),
     ce_readFile = (\<lambda>p. Inl ''no file''), ce_fromSecret = (\<lambda>s. Some ''G''),
     ce_client = (\<lambda>s n u. Inr ()), ce_createPayload = (\<lambda>tr s n u c. Inr c),
     ce_encodeHeader = (\<lambda>v. Inr [(''X-PAYMENT'', ''p'')]), ce_parse = (\<lambda>t. Some sample_402),
     ce_fromBase64 = (\<lambda>s. []), ce_number = (\<lambda>q. []), ce_inherited = id,
     ce_searchUrl = (\<lambda>f q l. Inr f), ce_typeError = [], ce_syntaxError = id, ce_bigIntError = (\<lambda>v. [])\<rparr>"

definition cli_sample_opts :: pay_opts where
  "cli_sample_opts = \<lparr>op_secret = Some ''S'', op_secretFile = None, op_max = ''200'', op_network = ''testnet'',
     op_rpcUrl = None, op_method = ''GET'', op_body = None, op_json = True\<rparr>"

definition cli_sample_plan :: pay_plan where
  "cli_sample_plan = \<lparr>pl_secret = ''S'', pl_publicKey = ''G'', pl_max = 200, pl_method = ''GET'', pl_hasBody = False,
     pl_body = ''{}'', pl_network = Inr ''stellar:testnet'', pl_rpcUrl = Inr ''https://soroban-testnet.stellar.org''\<rparr>"

lemma cli_sample_price: "all_digits s \<Longrightarrow> price_of sample_cli (cli_sample_offer s) = Inr (digits_val s)"
  by (simp add: price_of_def cli_sample_offer_def or_else_def is_nullish_def toBigInt_def BigInt_digits all_digits_def)

lemma cli_sample_checked: "check_options sample_cli cli_sample_opts tr = (Inr cli_sample_plan, tr)"
proof -
  have "BigInt ''200'' = Some 200"
    by (simp add: BigInt_digits all_digits_def is_digit_def digits_val_def digit_val_def)
  moreover have "toUpperCase ''GET'' = ''GET''"
    by (simp add: toUpperCase_def to_upper_char_def)
  ultimately show ?thesis
    by (simp add: check_options_def cli_sample_opts_def sample_cli_def cli_sample_plan_def table_get_def RPC_URLS_def
        NETWORK_IDS_def read_secret_def read_body_def ALLOWED_METHODS_def act_defs)
qed

lemma cli_sample_cleared: "clear_option sample_cli cli_sample_plan sample_402 tr = (Inr (cli_sample_offer ''120'', 120), tr)"
proof -
  have p: "price_of sample_cli (cli_sample_offer ''120'') = Inr 120" "price_of sample_cli (cli_sample_offer ''900'') = Inr 900"
    by (simp_all add: cli_sample_price all_digits_def is_digit_def digits_val_def digit_val_def)
  have "selectRequirement sample_cli [cli_sample_offer ''900'', cli_sample_offer ''120''] (Inr ''stellar:testnet'') =
      Inr (Inr (cli_sample_offer ''120''))"
    by (simp add: selectRequirement_def on_network_def exact_only_def Let_def p)
      (simp add: cli_sample_offer_def is_nullish_def)
  then show ?thesis
    by (simp add: clear_option_def offered_def sample_402_def cli_sample_plan_def act_defs p)
      (simp add: cli_sample_offer_def)
qed

lemma cli_sample_pays: "\<exists>tr. pay_command sample_cli ''u'' cli_sample_opts [] = (Inr (), tr) \<and> signs tr = [sample_402]"
proof -
  have decode: "decodeChallenge sample_cli h b = sample_402" for h b
    by (simp add: decodeChallenge_def sample_cli_def Let_def split: option.splits)
  have sign: "sign sample_cli plan c tr = (Inr c, tr @ [CliSign c (Inr c)])" for plan c tr
    by (simp add: sign_def sample_cli_def)
  have env: "ce_fetch sample_cli tr q = Inr \<lparr>cs_response = \<lparr>rs_status = (if tr = [] then 402 else 200),
       rs_headers = [], rs_body = Inr []\<rparr>, cs_statusText = []\<rparr>" "ce_client sample_cli x y z = Inr ()"
    "ce_encodeHeader sample_cli c = Inr [(''X-PAYMENT'', ''p'')]" "op_json cli_sample_opts" for tr q x y z c
    by (simp_all add: sample_cli_def cli_sample_opts_def)
  show ?thesis
    by (simp add: pay_command_def command_def pay_body_def pay_challenge_def act_defs cli_sample_checked cli_sample_cleared
        sign fetch_def text_of_def attempt_def status_of_def rs_ok_def decode env report_paid_def cli_emit_def Let_def)
qed

theorem pay_command_signs_once_after_clearing_witness:
  "\<exists>tr plan c chosen price. pay_command sample_cli ''u'' cli_sample_opts [] = (Inr (), tr) \<and> signs tr = [c] \<and>
     affordable sample_cli plan c chosen price"
proof -
  obtain tr where tr: "pay_command sample_cli ''u'' cli_sample_opts [] = (Inr (), tr)" "signs tr = [sample_402]"
    using cli_sample_pays by blast
  then show ?thesis
    using pay_command_signs_once_after_clearing [OF tr(1)] by auto
qed

text \<open>
  The library signs for the challenge as the seller sent it, not for the option the command
  checked. A seller that lists a dearer exact option first has the signature asked for on a
  challenge whose first option exceeds \<open>--max\<close>, in a run in which the command found the price within it.
\<close>

lemma pay_command_signs_unnarrowed:
  "\<exists>tr first rest. pay_command sample_cli ''u'' cli_sample_opts [] = (Inr (), tr) \<and> signs tr = [sample_402] \<and>
     jprop sample_402 ''accepts'' = JArr (first # rest) \<and> jprop first ''scheme'' = JStr ''exact'' \<and>
     price_of sample_cli first = Inr 900 \<and> BigInt (op_max cli_sample_opts) = Some 200"
proof -
  have "price_of sample_cli (cli_sample_offer ''900'') = Inr 900" "BigInt ''200'' = Some 200"
    by (simp_all add: cli_sample_price BigInt_digits all_digits_def is_digit_def digits_val_def digit_val_def)
  then show ?thesis
    using cli_sample_pays by (auto simp: sample_402_def cli_sample_opts_def cli_sample_offer_def)
qed

text \<open>\<open>quote\<close>, \<open>inspect\<close> and \<open>search\<close> send at most one request, a GET without a body, and sign nothing.\<close>

definition one_get :: "cli_event list \<Rightarrow> bool" where
  "one_get tr = (signs tr = [] \<and> (\<exists>url. requests tr \<in> {[],
     [\<lparr>cq_url = url, cq_method = ''GET'', cq_headers = [], cq_body = None\<rparr>]}))"

lemma prints_only_get: "prints_only m \<Longrightarrow> one_get tr \<Longrightarrow> wp m (\<lambda>r tr'. one_get tr') tr"
  by (rule prints_only_keeps) (auto simp: one_get_def)

lemma fetch_get:
  assumes "tr = []" "\<And>res. prints_only (k res)"
  shows "wp (andThen (fetch env \<lparr>cq_url = u, cq_method = ''GET'', cq_headers = [], cq_body = None\<rparr>) k)
    (\<lambda>r tr'. one_get tr') tr"
proof (rule wp_seq [where R = "\<lambda>r tr'. one_get tr'"])
  show "wp (fetch env \<lparr>cq_url = u, cq_method = ''GET'', cq_headers = [], cq_body = None\<rparr>) (\<lambda>r tr'. one_get tr') tr"
    by (simp add: wp one_get_def assms(1))
qed (use assms(2) in \<open>auto intro: prints_only_get\<close>)

lemma prints_only_sayAll [printing]: "prints_only (sayAll ls)"
  by (induction ls) (auto intro!: printing)

lemma prints_only_json [printing]: "prints_only (json_of env res)"
  by (auto simp: json_of_def intro!: printing split: option.splits)

lemma prints_only_member [printing]: "prints_only (read_member env v k)" "prints_only (accepts_array env v)"
  by (auto simp: read_member_def accepts_array_def intro!: printing split: json.splits)

lemma prints_only_entries [printing]: "prints_only (search_entries env rs)" "prints_only (quote_options env several i as)"
proof -
  have "prints_only (search_entry env r)" for r
    by (auto simp: search_entry_def intro!: printing split: json.splits)
  then show "prints_only (search_entries env rs)" by (induction rs) (auto intro!: printing)
  have "prints_only (quote_option env several i a)" for i a
    by (auto simp: quote_option_def intro!: printing)
  then show "prints_only (quote_options env several i as)" by (induction as arbitrary: i) (auto intro!: printing)
qed

lemma command_get: "wp body (\<lambda>r tr'. one_get tr') [] \<Longrightarrow> wp (command body) (\<lambda>r tr'. one_get tr') []"
  unfolding command_def wp_tryCatch
  by (erule wp_mono) (auto split: sum.splits cli_stop.splits intro!: prints_only_get printing)

theorem other_commands_only_look:
  shows "wp (quote_command env url j) (\<lambda>r tr'. one_get tr') []"
    and "wp (inspect_command env h n j) (\<lambda>r tr'. one_get tr') []"
    and "wp (search_command env q f l j) (\<lambda>r tr'. one_get tr') []"
proof -
  have e: "one_get []" by (simp add: one_get_def)
  show "wp (quote_command env url j) (\<lambda>r tr'. one_get tr') []"
    unfolding quote_command_def quote_body_def
    by (rule command_get, rule fetch_get) (auto simp: Let_def intro!: printing)
  show "wp (inspect_command env h n j) (\<lambda>r tr'. one_get tr') []"
    unfolding inspect_command_def inspect_body_def
  proof (rule command_get, goal_cases)
    case 1
    show ?case
    proof (cases "table_get env HORIZON_URLS n = None \<or> \<not> is_hex64 h")
      case True
      then show ?thesis
        by (auto simp: network_error_def split: option.splits intro!: prints_only_get [OF _ e] printing)
    next
      case False
      then obtain base where "table_get env HORIZON_URLS n = Some base" "is_hex64 h" by auto
      then show ?thesis
        by simp (rule fetch_get, simp, auto intro!: printing)
    qed
  qed
  show "wp (search_command env q f l j) (\<lambda>r tr'. one_get tr') []"
    unfolding search_command_def search_body_def
    by (rule command_get, rule wp_seq [where R = "\<lambda>r tr'. tr' = []"], simp add: wp_attempt, simp add: e,
      rule fetch_get) (auto intro!: printing)
qed

end
