(* ===== verification/UptoReceipt.thy ===== *)
theory UptoReceipt
  imports Guards Json "HOL-Library.Multiset"
begin

text \<open>
  Receipts of \<open>upto\<close> payments and the session budget that reserves a ceiling and debits what settled
  (\<open>contrib/issue-507-510-515/upto-settlement-receipt.ts\<close>).

  The settle header is decoded to a JSON value of any shape (\<open>JSON.parse\<close> is a parameter) and read
  with the language's property access. The budget's closure state is a record, its methods are
  functions on it. \<open>budget_step\<close> is a client that keeps to the protocol: every payment in flight was
  reserved, and is settled with a receipt for that reservation or released once.
\<close>

section \<open>The settled amount\<close>

datatype settled_source = Facilitator | CeilingFallback | CeilingClamped

record receipt =
  rp_authorizedCeiling :: int
  rp_settledAmount :: int
  rp_unusedCeiling :: int
  rp_settledBelowCeiling :: bool
  rp_source :: settled_source
  rp_transaction :: json
  rp_payer :: json
  rp_asset :: string
  rp_network :: string

definition MAX_SAFE_INTEGER :: int where
  "MAX_SAFE_INTEGER = 2 ^ 53 - 1"

text \<open>
  A number counts when it is a safe integer and prints as digits; anything else is tested by the
  digits expression as a text.
\<close>

definition parseSettledAmount :: "(rat \<Rightarrow> string) \<Rightarrow> json \<Rightarrow> int option" where
  "parseSettledAmount num raw =
     (case raw of
        JUndefined \<Rightarrow> None
      | JNull \<Rightarrow> None
      | JNum q \<Rightarrow>
          if of_int \<lfloor>q\<rfloor> = q \<and> 0 \<le> q \<and> \<lfloor>q\<rfloor> \<le> MAX_SAFE_INTEGER then Some \<lfloor>q\<rfloor> else None
      | _ \<Rightarrow> if all_digits (to_string num raw) then toBigInt num raw else None)"

definition buildSettlementReceipt ::
    "(rat \<Rightarrow> string) \<Rightarrow> int \<Rightarrow> json \<Rightarrow> json \<Rightarrow> json \<Rightarrow> string \<Rightarrow> string \<Rightarrow> receipt outcome" where
  "buildSettlementReceipt num cap reportedRaw transaction payer asset network =
     (if cap < 0 then Inl (Wallet (RangeError (of_int cap)))
      else
       (let (settled, source) =
          (case parseSettledAmount num reportedRaw of
             None \<Rightarrow> (cap, CeilingFallback)
           | Some reported \<Rightarrow>
               if reported > cap then (cap, CeilingClamped) else (reported, Facilitator)) in
        Inr \<lparr>rp_authorizedCeiling = cap, rp_settledAmount = settled,
             rp_unusedCeiling = cap - settled, rp_settledBelowCeiling = (settled < cap),
             rp_source = source, rp_transaction = transaction, rp_payer = payer,
             rp_asset = asset, rp_network = network\<rparr>))"

section \<open>The settle header\<close>

text \<open>
  The decoder for hosts without \<open>atob\<close>: six bits a character, then groups of eight. Padding at the
  end is dropped, any other character outside the alphabet throws.
\<close>

definition six_bits :: "nat \<Rightarrow> nat list" where
  "six_bits n = map (\<lambda>i. n div 2 ^ i mod 2) [5, 4, 3, 2, 1, 0]"

definition bits_value :: "nat list \<Rightarrow> nat" where
  "bits_value bs = foldl (\<lambda>acc b. 2 * acc + b) 0 bs"

function byte_groups :: "nat list \<Rightarrow> bytes" where
  "byte_groups bs = (if length bs < 8 then [] else bits_value (take 8 bs) # byte_groups (drop 8 bs))"
  by pat_completeness auto
termination
  by (relation "measure length") auto

declare byte_groups.simps [simp del]

definition decodeBits :: "string \<Rightarrow> bytes option" where
  "decodeBits v =
     (let t = rev (dropWhile (\<lambda>c. c = CHR ''='') (rev v)) in
      if list_all (\<lambda>c. b64_index c \<noteq> None) t
      then Some (byte_groups (concat (map (\<lambda>c. six_bits (the (b64_index c))) t))) else None)"

definition decodeBase64Utf8 :: "bool \<Rightarrow> string \<Rightarrow> jstext option" where
  "decodeBase64Utf8 has_atob v =
     map_option utf8_decode (if has_atob then atob v else decodeBits v)"

record receipt_env =
  re_parse :: "jstext \<Rightarrow> json option"
  re_number :: "rat \<Rightarrow> string"
  re_atob :: bool

definition decodeSettleResult :: "receipt_env \<Rightarrow> response \<Rightarrow> json" where
  "decodeSettleResult env res =
     (case settleHeader res of
        None \<Rightarrow> JUndefined
      | Some header \<Rightarrow>
          if header = [] then JUndefined
          else (case Option.bind (decodeBase64Utf8 (re_atob env) header) (re_parse env) of
             None \<Rightarrow> JUndefined | Some v \<Rightarrow> v))"

definition settlementReceiptFromResponse ::
    "receipt_env \<Rightarrow> response \<Rightarrow> int \<Rightarrow> string \<Rightarrow> string \<Rightarrow> receipt option outcome" where
  "settlementReceiptFromResponse env res cap asset network =
     (let settle = decodeSettleResult env res; tx = or_else (jprop settle ''transaction'') [] in
      if \<not> js_truthy settle \<or> \<not> is_hex64 (to_string (re_number env) tx) \<or>
         jprop settle ''success'' = JBool False then Inr None
      else map_sum id Some (buildSettlementReceipt (re_number env) cap (jprop settle ''amount'') tx
        (jprop settle ''payer'') asset network))"

section \<open>The session budget\<close>

record session_budget =
  sb_ceilings :: "(string \<times> int) list"
  sb_spent :: "string \<Rightarrow> int option"
  sb_reserved :: "string \<Rightarrow> int option"
  sb_observed :: "(string \<times> int) list"

record budget_row_snapshot =
  br_asset :: string
  br_spent :: string
  br_reserved :: string
  br_ceiling :: string
  br_remaining :: string

definition createSessionBudget :: "(string \<times> int) list \<Rightarrow> session_budget" where
  "createSessionBudget ceilings =
     \<lparr>sb_ceilings = ceilings, sb_spent = (\<lambda>_. None), sb_reserved = (\<lambda>_. None), sb_observed = []\<rparr>"

definition budgetCeilingFor :: "session_budget \<Rightarrow> string \<Rightarrow> int outcome" where
  "budgetCeilingFor b asset =
     (case map_of (sb_ceilings b) asset of
        None \<Rightarrow> Inl (Payer (SessionCeilingExceededError asset 0 0 0))
      | Some c \<Rightarrow> Inr c)"

definition budgetSpentFor :: "session_budget \<Rightarrow> string \<Rightarrow> int" where
  "budgetSpentFor b asset = (case sb_spent b asset of None \<Rightarrow> 0 | Some v \<Rightarrow> v)"

definition reservedFor :: "session_budget \<Rightarrow> string \<Rightarrow> int" where
  "reservedFor b asset = (case sb_reserved b asset of None \<Rightarrow> 0 | Some v \<Rightarrow> v)"

definition dropReservation :: "string \<Rightarrow> int \<Rightarrow> session_budget \<Rightarrow> session_budget" where
  "dropReservation asset cap b =
     (let current = reservedFor b asset in
      b\<lparr>sb_reserved := (sb_reserved b)(asset \<mapsto> (if current \<ge> cap then current - cap else 0))\<rparr>)"

text \<open>\<open>onReserve\<close> is the list of the reservations it was told of.\<close>

definition reserve :: "string \<Rightarrow> int \<Rightarrow> session_budget \<Rightarrow> session_budget outcome" where
  "reserve asset cap b =
     ebind (budgetCeilingFor b asset) (\<lambda>limit.
       let committed = budgetSpentFor b asset + reservedFor b asset in
       if committed + cap > limit
       then Inl (Payer (SessionCeilingExceededError asset cap committed limit))
       else Inr (b\<lparr>sb_reserved := (sb_reserved b)(asset \<mapsto> reservedFor b asset + cap),
                   sb_observed := sb_observed b @ [(asset, cap)]\<rparr>))"

definition settle :: "string \<Rightarrow> receipt \<Rightarrow> session_budget \<Rightarrow> session_budget outcome" where
  "settle asset r b =
     ebind (budgetCeilingFor b asset) (\<lambda>_.
       let b1 = dropReservation asset (rp_authorizedCeiling r) b in
       Inr (b1\<lparr>sb_spent := (sb_spent b1)(asset \<mapsto> budgetSpentFor b1 asset + rp_settledAmount r)\<rparr>))"

definition release :: "string \<Rightarrow> int \<Rightarrow> session_budget \<Rightarrow> session_budget outcome" where
  "release asset cap b =
     ebind (budgetCeilingFor b asset) (\<lambda>_. Inr (dropReservation asset cap b))"

definition positive_part :: "int \<Rightarrow> int" where
  "positive_part n = (if n > 0 then n else 0)"

definition budgetRemainingFor :: "session_budget \<Rightarrow> string \<Rightarrow> int outcome" where
  "budgetRemainingFor b asset =
     ebind (budgetCeilingFor b asset) (\<lambda>limit.
       Inr (positive_part (limit - (budgetSpentFor b asset + reservedFor b asset))))"

definition budgetSnapshot :: "session_budget \<Rightarrow> budget_row_snapshot list" where
  "budgetSnapshot b = map (\<lambda>(asset, cap).
     let s = budgetSpentFor b asset; r = reservedFor b asset in
     \<lparr>br_asset = asset, br_spent = show_int s, br_reserved = show_int r, br_ceiling = show_int cap,
      br_remaining = show_int (positive_part (cap - (s + r)))\<rparr>) (sb_ceilings b)"

section \<open>What a payment costs\<close>

datatype spend_outcome = SettledSpend receipt | IndeterminateSpend string | NotSpentSpend string

datatype debit_basis = BasisSettled | BasisCeiling | BasisNone

definition resolveSpendDebit :: "spend_outcome \<Rightarrow> int \<Rightarrow> int \<times> debit_basis \<times> string" where
  "resolveSpendDebit out cap =
     (case out of
        SettledSpend r \<Rightarrow> (rp_settledAmount r, BasisSettled,
          ''confirmed settlement debited the metered amount, not the ceiling'')
      | IndeterminateSpend reason \<Rightarrow> (cap, BasisCeiling,
          ''no confirmed settled figure, so the authorized ceiling is debited: '' @ reason)
      | NotSpentSpend reason \<Rightarrow> (0, BasisNone, reason))"

definition formatSettlementReceiptLines :: "(rat \<Rightarrow> string) \<Rightarrow> receipt \<Rightarrow> string option \<Rightarrow> string list" where
  "formatSettlementReceiptLines num r assetLabel =
     (let label = (case assetLabel of None \<Rightarrow> rp_asset r | Some l \<Rightarrow> l) in
      [''Authorized: '' @ show_int (rp_authorizedCeiling r) @ '' base units of '' @ label,
       ''Settled:    '' @ show_int (rp_settledAmount r) @ '' base units of '' @ label,
       (case rp_source r of
          CeilingFallback \<Rightarrow>
            ''            (the facilitator reported no settled amount; the authorized ceiling is shown as the charge)''
        | CeilingClamped \<Rightarrow>
            ''            (the facilitator reported more than the authorized ceiling, which '' @ rp_asset r @
            '' bounds on-chain; the figure was clamped down to the ceiling)''
        | Facilitator \<Rightarrow>
            if rp_settledBelowCeiling r then
              ''            (settled '' @ show_int (rp_unusedCeiling r) @ '' base units below the authorized ceiling)''
            else ''            (settled in full)''),
       ''Settlement: '' @ to_string num (rp_transaction r)])"

section \<open>Facts about receipts\<close>

lemma parseSettledAmount_nonneg: "parseSettledAmount num v = Some n \<Longrightarrow> 0 \<le> n"
proof (cases v)
  case (JStr s)
  assume "parseSettledAmount num v = Some n"
  then show ?thesis
    by (auto simp: JStr parseSettledAmount_def toBigInt_def BigInt_digits all_digits_def digits_val_nonneg
        split: if_splits)
next
  case (JArr vs)
  assume "parseSettledAmount num v = Some n"
  then have "all_digits (to_string num v)" "BigInt (to_string num v) = Some n"
    by (auto simp: JArr parseSettledAmount_def toBigInt_def split: if_splits)
  then show ?thesis by (auto simp: BigInt_digits all_digits_def digits_val_nonneg)
qed (auto simp: parseSettledAmount_def all_digits_def is_digit_def split: if_splits)

lemma receipt_within:
  assumes "buildSettlementReceipt num cap raw tx payer asset network = Inr r"
  shows "rp_authorizedCeiling r = cap \<and> 0 \<le> rp_settledAmount r \<and> rp_settledAmount r \<le> cap \<and>
    rp_unusedCeiling r = cap - rp_settledAmount r \<and> rp_transaction r = tx \<and>
    (case parseSettledAmount num raw of
       None \<Rightarrow> rp_settledAmount r = cap \<and> rp_source r = CeilingFallback
     | Some n \<Rightarrow> rp_settledAmount r = min n cap \<and>
         rp_source r = (if n \<le> cap then Facilitator else CeilingClamped))"
  using assms parseSettledAmount_nonneg
  by (auto simp: buildSettlementReceipt_def Let_def split: if_splits option.splits)

section \<open>A client that keeps to the protocol\<close>

text \<open>
  The budget, the reservations in flight, and per asset the total of the amounts the receipts showed.
\<close>

record budget_client =
  bc_budget :: session_budget
  bc_open :: "(string \<times> int) multiset"
  bc_paid :: "string \<Rightarrow> int"

definition outstanding :: "(string \<times> int) multiset \<Rightarrow> string \<Rightarrow> int" where
  "outstanding M asset = (\<Sum>x \<in># M. if fst x = asset then snd x else 0)"

lemma outstanding_simps [simp]:
  "outstanding {#} asset = 0"
  "outstanding (add_mset (a, c) M) asset = (if a = asset then c else 0) + outstanding M asset"
  by (simp_all add: outstanding_def)

inductive budget_step :: "(rat \<Rightarrow> string) \<Rightarrow> budget_client \<Rightarrow> budget_client \<Rightarrow> bool" for num where
  step_reserve: "0 \<le> cap \<Longrightarrow> reserve asset cap (bc_budget s) = Inr b \<Longrightarrow>
    budget_step num s (s\<lparr>bc_budget := b, bc_open := add_mset (asset, cap) (bc_open s)\<rparr>)"
| step_settle: "bc_open s = add_mset (asset, cap) M \<Longrightarrow>
    buildSettlementReceipt num cap raw tx payer asset network = Inr r \<Longrightarrow>
    settle asset r (bc_budget s) = Inr b \<Longrightarrow>
    budget_step num s (s\<lparr>bc_budget := b, bc_open := M,
      bc_paid := (bc_paid s)(asset := bc_paid s asset + rp_settledAmount r)\<rparr>)"
| step_release: "bc_open s = add_mset (asset, cap) M \<Longrightarrow> release asset cap (bc_budget s) = Inr b \<Longrightarrow>
    budget_step num s (s\<lparr>bc_budget := b, bc_open := M\<rparr>)"

inductive_cases budget_stepE: "budget_step num s t"

definition budget_init :: "(string \<times> int) list \<Rightarrow> budget_client \<Rightarrow> bool" where
  "budget_init ceilings s =
     (s = \<lparr>bc_budget = createSessionBudget ceilings, bc_open = {#}, bc_paid = (\<lambda>_. 0)\<rparr> \<and>
      (\<forall>(asset, c) \<in> set ceilings. 0 \<le> c))"

definition budget_inv :: "(string \<times> int) list \<Rightarrow> budget_client \<Rightarrow> bool" where
  "budget_inv ceilings s =
     (sb_ceilings (bc_budget s) = ceilings \<and> (\<forall>x \<in># bc_open s. 0 \<le> snd x) \<and>
      (\<forall>asset. budgetSpentFor (bc_budget s) asset = bc_paid s asset \<and>
         reservedFor (bc_budget s) asset = outstanding (bc_open s) asset \<and>
         (\<forall>c. map_of ceilings asset = Some c \<longrightarrow> bc_paid s asset + outstanding (bc_open s) asset \<le> c)))"

lemma outstanding_nonneg: "\<forall>x \<in># M. 0 \<le> snd x \<Longrightarrow> 0 \<le> outstanding M asset"
  by (induction M) (auto simp: outstanding_def)

lemma budget_inv_init: "budget_init ceilings s \<Longrightarrow> budget_inv ceilings s"
  by (auto simp: budget_init_def budget_inv_def createSessionBudget_def budgetSpentFor_def reservedFor_def
      dest!: map_of_SomeD)

lemma dropReservation_simps [simp]:
  "sb_ceilings (dropReservation asset c b) = sb_ceilings b"
  "sb_spent (dropReservation asset c b) = sb_spent b"
  "reservedFor (dropReservation asset c b) k =
     (if k = asset then (if reservedFor b asset \<ge> c then reservedFor b asset - c else 0) else reservedFor b k)"
  "budgetSpentFor (dropReservation asset c b) k = budgetSpentFor b k"
  by (simp_all add: dropReservation_def reservedFor_def budgetSpentFor_def Let_def)

lemma reserve_Inr:
  "reserve asset c b = Inr b' \<longleftrightarrow>
     (\<exists>limit. map_of (sb_ceilings b) asset = Some limit \<and> budgetSpentFor b asset + reservedFor b asset + c \<le> limit \<and>
       b' = b\<lparr>sb_reserved := (sb_reserved b)(asset \<mapsto> reservedFor b asset + c),
              sb_observed := sb_observed b @ [(asset, c)]\<rparr>)"
  by (auto simp: reserve_def budgetCeilingFor_def Let_def split: option.splits)

lemma budget_inv_step: "budget_step num s t \<Longrightarrow> budget_inv ceilings s \<Longrightarrow> budget_inv ceilings t"
proof (elim budget_stepE)
  fix cap asset b assume inv: "budget_inv ceilings s" and r: "0 \<le> cap" "reserve asset cap (bc_budget s) = Inr b"
    and t: "t = s\<lparr>bc_budget := b, bc_open := add_mset (asset, cap) (bc_open s)\<rparr>"
  show "budget_inv ceilings t"
    using inv r(1) r(2) [unfolded reserve_Inr]
    by (auto simp: t budget_inv_def budgetSpentFor_def reservedFor_def)
next
  fix asset cap M raw tx payer network r b
  assume inv: "budget_inv ceilings s" and o: "bc_open s = add_mset (asset, cap) M"
    and built: "buildSettlementReceipt num cap raw tx payer asset network = Inr r"
    and b: "settle asset r (bc_budget s) = Inr b"
    and t: "t = s\<lparr>bc_budget := b, bc_open := M,
      bc_paid := (bc_paid s)(asset := bc_paid s asset + rp_settledAmount r)\<rparr>"
  have point: "budgetSpentFor (bc_budget s) k = bc_paid s k"
    "reservedFor (bc_budget s) k = (if asset = k then cap else 0) + outstanding M k"
    "map_of ceilings k = Some c \<Longrightarrow> bc_paid s k + ((if asset = k then cap else 0) + outstanding M k) \<le> c" for k c
    using inv o by (auto simp: budget_inv_def)
  note w = receipt_within [OF built]
  let ?d = "dropReservation asset cap (bc_budget s)"
  have b': "b = ?d\<lparr>sb_spent := (sb_spent ?d)(asset \<mapsto> budgetSpentFor ?d asset + rp_settledAmount r)\<rparr>"
    using b w by (auto simp: settle_def Let_def result_splits)
  have res: "reservedFor b k = reservedFor ?d k" for k by (simp add: b' reservedFor_def)
  have sp: "budgetSpentFor b k = budgetSpentFor (bc_budget s) k + (if k = asset then rp_settledAmount r else 0)" for k
    using dropReservation_simps(4) [of asset cap "bc_budget s" asset] by (simp add: b' budgetSpentFor_def)
  have "0 \<le> outstanding M asset" using inv o by (auto simp: budget_inv_def intro: outstanding_nonneg)
  moreover have "sb_ceilings b = sb_ceilings (bc_budget s)" by (simp add: b')
  moreover have "bc_paid t k + outstanding M k \<le> c" if "map_of ceilings k = Some c" for k c
    using point [of k] that w by (auto simp: t split: if_splits)
  ultimately show "budget_inv ceilings t"
    using inv point by (auto simp: t budget_inv_def res sp o)
next
  fix asset cap M b
  assume inv: "budget_inv ceilings s" and o: "bc_open s = add_mset (asset, cap) M"
    and b: "release asset cap (bc_budget s) = Inr b" and t: "t = s\<lparr>bc_budget := b, bc_open := M\<rparr>"
  have cap: "0 \<le> cap" using inv o by (simp add: budget_inv_def)
  have point: "budgetSpentFor (bc_budget s) k = bc_paid s k"
    "reservedFor (bc_budget s) k = (if asset = k then cap else 0) + outstanding M k"
    "map_of ceilings k = Some c \<Longrightarrow> bc_paid s k + ((if asset = k then cap else 0) + outstanding M k) \<le> c" for k c
    using inv o by (auto simp: budget_inv_def)
  have b': "b = dropReservation asset cap (bc_budget s)"
    using b by (auto simp: release_def result_splits)
  have "0 \<le> outstanding M asset" using inv o by (auto simp: budget_inv_def intro: outstanding_nonneg)
  moreover have "bc_paid t k + outstanding M k \<le> c" if "map_of ceilings k = Some c" for k c
    using point [of k] that cap by (auto simp: t split: if_splits)
  ultimately show "budget_inv ceilings t"
    using inv point by (auto simp: t b' budget_inv_def o)
qed

interpretation session_budgets: preserved "budget_init ceilings" "budget_step num" "budget_inv ceilings"
  for ceilings num
  by unfold_locales (auto simp: budget_inv_init budget_inv_step)

section \<open>The two base64 decoders\<close>

lemma bits_value_append: "bits_value (a @ b) = bits_value a * 2 ^ length b + bits_value b"
proof (induction b rule: rev_induct)
  case (snoc x b)
  have "bits_value (a @ b @ [x]) = 2 * bits_value (a @ b) + x" "bits_value (b @ [x]) = 2 * bits_value b + x"
    by (simp_all add: bits_value_def)
  then show ?case using snoc by (simp add: algebra_simps)
qed (simp add: bits_value_def)

lemma length_six_bits [simp]: "length (six_bits n) = 6"
  by (simp add: six_bits_def)

lemma bit_step:
  fixes n :: nat
  shows "2 * (n div 32) + n div 16 mod 2 = n div 16" "2 * (n div 16) + n div 8 mod 2 = n div 8"
    "2 * (n div 8) + n div 4 mod 2 = n div 4" "2 * (n div 4) + n div 2 mod 2 = n div 2"
    "2 * (n div 2) + n mod 2 = n"
  using mult_div_mod_eq [of 2 "n div 16"] mult_div_mod_eq [of 2 "n div 8"] mult_div_mod_eq [of 2 "n div 4"]
    mult_div_mod_eq [of 2 "n div 2"]
  by (simp_all add: div_mult2_eq [symmetric])

lemma six_bits_values:
  assumes "n < 64"
  shows "bits_value (six_bits n) = n" "bits_value (take 2 (six_bits n)) = n div 16"
    "bits_value (take 4 (six_bits n)) = n div 4"
    "bits_value (drop 2 (six_bits n)) = n mod 16" "bits_value (drop 4 (six_bits n)) = n mod 4"
proof -
  have top: "n div 32 mod 2 = n div 32" using assms by simp
  show all: "bits_value (six_bits n) = n" and two: "bits_value (take 2 (six_bits n)) = n div 16"
    and four: "bits_value (take 4 (six_bits n)) = n div 4"
    by (simp_all add: six_bits_def bits_value_def top bit_step del: mod_div_trivial)
  have split: "n = bits_value (take k (six_bits n)) * 2 ^ (6 - k) + bits_value (drop k (six_bits n))" for k
    using bits_value_append [of "take k (six_bits n)" "drop k (six_bits n)"] all by simp
  show "bits_value (drop 2 (six_bits n)) = n mod 16" "bits_value (drop 4 (six_bits n)) = n mod 4"
    using split [of 2] split [of 4] two four minus_div_mult_eq_mod [of n 16] minus_div_mult_eq_mod [of n 4]
    by (simp_all del: minus_div_mult_eq_mod, metis diff_add_inverse, metis diff_add_inverse)
qed

lemma take_drop_append: "take k l @ drop k l @ r = l @ r"
  by (metis append.assoc append_take_drop_id)

lemma byte_groups_Cons: "length b = 8 \<Longrightarrow> byte_groups (b @ rest) = bits_value b # byte_groups rest"
  by (simp add: byte_groups.simps [of "b @ rest"])

lemma byte_groups_split:
  assumes "w < 64" "x < 64"
  shows "byte_groups (six_bits w @ six_bits x @ rest) = (w * 4 + x div 16) # byte_groups (drop 2 (six_bits x) @ rest)"
  using byte_groups_Cons [of "six_bits w @ take 2 (six_bits x)" "drop 2 (six_bits x) @ rest"] assms
  by (simp add: bits_value_append six_bits_values take_drop_append)

lemma byte_groups_octets:
  "list_all (\<lambda>n. n < 64) xs \<Longrightarrow> byte_groups (concat (map six_bits xs)) = octets xs"
proof (induction xs rule: octets.induct)
  case (3 w x)
  then show ?case using byte_groups_split [of w x "[]"] by (simp add: byte_groups.simps)
next
  case (4 w x y)
  then show ?case
    using byte_groups_split [of w x "six_bits y"]
      byte_groups_Cons [of "drop 2 (six_bits x) @ take 4 (six_bits y)" "drop 4 (six_bits y)"]
    by (simp add: bits_value_append six_bits_values byte_groups.simps [of "drop 4 (six_bits y)"])
next
  case (5 w x y z xs)
  let ?rest = "concat (map six_bits xs)"
  show ?case
    using 5 byte_groups_split [of w x "six_bits y @ six_bits z @ ?rest"]
      byte_groups_Cons [of "drop 2 (six_bits x) @ take 4 (six_bits y)" "drop 4 (six_bits y) @ six_bits z @ ?rest"]
      byte_groups_Cons [of "drop 4 (six_bits y) @ six_bits z" ?rest]
    by (simp add: bits_value_append six_bits_values take_drop_append)
qed (simp_all add: byte_groups.simps)

lemma strip_pad_pieces: "\<exists>pad. s = strip_pad s @ pad \<and> set pad \<subseteq> {CHR ''=''}"
proof (cases "length s mod 4 \<noteq> 0 \<or> s = [] \<or> last s \<noteq> CHR ''=''")
  case False
  then have s: "s = butlast s @ [CHR ''='']" by (metis append_butlast_last_id)
  show ?thesis
  proof (cases "butlast s \<noteq> [] \<and> last (butlast s) = CHR ''=''")
    case True
    then have "butlast s = butlast (butlast s) @ [CHR ''='']" by (metis append_butlast_last_id)
    then have "s = butlast (butlast s) @ [CHR ''='', CHR ''='']" using s by (metis append.assoc append_Cons append_Nil)
    then show ?thesis using False True by (intro exI [of _ "[CHR ''='', CHR ''='']"]) (simp add: strip_pad_def)
  next
    case no: False
    then show ?thesis using False s by (intro exI [of _ "[CHR ''='']"]) (auto simp: strip_pad_def)
  qed
qed (auto simp: strip_pad_def)

lemma b64_index_range: "b64_index c = Some i \<Longrightarrow> i < 64"
  by (auto simp: b64_index_def Let_def split: if_splits)

section \<open>The properties of the component\<close>

text \<open>
  The decoder for hosts without \<open>atob\<close> computes, bit by bit, exactly what \<open>atob\<close> computes on every
  text without white space that \<open>atob\<close> accepts.
\<close>

theorem base64_decoders_agree:
  assumes "atob v = Some bs" and "list_all (\<lambda>c. \<not> is_ascii_ws c) v"
  shows "decodeBits v = Some bs"
proof -
  let ?t = "strip_pad v"
  have f: "filter (\<lambda>c. \<not> is_ascii_ws c) v = v" using assms(2) by (simp add: list_all_iff)
  then have valid: "list_all (\<lambda>c. b64_index c \<noteq> None) ?t" and bs: "bs = octets (map (\<lambda>c. the (b64_index c)) ?t)"
    using assms(1) by (auto simp: atob_def Let_def split: if_splits)
  obtain pad where v: "v = ?t @ pad" "set pad \<subseteq> {CHR ''=''}" using strip_pad_pieces by blast
  have no: "b64_index CHR ''='' = None" by (simp add: b64_index_def)
  have ending: "?t \<noteq> [] \<longrightarrow> last ?t \<noteq> CHR ''=''"
  proof (intro impI notI)
    assume ne: "?t \<noteq> []" and eq: "last ?t = CHR ''=''"
    have "b64_index (last ?t) \<noteq> None" using valid last_in_set [OF ne] unfolding list_all_iff by blast
    then show False using no unfolding eq by blast
  qed
  have "dropWhile (\<lambda>c. c = CHR ''='') (rev pad @ rev ?t) = rev ?t"
    using v(2) ending by (subst dropWhile_append2) (auto simp: dropWhile_eq_self_iff hd_rev)
  then have "rev (dropWhile (\<lambda>c. c = CHR ''='') (rev v)) = ?t"
    by (subst v(1)) simp
  moreover have "list_all (\<lambda>n. n < 64) (map (\<lambda>c. the (b64_index c)) ?t)"
    using valid b64_index_range by (fastforce simp: list_all_iff)
  ultimately show ?thesis
    using byte_groups_octets [of "map (\<lambda>c. the (b64_index c)) ?t"] valid bs
    by (simp add: decodeBits_def Let_def comp_def)
qed

theorem base64_decoders_agree_witness: "decodeBits ''aGk='' = Some [104, 105]"
  by (rule base64_decoders_agree)
    (simp_all add: atob_def strip_pad_def is_ascii_ws_def b64_index_def)

text \<open>
  A receipt is issued exactly for a settle header with a 64-digit hexadecimal hash that is not marked
  as failed. It charges what the facilitator reported when that is a decimal amount up to the
  ceiling, and the ceiling in every other case, saying which; the charge is never above the ceiling
  and the unused part is the difference.
\<close>

theorem receipt_charges_at_most_the_ceiling:
  assumes "settlementReceiptFromResponse env res cap asset network = Inr (Some r)"
  shows "\<exists>settle. decodeSettleResult env res = settle \<and> jprop settle ''success'' \<noteq> JBool False \<and>
    is_hex64 (to_string (re_number env) (rp_transaction r)) \<and> rp_authorizedCeiling r = cap \<and>
    0 \<le> rp_settledAmount r \<and> rp_settledAmount r + rp_unusedCeiling r = cap \<and> 0 \<le> rp_unusedCeiling r \<and>
    (case parseSettledAmount (re_number env) (jprop settle ''amount'') of
       None \<Rightarrow> rp_settledAmount r = cap \<and> rp_source r = CeilingFallback
     | Some n \<Rightarrow> rp_settledAmount r = min n cap \<and>
         rp_source r = (if n \<le> cap then Facilitator else CeilingClamped))"
proof -
  let ?settle = "decodeSettleResult env res"
  obtain tx payer where b: "buildSettlementReceipt (re_number env) cap (jprop ?settle ''amount'') tx payer asset network = Inr r"
    and ok: "jprop ?settle ''success'' \<noteq> JBool False" "is_hex64 (to_string (re_number env) tx)"
    using assms by (auto simp: settlementReceiptFromResponse_def Let_def map_sum_def split: if_splits sum.splits)
  then show ?thesis using receipt_within [OF b] by auto
qed


definition sample_header :: response where
  "sample_header = \<lparr>rs_status = 200, rs_headers = [(''X-PAYMENT-RESPONSE'', ''e30='')], rs_body = Inr []\<rparr>"

definition sample_receipts :: receipt_env where
  "sample_receipts = \<lparr>re_parse = (\<lambda>t. Some (JObj [(''success'', JBool True),
       (''transaction'', JStr (replicate 64 CHR ''a'')), (''amount'', JStr ''40'')])),
     re_number = (\<lambda>q. []), re_atob = True\<rparr>"

theorem receipt_charges_at_most_the_ceiling_witness:
  "\<exists>r. settlementReceiptFromResponse sample_receipts sample_header 100 ''CUSDC'' ''stellar:testnet'' = Inr (Some r) \<and>
     rp_settledAmount r = 40 \<and> rp_unusedCeiling r = 60"
proof -
  have d: "decodeSettleResult sample_receipts sample_header = JObj [(''success'', JBool True),
       (''transaction'', JStr (replicate 64 CHR ''a'')), (''amount'', JStr ''40'')]"
    by (simp add: decodeSettleResult_def sample_header_def sample_receipts_def settleHeader_def headers_get_def
        decodeBase64Utf8_def atob_def strip_pad_def is_ascii_ws_def b64_index_def toLowerCase_def to_lower_char_def)
  have p: "parseSettledAmount num (JStr ''40'') = Some 40" for num
    by (simp add: parseSettledAmount_def toBigInt_def BigInt_digits all_digits_def is_digit_def digits_val_def digit_val_def)
  have h: "is_hex64 (replicate 64 CHR ''a'')" by (simp add: is_hex64_def list_all_iff is_hex_def)
  obtain r where r: "settlementReceiptFromResponse sample_receipts sample_header 100 ''CUSDC'' ''stellar:testnet'' = Inr (Some r)"
    by (simp add: settlementReceiptFromResponse_def d or_else_def is_nullish_def h buildSettlementReceipt_def p Let_def)
  then show ?thesis
    using receipt_charges_at_most_the_ceiling [OF r] by (auto simp: d p)
qed

definition sample_budget_open :: budget_client where
  "sample_budget_open = \<lparr>bc_budget = (createSessionBudget [(''CUSDC'', 100)])
     \<lparr>sb_reserved := [''CUSDC'' \<mapsto> 60], sb_observed := [(''CUSDC'', 60)]\<rparr>,
     bc_open = {#(''CUSDC'', 60)#}, bc_paid = (\<lambda>_. 0)\<rparr>"


text \<open>
  The floor in \<open>dropReservation\<close> does not protect other payments: settling a payment that was never
  reserved takes the reservation of one that was, and the freed budget can be reserved again. Here
  100 is the ceiling, 60 are in flight, an unreserved payment settles for nothing, and another 60 pass.
\<close>

lemma unreserved_settle_frees_budget:
  "\<exists>b1 b2 b3 r. reserve ''CUSDC'' 60 (createSessionBudget [(''CUSDC'', 100)]) = Inr b1 \<and>
     buildSettlementReceipt num 60 (JStr ''0'') JNull JUndefined ''CUSDC'' ''stellar:testnet'' = Inr r \<and>
     settle ''CUSDC'' r b1 = Inr b2 \<and> reserve ''CUSDC'' 60 b2 = Inr b3"
proof -
  have p: "parseSettledAmount num (JStr ''0'') = Some 0"
    by (simp add: parseSettledAmount_def toBigInt_def BigInt_digits all_digits_def is_digit_def digits_val_def digit_val_def)
  show ?thesis
    by (simp add: reserve_Inr createSessionBudget_def budgetSpentFor_def reservedFor_def buildSettlementReceipt_def p
        settle_def budgetCeilingFor_def dropReservation_def Let_def)
qed

end
