(* ===== verification/Rollback.thy ===== *)
theory Rollback
  imports Errors
begin

text \<open>
  Policy deployment as a saga with compensating rollback
  (\<open>contrib/examples/issue-219-policy-deploy-rollback/policy-deploy-rollback.ts\<close>).

  A step is an action on a world, with an optional action that undoes it; the runner
  \<open>runDeploymentWithRollback\<close> is generic in both. The saga's own world is the trace of the calls of the
  deployment service, which answers as a parameter says. The locale \<open>reversible_steps\<close> is what a step
  promises the runner; the saga's steps interpret it, with the resources the trace leaves alive as what
  is observed.
\<close>

section \<open>The runner\<close>

record ('w, 's) step =
  st_name :: string
  st_run :: "'s \<Rightarrow> ('w, js_error, 's) act"
  st_compensate :: "('s \<Rightarrow> ('w, js_error, unit) act) option"

record rollback_outcome =
  ro_step :: string
  ro_ok :: bool
  ro_error :: "js_error option"

record rollback_failure =
  rf_cause :: js_error
  rf_completedSteps :: "string list"
  rf_rollback :: "rollback_outcome list"

definition fullyRolledBack :: "rollback_failure \<Rightarrow> bool" where
  "fullyRolledBack f = list_all ro_ok (rf_rollback f)"

text \<open>What the logger is told.\<close>

datatype deploy_log =
    StepCompleted string
  | StepFailed string js_error "string list"
  | RolledBack string
  | RollbackFailed string js_error

type_synonym 'w logged = "'w \<times> deploy_log list"

text \<open>The completed steps, the last one first; a failed compensation is recorded and the rest go on.\<close>

fun compensate :: "(('w, 's) step \<times> 's) list \<Rightarrow> 'w logged \<Rightarrow> rollback_outcome list \<times> 'w logged" where
  "compensate [] w = ([], w)"
| "compensate ((step, after) # rest) (w, logs) =
     (case st_compensate step of
        None \<Rightarrow> compensate rest (w, logs)
      | Some undo \<Rightarrow>
          (case undo after w of
             (Inr _, w1) \<Rightarrow>
               (case compensate rest (w1, logs @ [RolledBack (st_name step)]) of (outcomes, w2) \<Rightarrow>
                 (\<lparr>ro_step = st_name step, ro_ok = True, ro_error = None\<rparr> # outcomes, w2))
           | (Inl e, w1) \<Rightarrow>
               (case compensate rest (w1, logs @ [RollbackFailed (st_name step) e]) of (outcomes, w2) \<Rightarrow>
                 (\<lparr>ro_step = st_name step, ro_ok = False, ro_error = Some e\<rparr> # outcomes, w2))))"

fun run_steps ::
    "('w, 's) step list \<Rightarrow> 's \<Rightarrow> (('w, 's) step \<times> 's) list \<Rightarrow> 'w logged \<Rightarrow> (rollback_failure + 's) \<times> 'w logged" where
  "run_steps [] state completed w = (Inr state, w)"
| "run_steps (step # steps) state completed (w, logs) =
     (case st_run step state w of
        (Inr state1, w1) \<Rightarrow>
          run_steps steps state1 (completed @ [(step, state1)]) (w1, logs @ [StepCompleted (st_name step)])
      | (Inl e, w1) \<Rightarrow>
          (let names = map (\<lambda>c. st_name (fst c)) completed in
           case compensate (rev completed) (w1, logs @ [StepFailed (st_name step) e names]) of (outcomes, w2) \<Rightarrow>
             (Inl \<lparr>rf_cause = e, rf_completedSteps = names, rf_rollback = outcomes\<rparr>, w2)))"

definition runDeploymentWithRollback ::
    "('w, 's) step list \<Rightarrow> 's \<Rightarrow> 'w logged \<Rightarrow> (rollback_failure + 's) \<times> 'w logged" where
  "runDeploymentWithRollback steps initial = run_steps steps initial []"

section \<open>What a step promises\<close>

text \<open>
  A failed step changes nothing that is observed; a compensation that succeeds, run where the step's
  effect is what is observed, takes it back. A step without a compensation has no effect, unless it
  is the last one.
\<close>

definition undoes :: "('w \<Rightarrow> 'o) \<Rightarrow> ('w, 's) step \<Rightarrow> 'o \<Rightarrow> 's \<Rightarrow> 'o \<Rightarrow> bool" where
  "undoes obs step before after now =
     (case st_compensate step of
        None \<Rightarrow> now = before
      | Some undo \<Rightarrow> \<forall>w u w'. obs w = now \<longrightarrow> undo after w = (Inr u, w') \<longrightarrow> obs w' = before)"

locale reversible_steps =
  fixes obs :: "'w \<Rightarrow> 'o" and steps :: "('w, 's) step list" and valid :: "nat \<Rightarrow> 's \<Rightarrow> bool"
  assumes failed_step: "i < length steps \<Longrightarrow> valid i s \<Longrightarrow> st_run (steps ! i) s w = (Inl e, w') \<Longrightarrow> obs w' = obs w"
    and done_step: "Suc i < length steps \<Longrightarrow> valid i s \<Longrightarrow> st_run (steps ! i) s w = (Inr s', w') \<Longrightarrow>
      valid (Suc i) s' \<and> undoes obs (steps ! i) (obs w) s' (obs w')"
begin

text \<open>The completed steps lead back from what is observed now to what was observed at the start.\<close>

fun unwinds :: "(('w, 's) step \<times> 's) list \<Rightarrow> 'o \<Rightarrow> 'o \<Rightarrow> bool" where
  "unwinds [] now start = (now = start)"
| "unwinds ((step, after) # rest) now start = (\<exists>before. undoes obs step before after now \<and> unwinds rest before start)"

lemma compensate_unwinds:
  "unwinds completed (obs w) start \<Longrightarrow> compensate completed (w, logs) = (outcomes, (w', logs')) \<Longrightarrow>
   list_all ro_ok outcomes \<Longrightarrow> obs w' = start"
proof (induction completed arbitrary: w logs outcomes)
  case (Cons c rest)
  obtain step after where c: "c = (step, after)" by (cases c)
  obtain before where b: "undoes obs step before after (obs w)" "unwinds rest before start"
    using Cons.prems(1) by (auto simp: c)
  show ?case
  proof (cases "st_compensate step")
    case None
    then show ?thesis using Cons b by (auto simp: c undoes_def)
  next
    case (Some undo)
    obtain r w1 where u: "undo after w = (r, w1)" by fastforce
    show ?thesis
    proof (cases r)
      case (Inl e)
      then show ?thesis using Cons.prems(2,3) Some u by (auto simp: c split: prod.splits)
    next
      case (Inr x)
      obtain outs w2 where c2: "compensate rest (w1, logs @ [RolledBack (st_name step)]) = (outs, w2)"
        by (cases "compensate rest (w1, logs @ [RolledBack (st_name step)])")
      have "compensate (c # rest) (w, logs) =
          (\<lparr>ro_step = st_name step, ro_ok = True, ro_error = None\<rparr> # outs, w2)"
        using Some u Inr c2 by (simp add: c)
      then have "outcomes = \<lparr>ro_step = st_name step, ro_ok = True, ro_error = None\<rparr> # outs" "w2 = (w', logs')"
        using Cons.prems(2) by simp_all
      then have rest: "compensate rest (w1, logs @ [RolledBack (st_name step)]) = (outs, (w', logs'))" "list_all ro_ok outs"
        using Cons.prems(3) c2 by simp_all
      have "obs w1 = before" using b(1) u unfolding undoes_def Some Inr option.case by blast
      then show ?thesis using Cons.IH [of w1, OF _ rest] b(2) by simp
    qed
  qed
qed simp

lemma run_steps_unwinds:
  assumes "i \<le> length steps" "valid i s" "unwinds (rev completed) (obs w) start"
    and "run_steps (drop i steps) s completed (w, logs) = (Inl f, (w', logs'))" "fullyRolledBack f"
  shows "obs w' = start"
  using assms
proof (induction "length steps - i" arbitrary: i s completed w logs)
  case 0
  then show ?case by simp
next
  case (Suc n)
  then have i: "i < length steps" by simp
  note drop = Cons_nth_drop_Suc [OF i, symmetric]
  obtain r w1 where run: "st_run (steps ! i) s w = (r, w1)" by fastforce
  show ?case
  proof (cases r)
    case (Inl e)
    have "obs w1 = obs w" using failed_step [OF i Suc.prems(2)] run Inl by simp
    then show ?thesis
      using Suc.prems(3-5) run Inl compensate_unwinds [of "rev completed" w1 start]
      by (auto simp: drop Let_def fullyRolledBack_def split: prod.splits)
  next
    case (Inr s1)
    have rest: "run_steps (drop (Suc i) steps) s1 (completed @ [(steps ! i, s1)])
        (w1, logs @ [StepCompleted (st_name (steps ! i))]) = (Inl f, (w', logs'))"
      using Suc.prems(4) run Inr by (simp add: drop)
    then have "Suc i < length steps" using i by (cases "Suc i = length steps") auto
    from done_step [OF this Suc.prems(2)] run Inr
    have ok: "valid (Suc i) s1" "undoes obs (steps ! i) (obs w) s1 (obs w1)" by simp_all
    show ?thesis
      by (rule Suc.hyps(1) [OF _ _ ok(1) _ rest Suc.prems(5)]) (use Suc ok i in auto)
  qed
qed

lemma rollback_restores:
  assumes "valid 0 s" "runDeploymentWithRollback steps s (w, logs) = (Inl f, (w', logs'))" "fullyRolledBack f"
  shows "obs w' = obs w"
  using run_steps_unwinds [of 0 s "[]" w "obs w" logs f w' logs'] assms
  by (simp add: runDeploymentWithRollback_def)

end

section \<open>The policy deployment\<close>

record generated_policy =
  gp_id :: string
  gp_status :: string

record deployment_state =
  ds_definition :: json
  ds_wallet :: string
  ds_txHash :: string
  ds_policyId :: "string option"
  ds_contractId :: "string option"
  ds_policy :: "generated_policy option"

datatype api_event =
    Generate json "string + generated_policy"
  | Simulate string string "string + (bool \<times> string option)"
  | DeployInstance string string "string + string"
  | RecordDeployment string string "string option" "string + generated_policy"
  | DeletePolicy string "string + unit"
  | RevokeInstance string string "string + unit"

record deploy_api =
  da_generate :: "api_event list \<Rightarrow> json \<Rightarrow> string + generated_policy"
  da_simulate :: "api_event list \<Rightarrow> string \<Rightarrow> string \<Rightarrow> string + (bool \<times> string option)"
  da_deployInstance :: "api_event list \<Rightarrow> string \<Rightarrow> string \<Rightarrow> string + string"
  da_recordDeployment :: "api_event list \<Rightarrow> string \<Rightarrow> string \<Rightarrow> string option \<Rightarrow> string + generated_policy"
  da_deletePolicy :: "api_event list \<Rightarrow> string \<Rightarrow> string + unit"
  da_revokeInstance :: "api_event list \<Rightarrow> string \<Rightarrow> string \<Rightarrow> string + unit"

text \<open>\<open>state.policyId!\<close> of a state that has none is \<open>undefined\<close>.\<close>

definition policy_of :: "deployment_state \<Rightarrow> string" where
  "policy_of s = (case ds_policyId s of None \<Rightarrow> ''undefined'' | Some i \<Rightarrow> i)"

definition step_generate :: "deploy_api \<Rightarrow> (api_event list, deployment_state) step" where
  "step_generate api = \<lparr>st_name = ''generate'',
     st_run = (\<lambda>s. andThen (loggedCall (\<lambda>tr. da_generate api tr (ds_definition s)) (Generate (ds_definition s))) (\<lambda>p.
       ret (s\<lparr>ds_policyId := Some (gp_id p), ds_policy := Some p\<rparr>))),
     st_compensate = Some (\<lambda>s.
       case ds_policyId s of
         None \<Rightarrow> ret ()
       | Some i \<Rightarrow> if i = [] then ret ()
           else loggedCall (\<lambda>tr. da_deletePolicy api tr i) (DeletePolicy i))\<rparr>"

definition step_simulate :: "deploy_api \<Rightarrow> (api_event list, deployment_state) step" where
  "step_simulate api = \<lparr>st_name = ''simulate'',
     st_run = (\<lambda>s. andThen (loggedCall (\<lambda>tr. da_simulate api tr (policy_of s) (ds_wallet s))
         (Simulate (policy_of s) (ds_wallet s))) (\<lambda>(ok, reason).
       if ok then ret s
       else throw (Thrown (''policy simulation rejected the deploy: '' @
         (case reason of None \<Rightarrow> ''unknown'' | Some r \<Rightarrow> r))))),
     st_compensate = None\<rparr>"

definition step_deployInstance :: "deploy_api \<Rightarrow> (api_event list, deployment_state) step" where
  "step_deployInstance api = \<lparr>st_name = ''deployInstance'',
     st_run = (\<lambda>s. andThen (loggedCall (\<lambda>tr. da_deployInstance api tr (policy_of s) (ds_wallet s))
         (DeployInstance (policy_of s) (ds_wallet s))) (\<lambda>c. ret (s\<lparr>ds_contractId := Some c\<rparr>))),
     st_compensate = Some (\<lambda>s.
       case (ds_policyId s, ds_contractId s) of
         (Some i, Some c) \<Rightarrow> if i = [] \<or> c = [] then ret ()
           else loggedCall (\<lambda>tr. da_revokeInstance api tr i c) (RevokeInstance i c)
       | _ \<Rightarrow> ret ())\<rparr>"

definition step_recordDeployment :: "deploy_api \<Rightarrow> (api_event list, deployment_state) step" where
  "step_recordDeployment api = \<lparr>st_name = ''recordDeployment'',
     st_run = (\<lambda>s. andThen (loggedCall (\<lambda>tr. da_recordDeployment api tr (policy_of s) (ds_txHash s) (ds_contractId s))
         (RecordDeployment (policy_of s) (ds_txHash s) (ds_contractId s))) (\<lambda>p. ret (s\<lparr>ds_policy := Some p\<rparr>))),
     st_compensate = None\<rparr>"

definition policyDeploymentSteps :: "deploy_api \<Rightarrow> (api_event list, deployment_state) step list" where
  "policyDeploymentSteps api = [step_generate api, step_simulate api, step_deployInstance api, step_recordDeployment api]"

definition deployPolicyWithRollback ::
    "deploy_api \<Rightarrow> json \<Rightarrow> string \<Rightarrow> string \<Rightarrow> api_event list logged \<Rightarrow>
     (rollback_failure + generated_policy option) \<times> api_event list logged" where
  "deployPolicyWithRollback api definition0 wallet txHash w =
     (case runDeploymentWithRollback (policyDeploymentSteps api)
        \<lparr>ds_definition = definition0, ds_wallet = wallet, ds_txHash = txHash, ds_policyId = None,
         ds_contractId = None, ds_policy = None\<rparr> w of
        (Inl f, w') \<Rightarrow> (Inl f, w')
      | (Inr s, w') \<Rightarrow> (Inr (ds_policy s), w'))"

section \<open>What the service still holds\<close>

text \<open>How often a policy was generated and not deleted, and an instance deployed and not revoked.\<close>

fun policy_change :: "api_event \<Rightarrow> string \<Rightarrow> int" where
  "policy_change (Generate d (Inr p)) i = (if gp_id p = i then 1 else 0)"
| "policy_change (DeletePolicy j (Inr _)) i = (if j = i then -1 else 0)"
| "policy_change _ i = 0"

fun instance_change :: "api_event \<Rightarrow> string \<times> string \<Rightarrow> int" where
  "instance_change (DeployInstance p w (Inr c)) x = (if (p, c) = x then 1 else 0)"
| "instance_change (RevokeInstance p c (Inr _)) x = (if (p, c) = x then -1 else 0)"
| "instance_change _ x = 0"

definition alive :: "api_event list \<Rightarrow> (string \<Rightarrow> int) \<times> (string \<times> string \<Rightarrow> int)" where
  "alive tr = (\<lambda>i. \<Sum>e\<leftarrow>tr. policy_change e i, \<lambda>x. \<Sum>e\<leftarrow>tr. instance_change e x)"

lemma alive_snoc:
  "alive (tr @ [e]) = (\<lambda>i. fst (alive tr) i + policy_change e i, \<lambda>x. snd (alive tr) x + instance_change e x)"
  by (simp add: alive_def)

text \<open>The identifiers of the service are not empty: an empty one is taken for none.\<close>

definition names_things :: "deploy_api \<Rightarrow> bool" where
  "names_things api = ((\<forall>tr d p. da_generate api tr d = Inr p \<longrightarrow> gp_id p \<noteq> []) \<and>
     (\<forall>tr i w c. da_deployInstance api tr i w = Inr c \<longrightarrow> c \<noteq> []))"

definition saga_valid :: "nat \<Rightarrow> deployment_state \<Rightarrow> bool" where
  "saga_valid i s = (0 < i \<longrightarrow> (\<exists>p. ds_policyId s = Some p \<and> p \<noteq> []))"

lemma loggedCall_eq:
  "loggedCall f ev tr = (r, tr') \<longleftrightarrow> map_sum Thrown id (f tr) = r \<and> tr' = tr @ [ev (f tr)]"
  by (auto simp: loggedCall_def)

lemma alive_add_sub:
  assumes "alive w = alive (tr @ [e])" "\<And>i. policy_change e' i = - policy_change e i"
    "\<And>x. instance_change e' x = - instance_change e x"
  shows "alive (w @ [e']) = alive tr"
  unfolding alive_snoc [of w] assms(1) alive_snoc [of tr] using assms(2,3) by simp

lemma alive_same: "(\<And>i. policy_change e i = 0) \<Longrightarrow> (\<And>x. instance_change e x = 0) \<Longrightarrow> alive (tr @ [e]) = alive tr"
  by (simp add: alive_snoc)

lemma saga_steps:
  assumes "i < 4"
  shows "policyDeploymentSteps api ! i = (if i = 0 then step_generate api else if i = 1 then step_simulate api
    else if i = 2 then step_deployInstance api else step_recordDeployment api)"
  using assms by (auto simp: policyDeploymentSteps_def less_Suc_eq numeral_eq_Suc)

lemma saga_failed:
  assumes "i < 4" "st_run (policyDeploymentSteps api ! i) s w = (Inl e, w')"
  shows "alive w' = alive w"
  using assms(2) unfolding saga_steps [OF assms(1)]
  by (auto simp: step_generate_def step_simulate_def step_deployInstance_def step_recordDeployment_def andThen_def
      loggedCall_def ret_def throw_def intro!: alive_same split: if_splits sum.splits prod.splits)

lemma saga_done:
  assumes "i < 3" "names_things api" "saga_valid i s" "st_run (policyDeploymentSteps api ! i) s w = (Inr s', w')"
  shows "saga_valid (Suc i) s' \<and> undoes alive (policyDeploymentSteps api ! i) (alive w) s' (alive w')"
proof -
  consider "i = 0" | "i = 1" | "i = 2" using assms(1) by linarith
  then show ?thesis
  proof cases
    case 1
    then obtain p where p: "da_generate api w (ds_definition s) = Inr p"
      "s' = s\<lparr>ds_policyId := Some (gp_id p), ds_policy := Some p\<rparr>" "w' = w @ [Generate (ds_definition s) (Inr p)]"
      using assms(4) by (auto simp: saga_steps step_generate_def andThen_def loggedCall_def ret_def split: sum.splits prod.splits)
    have "gp_id p \<noteq> []" using p(1) assms(2) by (auto simp: names_things_def)
    then show ?thesis
      using p 1 by (auto simp: saga_valid_def saga_steps undoes_def step_generate_def loggedCall_eq intro: alive_add_sub)
  next
    case 2
    then show ?thesis
      using assms(3,4) by (auto simp: saga_steps step_simulate_def andThen_def loggedCall_def ret_def throw_def saga_valid_def
          undoes_def alive_same split: sum.splits prod.splits if_splits)
  next
    case 3
    then obtain i0 c where i0: "ds_policyId s = Some i0" "i0 \<noteq> []"
      and c: "da_deployInstance api w i0 (ds_wallet s) = Inr c" "s' = s\<lparr>ds_contractId := Some c\<rparr>"
        "w' = w @ [DeployInstance i0 (ds_wallet s) (Inr c)]"
      using assms(3,4) by (auto simp: saga_steps saga_valid_def policy_of_def step_deployInstance_def andThen_def loggedCall_def
          ret_def split: sum.splits prod.splits)
    have "c \<noteq> []" using c(1) assms(2) by (auto simp: names_things_def)
    then show ?thesis
      using i0 c 3 by (auto simp: saga_valid_def saga_steps undoes_def step_deployInstance_def loggedCall_eq intro: alive_add_sub)
  qed
qed

lemma length_saga [simp]: "length (policyDeploymentSteps api) = 4"
  by (simp add: policyDeploymentSteps_def)

interpretation saga: reversible_steps alive "policyDeploymentSteps api" "\<lambda>i s. names_things api \<and> saga_valid i s"
  for api
proof (unfold_locales, goal_cases)
  case (1 i s w e w')
  then show ?case using saga_failed by simp
next
  case (2 i s w s' w')
  then show ?case using saga_done [of i api s w s' w'] by simp
qed

section \<open>The properties of the component\<close>

text \<open>
  A deployment that fails and reports itself fully rolled back leaves no trace: every policy it
  generated was deleted and every instance it deployed was revoked, so what is alive at the service
  is what was alive before. The service's identifiers are not empty.
\<close>

theorem full_rollback_leaves_nothing:
  assumes "names_things api"
    and "deployPolicyWithRollback api d wallet txHash (tr, logs) = (Inl f, (tr', logs'))"
    and "fullyRolledBack f"
  shows "alive tr' = alive tr"
proof -
  let ?s = "\<lparr>ds_definition = d, ds_wallet = wallet, ds_txHash = txHash, ds_policyId = None,
         ds_contractId = None, ds_policy = None\<rparr>"
  have "runDeploymentWithRollback (policyDeploymentSteps api) ?s (tr, logs) = (Inl f, (tr', logs'))"
    using assms(2) by (auto simp: deployPolicyWithRollback_def split: prod.splits sum.splits)
  then show ?thesis
    by (rule saga.rollback_restores [rotated]) (use assms in \<open>simp_all add: saga_valid_def\<close>)
qed

definition sample_deploy_api :: deploy_api where
  "sample_deploy_api = \<lparr>da_generate = (\<lambda>tr d. Inr \<lparr>gp_id = ''p1'', gp_status = ''draft''\<rparr>),
     da_simulate = (\<lambda>tr i w. Inr (True, None)), da_deployInstance = (\<lambda>tr i w. Inr ''C1''),
     da_recordDeployment = (\<lambda>tr i h c. Inl ''service unavailable''),
     da_deletePolicy = (\<lambda>tr i. Inr ()), da_revokeInstance = (\<lambda>tr i c. Inr ())\<rparr>"

theorem full_rollback_leaves_nothing_witness:
  "\<exists>f tr' logs'. deployPolicyWithRollback sample_deploy_api JNull ''W'' ''H'' ([], []) = (Inl f, (tr', logs')) \<and>
     rf_completedSteps f = [''generate'', ''simulate'', ''deployInstance''] \<and> length tr' = 6 \<and> alive tr' = alive []"
proof -
  have run: "\<exists>f tr' logs'. deployPolicyWithRollback sample_deploy_api JNull ''W'' ''H'' ([], []) = (Inl f, (tr', logs')) \<and>
     rf_completedSteps f = [''generate'', ''simulate'', ''deployInstance''] \<and> length tr' = 6 \<and> fullyRolledBack f"
    by (simp add: deployPolicyWithRollback_def runDeploymentWithRollback_def policyDeploymentSteps_def step_generate_def
        step_simulate_def step_deployInstance_def step_recordDeployment_def sample_deploy_api_def andThen_def loggedCall_def
        ret_def policy_of_def fullyRolledBack_def Let_def)
  have names: "names_things sample_deploy_api" by (simp add: names_things_def sample_deploy_api_def)
  from run full_rollback_leaves_nothing [OF names] show ?thesis by metis
qed

text \<open>
  Which steps are undone: the completed ones are a beginning of the saga, the step after them failed
  with the reported cause, and exactly the completed steps that have a compensation are compensated,
  the last one first, whether earlier compensations succeeded or not.
\<close>

lemma compensate_names:
  "compensate completed w = (outcomes, w') \<Longrightarrow>
   map ro_step outcomes = map st_name (filter (\<lambda>s. st_compensate s \<noteq> None) (map fst completed))"
proof (induction completed w arbitrary: outcomes w' rule: compensate.induct)
  case (2 step after rest w logs)
  show ?case
  proof (cases "st_compensate step")
    case None
    then show ?thesis using 2 by auto
  next
    case (Some undo)
    obtain r w1 where u: "undo after w = (r, w1)" by fastforce
    show ?thesis
    proof (cases r)
      case (Inl e)
      obtain outs w2 where "compensate rest (w1, logs @ [RollbackFailed (st_name step) e]) = (outs, w2)"
        by (cases "compensate rest (w1, logs @ [RollbackFailed (st_name step) e])")
      then show ?thesis using "2.IH"(2) [OF Some u [symmetric] Inl] "2.prems" Some u Inl by auto
    next
      case (Inr x)
      obtain outs w2 where "compensate rest (w1, logs @ [RolledBack (st_name step)]) = (outs, w2)"
        by (cases "compensate rest (w1, logs @ [RolledBack (st_name step)])")
      then show ?thesis using "2.IH"(3) [OF Some u [symmetric] Inr] "2.prems" Some u Inr by auto
    qed
  qed
qed simp

lemma run_steps_failure:
  "run_steps todo s completed w = (Inl f, w') \<Longrightarrow>
   \<exists>more step rest. todo = more @ step # rest \<and>
     rf_completedSteps f = map st_name (map fst completed @ more) \<and>
     map ro_step (rf_rollback f) =
       map st_name (filter (\<lambda>s. st_compensate s \<noteq> None) (rev (map fst completed @ more)))"
proof (induction todo s completed w rule: run_steps.induct)
  case (2 step steps state completed w logs)
  obtain r w1 where u: "st_run step state w = (r, w1)" by fastforce
  show ?case
  proof (cases r)
    case (Inl e)
    let ?names = "map (\<lambda>c. st_name (fst c)) completed"
    obtain outs w2 where c: "compensate (rev completed) (w1, logs @ [StepFailed (st_name step) e ?names]) = (outs, w2)"
      by (cases "compensate (rev completed) (w1, logs @ [StepFailed (st_name step) e ?names])")
    then have "f = \<lparr>rf_cause = e, rf_completedSteps = ?names, rf_rollback = outs\<rparr>"
      using "2.prems" u Inl by (simp add: Let_def)
    then show ?thesis
      using compensate_names [OF c] by (intro exI [of _ "[]"] exI [of _ step] exI [of _ steps]) (simp add: rev_map)
  next
    case (Inr s1)
    then obtain more st rest where "steps = more @ st # rest"
      "rf_completedSteps f = map st_name (map fst (completed @ [(step, s1)]) @ more)"
      "map ro_step (rf_rollback f) = map st_name
         (filter (\<lambda>s. st_compensate s \<noteq> None) (rev (map fst (completed @ [(step, s1)]) @ more)))"
      using "2.IH" [OF u [symmetric] Inr] "2.prems" u by auto
    then show ?thesis
      by (intro exI [of _ "step # more"] exI [of _ st] exI [of _ rest]) simp
  qed
qed simp

theorem completed_steps_are_compensated_in_reverse:
  assumes "runDeploymentWithRollback steps s w = (Inl f, w')"
  shows "\<exists>more step rest. steps = more @ step # rest \<and> rf_completedSteps f = map st_name more \<and>
    map ro_step (rf_rollback f) = map st_name (rev (filter (\<lambda>s. st_compensate s \<noteq> None) more))"
  using run_steps_failure [OF assms [unfolded runDeploymentWithRollback_def]] by (auto simp: rev_filter)

end
