(* ===== verification/Idempotency.thy ===== *)
theory Idempotency
  imports Errors Json "HOL-Library.Word"
begin

text \<open>
  Idempotency keys: for payment submission
  (\<open>contrib/examples/issue-209-payment-idempotency/payment-idempotency.ts\<close>) and for wallet creation
  (\<open>contrib/idempotency-key/idempotency-key.ts\<close>).

  The payment wrapper caches promises. A promise is the index of a submission of the wrapped backend,
  and calls, their answers, the wrapper's reaction to a rejection and \<open>clear\<close> are separate steps
  that interleave freely (\<open>idem_step\<close>). The fingerprint is FNV-1a on 32-bit words; strings are of one-byte
  characters. The wallet-creation wrapper is a bounded retry loop over a backend that is a parameter.
\<close>

unbundle bit_operations_syntax

section \<open>Fingerprints\<close>

record submit_input =
  si_signedXdr :: string
  si_network :: string

text \<open>The multiplication by the FNV prime, written with shifts as the code does.\<close>

definition fnv_shifts :: "32 word \<Rightarrow> 32 word" where
  "fnv_shifts h = h + (push_bit 1 h + push_bit 4 h + push_bit 7 h + push_bit 8 h + push_bit 24 h)"

definition fnv_char :: "32 word \<Rightarrow> char \<Rightarrow> 32 word" where
  "fnv_char h c = fnv_shifts (h XOR word_of_nat (of_char c))"

definition frame :: "string \<Rightarrow> string" where
  "frame part = show_nat (length part) @ '':'' @ part @ '' ''"

definition payload_hash :: "submit_input \<Rightarrow> 32 word" where
  "payload_hash input =
     foldl (\<lambda>h part. foldl fnv_char h (frame part)) 0x811c9dc5 [si_signedXdr input, si_network input]"

text \<open>\<open>hash.toString(16).padStart(8, "0")\<close>.\<close>

definition hex8 :: "32 word \<Rightarrow> string" where
  "hex8 h = map (\<lambda>i. hex_char (unat h div 16 ^ i mod 16)) [7, 6, 5, 4, 3, 2, 1, 0]"

definition fingerprintPayload :: "submit_input \<Rightarrow> string" where
  "fingerprintPayload input = hex8 (payload_hash input)"

record payment_fields =
  pf_from :: string
  pf_to :: string
  pf_asset :: string
  pf_amount :: string
  pf_net :: string
  pf_nonce :: "string option"

definition derivePaymentIdempotencyKey :: "payment_fields \<Rightarrow> string" where
  "derivePaymentIdempotencyKey p =
     (let fields = [pf_from p, pf_to p, pf_asset p, pf_amount p, pf_net p,
            (case pf_nonce p of None \<Rightarrow> [] | Some n \<Rightarrow> n)];
          framed = join ''|'' (map (\<lambda>f. show_nat (length f) @ '':'' @ f) fields) in
      ''pay-'' @ fingerprintPayload \<lparr>si_signedXdr = framed, si_network = pf_net p\<rparr>)"

section \<open>The payment wrapper\<close>

datatype idem_error =
    IdempotencyKeyConflictError string string string
  | InvalidIdempotencyKeyError nat
  | MaxEntriesError rat

definition MAX_IDEMPOTENCY_KEY_LENGTH :: nat where
  "MAX_IDEMPOTENCY_KEY_LENGTH = 255"

definition DEFAULT_IDEMPOTENCY_CACHE_SIZE :: nat where
  "DEFAULT_IDEMPOTENCY_CACHE_SIZE = 256"

definition assertValidIdempotencyKey :: "string \<Rightarrow> idem_error + unit" where
  "assertValidIdempotencyKey key =
     (if key = [] then Inl (InvalidIdempotencyKeyError 0)
      else require (length key \<le> MAX_IDEMPOTENCY_KEY_LENGTH) (InvalidIdempotencyKeyError (length key)))"

datatype submission_status = Pending | Resolved string | Rejected string

record submission =
  sm_key :: "string option"
  sm_input :: submit_input
  sm_status :: submission_status

record cache_entry =
  en_fingerprint :: string
  en_promise :: nat

record idem_state =
  im_max :: nat
  im_cache :: "(string \<times> cache_entry) list"
  im_submissions :: "submission list"

definition withIdempotency :: "rat option \<Rightarrow> idem_error + idem_state" where
  "withIdempotency maxEntries =
     (let m = (case maxEntries of None \<Rightarrow> of_nat DEFAULT_IDEMPOTENCY_CACHE_SIZE | Some q \<Rightarrow> q) in
      if of_int \<lfloor>m\<rfloor> \<noteq> m \<or> m < 1 then Inl (MaxEntriesError m)
      else Inr \<lparr>im_max = nat \<lfloor>m\<rfloor>, im_cache = [], im_submissions = []\<rparr>)"

function evict :: "nat \<Rightarrow> (string \<times> cache_entry) list \<Rightarrow> (string \<times> cache_entry) list" where
  "evict m c = (if length c > m then evict m (tl c) else c)"
  by pat_completeness auto
termination
  by (relation "measure (\<lambda>(m, c). length c)") auto

declare evict.simps [simp del]

text \<open>The backend is called: a new promise.\<close>

definition submit_backend :: "string option \<Rightarrow> submit_input \<Rightarrow> idem_state \<Rightarrow> nat \<times> idem_state" where
  "submit_backend key input s =
     (length (im_submissions s),
      s\<lparr>im_submissions := im_submissions s @ [\<lparr>sm_key = key, sm_input = input, sm_status = Pending\<rparr>]\<rparr>)"

text \<open>Up to its first \<open>await\<close>: the promise the caller waits for, or the error it gets.\<close>

definition idem_submit ::
    "string option \<Rightarrow> submit_input \<Rightarrow> idem_state \<Rightarrow> (idem_error + nat) \<times> idem_state" where
  "idem_submit key input s =
     (case key of
        None \<Rightarrow> (case submit_backend None input s of (p, s') \<Rightarrow> (Inr p, s'))
      | Some k \<Rightarrow>
         (case assertValidIdempotencyKey k of
            Inl e \<Rightarrow> (Inl e, s)
          | Inr _ \<Rightarrow>
             (let fingerprint = fingerprintPayload input in
              case map_of (im_cache s) k of
                Some e \<Rightarrow>
                  if en_fingerprint e \<noteq> fingerprint
                  then (Inl (IdempotencyKeyConflictError k (en_fingerprint e) fingerprint), s)
                  else (Inr (en_promise e), s)
              | None \<Rightarrow>
                  (case submit_backend (Some k) input s of (p, s') \<Rightarrow>
                    (Inr p, s'\<lparr>im_cache := evict (im_max s')
                       (im_cache s' @ [(k, \<lparr>en_fingerprint = fingerprint, en_promise = p\<rparr>)])\<rparr>)))))"

text \<open>The \<open>catch\<close> of the call that created promise \<open>p\<close>.\<close>

definition on_rejected :: "string \<Rightarrow> nat \<Rightarrow> idem_state \<Rightarrow> idem_state" where
  "on_rejected k p s =
     (case map_of (im_cache s) k of
        None \<Rightarrow> s
      | Some e \<Rightarrow> if en_promise e = p then s\<lparr>im_cache := filter (\<lambda>x. fst x \<noteq> k) (im_cache s)\<rparr> else s)"

definition clear_cache :: "idem_state \<Rightarrow> idem_state" where
  "clear_cache s = s\<lparr>im_cache := []\<rparr>"

definition stats :: "idem_state \<Rightarrow> nat \<times> string list" where
  "stats s = (length (im_cache s), map fst (im_cache s))"

section \<open>Interleaved calls\<close>

definition answer :: "nat \<Rightarrow> submission_status \<Rightarrow> idem_state \<Rightarrow> idem_state" where
  "answer p st s = s\<lparr>im_submissions := (im_submissions s)[p := (im_submissions s ! p)\<lparr>sm_status := st\<rparr>]\<rparr>"

definition keys_of :: "idem_state \<Rightarrow> string set" where
  "keys_of s = fst ` set (im_cache s)"

text \<open>The second component is the keys the wrapper forgot while they were in use, by eviction or \<open>clear\<close>.\<close>

type_synonym idem_machine = "idem_state \<times> string set"

inductive idem_step :: "idem_machine \<Rightarrow> idem_machine \<Rightarrow> bool" where
  idem_call: "idem_submit key input s = (r, s') \<Longrightarrow>
    idem_step (s, F) (s', F \<union> (keys_of s - keys_of s'))"
| idem_answer: "p < length (im_submissions s) \<Longrightarrow> sm_status (im_submissions s ! p) = Pending \<Longrightarrow> st \<noteq> Pending \<Longrightarrow>
    idem_step (s, F) (answer p st s, F)"
| idem_catch: "p < length (im_submissions s) \<Longrightarrow> sm_status (im_submissions s ! p) = Rejected e \<Longrightarrow>
    sm_key (im_submissions s ! p) = Some k \<Longrightarrow> idem_step (s, F) (on_rejected k p s, F)"
| idem_clear: "idem_step (s, F) (clear_cache s, F \<union> keys_of s)"

inductive_cases idem_stepE: "idem_step m m'"

definition live :: "idem_state \<Rightarrow> string \<Rightarrow> nat \<Rightarrow> bool" where
  "live s k p = (p < length (im_submissions s) \<and> sm_key (im_submissions s ! p) = Some k \<and>
     (\<forall>e. sm_status (im_submissions s ! p) \<noteq> Rejected e))"

text \<open>
  An entry is for a submission under its own key, with that submission's fingerprint; of a key that was
  not forgotten, the submission that may be on chain is the cached one.
\<close>

definition idem_inv :: "idem_machine \<Rightarrow> bool" where
  "idem_inv = (\<lambda>(s, F). 1 \<le> im_max s \<and> length (im_cache s) \<le> im_max s \<and> distinct (map fst (im_cache s)) \<and>
     (\<forall>k e. map_of (im_cache s) k = Some e \<longrightarrow> en_promise e < length (im_submissions s) \<and>
        sm_key (im_submissions s ! en_promise e) = Some k \<and>
        en_fingerprint e = fingerprintPayload (sm_input (im_submissions s ! en_promise e))) \<and>
     (\<forall>k p. k \<notin> F \<longrightarrow> live s k p \<longrightarrow> (\<exists>e. map_of (im_cache s) k = Some e \<and> en_promise e = p)))"

definition idem_init :: "idem_machine \<Rightarrow> bool" where
  "idem_init = (\<lambda>(s, F). F = {} \<and> (\<exists>m. withIdempotency m = Inr s))"

lemma idem_inv_init: "idem_init m \<Longrightarrow> idem_inv m"
  by (auto simp: idem_init_def idem_inv_def withIdempotency_def live_def Let_def le_floor_iff nat_le_eq_zle
      split: if_splits prod.splits)

lemma evict_drop: "evict m c = drop (length c - m) c"
proof (induction m c rule: evict.induct)
  case (1 m c)
  show ?case
  proof (cases "length c > m")
    case True
    then show ?thesis using 1 by (simp add: evict.simps [of m c] drop_Suc [symmetric] Suc_diff_Suc)
  qed (simp add: evict.simps [of m c])
qed

lemma map_of_drop_Some:
  assumes "distinct (map fst c)" "map_of (drop n c) k = Some e"
  shows "map_of c k = Some e"
  using assms by (metis append_take_drop_id distinct_append in_set_dropD map_append map_of_SomeD map_of_eq_Some_iff)

lemma map_of_drop_None:
  assumes "distinct (map fst c)" "map_of c k = Some e" "k \<in> fst ` set (drop n c)"
  shows "map_of (drop n c) k = Some e"
  using assms
  by (metis distinct_drop drop_map map_of_drop_Some map_of_eq_None_iff not_None_eq option.inject)

lemma idem_inv_miss:
  assumes inv: "idem_inv (s, F)" and miss: "map_of (im_cache s) k = None"
    and s': "s' = s\<lparr>im_submissions := im_submissions s @ [\<lparr>sm_key = Some k, sm_input = input, sm_status = Pending\<rparr>],
      im_cache := evict (im_max s) (im_cache s @ [(k, \<lparr>en_fingerprint = fingerprintPayload input,
        en_promise = length (im_submissions s)\<rparr>)])\<rparr>"
  shows "idem_inv (s', F \<union> (keys_of s - keys_of s'))"
proof -
  let ?e = "\<lparr>en_fingerprint = fingerprintPayload input, en_promise = length (im_submissions s)\<rparr>"
  let ?c = "im_cache s @ [(k, ?e)]" and ?n = "length (im_cache s) + 1 - im_max s"
  have i: "1 \<le> im_max s" "length (im_cache s) \<le> im_max s" "distinct (map fst (im_cache s))"
    and entries: "map_of (im_cache s) j = Some e \<Longrightarrow> en_promise e < length (im_submissions s) \<and>
        sm_key (im_submissions s ! en_promise e) = Some j \<and>
        en_fingerprint e = fingerprintPayload (sm_input (im_submissions s ! en_promise e))"
    and cached: "j \<notin> F \<Longrightarrow> live s j p \<Longrightarrow> \<exists>e. map_of (im_cache s) j = Some e \<and> en_promise e = p" for j e p
    using inv by (auto simp: idem_inv_def)
  have d: "distinct (map fst ?c)" using i(3) miss by (auto simp: map_of_eq_None_iff)
  have c': "im_cache s' = drop ?n ?c" by (simp add: s' evict_drop)
  have max': "im_max s' = im_max s" and subs': "im_submissions s' =
      im_submissions s @ [\<lparr>sm_key = Some k, sm_input = input, sm_status = Pending\<rparr>]"
    by (simp_all add: s')
  have look: "map_of ?c j = (if j = k then Some ?e else map_of (im_cache s) j)" for j
    using miss by (auto simp: map_add_def split: option.splits)
  have kin: "k \<in> fst ` set (im_cache s')" using i by (auto simp: c')
  have live': "live s' j p \<longleftrightarrow> (if p = length (im_submissions s) then j = k else live s j p)" for j p
    by (auto simp: live_def subs' nth_append less_Suc_eq)
  have a: "length (im_cache s') \<le> im_max s'" "distinct (map fst (im_cache s'))"
    using i d by (simp_all add: c' max' drop_map [symmetric] del: drop_append)
  have b: "en_promise e < length (im_submissions s') \<and> sm_key (im_submissions s' ! en_promise e) = Some j \<and>
      en_fingerprint e = fingerprintPayload (sm_input (im_submissions s' ! en_promise e))"
    if "map_of (im_cache s') j = Some e" for j e
  proof -
    have "map_of ?c j = Some e" using map_of_drop_Some [OF d] that unfolding c' by blast
    then show ?thesis using entries [of j e] by (auto simp: look subs' nth_append split: if_splits)
  qed
  have c: "\<exists>e. map_of (im_cache s') j = Some e \<and> en_promise e = p"
    if j: "j \<notin> F \<union> (keys_of s - keys_of s')" and l: "live s' j p" for j p
  proof -
    obtain e where e: "map_of ?c j = Some e" "en_promise e = p"
    proof (cases "p = length (im_submissions s)")
      case True
      then have "j = k" using l by (simp add: live')
      then show ?thesis using that [of ?e] look [of k] True by auto
    next
      case False
      then obtain e where e: "map_of (im_cache s) j = Some e" "en_promise e = p"
        using cached j l by (auto simp: live')
      then show ?thesis using that miss by (auto simp: look)
    qed
    have "j \<in> fst ` set (im_cache s')"
    proof (cases "j = k")
      case False
      then have "j \<in> keys_of s"
        using e(1) look [of j] by (force simp: keys_of_def dest!: map_of_SomeD [OF sym])
      then show ?thesis using j by (simp add: keys_of_def)
    qed (simp add: kin)
    then show ?thesis using map_of_drop_None [OF d e(1)] e(2) unfolding c' by blast
  qed
  show ?thesis
    unfolding idem_inv_def prod.case using i(1) a b c by (auto simp: max')
qed

lemma idem_inv_direct:
  assumes "idem_inv (s, F)"
  shows "idem_inv (snd (submit_backend None input s), F)"
proof -
  have "live (snd (submit_backend None input s)) k p = live s k p" for k p
    by (auto simp: live_def submit_backend_def nth_append)
  then show ?thesis
    using assms by (auto simp: idem_inv_def submit_backend_def nth_append less_SucI)
qed

lemma idem_inv_call:
  assumes inv: "idem_inv (s, F)" and call: "idem_submit key input s = (r, s')"
  shows "idem_inv (s', F \<union> (keys_of s - keys_of s'))"
proof (cases "s' = s")
  case True
  then show ?thesis using inv by simp
next
  case False
  show ?thesis
  proof (cases key)
    case None
    then have "s' = snd (submit_backend None input s)" "keys_of s' = keys_of s"
      using call by (auto simp: idem_submit_def submit_backend_def keys_of_def)
    then show ?thesis using idem_inv_direct [OF inv] by simp
  next
    case (Some k)
    then have "map_of (im_cache s) k = None" and "s' = s\<lparr>im_submissions := im_submissions s @
        [\<lparr>sm_key = Some k, sm_input = input, sm_status = Pending\<rparr>],
      im_cache := evict (im_max s) (im_cache s @ [(k, \<lparr>en_fingerprint = fingerprintPayload input,
        en_promise = length (im_submissions s)\<rparr>)])\<rparr>"
      using call False by (auto simp: idem_submit_def submit_backend_def Let_def split: sum.splits option.splits if_splits)
    then show ?thesis by (rule idem_inv_miss [OF inv])
  qed
qed

lemma idem_inv_answer:
  assumes "idem_inv (s, F)" "p < length (im_submissions s)" "sm_status (im_submissions s ! p) = Pending"
  shows "idem_inv (answer p st s, F)"
proof -
  have "live (answer p st s) k q \<Longrightarrow> live s k q" for k q
    using assms(2,3) by (auto simp: live_def answer_def nth_list_update split: if_splits)
  then show ?thesis
    using assms by (auto simp: idem_inv_def answer_def nth_list_update)
qed

lemma idem_inv_rejected:
  assumes "idem_inv (s, F)" "sm_status (im_submissions s ! p) = Rejected e"
  shows "idem_inv (on_rejected k p s, F)"
proof -
  have l: "live (on_rejected k p s) j q = live s j q" for j q
    by (auto simp: live_def on_rejected_def split: option.splits)
  have f: "map_of (filter (\<lambda>x. fst x \<noteq> k) c) j = (if j = k then None else map_of c j)" for c :: "(string \<times> cache_entry) list" and j
    by (induction c) auto
  have n: "\<not> live s j p" for j using assms(2) by (auto simp: live_def)
  show ?thesis
  proof (cases "\<exists>en. map_of (im_cache s) k = Some en \<and> en_promise en = p")
    case True
    then have s': "on_rejected k p s = s\<lparr>im_cache := filter (\<lambda>x. fst x \<noteq> k) (im_cache s)\<rparr>"
      by (auto simp: on_rejected_def)
    have "length (filter (\<lambda>x. fst x \<noteq> k) (im_cache s)) \<le> im_max s"
      using assms(1) by (auto simp: idem_inv_def intro: le_trans [OF length_filter_le])
    moreover have "distinct (map fst (filter (\<lambda>x. fst x \<noteq> k) (im_cache s)))"
      using assms(1) by (auto simp: idem_inv_def distinct_map_filter)
    moreover have "j \<notin> F \<Longrightarrow> live s j q \<Longrightarrow> \<exists>en. j \<noteq> k \<and> map_of (im_cache s) j = Some en \<and> en_promise en = q" for j q
      using assms(1) True n by (force simp: idem_inv_def)
    ultimately show ?thesis
      using assms(1) l unfolding s' by (auto simp: idem_inv_def f)
  next
    case False
    then have "on_rejected k p s = s" by (auto simp: on_rejected_def split: option.splits)
    then show ?thesis using assms(1) by simp
  qed
qed

lemma idem_inv_clear: "idem_inv (s, F) \<Longrightarrow> idem_inv (clear_cache s, F \<union> keys_of s)"
proof -
  assume inv: "idem_inv (s, F)"
  have l: "live (clear_cache s) j q = live s j q" for j q by (simp add: live_def clear_cache_def)
  have "j \<notin> F \<union> keys_of s \<Longrightarrow> \<not> live s j q" for j q
    using inv by (auto simp: idem_inv_def keys_of_def) (metis fst_conv image_eqI map_of_SomeD)
  then show ?thesis using inv l by (auto simp: idem_inv_def clear_cache_def)
qed

lemma idem_inv_step: "idem_step m m' \<Longrightarrow> idem_inv m \<Longrightarrow> idem_inv m'"
  by (elim idem_stepE) (auto simp: idem_inv_call idem_inv_answer idem_inv_rejected idem_inv_clear)

interpretation idempotent_backend: preserved idem_init idem_step idem_inv
  by unfold_locales (auto simp: idem_inv_init idem_inv_step)

section \<open>Wallet creation\<close>

text \<open>What the backend may throw: an \<open>Error\<close> with its message, or something else.\<close>

datatype backend_failure = ErrorMessage string | OtherThrown

datatype creation_error =
    AmbiguousSubmissionError string nat
  | DefiniteNetworkError nat

fun isDefiniteNetworkError :: "backend_failure \<Rightarrow> bool" where
  "isDefiniteNetworkError (ErrorMessage m) =
     (let msg = toLowerCase m in contains_text ''enotfound'' msg \<or> contains_text ''econnrefused'' msg)"
| "isDefiniteNetworkError OtherThrown = False"

text \<open>A call of the backend: the key, the number of the attempt, and what came back.\<close>

datatype 'r creation_call = CreationCall string nat "backend_failure + 'r"

type_synonym 'r creation_backend = "'r creation_call list \<Rightarrow> string \<Rightarrow> nat \<Rightarrow> backend_failure + 'r"

primrec creation_attempts ::
    "'r creation_backend \<Rightarrow> string \<Rightarrow> nat \<Rightarrow> nat \<Rightarrow> 'r creation_call list \<Rightarrow> (creation_error + 'r) \<times> 'r creation_call list" where
  "creation_attempts backend key 0 attempt tr = (Inl (AmbiguousSubmissionError key 3), tr)"
| "creation_attempts backend key (Suc left) attempt tr =
     (let r = backend tr key attempt; tr' = tr @ [CreationCall key attempt r] in
      case r of
        Inr x \<Rightarrow> (Inr x, tr')
      | Inl err \<Rightarrow>
          if isDefiniteNetworkError err then (Inl (DefiniteNetworkError attempt), tr')
          else if attempt = 3 then (Inl (AmbiguousSubmissionError key attempt), tr')
          else creation_attempts backend key left (Suc attempt) tr')"

text \<open>The last key, and the calls of the backend; a fresh key comes from \<open>generateKey\<close>.\<close>

definition keyed_creation ::
    "'r creation_backend \<Rightarrow> string \<Rightarrow> string option \<times> 'r creation_call list \<Rightarrow>
     (creation_error + 'r) \<times> (string option \<times> 'r creation_call list)" where
  "keyed_creation backend freshKey = (\<lambda>(lastKey, tr).
     case creation_attempts backend freshKey 3 1 tr of (r, tr') \<Rightarrow> (r, (Some freshKey, tr')))"

section \<open>One payment per key\<close>

lemma idem_submit_result:
  assumes inv: "idem_inv (s, F)" and call: "idem_submit (Some k) input s = (Inr p, s')"
  shows "p < length (im_submissions s') \<and> sm_key (im_submissions s' ! p) = Some k \<and>
    fingerprintPayload (sm_input (im_submissions s' ! p)) = fingerprintPayload input"
proof (cases "map_of (im_cache s) k")
  case None
  then show ?thesis
    using call by (auto simp: idem_submit_def submit_backend_def Let_def split: sum.splits)
next
  case (Some e)
  then show ?thesis
    using call inv by (auto simp: idem_submit_def idem_inv_def Let_def split: sum.splits if_splits)
qed

lemma live_cached:
  assumes "idem_inv (s, F)" "k \<notin> F" "live s k q"
  shows "\<exists>e. map_of (im_cache s) k = Some e \<and> en_promise e = q"
  using assms unfolding idem_inv_def prod.case by blast

lemma idem_submit_live:
  assumes inv: "idem_inv (s, F)" and "k \<notin> F" "live s k q" and call: "idem_submit (Some k) input s = (r, s')"
  shows "s' = s \<and> (\<forall>p. r = Inr p \<longrightarrow> p = q)"
proof -
  obtain e where "map_of (im_cache s) k = Some e" "en_promise e = q"
    using live_cached [OF inv assms(2,3)] by blast
  then show ?thesis
    using call by (auto simp: idem_submit_def Let_def split: sum.splits if_splits)
qed


definition sample_payment :: submit_input where
  "sample_payment = \<lparr>si_signedXdr = ''AAAA'', si_network = ''testnet''\<rparr>"

definition sample_idem :: idem_state where
  "sample_idem = \<lparr>im_max = 2,
     im_cache = [(''k1'', \<lparr>en_fingerprint = fingerprintPayload sample_payment, en_promise = 0\<rparr>)],
     im_submissions = [\<lparr>sm_key = Some ''k1'', sm_input = sample_payment, sm_status = Pending\<rparr>]\<rparr>"


section \<open>The fingerprint\<close>

text \<open>The shifts are the multiplication by the 32-bit FNV prime.\<close>

lemma fnv_shifts_prime: "fnv_shifts h = h * 0x01000193"
proof -
  have "push_bit n h = h * 2 ^ n" for n by (simp add: push_bit_eq_mult)
  then show ?thesis by (simp add: fnv_shifts_def algebra_simps)
qed

text \<open>
  Two payloads of one network can have one fingerprint, and then a reused key answers the second with the
  first one's submission instead of a conflict: the second payment is reported and never submitted.
\<close>

lemma fingerprint_collision:
  "payload_hash \<lparr>si_signedXdr = ''dkYnV'', si_network = ''testnet''\<rparr> =
   payload_hash \<lparr>si_signedXdr = ''3TwLP'', si_network = ''testnet''\<rparr>"
  unfolding payload_hash_def frame_def fnv_char_def fnv_shifts_prime by code_simp

lemma colliding_payment_is_not_submitted:
  fixes m :: nat
  assumes "key \<noteq> []" "length key \<le> 255" "1 \<le> m"
  defines "a \<equiv> \<lparr>si_signedXdr = ''dkYnV'', si_network = ''testnet''\<rparr>"
    and "b \<equiv> \<lparr>si_signedXdr = ''3TwLP'', si_network = ''testnet''\<rparr>"
  shows "\<exists>s. idem_submit (Some key) a \<lparr>im_max = m, im_cache = [], im_submissions = []\<rparr> = (Inr 0, s) \<and>
    idem_submit (Some key) b s = (Inr 0, s) \<and> map sm_input (im_submissions s) = [a]"
proof -
  have "assertValidIdempotencyKey key = Inr ()"
    using assms(1,2) by (simp add: assertValidIdempotencyKey_def require_def MAX_IDEMPOTENCY_KEY_LENGTH_def)
  moreover have "fingerprintPayload b = fingerprintPayload a"
    using fingerprint_collision by (simp add: fingerprintPayload_def a_def b_def)
  moreover have "drop (Suc 0 - m) xs = xs" for xs :: "(string \<times> cache_entry) list" using assms(3) by simp
  ultimately show ?thesis
    by (simp add: idem_submit_def submit_backend_def evict_drop Let_def)
qed

section \<open>Attempts at a creation\<close>

definition call_key :: "'r creation_call \<Rightarrow> string" where
  "call_key c = (case c of CreationCall k a r \<Rightarrow> k)"

lemma creation_attempts_calls:
  assumes "creation_attempts backend key left attempt tr = (r, tr')"
  shows "\<exists>calls. tr' = tr @ calls \<and> length calls \<le> left \<and> (\<forall>c\<in>set calls. call_key c = key)"
  using assms
proof (induction left arbitrary: attempt tr)
  case (Suc left)
  let ?c = "CreationCall key attempt (backend tr key attempt)"
  show ?case
  proof (cases "tr' = tr @ [?c]")
    case True
    then show ?thesis by (intro exI [of _ "[?c]"]) (simp add: call_key_def)
  next
    case False
    then have "creation_attempts backend key left (Suc attempt) (tr @ [?c]) = (r, tr')"
      using Suc.prems by (auto simp: Let_def split: sum.splits if_splits)
    from Suc.IH [OF this] obtain calls where "tr' = (tr @ [?c]) @ calls" "length calls \<le> left"
      "\<forall>c\<in>set calls. call_key c = key" by blast
    then show ?thesis by (intro exI [of _ "?c # calls"]) (simp add: call_key_def)
  qed
qed simp

text \<open>
  A creation calls the backend one to three times, every time under the key it generated, and it gives the last
  answer when that is a result.
\<close>

lemma creation_reuses_its_key:
  assumes "keyed_creation backend freshKey (lastKey, tr) = (r, (lastKey', tr'))"
  shows "lastKey' = Some freshKey \<and> (\<exists>calls. tr' = tr @ calls \<and> 1 \<le> length calls \<and> length calls \<le> 3 \<and>
    (\<forall>c\<in>set calls. call_key c = freshKey))"
proof -
  have a: "creation_attempts backend freshKey 3 1 tr = (r, tr')" and l: "lastKey' = Some freshKey"
    using assms by (auto simp: keyed_creation_def split: prod.splits)
  obtain calls where c: "tr' = tr @ calls" "length calls \<le> 3" "\<forall>c\<in>set calls. call_key c = freshKey"
    using creation_attempts_calls [OF a] by blast
  have "calls \<noteq> []"
    using a c(1) creation_attempts_calls [of backend freshKey 2 2]
    by (auto simp: numeral_3_eq_3 numeral_2_eq_2 Let_def split: sum.splits if_splits)
  then show ?thesis using c l by (auto simp: Suc_le_eq)
qed

text \<open>
  A connection refused on the second attempt is reported as a submission that did not reach the backend, with the
  advice that a fresh key is safe, although the first attempt may have reached it.
\<close>

lemma refused_retry_hides_an_ambiguous_attempt:
  fixes backend :: "'r creation_backend"
  assumes "backend = (\<lambda>tr key attempt. Inl (ErrorMessage (if attempt = 1 then ''read ECONNRESET'' else ''connect ECONNREFUSED'')))"
  shows "fst (keyed_creation backend key (None, [])) = Inl (DefiniteNetworkError 2) \<and>
    \<not> isDefiniteNetworkError (ErrorMessage ''read ECONNRESET'')"
proof -
  have n: "\<not> isDefiniteNetworkError (ErrorMessage ''read ECONNRESET'')" by code_simp
  have y: "isDefiniteNetworkError (ErrorMessage ''connect ECONNREFUSED'')" by code_simp
  show ?thesis
    using n y by (simp del: isDefiniteNetworkError.simps add: keyed_creation_def assms numeral_3_eq_3 Let_def split: prod.splits)
qed

end
