(* ===== verification/SessionMigration.thy ===== *)
theory SessionMigration
  imports Session
begin

text \<open>
  Upgrading a stored session (\<open>contrib/examples/issue-215-session-schema-migration/session-schema-migration.ts\<close>):
  the detection of the schema a stored value is in, the migration to the current envelope and its dry run, and the
  load path over a \<open>Storage\<close>-like object. The helper's copy of \<open>isWalletSession\<close> is the check of the session
  store, and the storage is the one of that theory, so a write may throw.
\<close>

section \<open>Schemas\<close>

definition SESSION_SCHEMA_VERSION :: nat where
  "SESSION_SCHEMA_VERSION = 2"

definition KNOWN_SCHEMA_VERSIONS :: "nat list" where
  "KNOWN_SCHEMA_VERSIONS = [0, 1, 2]"

definition detectSchemaVersion :: "json \<Rightarrow> nat option" where
  "detectSchemaVersion v =
     (if isWalletSession v then Some 0
      else
        (case jprop v ''schemaVersion'' of
           JNum q \<Rightarrow>
             if \<not> isWalletSession (jprop v ''session'') then None
             else find (\<lambda>n. of_nat n = q) KNOWN_SCHEMA_VERSIONS
         | _ \<Rightarrow> None))"

datatype migration_outcome = UpToDate | Migrated | Unsupported

record migration_report =
  mr_outcome :: migration_outcome
  mr_from :: "nat option"
  mr_to :: nat
  mr_needsMigration :: bool
  mr_reason :: string

record migration_result = migration_report +
  mr_envelope :: "json option"

section \<open>Migrating a value\<close>

definition unsupported :: "string \<Rightarrow> migration_result" where
  "unsupported reason =
     \<lparr>mr_outcome = Unsupported, mr_from = None, mr_to = SESSION_SCHEMA_VERSION, mr_needsMigration = False,
      mr_reason = reason, mr_envelope = None\<rparr>"

definition optional_prop :: "json \<Rightarrow> string \<Rightarrow> (string \<times> json) list" where
  "optional_prop v k = (if jprop v k = JUndefined then [] else [(k, jprop v k)])"

definition copied_session :: "json \<Rightarrow> json" where
  "copied_session s =
     JObj (map (\<lambda>k. (k, jprop s k))
         [''accountId'', ''network'', ''connected'', ''authMethod'', ''createdAt'', ''lastActiveAt''] @
       optional_prop s ''serverSessionId'' @ optional_prop s ''keyId'')"

definition migrated_envelope :: "json \<Rightarrow> string \<Rightarrow> json" where
  "migrated_envelope s stamp =
     JObj [(''schemaVersion'', JNum (of_nat SESSION_SCHEMA_VERSION)), (''session'', copied_session s),
       (''migratedAt'', JStr stamp)]"

definition migrateStoredSession :: "bool \<Rightarrow> string \<Rightarrow> json \<Rightarrow> migration_result" where
  "migrateStoredSession dryRun now v =
     (case detectSchemaVersion v of
        None \<Rightarrow> unsupported ''Stored value is not a recognised session schema (corrupt, empty, or written by a newer SDK). Clear it and reconnect.''
      | Some from \<Rightarrow>
          if from = SESSION_SCHEMA_VERSION then
            \<lparr>mr_outcome = UpToDate, mr_from = Some from, mr_to = SESSION_SCHEMA_VERSION, mr_needsMigration = False,
             mr_reason = ''Stored session is already at schema v'' @ show_nat SESSION_SCHEMA_VERSION @ ''.'',
             mr_envelope = (if dryRun then None else Some v)\<rparr>
          else
            (let s = (if from = 0 then v else jprop v ''session'') in
             \<lparr>mr_outcome = Migrated, mr_from = Some from, mr_to = SESSION_SCHEMA_VERSION, mr_needsMigration = True,
              mr_reason = ''Stored session is at schema v'' @ show_nat from @ ''; upgrade to v'' @
                show_nat SESSION_SCHEMA_VERSION @ '' is required.'',
              mr_envelope = (if dryRun then None else Some (migrated_envelope s now))\<rparr>))"

definition dryRunMigration :: "string \<Rightarrow> json \<Rightarrow> migration_report" where
  "dryRunMigration now v = migration_report.truncate (migrateStoredSession True now v)"

definition wrapSession :: "json \<Rightarrow> json" where
  "wrapSession s = JObj [(''schemaVersion'', JNum (of_nat SESSION_SCHEMA_VERSION)), (''session'', s)]"

section \<open>Migrating a storage\<close>

record migrate_options =
  mo_dryRun :: bool
  mo_now :: string
  mo_clearUnsupported :: bool

definition in_quotes :: "string \<Rightarrow> string" where
  "in_quotes s = [CHR 0x22] @ s @ [CHR 0x22]"

definition clear_if :: "bool \<Rightarrow> string \<Rightarrow> (web_storage, js_error, unit) act" where
  "clear_if b key = (if b then removeItem key else ret ())"

definition migrateStorage ::
    "(rat \<Rightarrow> string) \<Rightarrow> string \<Rightarrow> migrate_options \<Rightarrow> (web_storage, js_error, migration_result) act" where
  "migrateStorage num key options =
     andThen (gets (getItem key)) (\<lambda>raw.
       case raw of
         None \<Rightarrow> ret (unsupported (''No stored session at '' @ in_quotes key @ ''; nothing to migrate.''))
       | Some text \<Rightarrow>
           (case JSON_parse text of
              None \<Rightarrow>
                andThen (clear_if (mo_clearUnsupported options \<and> \<not> mo_dryRun options) key) (\<lambda>_.
                ret (unsupported (''Stored session at '' @ in_quotes key @ '' is not valid JSON. Clear it and reconnect.'')))
            | Some parsed \<Rightarrow>
                (let result = migrateStoredSession (mo_dryRun options) (mo_now options) parsed in
                 if mo_dryRun options then ret result
                 else
                   andThen
                     (case (mr_outcome result, mr_envelope result) of
                        (Migrated, Some envelope) \<Rightarrow> setItem key (stringify num envelope)
                      | (Unsupported, _) \<Rightarrow> clear_if (mo_clearUnsupported options) key
                      | _ \<Rightarrow> ret ())
                     (\<lambda>_. ret result))))"

definition loadAndMigrateSession ::
    "(rat \<Rightarrow> string) \<Rightarrow> string \<Rightarrow> migrate_options \<Rightarrow> (web_storage, js_error, json option) act" where
  "loadAndMigrateSession num key options =
     andThen (migrateStorage num key options) (\<lambda>result.
       case mr_envelope result of
         Some envelope \<Rightarrow> ret (Some (jprop envelope ''session''))
       | None \<Rightarrow>
           if mo_dryRun options \<and> mr_needsMigration result then
             andThen (gets (getItem key)) (\<lambda>raw.
               ret (case raw of
                      None \<Rightarrow> None
                    | Some text \<Rightarrow>
                        (case JSON_parse text of
                           None \<Rightarrow> None
                         | Some parsed \<Rightarrow>
                             (case detectSchemaVersion parsed of
                                None \<Rightarrow> None
                              | Some from \<Rightarrow> if from = 0 then Some parsed else Some (jprop parsed ''session'')))))
           else ret None)"

section \<open>Values that migrate\<close>

text \<open>The session of a stored value of a schema that was in use: a bare one, or one of an envelope of version 1.\<close>

definition old_session :: "json \<Rightarrow> json option" where
  "old_session v =
     (if isWalletSession v then Some v
      else if jprop v ''schemaVersion'' = JNum 1 \<and> isWalletSession (jprop v ''session'') then Some (jprop v ''session'')
      else None)"

lemma detect_cases:
  "detectSchemaVersion v = Some n \<longleftrightarrow>
     n = 0 \<and> isWalletSession v \<or>
     n \<in> {0, 1, 2} \<and> \<not> isWalletSession v \<and> jprop v ''schemaVersion'' = JNum (of_nat n) \<and> isWalletSession (jprop v ''session'')"
  by (auto simp: detectSchemaVersion_def KNOWN_SCHEMA_VERSIONS_def split: json.splits if_splits)

lemma old_session_valid: "old_session v = Some s \<Longrightarrow> isWalletSession s"
  by (auto simp: old_session_def split: if_splits)

lemma migrate_old:
  assumes "old_session v = Some s"
  shows "mr_outcome (migrateStoredSession False now v) = Migrated \<and>
    mr_envelope (migrateStoredSession False now v) = Some (migrated_envelope s now)"
proof (cases "isWalletSession v")
  case True
  then show ?thesis using assms
    by (simp add: old_session_def migrateStoredSession_def detectSchemaVersion_def SESSION_SCHEMA_VERSION_def Let_def)
next
  case False
  then have "detectSchemaVersion v = Some 1" "s = jprop v ''session''"
    using assms by (auto simp: old_session_def detect_cases split: if_splits)
  then show ?thesis by (simp add: migrateStoredSession_def SESSION_SCHEMA_VERSION_def Let_def)
qed

definition session_fields :: "string list" where
  "session_fields = [''accountId'', ''network'', ''connected'', ''authMethod'', ''createdAt'', ''lastActiveAt'',
     ''serverSessionId'', ''keyId'']"

lemma copied_prop: "jprop (copied_session s) k = (if k \<in> set session_fields then jprop s k else JUndefined)"
  by (auto simp: copied_session_def optional_prop_def session_fields_def)

lemma copied_valid: "isWalletSession s \<Longrightarrow> isWalletSession (copied_session s)"
proof -
  assume s: "isWalletSession s"
  have o: "\<exists>kvs. copied_session s = JObj kvs" by (auto simp: copied_session_def)
  have "\<exists>kvs. s = JObj kvs" using s by (cases s) (auto simp: isWalletSession_def)
  with o s show ?thesis
    using copied_prop [of s] by (auto simp: isWalletSession_def session_fields_def simp del: jprop.simps)
qed

section \<open>Reading an envelope back\<close>

text \<open>An object whose first property is a version number, followed by printable ones.\<close>

lemma parse_versioned:
  assumes num: "num 2 = ''2''" and kvs: "kvs \<noteq> []" "list_all printable (map snd kvs)"
    and d: "distinct (map fst kvs)" "''schemaVersion'' \<notin> fst ` set kvs"
  shows "JSON_parse (stringify num (JObj ((''schemaVersion'', JNum 2) # kvs))) =
    Some (JObj ((''schemaVersion'', JNum 2) # kvs))"
proof -
  let ?tail = "commas (map (print_member num) kvs) @ CHR ''}'' # []"
  let ?text = "CHR ''{'' # quote_string ''schemaVersion'' @ '':2,'' @ ?tail"
  have printed: "stringify num (JObj ((''schemaVersion'', JNum 2) # kvs)) = ?text"
  proof -
    have "filter (\<lambda>(k, v). v \<noteq> JUndefined) kvs = kvs"
      using kvs(2) by (induction kvs) auto
    then show ?thesis using kvs(1) num by (simp add: commas_Cons print_member_def)
  qed
  have "parse_members n [(''schemaVersion'', JNum 2)] ?tail = Some (JObj ([(''schemaVersion'', JNum 2)] @ kvs), [])"
    if "length ?tail \<le> n" for n
    by (rule parse_members_print) (use kvs d that in \<open>auto simp: list_all_iff intro!: parse_value_print\<close>)
  moreover have first: "parse_members (Suc (Suc n)) [] (quote_string ''schemaVersion'' @ '':2,'' @ t) =
      parse_members (Suc n) [(''schemaVersion'', JNum 2)] t" for n t
    by (simp add: quote_string_def escape_char_def consChar_def skip_ws_def json_ws_def json_literal_def json_number_def
        is_digit_def json_fraction_def json_exponent_def digits_val_def digit_val_def)
  moreover have "parse_value (Suc (Suc (Suc n))) ?text =
      parse_members (Suc (Suc n)) [] (quote_string ''schemaVersion'' @ '':2,'' @ ?tail)" for n
    by (simp add: skip_ws_def json_ws_def quote_string_def del: parse_members.simps)
  ultimately have "parse_value (Suc (Suc (Suc n))) ?text = Some (JObj ((''schemaVersion'', JNum 2) # kvs), [])"
    if "length ?tail \<le> Suc n" for n
    using that by (simp del: parse_value.simps parse_members.simps)
  moreover have "Suc (length ?text) = Suc (Suc (Suc (length ?tail + 17)))"
    by (simp add: quote_string_def escape_char_def)
  ultimately have "parse_value (Suc (length ?text)) ?text = Some (JObj ((''schemaVersion'', JNum 2) # kvs), [])"
    by (metis le_SucI le_add1)
  then show ?thesis unfolding printed JSON_parse_def by (simp add: skip_ws_def del: parse_value.simps)
qed

lemma envelope_roundtrip:
  assumes "num 2 = ''2''" "printable (copied_session s)"
  shows "JSON_parse (stringify num (migrated_envelope s stamp)) = Some (migrated_envelope s stamp)"
  using parse_versioned [of num "[(''session'', copied_session s), (''migratedAt'', JStr stamp)]"] assms
  by (simp add: migrated_envelope_def SESSION_SCHEMA_VERSION_def del: stringify.simps)

lemma load_envelope:
  assumes "getItem key st = Some text" "JSON_parse text = Some (migrated_envelope s stamp)"
    and "isWalletSession s" "\<not> mo_dryRun options"
  shows "loadAndMigrateSession num key options st = (Inr (Some (copied_session s)), st)"
proof -
  have "detectSchemaVersion (migrated_envelope s stamp) = Some 2"
    using copied_valid [OF assms(3)]
    by (auto simp: detect_cases migrated_envelope_def SESSION_SCHEMA_VERSION_def isWalletSession_def)
  then show ?thesis
    using assms by (simp add: loadAndMigrateSession_def migrateStorage_def migrateStoredSession_def act_defs
        SESSION_SCHEMA_VERSION_def migrated_envelope_def)
qed

text \<open>
  A session stored in an older schema, bare or in an envelope of version 1, survives
  the upgrade. Loading it writes the current envelope and gives the session with every known field as it was and
  nothing else; it is still a session, and loading it again gives the same session and writes nothing.
\<close>

theorem old_session_survives_upgrade:
  assumes "getItem key st = Some text" "JSON_parse text = Some v" "old_session v = Some s"
    and "printable (copied_session s)" "num 2 = ''2''" "\<not> mo_dryRun options"
    and "hasRoom st key (stringify num (migrated_envelope s (mo_now options)))"
  shows "\<exists>st'. loadAndMigrateSession num key options st = (Inr (Some (copied_session s)), st') \<and>
    isWalletSession (copied_session s) \<and>
    (\<forall>k. jprop (copied_session s) k = (if k \<in> set session_fields then jprop s k else JUndefined)) \<and>
    (\<forall>options'. \<not> mo_dryRun options' \<longrightarrow>
      loadAndMigrateSession num key options' st' = (Inr (Some (copied_session s)), st'))"
proof -
  let ?text = "stringify num (migrated_envelope s (mo_now options))"
  let ?st = "st\<lparr>items := (items st)(key := Some ?text)\<rparr>"
  have "loadAndMigrateSession num key options st = (Inr (Some (copied_session s)), ?st)"
    using assms(1,2,6,7) migrate_old [OF assms(3)]
    by (simp add: loadAndMigrateSession_def migrateStorage_def act_defs setItem_def migrated_envelope_def Let_def)
  moreover have "loadAndMigrateSession num key options' ?st = (Inr (Some (copied_session s)), ?st)"
    if "\<not> mo_dryRun options'" for options'
    using load_envelope [OF _ envelope_roundtrip [where num = num and s = s, OF assms(5,4)] old_session_valid [OF assms(3)] that]
    by (simp add: getItem_def)
  ultimately show ?thesis
    using copied_valid [OF old_session_valid [OF assms(3)]] copied_prop by blast
qed

text \<open>
  A dry run writes nothing and reports what the migration would report.
\<close>

lemma dry_run_reports:
  assumes "mo_dryRun options"
  shows "\<exists>r. migrateStorage num key options st = (Inr r, st) \<and> mr_envelope r = None \<and>
    (\<forall>r' st'. migrateStorage num key (options\<lparr>mo_dryRun := False\<rparr>) st = (Inr r', st') \<longrightarrow>
       migration_report.truncate r' = migration_report.truncate r)"
  using assms
  by (auto simp: migrateStorage_def act_defs clear_if_def setItem_def removeItem_def unsupported_def migrateStoredSession_def
      migration_report.truncate_def Let_def split: option.splits if_splits prod.splits migration_outcome.splits)

text \<open>
  An unrecognised value is never written over: it stays, or it is removed when the caller asks for that.
\<close>

lemma unsupported_is_kept:
  assumes "getItem key st = Some text" "JSON_parse text = Some v \<Longrightarrow> detectSchemaVersion v = None" "JSON_parse text = Some v \<or> JSON_parse text = None"
  shows "\<exists>r st'. migrateStorage num key options st = (Inr r, st') \<and> mr_outcome r = Unsupported \<and>
    getItem key st' = (if mo_clearUnsupported options \<and> \<not> mo_dryRun options then None else Some text)"
  using assms
  by (auto simp: migrateStorage_def act_defs clear_if_def removeItem_def unsupported_def migrateStoredSession_def
      getItem_def Let_def split: option.splits)

section \<open>Where sessions are lost\<close>

definition bare_sample :: json where
  "bare_sample = JObj [(''accountId'', JStr ''CABC''), (''network'', JStr ''testnet''), (''connected'', JBool True),
     (''authMethod'', JStr ''passkey''), (''createdAt'', JStr ''t0''), (''lastActiveAt'', JStr ''t1''),
     (''legacy'', JStr ''x'')]"

lemma bare_sample_valid: "isWalletSession bare_sample"
  by (simp add: isWalletSession_def bare_sample_def)

definition stored_sample :: "json \<Rightarrow> web_storage" where
  "stored_sample v = \<lparr>items = [''s'' \<mapsto> stringify (\<lambda>_. ''2'') v], hasRoom = (\<lambda>_ _. True)\<rparr>"

theorem old_session_survives_upgrade_witness:
  "\<exists>st'. loadAndMigrateSession (\<lambda>_. ''2'') ''s'' \<lparr>mo_dryRun = False, mo_now = ''t2'', mo_clearUnsupported = False\<rparr>
     (stored_sample bare_sample) = (Inr (Some (copied_session bare_sample)), st') \<and>
   jprop (copied_session bare_sample) ''accountId'' = JStr ''CABC'' \<and>
   jprop (copied_session bare_sample) ''legacy'' = JUndefined"
proof -
  have "printable bare_sample" by (simp add: bare_sample_def)
  then have p: "JSON_parse (stringify (\<lambda>_. ''2'') bare_sample) = Some bare_sample" by (rule JSON_roundtrip)
  have c: "printable (copied_session bare_sample)"
    by (simp add: bare_sample_def copied_session_def optional_prop_def)
  have "getItem ''s'' (stored_sample bare_sample) = Some (stringify (\<lambda>_. ''2'') bare_sample)"
    by (simp add: getItem_def stored_sample_def)
  from old_session_survives_upgrade [OF this p _ c, where num = "\<lambda>_. ''2''" and options = "\<lparr>mo_dryRun = False, mo_now = ''t2'', mo_clearUnsupported = False\<rparr>"]
  obtain st' where "loadAndMigrateSession (\<lambda>_. ''2'') ''s'' \<lparr>mo_dryRun = False, mo_now = ''t2'', mo_clearUnsupported = False\<rparr>
     (stored_sample bare_sample) = (Inr (Some (copied_session bare_sample)), st')"
    and f: "jprop (copied_session bare_sample) k = (if k \<in> set session_fields then jprop bare_sample k else JUndefined)" for k
    by (auto simp: old_session_def bare_sample_valid stored_sample_def)
  moreover have "jprop (copied_session bare_sample) ''accountId'' = JStr ''CABC''"
    unfolding f by (simp add: session_fields_def bare_sample_def)
  moreover have "jprop (copied_session bare_sample) ''legacy'' = JUndefined"
    unfolding f by (simp add: session_fields_def)
  ultimately show ?thesis by blast
qed

text \<open>
  A current session is not migrated, so a dry run of the load path gives no session for it: the false disconnect that
  the code avoids for the older schemas.
\<close>

lemma dry_run_load_loses_current:
  assumes "getItem key st = Some text" "JSON_parse text = Some (wrapSession s)" "isWalletSession s" "mo_dryRun options"
  shows "loadAndMigrateSession num key options st = (Inr None, st)"
proof -
  have "detectSchemaVersion (wrapSession s) = Some 2"
    using assms(3) by (auto simp: detect_cases wrapSession_def SESSION_SCHEMA_VERSION_def isWalletSession_def)
  then show ?thesis
    using assms by (simp add: loadAndMigrateSession_def migrateStorage_def migrateStoredSession_def act_defs SESSION_SCHEMA_VERSION_def)
qed

text \<open>
  An envelope with version 0 counts as a bare session: it is reported as migrated and the record
  that replaces it has no session in it.
\<close>

lemma version_zero_envelope_is_emptied:
  fixes stamp :: string
  assumes "isWalletSession s"
  defines "v \<equiv> JObj [(''schemaVersion'', JNum 0), (''session'', s)]"
  shows "mr_outcome (migrateStoredSession False stamp v) = Migrated \<and>
    mr_envelope (migrateStoredSession False stamp v) = Some (migrated_envelope v stamp) \<and>
    jprop (copied_session v) ''accountId'' = JUndefined \<and> detectSchemaVersion (migrated_envelope v stamp) = None"
proof -
  have "detectSchemaVersion v = Some 0"
    using assms(1) by (auto simp: detect_cases v_def)
  moreover have "\<not> isWalletSession (copied_session v)"
    by (simp add: v_def isWalletSession_def copied_session_def)
  then have "detectSchemaVersion (migrated_envelope v stamp) = None"
    by (simp add: detectSchemaVersion_def migrated_envelope_def isWalletSession_def)
  ultimately show ?thesis
    by (simp add: migrateStoredSession_def SESSION_SCHEMA_VERSION_def copied_prop Let_def v_def session_fields_def)
qed

end
