(* ===== verification/SessionCacheKey.thy ===== *)
theory SessionCacheKey
  imports Session
begin

text \<open>
  Structured session cache keys (\<open>contrib/examples/issue-214-session-cache-key/session-cache-key.ts\<close>): the
  key format and its parser, and a session cache over an enumerable storage with invalidation by scope. The
  storage is its items in the order of \<open>storage.key(i)\<close> and whether it has room for a value; the helper's copy
  of \<open>isWalletSession\<close> is the check of the session store. Locale \<open>session_cache\<close> is what a client of the
  cache relies on.
\<close>

section \<open>Keys\<close>

definition CACHE_KEY_PREFIX :: string where "CACHE_KEY_PREFIX = ''vellar''"

definition CACHE_KEY_NAMESPACE :: string where "CACHE_KEY_NAMESPACE = ''session''"

definition CACHE_KEY_VERSION :: string where "CACHE_KEY_VERSION = ''v1''"

definition CACHE_KEY_SEPARATOR :: char where "CACHE_KEY_SEPARATOR = CHR '':''"

record key_parts =
  kp_network :: string
  kp_walletId :: string

datatype key_problem =
    WalletIdEmpty
  | UnknownNetworkSegment string
  | SegmentCount nat
  | WrongPrefix
  | WrongNamespace
  | UnsupportedKeyVersion string

datatype cache_key_error = InvalidCacheKeyError string key_problem

text \<open>\<open>s.replace(/pat/g, rep)\<close> for a fixed text that is not empty.\<close>

function replace_all :: "string \<Rightarrow> string \<Rightarrow> string \<Rightarrow> string" where
  "replace_all pat rep [] = []"
| "replace_all pat rep (c # cs) =
     (if pat \<noteq> [] \<and> startsWith (c # cs) pat then rep @ replace_all pat rep (drop (length pat) (c # cs))
      else c # replace_all pat rep cs)"
  by pat_completeness auto
termination
  by (relation "measure (\<lambda>(pat, rep, s). length s)") auto

definition encodeSegment :: "string \<Rightarrow> string" where
  "encodeSegment v = replace_all '':'' ''%3A'' (replace_all ''%'' ''%25'' v)"

definition decodeSegment :: "string \<Rightarrow> string" where
  "decodeSegment v = replace_all ''%25'' ''%'' (replace_all ''%3A'' '':'' v)"

definition assertKeyNetwork :: "string \<Rightarrow> string \<Rightarrow> cache_key_error + string" where
  "assertKeyNetwork v key =
     (if v \<noteq> ''testnet'' \<and> v \<noteq> ''mainnet'' then Inl (InvalidCacheKeyError key (UnknownNetworkSegment v)) else Inr v)"

definition sessionCacheKey :: "key_parts \<Rightarrow> cache_key_error + string" where
  "sessionCacheKey p =
     (if kp_walletId p = [] then Inl (InvalidCacheKeyError ''<empty>'' WalletIdEmpty)
      else ebind (assertKeyNetwork (kp_network p) ''<building>'') (\<lambda>_.
        Inr (join [CACHE_KEY_SEPARATOR] [CACHE_KEY_PREFIX, CACHE_KEY_NAMESPACE, CACHE_KEY_VERSION,
          encodeSegment (kp_network p), encodeSegment (kp_walletId p)])))"

definition sessionCacheScope :: "string option \<Rightarrow> string" where
  "sessionCacheScope network =
     (let base = join [CACHE_KEY_SEPARATOR] [CACHE_KEY_PREFIX, CACHE_KEY_NAMESPACE, CACHE_KEY_VERSION] in
      case network of
        None \<Rightarrow> base @ [CACHE_KEY_SEPARATOR]
      | Some n \<Rightarrow> base @ [CACHE_KEY_SEPARATOR] @ encodeSegment n @ [CACHE_KEY_SEPARATOR])"

definition parseSessionCacheKey :: "string \<Rightarrow> cache_key_error + key_parts" where
  "parseSessionCacheKey key =
     (let segments = split_on CACHE_KEY_SEPARATOR key in
      case segments of
        [prefix, namespace, version, network, walletId] \<Rightarrow>
          if prefix \<noteq> CACHE_KEY_PREFIX then Inl (InvalidCacheKeyError key WrongPrefix)
          else if namespace \<noteq> CACHE_KEY_NAMESPACE then Inl (InvalidCacheKeyError key WrongNamespace)
          else if version \<noteq> CACHE_KEY_VERSION then Inl (InvalidCacheKeyError key (UnsupportedKeyVersion version))
          else if walletId = [] then Inl (InvalidCacheKeyError key WalletIdEmpty)
          else ebind (assertKeyNetwork (decodeSegment network) key) (\<lambda>n.
            Inr \<lparr>kp_network = n, kp_walletId = decodeSegment walletId\<rparr>)
      | _ \<Rightarrow> Inl (InvalidCacheKeyError key (SegmentCount (length segments))))"

definition isSessionCacheKey :: "string \<Rightarrow> bool" where
  "isSessionCacheKey key = (case parseSessionCacheKey key of Inl _ \<Rightarrow> False | Inr _ \<Rightarrow> True)"

section \<open>The cache\<close>

record enum_storage =
  es_items :: "(string \<times> string) list"
  es_room :: "string \<Rightarrow> string \<Rightarrow> bool"

definition es_get :: "string \<Rightarrow> enum_storage \<Rightarrow> string option" where
  "es_get key st = map_of (es_items st) key"

fun es_update :: "string \<Rightarrow> string \<Rightarrow> (string \<times> string) list \<Rightarrow> (string \<times> string) list" where
  "es_update k v [] = [(k, v)]"
| "es_update k v ((k', v') # kvs) = (if k' = k then (k, v) # kvs else (k', v') # es_update k v kvs)"

datatype cache_error = BadKey cache_key_error | StorageFull

definition es_set :: "string \<Rightarrow> string \<Rightarrow> (enum_storage, cache_error, unit) act" where
  "es_set key v = (\<lambda>st. if es_room st key v then (Inr (), st\<lparr>es_items := es_update key v (es_items st)\<rparr>)
     else (Inl StorageFull, st))"

definition es_remove :: "string \<Rightarrow> enum_storage \<Rightarrow> enum_storage" where
  "es_remove key st = st\<lparr>es_items := filter (\<lambda>x. fst x \<noteq> key) (es_items st)\<rparr>"

definition es_key :: "enum_storage \<Rightarrow> nat \<Rightarrow> string option" where
  "es_key st i = (if i < length (es_items st) then Some (fst (es_items st ! i)) else None)"

definition allKeys :: "enum_storage \<Rightarrow> string list" where
  "allKeys st = List.map_filter (es_key st) [0..<length (es_items st)]"

definition keyed :: "key_parts \<Rightarrow> (string \<Rightarrow> ('s, cache_error, 'a) act) \<Rightarrow> ('s, cache_error, 'a) act" where
  "keyed p f = (case sessionCacheKey p of Inl e \<Rightarrow> throw (BadKey e) | Inr key \<Rightarrow> f key)"

definition parsed_session :: "string \<Rightarrow> json option" where
  "parsed_session raw =
     (case JSON_parse raw of None \<Rightarrow> None | Some parsed \<Rightarrow> if isWalletSession parsed then Some parsed else None)"

definition read_cache :: "key_parts \<Rightarrow> (enum_storage, cache_error, json option) act" where
  "read_cache p = keyed p (\<lambda>key. gets (\<lambda>st. Option.bind (es_get key st) parsed_session))"

definition session_parts :: "wallet_session \<Rightarrow> key_parts" where
  "session_parts s = \<lparr>kp_network = ws_network s, kp_walletId = accountId s\<rparr>"

definition write_cache :: "(rat \<Rightarrow> string) \<Rightarrow> wallet_session \<Rightarrow> (enum_storage, cache_error, unit) act" where
  "write_cache num s = keyed (session_parts s) (\<lambda>key. es_set key (stringify num (session_json s)))"

definition remove_cache :: "key_parts \<Rightarrow> (enum_storage, cache_error, unit) act" where
  "remove_cache p = keyed p (\<lambda>key. modify (es_remove key))"

definition in_scope :: "string option \<Rightarrow> string \<Rightarrow> bool" where
  "in_scope network key = (startsWith key (sessionCacheScope network) \<and> isSessionCacheKey key)"

definition list_cache :: "string option \<Rightarrow> enum_storage \<Rightarrow> (key_parts \<times> json) list" where
  "list_cache network st =
     List.map_filter (\<lambda>key.
       if \<not> in_scope network key then None
       else
         (case (parseSessionCacheKey key, Option.bind (es_get key st) parsed_session) of
            (Inr parts, Some parsed) \<Rightarrow> Some (parts, parsed)
          | _ \<Rightarrow> None)) (allKeys st)"

definition clearScope :: "string option \<Rightarrow> enum_storage \<Rightarrow> nat \<times> enum_storage" where
  "clearScope network st =
     foldl (\<lambda>(removed, st). \<lambda>key. if in_scope network key then (Suc removed, es_remove key st) else (removed, st))
       (0, st) (allKeys st)"

definition LEGACY_SESSION_KEY :: string where "LEGACY_SESSION_KEY = ''vellar.session''"

definition str_prop :: "json \<Rightarrow> string \<Rightarrow> string" where
  "str_prop v k = (case jprop v k of JStr s \<Rightarrow> s | _ \<Rightarrow> [])"

definition migrateLegacyKey ::
    "(rat \<Rightarrow> string) \<Rightarrow> string option \<Rightarrow> (enum_storage, cache_error, string option) act" where
  "migrateLegacyKey num legacy =
     (let legacyKey = (case legacy of None \<Rightarrow> LEGACY_SESSION_KEY | Some k \<Rightarrow> k) in
      andThen (gets (es_get legacyKey)) (\<lambda>raw.
        case Option.bind raw parsed_session of
          None \<Rightarrow> ret None
        | Some parsed \<Rightarrow>
            keyed \<lparr>kp_network = str_prop parsed ''network'', kp_walletId = str_prop parsed ''accountId''\<rparr> (\<lambda>key.
              andThen (es_set key (stringify num parsed)) (\<lambda>_.
              andThen (modify (es_remove legacyKey)) (\<lambda>_. ret (Some key))))))"

section \<open>Segments\<close>

definition encode_char :: "char \<Rightarrow> string" where
  "encode_char c = (if c = CHR ''%'' then ''%25'' else if c = CHR '':'' then ''%3A'' else [c])"

lemma replace_one: "replace_all [p] rep s = concat (map (\<lambda>c. if c = p then rep else [c]) s)"
  by (induction s) (auto simp: startsWith_def)

lemma encodeSegment_chars: "encodeSegment v = concat (map encode_char v)"
proof -
  have "replace_all '':'' ''%3A'' (concat (map (\<lambda>c. if c = CHR ''%'' then ''%25'' else [c]) v)) =
      concat (map encode_char v)"
    by (induction v) (auto simp: replace_one encode_char_def)
  then show ?thesis by (simp add: encodeSegment_def replace_one)
qed

lemma encode_no_separator: "CHR '':'' \<notin> set (encodeSegment v)"
  by (auto simp: encodeSegment_chars encode_char_def split: if_splits)

lemma encode_Nil: "encodeSegment v = [] \<longleftrightarrow> v = []"
  by (cases v) (auto simp: encodeSegment_chars encode_char_def)

lemma decode_colons:
  "replace_all ''%3A'' '':'' (concat (map encode_char v)) = concat (map (\<lambda>c. if c = CHR ''%'' then ''%25'' else [c]) v)"
  by (induction v) (auto simp: encode_char_def startsWith_def)

lemma decode_percents: "replace_all ''%25'' ''%'' (concat (map (\<lambda>c. if c = CHR ''%'' then ''%25'' else [c]) v)) = v"
  by (induction v) (auto simp: startsWith_def)

lemma decode_encode [simp]: "decodeSegment (encodeSegment v) = v"
  by (simp add: decodeSegment_def encodeSegment_chars decode_colons decode_percents)

section \<open>Keys and their parts\<close>

definition valid_parts :: "key_parts \<Rightarrow> bool" where
  "valid_parts p = (kp_walletId p \<noteq> [] \<and> (kp_network p = ''testnet'' \<or> kp_network p = ''mainnet''))"

lemma encode_network: "n = ''testnet'' \<or> n = ''mainnet'' \<Longrightarrow> encodeSegment n = n"
  by (auto simp: encodeSegment_chars encode_char_def)

lemma encode_inject: "encodeSegment a = encodeSegment b \<longleftrightarrow> a = b"
  by (metis decode_encode)

lemma sessionCacheKey_Inr:
  "sessionCacheKey p = Inr key \<longleftrightarrow>
     valid_parts p \<and> key = sessionCacheScope (Some (kp_network p)) @ encodeSegment (kp_walletId p)"
  by (auto simp: sessionCacheKey_def valid_parts_def assertKeyNetwork_def sessionCacheScope_def Let_def)

lemma sessionCacheKey_valid: "(\<exists>key. sessionCacheKey p = Inr key) \<longleftrightarrow> valid_parts p"
  by (simp add: sessionCacheKey_Inr)

lemma parse_key: "sessionCacheKey p = Inr key \<Longrightarrow> parseSessionCacheKey key = Inr p"
proof -
  assume k: "sessionCacheKey p = Inr key"
  have "split_on CACHE_KEY_SEPARATOR key = [CACHE_KEY_PREFIX, CACHE_KEY_NAMESPACE, CACHE_KEY_VERSION,
      encodeSegment (kp_network p), encodeSegment (kp_walletId p)]"
    using k encode_no_separator [of "kp_network p"] encode_no_separator [of "kp_walletId p"]
    by (auto simp: sessionCacheKey_Inr sessionCacheScope_def CACHE_KEY_SEPARATOR_def CACHE_KEY_PREFIX_def
        CACHE_KEY_NAMESPACE_def CACHE_KEY_VERSION_def split_on_append split_on_no_sep)
  moreover have "valid_parts p" using k by (simp add: sessionCacheKey_Inr)
  ultimately show ?thesis
    by (auto simp: parseSessionCacheKey_def assertKeyNetwork_def encode_Nil valid_parts_def)
qed

lemma key_inject: "sessionCacheKey p = Inr key \<Longrightarrow> sessionCacheKey q = Inr key \<Longrightarrow> p = q"
  by (metis parse_key sum.inject(2))

lemma prefix_to_separator:
  assumes "startsWith (b @ d # c) (a @ [d])" "d \<notin> set a" "d \<notin> set b"
  shows "a = b"
proof -
  obtain r where "b @ d # c = a @ d # r"
    using assms(1) append_take_drop_id [of "length (a @ [d])" "b @ d # c"] unfolding startsWith_def
    by (metis append.assoc append_Cons append_Nil)
  then have "takeWhile (\<lambda>x. x \<noteq> d) (b @ d # c) = takeWhile (\<lambda>x. x \<noteq> d) (a @ d # r)" by simp
  moreover have "takeWhile (\<lambda>x. x \<noteq> d) (w @ d # x) = w" if "d \<notin> set w" for w x
    using that by (induction w) auto
  ultimately show ?thesis using assms(2,3) by simp
qed

lemma startsWith_append: "startsWith (p @ s) (p @ t) = startsWith s t"
  by (simp add: startsWith_def)

lemma scope_Some: "sessionCacheScope (Some m) = sessionCacheScope None @ encodeSegment m @ [CACHE_KEY_SEPARATOR]"
  by (simp add: sessionCacheScope_def Let_def)

lemma in_scope_key:
  assumes "sessionCacheKey p = Inr key"
  shows "in_scope n key \<longleftrightarrow> n = None \<or> n = Some (kp_network p)"
proof -
  have own: "isSessionCacheKey key" by (simp add: isSessionCacheKey_def parse_key [OF assms])
  have key: "key = sessionCacheScope (Some (kp_network p)) @ encodeSegment (kp_walletId p)"
    using assms by (simp add: sessionCacheKey_Inr)
  show ?thesis
  proof (cases n)
    case None
    have "key = sessionCacheScope None @ encodeSegment (kp_network p) @ CACHE_KEY_SEPARATOR # encodeSegment (kp_walletId p)"
      by (simp add: key scope_Some)
    then show ?thesis using own None startsWith_append [of "sessionCacheScope None" _ "[]"]
      by (simp add: in_scope_def startsWith_def)
  next
    case (Some m)
    have "m = kp_network p" if "startsWith key (sessionCacheScope (Some m))"
    proof -
      have "startsWith (encodeSegment (kp_network p) @ CHR '':'' # encodeSegment (kp_walletId p))
          (encodeSegment m @ [CHR '':''])"
        using that unfolding key scope_Some
        by (simp add: startsWith_append CACHE_KEY_SEPARATOR_def)
      from prefix_to_separator [OF this encode_no_separator encode_no_separator] show ?thesis
        by (simp add: encode_inject)
    qed
    moreover have "startsWith key (sessionCacheScope (Some (kp_network p)))"
      by (simp add: key startsWith_def)
    ultimately show ?thesis using own Some by (auto simp: in_scope_def)
  qed
qed

section \<open>The cache is a map from parts to sessions\<close>

definition cached :: "enum_storage \<Rightarrow> key_parts \<Rightarrow> json option" where
  "cached st p = (case fst (read_cache p st) of Inl _ \<Rightarrow> None | Inr r \<Rightarrow> r)"

lemma cached_eq:
  "cached st p = (case sessionCacheKey p of Inl _ \<Rightarrow> None | Inr key \<Rightarrow> Option.bind (es_get key st) parsed_session)"
  by (simp add: cached_def read_cache_def keyed_def act_defs split: sum.splits)

lemma map_of_es_update: "map_of (es_update k v kvs) k' = (if k' = k then Some v else map_of kvs k')"
  by (induction kvs) auto

lemma map_of_filter_fst: "map_of (filter (\<lambda>x. P (fst x)) kvs) k = (if P k then map_of kvs k else None)"
  by (induction kvs) auto

lemma es_get_remove: "es_get k (es_remove key st) = (if k = key then None else es_get k st)"
  using map_of_filter_fst [of "\<lambda>x. x \<noteq> key" "es_items st" k] by (simp add: es_get_def es_remove_def)

lemma allKeys_eq: "allKeys st = map fst (es_items st)"
  by (rule nth_equalityI) (auto simp: allKeys_def List.map_filter_def es_key_def)

lemma clear_fold:
  "foldl (\<lambda>(removed, st). \<lambda>key. if in_scope n key then (Suc removed, es_remove key st) else (removed, st)) (c, st) ks =
   (c + length (filter (in_scope n) ks), st\<lparr>es_items := filter (\<lambda>x. \<not> (fst x \<in> set ks \<and> in_scope n (fst x))) (es_items st)\<rparr>)"
  by (induction ks arbitrary: c st)
    (auto simp: es_remove_def intro!: enum_storage.equality intro: filter_cong)

lemma clearScope_eq:
  "clearScope n st = (length (filter (in_scope n) (allKeys st)),
     st\<lparr>es_items := filter (\<lambda>x. \<not> in_scope n (fst x)) (es_items st)\<rparr>)"
  unfolding clearScope_def clear_fold by (auto simp: allKeys_eq intro!: filter_cong enum_storage.equality)

lemma es_get_clear: "es_get k (snd (clearScope n st)) = (if in_scope n k then None else es_get k st)"
  using map_of_filter_fst [of "\<lambda>x. \<not> in_scope n x" "es_items st" k] by (simp add: es_get_def clearScope_eq)

lemma parsed_session_written:
  assumes "isWalletSession (session_json s)"
  shows "parsed_session (stringify num (session_json s)) = Some (session_json s)"
proof -
  have "printable (session_json s)"
    by (auto simp: session_json_def opt_json_def split: option.splits)
  then show ?thesis using assms by (simp add: parsed_session_def JSON_roundtrip)
qed

lemma cached_write:
  assumes "write_cache num s st = (Inr (), st')" "isWalletSession (session_json s)"
  shows "cached st' = (cached st)(session_parts s \<mapsto> session_json s)"
proof -
  obtain key where key: "sessionCacheKey (session_parts s) = Inr key"
    and st': "st' = st\<lparr>es_items := es_update key (stringify num (session_json s)) (es_items st)\<rparr>"
    using assms(1) by (auto simp: write_cache_def keyed_def act_defs es_set_def split: sum.splits if_splits)
  have "es_get k st' = (if k = key then Some (stringify num (session_json s)) else es_get k st)" for k
    by (simp add: es_get_def st' map_of_es_update)
  note get = this
  have "cached st' p = ((cached st)(session_parts s \<mapsto> session_json s)) p" for p
  proof (cases "p = session_parts s")
    case True
    then show ?thesis using key get [of key] parsed_session_written [OF assms(2), of num] by (simp add: cached_eq)
  next
    case False
    then show ?thesis using key key_inject [of p key "session_parts s"] by (auto simp: cached_eq get split: sum.splits)
  qed
  then show ?thesis by blast
qed

lemma cached_remove: "cached (snd (remove_cache p st)) = (cached st)(p := None)"
proof
  fix q
  show "cached (snd (remove_cache p st)) q = ((cached st)(p := None)) q"
    using key_inject [of p _ q]
    by (auto simp: remove_cache_def keyed_def act_defs cached_eq es_get_remove split: sum.splits)
qed

lemma cached_clear:
  "cached (snd (clearScope n st)) = cached st |` {p. n \<noteq> None \<and> n \<noteq> Some (kp_network p)}"
proof
  fix p
  show "cached (snd (clearScope n st)) p = (cached st |` {p. n \<noteq> None \<and> n \<noteq> Some (kp_network p)}) p"
    by (auto simp: cached_eq es_get_clear in_scope_key restrict_map_def split: sum.splits)
qed

lemma listed_if_cached:
  assumes "cached st p = Some v" "n = None \<or> n = Some (kp_network p)"
  shows "(p, v) \<in> set (list_cache n st)"
proof -
  obtain key where key: "sessionCacheKey p = Inr key" "Option.bind (es_get key st) parsed_session = Some v"
    using assms(1) by (auto simp: cached_eq split: sum.splits)
  then have "key \<in> set (allKeys st)"
    by (force simp: allKeys_eq es_get_def bind_eq_Some_conv dest: map_of_SomeD)
  then show ?thesis
    using key in_scope_key [OF key(1), of n] assms(2) parse_key [OF key(1)]
    by (force simp: list_cache_def List.map_filter_def)
qed

text \<open>
  What a client of the cache relies on: sessions by network and wallet, invalidation by network. The
  client lemma: sessions of one network that were written and dropped by scope leave the others as they were.
\<close>

locale session_cache =
  fixes lookup :: "'s \<Rightarrow> key_parts \<Rightarrow> json option"
    and store :: "wallet_session \<Rightarrow> 's \<Rightarrow> 's option"
    and drop_scope :: "string \<Rightarrow> 's \<Rightarrow> 's"
    and storable_session :: "wallet_session \<Rightarrow> bool"
  assumes store_lookup: "storable_session s \<Longrightarrow> store s st = Some st' \<Longrightarrow>
      lookup st' = (lookup st)(session_parts s \<mapsto> session_json s)"
    and drop_lookup: "lookup (drop_scope n st) = lookup st |` {p. kp_network p \<noteq> n}"
begin

primrec store_all :: "wallet_session list \<Rightarrow> 's \<Rightarrow> 's option" where
  "store_all [] st = Some st"
| "store_all (s # ss) st = Option.bind (store s st) (store_all ss)"

lemma store_all_other:
  assumes "store_all ss st = Some st'" "\<forall>s\<in>set ss. storable_session s \<and> ws_network s = n" "kp_network p \<noteq> n"
  shows "lookup st' p = lookup st p"
  using assms
proof (induction ss arbitrary: st)
  case (Cons s ss)
  then obtain st1 where "store s st = Some st1" "store_all ss st1 = Some st'" by (auto simp: bind_eq_Some_conv)
  then show ?case using Cons store_lookup [of s st st1] by (auto simp: session_parts_def)
qed simp

lemma scope_isolation:
  assumes "store_all ss st = Some st'" "\<forall>s\<in>set ss. storable_session s \<and> ws_network s = n"
  shows "lookup (drop_scope n st') = lookup st |` {p. kp_network p \<noteq> n}"
  using store_all_other [OF assms] by (auto simp: drop_lookup restrict_map_def)

end

definition store_session :: "(rat \<Rightarrow> string) \<Rightarrow> wallet_session \<Rightarrow> enum_storage \<Rightarrow> enum_storage option" where
  "store_session num s st = (case write_cache num s st of (Inr _, st') \<Rightarrow> Some st' | (Inl _, _) \<Rightarrow> None)"

interpretation scoped: session_cache cached "store_session num" "\<lambda>n st. snd (clearScope (Some n) st)"
    "\<lambda>s. isWalletSession (session_json s)" for num
proof unfold_locales
  fix s :: wallet_session and st st' :: enum_storage
  assume "isWalletSession (session_json s)" "store_session num s st = Some st'"
  then show "cached st' = (cached st)(session_parts s \<mapsto> session_json s)"
    by (auto simp: store_session_def intro!: cached_write split: prod.splits sum.splits)
next
  fix n and st :: enum_storage
  show "cached (snd (clearScope (Some n) st)) = cached st |` {p. kp_network p \<noteq> n}"
    using cached_clear [of "Some n" st] by (simp add: eq_commute)
qed


definition cache_sample :: wallet_session where
  "cache_sample = \<lparr>accountId = ''C:1%'', ws_network = ''testnet'', connected = True, authMethod = ''passkey'',
     createdAt = ''t0'', lastActiveAt = ''t1'', serverSessionId = None, keyId = Some ''k''\<rparr>"

definition cache_store :: enum_storage where
  "cache_store = \<lparr>es_items = [(''vellar:session:v1:testnet:C%3A1%25'', stringify (\<lambda>_. []) (session_json cache_sample))],
     es_room = (\<lambda>_ _. True)\<rparr>"


text \<open>
  Other networks' sessions survive a network that is filled and cleared.
\<close>

lemma clearing_one_network_keeps_the_other:
  assumes "scoped.store_all num ss st = Some st'"
    and "\<forall>s\<in>set ss. isWalletSession (session_json s) \<and> ws_network s = n"
  shows "cached (snd (clearScope (Some n) st')) = cached st |` {p. kp_network p \<noteq> n}"
  using scoped.scope_isolation [OF assms] .

text \<open>
  The parser also takes keys that the format does not build: a percent sign that is not an escape is
  read as itself, so the entry is listed and cleared under parts that a read of them does not find.
\<close>

lemma unbuilt_key_is_accepted:
  "parseSessionCacheKey ''vellar:session:v1:testnet:C%1'' = Inr \<lparr>kp_network = ''testnet'', kp_walletId = ''C%1''\<rparr> \<and>
   sessionCacheKey \<lparr>kp_network = ''testnet'', kp_walletId = ''C%1''\<rparr> = Inr ''vellar:session:v1:testnet:C%251''"
  by code_simp

lemma legacy_key_is_moved:
  assumes "es_get LEGACY_SESSION_KEY st = Some raw" "parsed_session raw = Some v" "printable v"
    and p: "p = \<lparr>kp_network = str_prop v ''network'', kp_walletId = str_prop v ''accountId''\<rparr>"
    and room: "\<forall>k x. es_room st k x"
  shows "\<exists>key st'. migrateLegacyKey num None st = (Inr (Some key), st') \<and> sessionCacheKey p = Inr key \<and>
    cached st' p = Some v \<and> es_get LEGACY_SESSION_KEY st' = None"
proof -
  have v: "isWalletSession v" using assms(2) by (auto simp: parsed_session_def split: option.splits if_splits)
  then have "valid_parts p"
    by (auto simp: p valid_parts_def str_prop_def isWalletSession_def split: json.splits elim: is_str.elims)
  then obtain key where key: "sessionCacheKey p = Inr key" using sessionCacheKey_valid by blast
  then have other: "key \<noteq> LEGACY_SESSION_KEY"
    by (auto simp: sessionCacheKey_Inr sessionCacheScope_def CACHE_KEY_PREFIX_def CACHE_KEY_SEPARATOR_def
        LEGACY_SESSION_KEY_def Let_def)
  let ?st = "es_remove LEGACY_SESSION_KEY (st\<lparr>es_items := es_update key (stringify num v) (es_items st)\<rparr>)"
  have "parsed_session (stringify num v) = Some v" using v assms(3) by (simp add: parsed_session_def JSON_roundtrip)
  moreover have "es_get key ?st = Some (stringify num v)"
    using other by (simp add: es_get_remove) (simp add: es_get_def map_of_es_update)
  ultimately have "cached ?st p = Some v" by (simp add: cached_eq key)
  moreover have "migrateLegacyKey num None st = (Inr (Some key), ?st)"
    using assms(1,2) key room by (simp add: migrateLegacyKey_def keyed_def act_defs es_set_def p)
  ultimately show ?thesis using key by (auto simp: es_get_remove)
qed

end
