(* ===== verification/HttpRetry.thy ===== *)
theory HttpRetry
  imports Services
begin

text \<open>
  The shared HTTP retry wrapper (\<open>contrib/examples/issue-301-http-retry-wrapper/http-retry.ts\<close>) and the wallet
  backend on top of it (\<open>retrying-wallet-backend.ts\<close> there). The requests and answers are those of the wallet
  services; beside them the state has what \<open>onRetry\<close> was told before each pause. The abort signal, the random
  source and whether the hook throws are parameters, functions of that state. Numbers are exact rationals.
\<close>

section \<open>The wrapper\<close>

definition RETRYABLE_STATUSES :: "nat list" where
  "RETRYABLE_STATUSES = [408, 429, 502, 503, 504]"

definition isUndecidedStatus :: "nat \<Rightarrow> bool" where
  "isUndecidedStatus status = (status \<in> set RETRYABLE_STATUSES)"

record retry_policy =
  ry_maxAttempts :: "rat option"
  ry_baseDelayMs :: "rat option"
  ry_maxDelayMs :: "rat option"
  ry_jitter :: "rat option"

record retry_event =
  rn_attempt :: nat
  rn_maxAttempts :: rat
  rn_delayMs :: rat
  rn_status :: "nat option"
  rn_error :: "js_error option"

record retry_state =
  rt_calls :: "service_event list"
  rt_retries :: "retry_event list"

record retry_env =
  rv_aborted :: "retry_state \<Rightarrow> bool"
  rv_random :: "retry_state \<Rightarrow> rat"
  rv_onRetry :: "retry_state \<Rightarrow> js_error option"

type_synonym 'a retrying = "(retry_state, js_error, 'a) act"

definition or_default :: "'a option \<Rightarrow> 'a \<Rightarrow> 'a" where
  "or_default v d = (case v of None \<Rightarrow> d | Some x \<Rightarrow> x)"

definition js_round :: "rat \<Rightarrow> rat" where
  "js_round q = of_int \<lfloor>q + 1 / 2\<rfloor>"

definition computeBackoffDelay :: "nat \<Rightarrow> retry_policy \<Rightarrow> rat \<Rightarrow> rat" where
  "computeBackoffDelay attempt policy random =
     (let base = or_default (ry_baseDelayMs policy) 200;
          cap = or_default (ry_maxDelayMs policy) 2000;
          jitter = or_default (ry_jitter policy) (1 / 4);
          exponential = min (base * 2 ^ (attempt - 1)) cap in
      if jitter \<le> 0 then exponential
      else max 0 (js_round (exponential - random * (exponential * jitter))))"

text \<open>The loop; \<open>maxAttempts\<close> is at least 1.\<close>

definition decided :: "retry_env \<Rightarrow> retry_state \<Rightarrow> http_response outcome \<Rightarrow> bool" where
  "decided env s r = (case r of Inr response \<Rightarrow> \<not> isUndecidedStatus (rs_status response) | Inl _ \<Rightarrow> rv_aborted env s)"

definition retry_of :: "nat \<Rightarrow> rat \<Rightarrow> rat \<Rightarrow> http_response outcome \<Rightarrow> retry_event" where
  "retry_of attempt maxAttempts delay r =
     \<lparr>rn_attempt = attempt, rn_maxAttempts = maxAttempts, rn_delayMs = delay,
      rn_status = (case r of Inr response \<Rightarrow> Some (rs_status response) | Inl _ \<Rightarrow> None),
      rn_error = (case r of Inr _ \<Rightarrow> None | Inl e \<Rightarrow> Some e)\<rparr>"

function retry_loop ::
    "retry_env \<Rightarrow> retry_policy \<Rightarrow> rat \<Rightarrow> (nat \<Rightarrow> http_response retrying) \<Rightarrow> nat \<Rightarrow> retry_state \<Rightarrow>
     http_response outcome \<times> retry_state" where
  "retry_loop env policy maxAttempts request attempt s =
     (if rv_aborted env s then (Inl (Thrown ''HTTP request aborted''), s)
      else
        (let (r, s1) = request attempt s in
         if decided env s1 r then (r, s1)
         else if of_nat attempt \<ge> maxAttempts then (r, s1)
         else
           (let delay = computeBackoffDelay attempt policy (rv_random env s1);
                s2 = s1\<lparr>rt_retries := rt_retries s1 @ [retry_of attempt maxAttempts delay r]\<rparr> in
            case rv_onRetry env s2 of
              Some e \<Rightarrow> (Inl e, s2)
            | None \<Rightarrow> retry_loop env policy maxAttempts request (Suc attempt) s2)))"
  by pat_completeness auto
termination
proof (relation "measure (\<lambda>(env, policy, maxAttempts, request, attempt, s). nat \<lceil>maxAttempts\<rceil> - attempt)", goal_cases)
  case (2 env policy maxAttempts request attempt s x r s1 delay s2)
  then have "attempt < nat \<lceil>maxAttempts\<rceil>" by (simp add: not_le less_ceiling_iff nat_less_iff zless_nat_eq_int_zless)
  then show ?case by simp
qed simp

declare retry_loop.simps [simp del]

definition fetchWithRetry ::
    "retry_env \<Rightarrow> retry_policy \<Rightarrow> bool \<Rightarrow> (nat \<Rightarrow> http_response retrying) \<Rightarrow> http_response retrying" where
  "fetchWithRetry env policy may_retry request =
     (let maxAttempts = (if may_retry then or_default (ry_maxAttempts policy) 3 else 1) in
      if maxAttempts < 1 then throw (Thrown ''RangeError'')
      else retry_loop env policy maxAttempts request 1)"

definition on_calls :: "'a service \<Rightarrow> 'a retrying" where
  "on_calls m = (\<lambda>s. case m (rt_calls s) of (r, tr) \<Rightarrow> (r, s\<lparr>rt_calls := tr\<rparr>))"

definition createRetryingPost ::
    "retry_env \<Rightarrow> retry_policy \<Rightarrow> (string \<Rightarrow> json \<Rightarrow> http_response service) \<Rightarrow> string \<Rightarrow> json \<Rightarrow> bool \<Rightarrow> http_response retrying" where
  "createRetryingPost env policy send path body may_retry =
     fetchWithRetry env policy may_retry (\<lambda>_. on_calls (send path body))"

section \<open>The wallet backend\<close>

definition retryingSubmitWalletCreation ::
    "retry_env \<Rightarrow> retry_policy \<Rightarrow> http_fetch \<Rightarrow> string \<Rightarrow> string \<Rightarrow> string \<Rightarrow> string \<Rightarrow> json outcome \<Rightarrow> json retrying" where
  "retryingSubmitWalletCreation env policy fetchImpl apiUrl key contractId network signedTx =
     andThen (lift signedTx) (\<lambda>xdr.
     andThen (createRetryingPost env policy (post fetchImpl apiUrl) ''/wallet/create''
       (JObj [(''keyId'', JStr key), (''contractId'', JStr contractId), (''network'', JStr network),
         (''signedTx'', xdr)]) False) (\<lambda>res. lift (okJson res)))"

definition retryingLookupContractId ::
    "retry_env \<Rightarrow> retry_policy \<Rightarrow> http_fetch \<Rightarrow> string \<Rightarrow> string \<Rightarrow> string \<Rightarrow> json option retrying" where
  "retryingLookupContractId env policy fetchImpl apiUrl key network =
     andThen (createRetryingPost env policy (post fetchImpl apiUrl) ''/wallet/connect''
       (JObj [(''keyId'', JStr key), (''network'', JStr network)]) True) (\<lambda>res.
       if rs_status res = 404 then ret None else lift (map_sum id Some (okJson res)))"

definition retryingSubmitTransaction ::
    "retry_env \<Rightarrow> retry_policy \<Rightarrow> http_fetch \<Rightarrow> string \<Rightarrow> string \<Rightarrow> string \<Rightarrow> json retrying" where
  "retryingSubmitTransaction env policy fetchImpl apiUrl signedXdr network =
     andThen (createRetryingPost env policy (post fetchImpl apiUrl) ''/wallet/submit''
       (JObj [(''signedXdr'', JStr signedXdr), (''network'', JStr network)]) False) (\<lambda>res. lift (okJson res))"

section \<open>Which requests are repeated\<close>

definition undecided :: "string + http_response \<Rightarrow> bool" where
  "undecided r = (case r of Inl _ \<Rightarrow> True | Inr response \<Rightarrow> isUndecidedStatus (rs_status response))"

lemma on_calls_post:
  "on_calls (post fetchImpl apiUrl path body) s =
     (let rq = \<lparr>rq_url = strip_slashes apiUrl @ path, rq_post = True, rq_body = Some body\<rparr>;
          x = fetchImpl (rt_calls s) rq in
      (map_sum Thrown id x, s\<lparr>rt_calls := rt_calls s @ [SRequest rq x]\<rparr>))"
  by (simp add: on_calls_def post_def loggedCall_def Let_def)

lemma not_decided_undecided: "\<not> decided env s (map_sum Thrown id x) \<Longrightarrow> undecided x"
  by (cases x) (auto simp: decided_def undecided_def)

lemma loop_requests:
  assumes "retry_loop env policy m (\<lambda>_. on_calls (post fetchImpl apiUrl path body)) attempt s = (r, s')"
    and rq: "rq = \<lparr>rq_url = strip_slashes apiUrl @ path, rq_post = True, rq_body = Some body\<rparr>"
  shows "\<exists>xs. rt_calls s' = rt_calls s @ map (SRequest rq) xs \<and> length xs \<le> 1 + (nat \<lceil>m\<rceil> - attempt) \<and>
    (\<forall>x\<in>set (butlast xs). undecided x)"
  using assms(1)
proof (induction "nat \<lceil>m\<rceil> - attempt" arbitrary: attempt s rule: less_induct)
  case less
  let ?x = "fetchImpl (rt_calls s) rq" and ?s1 = "s\<lparr>rt_calls := rt_calls s @ [SRequest rq (fetchImpl (rt_calls s) rq)]\<rparr>"
  let ?s2 = "?s1\<lparr>rt_retries := rt_retries ?s1 @ [retry_of attempt m
    (computeBackoffDelay attempt policy (rv_random env ?s1)) (map_sum Thrown id ?x)]\<rparr>"
  let ?stop = "rt_calls s' = rt_calls s \<or> rt_calls s' = rt_calls s @ [SRequest rq ?x]"
  have cases: "?stop \<or> (\<not> decided env ?s1 (map_sum Thrown id ?x) \<and> of_nat attempt < m \<and>
      retry_loop env policy m (\<lambda>_. on_calls (post fetchImpl apiUrl path body)) (Suc attempt) ?s2 = (r, s'))"
    using less.prems retry_loop.simps [of env policy m _ attempt s]
    by (auto simp: on_calls_post rq [symmetric] Let_def not_le split: if_splits option.splits)
  show ?case
  proof (cases ?stop)
    case True
    then show ?thesis
    proof
      assume "rt_calls s' = rt_calls s"
      then show ?thesis by (intro exI [of _ "[]"]) simp
    next
      assume "rt_calls s' = rt_calls s @ [SRequest rq ?x]"
      then show ?thesis by (intro exI [of _ "[?x]"]) simp
    qed
  next
    case False
    then have more: "\<not> decided env ?s1 (map_sum Thrown id ?x)" "of_nat attempt < m"
      and rec: "retry_loop env policy m (\<lambda>_. on_calls (post fetchImpl apiUrl path body)) (Suc attempt) ?s2 = (r, s')"
      using cases by blast+
    have lt: "attempt < nat \<lceil>m\<rceil>"
      using more(2) by (simp add: less_ceiling_iff zless_nat_eq_int_zless)
    then have "nat \<lceil>m\<rceil> - Suc attempt < nat \<lceil>m\<rceil> - attempt" by simp
    from less.hyps [OF this rec] obtain xs where xs: "rt_calls s' = rt_calls ?s2 @ map (SRequest rq) xs"
      "length xs \<le> 1 + (nat \<lceil>m\<rceil> - Suc attempt)" "\<forall>x\<in>set (butlast xs). undecided x" by blast
    then show ?thesis
      using not_decided_undecided [OF more(1)] lt by (intro exI [of _ "?x # xs"]) auto
  qed
qed

lemma single_attempt:
  assumes "\<not> rv_aborted env s"
  shows "createRetryingPost env policy (post fetchImpl apiUrl) path body False s = on_calls (post fetchImpl apiUrl path body) s"
  using assms retry_loop.simps [of env policy 1 _ 1 s]
  by (simp add: createRetryingPost_def fetchWithRetry_def on_calls_post Let_def)

lemma on_calls_andThen:
  "on_calls (andThen m f) s = andThen (on_calls m) (\<lambda>x. on_calls (f x)) s"
  by (auto simp: on_calls_def act_defs split: prod.splits sum.splits)

lemma on_calls_lift: "on_calls (lift r) s = lift r s"
  by (simp add: on_calls_def act_defs)

text \<open>
  A write through the retrying backend is the write of the plain HTTP backend: the
  same single request and the same result, whatever the retry policy, the answers and the random source are. A
  lookup repeats its one request at most \<open>maxAttempts\<close> times in all (rounded up), and only after transport
  errors and answers in which the server says it reached no decision.
\<close>

theorem writes_are_sent_once_and_lookups_bounded:
  assumes live: "\<not> rv_aborted env s"
    and lookup: "retryingLookupContractId env policy fetchImpl apiUrl key network s = (r, s')"
  shows "retryingSubmitTransaction env policy fetchImpl apiUrl signedXdr network s =
      on_calls (submitSigned fetchImpl apiUrl signedXdr network) s \<and>
    retryingSubmitWalletCreation env policy fetchImpl apiUrl key contractId network (map_sum id JStr signedTx) s =
      on_calls (submitWalletCreation fetchImpl apiUrl key contractId network signedTx) s \<and>
    (\<exists>xs. rt_calls s' = rt_calls s @ map (SRequest \<lparr>rq_url = strip_slashes apiUrl @ ''/wallet/connect'', rq_post = True,
          rq_body = Some (JObj [(''keyId'', JStr key), (''network'', JStr network)])\<rparr>) xs \<and>
        length xs \<le> nat \<lceil>or_default (ry_maxAttempts policy) 3\<rceil> \<and> (\<forall>x\<in>set (butlast xs). undecided x))"
proof (intro conjI)
  show "retryingSubmitTransaction env policy fetchImpl apiUrl signedXdr network s =
      on_calls (submitSigned fetchImpl apiUrl signedXdr network) s"
    unfolding retryingSubmitTransaction_def submitSigned_def on_calls_andThen
    by (simp add: andThen_def single_attempt [OF live] on_calls_lift split: prod.splits sum.splits)
  show "retryingSubmitWalletCreation env policy fetchImpl apiUrl key contractId network (map_sum id JStr signedTx) s =
      on_calls (submitWalletCreation fetchImpl apiUrl key contractId network signedTx) s"
    unfolding retryingSubmitWalletCreation_def submitWalletCreation_def on_calls_andThen on_calls_lift andThen_def
    by (cases signedTx) (simp_all add: lift_def single_attempt [OF live] on_calls_andThen [unfolded andThen_def]
        on_calls_lift [unfolded lift_def] on_calls_lift split: prod.splits sum.splits)
  let ?m = "or_default (ry_maxAttempts policy) 3"
  let ?rq = "\<lparr>rq_url = strip_slashes apiUrl @ ''/wallet/connect'', rq_post = True,
    rq_body = Some (JObj [(''keyId'', JStr key), (''network'', JStr network)])\<rparr>"
  let ?loop = "retry_loop env policy ?m (\<lambda>_. on_calls (post fetchImpl apiUrl ''/wallet/connect''
    (JObj [(''keyId'', JStr key), (''network'', JStr network)]))) 1 s"
  show "\<exists>xs. rt_calls s' = rt_calls s @ map (SRequest ?rq) xs \<and> length xs \<le> nat \<lceil>?m\<rceil> \<and> (\<forall>x\<in>set (butlast xs). undecided x)"
  proof (cases "?m < 1")
    case True
    then have "s' = s" using lookup
      by (auto simp: retryingLookupContractId_def createRetryingPost_def fetchWithRetry_def act_defs Let_def)
    then show ?thesis by (intro exI [of _ "[]"]) simp
  next
    case False
    then have "rt_calls s' = rt_calls (snd ?loop)" using lookup
      by (auto simp: retryingLookupContractId_def createRetryingPost_def fetchWithRetry_def act_defs Let_def
          split: prod.splits sum.splits if_splits)
    moreover obtain xs where "rt_calls (snd ?loop) = rt_calls s @ map (SRequest ?rq) xs" "length xs \<le> 1 + (nat \<lceil>?m\<rceil> - 1)"
      "\<forall>x\<in>set (butlast xs). undecided x"
      using loop_requests [OF prod.collapse [symmetric] refl, of env policy ?m fetchImpl apiUrl "''/wallet/connect''" _ 1 s]
      by blast
    moreover have "1 + (nat \<lceil>?m\<rceil> - 1) = nat \<lceil>?m\<rceil>" using False by (simp add: one_le_ceiling nat_eq_iff not_less)
    ultimately show ?thesis by (intro exI [of _ xs]) simp
  qed
qed

definition sample_retry_policy :: retry_policy where
  "sample_retry_policy = \<lparr>ry_maxAttempts = Some 2, ry_baseDelayMs = None, ry_maxDelayMs = None, ry_jitter = Some 0\<rparr>"

definition sample_retry_env :: retry_env where
  "sample_retry_env = \<lparr>rv_aborted = (\<lambda>s. False), rv_random = (\<lambda>s. 0), rv_onRetry = (\<lambda>s. None)\<rparr>"

definition sample_busy :: http_fetch where
  "sample_busy = (\<lambda>tr rq. Inr \<lparr>rs_status = 503, rs_json = Inr JNull\<rparr>)"

theorem writes_are_sent_once_and_lookups_bounded_witness:
  "length (rt_calls (snd (retryingSubmitTransaction sample_retry_env sample_retry_policy sample_busy ''u'' ''x'' ''testnet''
     \<lparr>rt_calls = [], rt_retries = []\<rparr>))) = 1 \<and>
   length (rt_calls (snd (retryingLookupContractId sample_retry_env sample_retry_policy sample_busy ''u'' ''k'' ''testnet''
     \<lparr>rt_calls = [], rt_retries = []\<rparr>))) \<le> 2"
proof -
  let ?s = "\<lparr>rt_calls = [], rt_retries = []\<rparr>"
  have "\<not> rv_aborted sample_retry_env ?s" by (simp add: sample_retry_env_def)
  note facts = writes_are_sent_once_and_lookups_bounded [OF this prod.collapse [symmetric],
      where policy = sample_retry_policy and fetchImpl = sample_busy and apiUrl = "''u''" and key = "''k''" and network = "''testnet''"
        and signedXdr = "''x''"]
  have w: "retryingSubmitTransaction sample_retry_env sample_retry_policy sample_busy ''u'' ''x'' ''testnet'' ?s =
      on_calls (submitSigned sample_busy ''u'' ''x'' ''testnet'') ?s"
    and l: "length (rt_calls (snd (retryingLookupContractId sample_retry_env sample_retry_policy sample_busy ''u'' ''k'' ''testnet'' ?s))) \<le> 2"
    using facts by (fastforce simp: sample_retry_policy_def or_default_def)+
  show ?thesis using l unfolding w
    by (simp add: on_calls_def submitSigned_def post_def loggedCall_def act_defs sample_busy_def Let_def)
qed

section \<open>Delays\<close>

lemma js_round_le: "q \<le> of_int n \<Longrightarrow> js_round q \<le> of_int n"
  by (simp add: js_round_def floor_le_iff)

text \<open>
  With a non-negative base, a whole \<open>maxDelayMs\<close> and a random source in \<open>[0, 1)\<close> a pause is between nothing and \<open>maxDelayMs\<close>.
\<close>

lemma backoff_bounds:
  assumes "or_default (ry_maxDelayMs policy) 2000 = of_int n" "0 \<le> n" "0 \<le> or_default (ry_baseDelayMs policy) 200"
    and "0 \<le> random" "random < 1"
  shows "0 \<le> computeBackoffDelay attempt policy random \<and> computeBackoffDelay attempt policy random \<le> of_int n"
proof -
  let ?e = "min (or_default (ry_baseDelayMs policy) 200 * 2 ^ (attempt - 1)) (of_int n)"
  let ?j = "or_default (ry_jitter policy) (1 / 4)"
  have e: "0 \<le> ?e" "?e \<le> of_int n" using assms(2,3) by auto
  show ?thesis
  proof (cases "?j \<le> 0")
    case True
    then show ?thesis using e assms(1) by (simp add: computeBackoffDelay_def Let_def)
  next
    case False
    then have "0 \<le> random * (?e * ?j)" using e(1) assms(4) by auto
    then have "?e - random * (?e * ?j) \<le> of_int n" using e(2) by linarith
    from js_round_le [OF this] show ?thesis
      using False assms(1,2) by (simp add: computeBackoffDelay_def Let_def)
  qed
qed

text \<open>A fractional \<open>maxDelayMs\<close> can be exceeded: the rounding comes after the cap.\<close>

lemma rounding_exceeds_cap:
  "computeBackoffDelay 1 \<lparr>ry_maxAttempts = None, ry_baseDelayMs = None, ry_maxDelayMs = Some (3 / 2), ry_jitter = None\<rparr> 0 = 2"
  by (simp add: computeBackoffDelay_def or_default_def js_round_def)

text \<open>
  The statuses that count as undecided here are not those of the policy client: there every status from 500 on may be
  retried.
\<close>

lemma retry_rules_differ: "\<not> isUndecidedStatus 500 \<and> isRetryableStatus 500"
  by (simp add: isUndecidedStatus_def RETRYABLE_STATUSES_def isRetryableStatus_def)

end
