(* ===== verification/AgentGuard.thy ===== *)
theory AgentGuard
  imports Agents
begin

text \<open>
  The hardened agent-key facade (\<open>contrib/issues-668-762-763-765/agent-mint-guard.ts\<close>): the checks of the
  agent facade with duplicate policies refused, and a \<open>revoke\<close> that remembers what it revoked. Types, runtime
  and dependencies are those of the agent facade. The state has the revoked keys with their hashes, in the
  order of the map, beside the trace of the runtime's calls.
\<close>

section \<open>Validation\<close>

datatype guard_error = Sdk js_error | AgentKeyNotFoundError string

fun distinct_policies :: "string set \<Rightarrow> string list \<Rightarrow> unit outcome" where
  "distinct_policies seen [] = Inr ()"
| "distinct_policies seen (p # ps) =
     (if \<not> is_contract_id p then Inl (Wallet (InvalidAgentInputError ''policy must be a contract id''))
      else if p \<in> seen then Inl (Wallet (InvalidAgentInputError ''grant has duplicate policy''))
      else distinct_policies (insert p seen) ps)"

definition assertNoDuplicatePolicies :: "agent_grant \<Rightarrow> unit outcome" where
  "assertNoDuplicatePolicies g =
     (if gr_policies g = [] then Inl (Wallet (InvalidAgentInputError ''grant has no policies''))
      else distinct_policies {} (gr_policies g))"

definition validateExpiresAt :: "expiry option \<Rightarrow> rat \<Rightarrow> int option outcome" where
  "validateExpiresAt expiresAt nowMs =
     (case expiresAt of
        None \<Rightarrow> Inr None
      | Some e \<Rightarrow>
          let seconds = (case e of AtDate ms \<Rightarrow> map_option (\<lambda>m. \<lfloor>m / 1000\<rfloor>) ms
                                 | AtSeconds s \<Rightarrow> map_option floor s);
              currentSeconds = \<lfloor>nowMs / 1000\<rfloor> in
          (case seconds of
             None \<Rightarrow> Inl (Wallet (InvalidAgentInputError ''expiresAt must be in the future''))
           | Some s \<Rightarrow>
               if s \<le> currentSeconds
               then Inl (Wallet (InvalidAgentInputError ''expiresAt must be in the future''))
               else Inr (Some s)))"

fun guard_grants :: "agent_grant list \<Rightarrow> unit outcome" where
  "guard_grants [] = Inr ()"
| "guard_grants (g # gs) =
     (if \<not> is_contract_id (gr_token g)
      then Inl (Wallet (InvalidAgentInputError ''grant token must be a contract id''))
      else ebind (assertNoDuplicatePolicies g) (\<lambda>_. guard_grants gs))"

definition guard_validateMint :: "mint_input \<Rightarrow> unit outcome" where
  "guard_validateMint input =
     (if \<not> is_public_key (mi_publicKey input)
      then Inl (Wallet (InvalidAgentInputError ''publicKey must be an ed25519 public key''))
      else if mi_grants input = []
      then Inl (Wallet (InvalidAgentInputError ''at least one token grant is required''))
      else guard_grants (mi_grants input))"

section \<open>The facade\<close>

datatype idempotency_mode = Noop | ThrowNotFound

record guard_state =
  gd_revoked :: "(string \<times> string) list"
  gd_trace :: "agent_event list"

type_synonym 'a guarded = "(guard_state, guard_error, 'a) act"

definition on_runtime :: "'a agent \<Rightarrow> 'a guarded" where
  "on_runtime m = (\<lambda>s. case m (gd_trace s) of (r, tr) \<Rightarrow> (map_sum Sdk id r, s\<lparr>gd_trace := tr\<rparr>))"

definition guard_mint :: "agent_deps \<Rightarrow> mint_input \<Rightarrow> mint_result guarded" where
  "guard_mint deps input = on_runtime (
     andThen (lift (requireRuntime deps)) (\<lambda>rt.
     andThen (lift (ad_session deps)) (\<lambda>(account, key).
     andThen (lift (guard_validateMint input)) (\<lambda>_.
     andThen (lift (validateExpiresAt (mi_expiresAt input) (ad_now deps))) (\<lambda>expiration.
     andThen (resumeAgent rt key) (\<lambda>_.
     let store = (case mi_store input of None \<Rightarrow> Persistent | Some st \<Rightarrow> st) in
     andThen (loggedCall (\<lambda>tr. ag_add rt tr (mi_publicKey input) (mi_grants input) expiration store)
       (AAdd (mi_publicKey input) (mi_grants input) expiration store)) (\<lambda>hash.
     andThen (lift (isoOf deps expiration)) (\<lambda>iso.
       ret \<lparr>mr_hash = hash, mr_publicKey = mi_publicKey input, mr_expiresAt = iso\<rparr>))))))))"

text \<open>\<open>/not found|already revoked|does not exist/i\<close>; an \<open>AgentKeyNotFoundError\<close> of the runtime has such a message too.\<close>

definition says_not_found :: "string \<Rightarrow> bool" where
  "says_not_found message =
     (let m = toLowerCase message in
      contains_text ''not found'' m \<or> contains_text ''already revoked'' m \<or> contains_text ''does not exist'' m)"

definition remove_key :: "idempotency_mode \<Rightarrow> agent_runtime \<Rightarrow> string \<Rightarrow> string guarded" where
  "remove_key mode rt publicKey = (\<lambda>s.
     let x = ag_remove rt (gd_trace s) publicKey; s1 = s\<lparr>gd_trace := gd_trace s @ [ARemove publicKey x]\<rparr> in
     case x of
       Inr hash \<Rightarrow> (Inr hash, s1\<lparr>gd_revoked := gd_revoked s1 @ [(publicKey, hash)]\<rparr>)
     | Inl message \<Rightarrow>
         if says_not_found message
         then (if mode = ThrowNotFound then (Inl (AgentKeyNotFoundError publicKey), s1) else (Inr ''already-revoked'', s1))
         else (Inl (Sdk (Thrown message)), s1))"

definition guard_revoke :: "idempotency_mode \<Rightarrow> agent_deps \<Rightarrow> string \<Rightarrow> string guarded" where
  "guard_revoke mode deps publicKey =
     andThen (on_runtime (lift (requireRuntime deps))) (\<lambda>rt.
     andThen (on_runtime (lift (ad_session deps))) (\<lambda>(account, key).
       if \<not> is_public_key publicKey
       then throw (Sdk (Wallet (InvalidAgentInputError ''publicKey must be an ed25519 public key'')))
       else
         andThen (gets (\<lambda>s. map_of (gd_revoked s) publicKey)) (\<lambda>known.
           case known of
             Some hash \<Rightarrow> if mode = ThrowNotFound then throw (AgentKeyNotFoundError publicKey) else ret hash
           | None \<Rightarrow>
               andThen (on_runtime (resumeAgent rt key)) (\<lambda>_. remove_key mode rt publicKey))))"

section \<open>Retrying a revoke\<close>

lemma another_attempt: "\<not> (m :: rat) < 1 + of_nat a \<Longrightarrow> a < nat \<lfloor>m\<rfloor>"
proof -
  assume "\<not> m < 1 + of_nat a"
  then have "int (Suc a) \<le> \<lfloor>m\<rfloor>" by (simp add: le_floor_iff not_less)
  then show ?thesis by simp
qed

text \<open>The dependencies may change between attempts, as the session and the clock do; \<open>None\<close> for \<open>maxRetries\<close> is its default.\<close>

function revoke_loop ::
    "idempotency_mode \<Rightarrow> (guard_state \<Rightarrow> agent_deps) \<Rightarrow> string \<Rightarrow> rat \<Rightarrow> nat \<Rightarrow> guard_state \<Rightarrow> (guard_error + string \<times> bool) \<times> guard_state" where
  "revoke_loop mode deps publicKey maxRetries attempt s =
     (case guard_revoke mode (deps s) publicKey s of
        (Inr hash, s1) \<Rightarrow> (Inr (hash, attempt > 0), s1)
      | (Inl (AgentKeyNotFoundError k), s1) \<Rightarrow> (Inr (''already-revoked'', True), s1)
      | (Inl e, s1) \<Rightarrow>
          if of_nat (Suc attempt) > maxRetries then (Inl e, s1)
          else revoke_loop mode deps publicKey maxRetries (Suc attempt) s1)"
  by pat_completeness auto
termination
  by (relation "measure (\<lambda>(mode, deps, k, maxRetries, attempt, s). nat \<lfloor>maxRetries\<rfloor> - attempt)")
    (auto dest: another_attempt)

declare revoke_loop.simps [simp del]

definition revokeWithRetry ::
    "idempotency_mode \<Rightarrow> (guard_state \<Rightarrow> agent_deps) \<Rightarrow> string \<Rightarrow> rat option \<Rightarrow> guard_state \<Rightarrow> (guard_error + string \<times> bool) \<times> guard_state" where
  "revokeWithRetry mode deps publicKey maxRetries s =
     revoke_loop mode deps publicKey (case maxRetries of None \<Rightarrow> 2 | Some n \<Rightarrow> n) 0 s"

section \<open>The guard is the facade with distinct policies\<close>

lemma distinct_policies_iff:
  "distinct_policies seen ps = Inr () \<longleftrightarrow> list_all is_contract_id ps \<and> distinct ps \<and> set ps \<inter> seen = {}"
  by (induction ps arbitrary: seen) auto

lemma guard_grants_iff:
  "guard_grants gs = Inr () \<longleftrightarrow> validateGrants gs = Inr () \<and> list_all (\<lambda>g. distinct (gr_policies g)) gs"
  by (induction gs) (auto simp: ebind_eq_Inr assertNoDuplicatePolicies_def distinct_policies_iff validatePolicies_iff)

lemma guard_validateMint_iff:
  "guard_validateMint input = Inr () \<longleftrightarrow>
     validateMint input = Inr () \<and> list_all (\<lambda>g. distinct (gr_policies g)) (mi_grants input)"
  by (auto simp: guard_validateMint_def validateMint_def guard_grants_iff)

lemma validateExpiresAt_eq: "validateExpiresAt e now = toExpirationSeconds now e"
  by (cases e) (auto simp: validateExpiresAt_def toExpirationSeconds_def Let_def split: option.splits)

lemma guard_mint_distinct:
  assumes "list_all (\<lambda>g. distinct (gr_policies g)) (mi_grants input)" "validateMint input = Inr ()"
  shows "guard_mint deps input = on_runtime (mint deps input)"
  using assms guard_validateMint_iff [of input] by (simp add: guard_mint_def mint_def validateExpiresAt_eq)

lemma lift_Inl: "andThen (lift (Inl e)) f = lift (Inl e)"
  by (simp add: act_defs fun_eq_iff)

lemma guard_mint_refuses:
  assumes "guard_validateMint input \<noteq> Inr ()" "ad_runtime deps = Some rt" "ad_session deps = Inr ses"
  shows "\<exists>e. guard_mint deps input s = (Inl (Sdk e), s)"
proof -
  obtain e where "guard_validateMint input = Inl e" using assms(1) by (cases "guard_validateMint input") auto
  then show ?thesis
    using assms(2,3) by (cases ses) (simp add: guard_mint_def requireRuntime_def on_runtime_def act_defs)
qed

section \<open>What a revoke stands for\<close>

definition removed :: "guard_state \<Rightarrow> string \<Rightarrow> string \<Rightarrow> bool" where
  "removed s k hash = (ARemove k (Inr hash) \<in> set (gd_trace s))"

inductive guard_step :: "guard_state \<Rightarrow> guard_state \<Rightarrow> bool" where
  step_mint: "guard_mint deps input s = (r, s') \<Longrightarrow> guard_step s s'"
| step_revoke: "guard_revoke mode deps k s = (r, s') \<Longrightarrow> guard_step s s'"

definition guard_init :: "guard_state \<Rightarrow> bool" where
  "guard_init s = (s = \<lparr>gd_revoked = [], gd_trace = []\<rparr>)"

definition guard_inv :: "guard_state \<Rightarrow> bool" where
  "guard_inv s = (distinct (map fst (gd_revoked s)) \<and> (\<forall>(k, hash) \<in> set (gd_revoked s). removed s k hash))"

lemma guard_mint_appends:
  assumes "guard_mint deps input s = (r, s')"
  shows "gd_revoked s' = gd_revoked s \<and> (\<exists>evs. gd_trace s' = gd_trace s @ evs \<and> (\<forall>k x. ARemove k x \<notin> set evs))"
proof -
  let ?m = "andThen (lift (requireRuntime deps)) (\<lambda>rt. andThen (lift (ad_session deps)) (\<lambda>(account, key).
     andThen (lift (guard_validateMint input)) (\<lambda>_. andThen (lift (validateExpiresAt (mi_expiresAt input) (ad_now deps))) (\<lambda>expiration.
     andThen (resumeAgent rt key) (\<lambda>_. let store = (case mi_store input of None \<Rightarrow> Persistent | Some st \<Rightarrow> st) in
     andThen (loggedCall (\<lambda>tr. ag_add rt tr (mi_publicKey input) (mi_grants input) expiration store)
       (AAdd (mi_publicKey input) (mi_grants input) expiration store)) (\<lambda>hash. andThen (lift (isoOf deps expiration)) (\<lambda>iso.
       ret \<lparr>mr_hash = hash, mr_publicKey = mi_publicKey input, mr_expiresAt = iso\<rparr>)))))))"
  have "wp ?m (\<lambda>r tr. \<exists>evs. tr = gd_trace s @ evs \<and> (\<forall>k x. ARemove k x \<notin> set evs)) (gd_trace s)"
    unfolding wp by (auto simp: wp Let_def split: sum.splits intro!: wp_resumeAgent)
  then show ?thesis
    using assms by (auto simp: guard_mint_def on_runtime_def split: prod.splits dest: wpD)
qed

lemma resumeAgent_appends:
  assumes "resumeAgent rt key tr = (r, tr')"
  shows "\<exists>evs. tr' = tr @ evs \<and> (\<forall>k x. ARemove k x \<notin> set evs)"
proof -
  have "wp (resumeAgent rt key) (\<lambda>r tr'. \<exists>evs. tr' = tr @ evs \<and> (\<forall>k x. ARemove k x \<notin> set evs)) tr"
    by (rule wp_resumeAgent) auto
  then show ?thesis using assms by (rule wpD)
qed

lemma no_removals: "\<forall>k x. ARemove k x \<notin> set evs \<Longrightarrow> filter (\<lambda>e. \<exists>k x. e = ARemove k x) evs = []"
  by (auto simp: filter_empty_conv)

text \<open>The calls a revoke makes: none, a resumed session, or that and one removal of the key, which is remembered.\<close>

lemma guard_revoke_cases:
  assumes "guard_revoke mode deps k s = (r, s')"
  obtains (unchanged) hash where "s' = s" "map_of (gd_revoked s) k = Some hash"
      "r = (if mode = ThrowNotFound then Inl (AgentKeyNotFoundError k) else Inr hash)"
  | (failed) evs e where "gd_trace s' = gd_trace s @ evs" "\<forall>k x. ARemove k x \<notin> set evs" "gd_revoked s' = gd_revoked s" "r = Inl (Sdk e)"
  | (asked) evs x where "gd_trace s' = gd_trace s @ evs @ [ARemove k x]" "\<forall>k x. ARemove k x \<notin> set evs" "map_of (gd_revoked s) k = None"
      "gd_revoked s' = gd_revoked s @ (case x of Inr hash \<Rightarrow> [(k, hash)] | Inl _ \<Rightarrow> [])"
      "r = (case x of Inr hash \<Rightarrow> Inr hash
         | Inl m \<Rightarrow> if \<not> says_not_found m then Inl (Sdk (Thrown m))
             else if mode = ThrowNotFound then Inl (AgentKeyNotFoundError k) else Inr ''already-revoked'')"
proof (cases "\<exists>rt account key. ad_runtime deps = Some rt \<and> ad_session deps = Inr (account, key) \<and> is_public_key k")
  case False
  then have "s' = s \<and> (\<exists>e. r = Inl (Sdk e))"
    using assms by (cases "ad_runtime deps"; cases "ad_session deps")
      (auto simp: guard_revoke_def on_runtime_def requireRuntime_def act_defs)
  then show thesis using failed [of "[]"] by auto
next
  case True
  then obtain rt account key where env: "ad_runtime deps = Some rt" "ad_session deps = Inr (account, key)" "is_public_key k" by blast
  show thesis
  proof (cases "map_of (gd_revoked s) k")
    case (Some hash)
    then show thesis using assms env unchanged
      by (auto simp: guard_revoke_def on_runtime_def requireRuntime_def act_defs split: if_splits)
  next
    case None
    obtain r1 tr1 where run: "resumeAgent rt key (gd_trace s) = (r1, tr1)" by (cases "resumeAgent rt key (gd_trace s)")
    obtain evs where evs: "tr1 = gd_trace s @ evs" "\<forall>k x. ARemove k x \<notin> set evs" using resumeAgent_appends [OF run] by blast
    have eq: "guard_revoke mode deps k s = (case r1 of Inl e \<Rightarrow> (Inl (Sdk e), s\<lparr>gd_trace := tr1\<rparr>)
        | Inr _ \<Rightarrow> remove_key mode rt k (s\<lparr>gd_trace := tr1\<rparr>))"
      using env None run by (cases r1) (simp_all add: guard_revoke_def on_runtime_def requireRuntime_def act_defs)
    show thesis
    proof (cases r1)
      case (Inl e)
      then show thesis using assms eq evs failed by auto
    next
      case (Inr u)
      then show thesis using assms eq evs asked [of evs "ag_remove rt tr1 k"] None
        by (auto simp: remove_key_def Let_def split: sum.splits if_splits)
    qed
  qed
qed

lemma guard_inv_init: "guard_init s \<Longrightarrow> guard_inv s"
  by (simp add: guard_init_def guard_inv_def)

lemma guard_inv_step: "guard_step s s' \<Longrightarrow> guard_inv s \<Longrightarrow> guard_inv s'"
proof (induction rule: guard_step.induct)
  case (step_mint deps input s r s')
  then show ?case using guard_mint_appends [OF step_mint(1)] by (auto simp: guard_inv_def removed_def)
next
  case (step_revoke mode deps k s r s')
  from step_revoke(1) show ?case
  proof (cases rule: guard_revoke_cases)
    case (asked evs x)
    then show ?thesis
      using step_revoke(2) by (auto simp: guard_inv_def removed_def map_of_eq_None_iff split: sum.splits)
  qed (use step_revoke(2) in \<open>auto simp: guard_inv_def removed_def\<close>)
qed

interpretation agent_guard: preserved guard_init guard_step guard_inv
  by unfold_locales (auto simp: guard_inv_init guard_inv_step)

text \<open>
  The guarded facade. A mint is the mint of the agent facade when no grant lists a policy
  twice, and is refused before anything is asked of the runtime when one does. A revoke asks the runtime to remove the key
  at most once and asks it for nothing else but to resume the session; when it succeeds, the key was removed
  with the returned hash, now or by an earlier revoke, or the runtime just answered that it does not know the key.
\<close>

theorem guarded_agent_keys:
  assumes reach: "reach guard_init guard_step s" and revoke: "guard_revoke mode deps k s = (r, s')"
  shows "(validateMint input = Inr () \<longrightarrow> list_all (\<lambda>g. distinct (gr_policies g)) (mi_grants input) \<longrightarrow>
      guard_mint mdeps input s = on_runtime (mint mdeps input) s) \<and>
    (\<not> list_all (\<lambda>g. distinct (gr_policies g)) (mi_grants input) \<longrightarrow> ad_runtime mdeps = Some rt \<longrightarrow> ad_session mdeps = Inr ses \<longrightarrow>
      (\<exists>e. guard_mint mdeps input s = (Inl (Sdk e), s))) \<and>
    (\<exists>evs. gd_trace s' = gd_trace s @ evs \<and> length (filter (\<lambda>e. \<exists>k x. e = ARemove k x) evs) \<le> 1) \<and>
    (\<forall>hash. r = Inr hash \<longrightarrow> removed s' k hash \<or>
      (\<exists>m. says_not_found m \<and> hash = ''already-revoked'' \<and> last (gd_trace s') = ARemove k (Inl m)))"
proof (intro conjI impI)
  have inv: "guard_inv s" by (rule agent_guard.inv_reach [OF reach])
  show "\<exists>evs. gd_trace s' = gd_trace s @ evs \<and> length (filter (\<lambda>e. \<exists>k x. e = ARemove k x) evs) \<le> 1"
    using revoke
  proof (cases rule: guard_revoke_cases)
    case (failed evs e)
    then show ?thesis using no_removals [OF failed(2)] by auto
  next
    case (asked evs x)
    then show ?thesis using no_removals [OF asked(2)] by (intro exI [of _ "evs @ [ARemove k x]"]) simp
  qed simp
  show "\<forall>hash. r = Inr hash \<longrightarrow> removed s' k hash \<or>
      (\<exists>m. says_not_found m \<and> hash = ''already-revoked'' \<and> last (gd_trace s') = ARemove k (Inl m))"
    using revoke
  proof (cases rule: guard_revoke_cases)
    case (unchanged h)
    then show ?thesis using inv by (auto simp: guard_inv_def dest: map_of_SomeD split: if_splits)
  next
    case (asked evs x)
    then show ?thesis by (auto simp: removed_def split: sum.splits if_splits)
  qed simp
next
  assume "validateMint input = Inr ()" "list_all (\<lambda>g. distinct (gr_policies g)) (mi_grants input)"
  then show "guard_mint mdeps input s = on_runtime (mint mdeps input) s" by (simp add: guard_mint_distinct)
next
  assume "\<not> list_all (\<lambda>g. distinct (gr_policies g)) (mi_grants input)" "ad_runtime mdeps = Some rt" "ad_session mdeps = Inr ses"
  then show "\<exists>e. guard_mint mdeps input s = (Inl (Sdk e), s)"
    by (intro guard_mint_refuses) (auto simp: guard_validateMint_iff)
qed

definition sample_revoked :: guard_state where
  "sample_revoked = \<lparr>gd_revoked = [(sample_key CHR ''G'', ''hash'')], gd_trace = [ARemove (sample_key CHR ''G'') (Inr ''hash'')]\<rparr>"

lemma sample_key_valid: "is_public_key (sample_key CHR ''G'')"
  using sample_mint_valid [of None] by (simp add: validateMint_iff sample_mint_def)

lemma sample_first_revoke:
  "guard_revoke Noop sample_agent_deps (sample_key CHR ''G'') \<lparr>gd_revoked = [], gd_trace = []\<rparr> = (Inr ''hash'', sample_revoked)"
  by (simp add: guard_revoke_def on_runtime_def act_defs requireRuntime_def sample_agent_deps_def sample_key_valid
      resumeAgent_def remove_key_def sample_revoked_def)

theorem guarded_agent_keys_witness:
  "removed sample_revoked (sample_key CHR ''G'') ''hash'' \<and>
   guard_mint sample_agent_deps (sample_mint None) \<lparr>gd_revoked = [], gd_trace = []\<rparr> =
     on_runtime (mint sample_agent_deps (sample_mint None)) \<lparr>gd_revoked = [], gd_trace = []\<rparr>"
proof -
  have "reach guard_init guard_step \<lparr>gd_revoked = [], gd_trace = []\<rparr>"
    by (rule reach_init) (simp add: guard_init_def)
  from guarded_agent_keys [OF this sample_first_revoke, of "sample_mint None"] show ?thesis
    using sample_mint_valid [of None] by (simp add: sample_revoked_def sample_mint_def)
qed

section \<open>Where the kill switch does not act\<close>

text \<open>
  A mint does not forget that its key was revoked: a key that is minted again cannot be revoked again through the
  same facade. The revoke reports success and asks the runtime for nothing.
\<close>

lemma reminted_key_is_not_revoked:
  "\<exists>s1 s2 m. guard_revoke Noop sample_agent_deps (sample_key CHR ''G'') \<lparr>gd_revoked = [], gd_trace = []\<rparr> = (Inr ''hash'', s1) \<and>
     guard_mint sample_agent_deps (sample_mint None) s1 = (Inr m, s2) \<and> mr_publicKey m = sample_key CHR ''G'' \<and>
     guard_revoke Noop sample_agent_deps (sample_key CHR ''G'') s2 = (Inr ''hash'', s2)"
proof -
  have "guard_mint sample_agent_deps (sample_mint None) sample_revoked =
      on_runtime (mint sample_agent_deps (sample_mint None)) sample_revoked"
    by (rule guard_mint_distinct [THEN fun_cong]) (simp_all add: sample_mint_valid, simp add: sample_mint_def)
  then show ?thesis
    using sample_first_revoke sample_mint_valid [of None] sample_key_valid
    by (simp add: on_runtime_def mint_def act_defs requireRuntime_def sample_agent_deps_def toExpirationSeconds_def
        resumeAgent_def loggedCall_def isoOf_def sample_mint_def sample_revoked_def guard_revoke_def)
qed

text \<open>
  Any failure whose text contains \<open>not found\<close> counts as a key that is already revoked, an HTTP status line too.
\<close>

lemma status_line_counts_as_revoked: "says_not_found ''Request failed: 404 Not Found''"
  by code_simp

section \<open>The retry helper\<close>

definition removals :: "guard_state \<Rightarrow> nat" where
  "removals s = length (filter (\<lambda>e. \<exists>k x. e = ARemove k x) (gd_trace s))"

lemma guard_revoke_removals:
  assumes "guard_revoke mode deps k s = (r, s')"
  shows "removals s' \<le> Suc (removals s)"
  using assms by (cases rule: guard_revoke_cases) (simp_all add: removals_def no_removals)

text \<open>The helper asks for a removal at most \<open>maxRetries + 1\<close> times, rounded down.\<close>

lemma revoke_loop_bounded:
  "revoke_loop mode deps k m a s = (r, s') \<Longrightarrow> removals s' \<le> Suc (removals s + (nat \<lfloor>m\<rfloor> - a))"
proof (induction mode deps k m a s rule: revoke_loop.induct)
  case (1 mode deps k m a s)
  obtain r1 s1 where run: "guard_revoke mode (deps s) k s = (r1, s1)" by (cases "guard_revoke mode (deps s) k s")
  note bound = guard_revoke_removals [OF run]
  show ?case
  proof (cases "\<exists>e. r1 = Inl (Sdk e) \<and> \<not> m < of_nat (Suc a)")
    case False
    then have "s' = s1"
      using "1.prems" run revoke_loop.simps [of mode deps k m a s]
      by (auto split: sum.splits guard_error.splits if_splits)
    then show ?thesis using bound by simp
  next
    case True
    then obtain e where e: "r1 = Inl (Sdk e)" "\<not> m < of_nat (Suc a)" by blast
    then have "revoke_loop mode deps k m (Suc a) s1 = (r, s')"
      using "1.prems" run revoke_loop.simps [of mode deps k m a s] by simp
    from "1.IH" [OF run [symmetric] e(1) refl e(2) this] show ?thesis
      using bound another_attempt [of m a] e(2) by simp
  qed
qed

end
