(* ===== verification/Discovery.thy ===== *)
theory Discovery
  imports Encoding Json Services "HOL-Library.List_Lexorder"
begin

text \<open>
  Cursor pagination of resource discovery
  (\<open>contrib/examples/issue-212-x402-discovery-pagination/x402-discovery-pagination.ts\<close>): cursors, page sizes, one
  page, the loop that follows every page, and the source over HTTP.

  A catalogue entry is an untyped object, so it stays JSON. Ids are strings of one-byte characters, compared by
  character code. The loop may not end, so it is a partial function: \<open>None\<close> is not returning.
\<close>

section \<open>Cursors and page sizes\<close>

definition DEFAULT_DISCOVERY_PAGE_SIZE :: nat where "DEFAULT_DISCOVERY_PAGE_SIZE = 20"

definition MAX_DISCOVERY_PAGE_SIZE :: nat where "MAX_DISCOVERY_PAGE_SIZE = 100"

datatype discovery_error =
    DiscoveryPageSizeError nat rat
  | InvalidCursorError string
  | PageSizeNotInteger rat
  | PageSizeTooSmall rat
  | CatalogRequestFailed nat
  | NullAccess
  | SourceFailed string

record discovery_query =
  dq_cursor :: "string option"
  dq_limit :: "rat option"
  dq_assets :: "string list option"
  dq_network :: "string option"

definition url_char :: "char \<Rightarrow> char" where
  "url_char c = (if c = CHR ''+'' then CHR ''-'' else if c = CHR ''/'' then CHR ''_'' else c)"

definition std_char :: "char \<Rightarrow> char" where
  "std_char c = (if c = CHR ''-'' then CHR ''+'' else if c = CHR ''_'' then CHR ''/'' else c)"

definition encodeCursor :: "string \<Rightarrow> string" where
  "encodeCursor resourceId =
     rev (dropWhile (\<lambda>c. c = CHR ''='') (rev (map url_char (btoa (utf8_encode (codes resourceId))))))"

definition pad4 :: "string \<Rightarrow> string" where
  "pad4 s = s @ replicate ((length s + 3) div 4 * 4 - length s) CHR ''=''"

definition decodeCursor :: "string \<Rightarrow> discovery_error + jstext" where
  "decodeCursor cursor =
     (if cursor = [] then Inl (InvalidCursorError cursor)
      else
        (case atob (pad4 (map std_char cursor)) of
           None \<Rightarrow> Inl (InvalidCursorError cursor)
         | Some bytes \<Rightarrow>
             (let decoded = utf8_decode bytes in
              if decoded = [] then Inl (InvalidCursorError cursor) else Inr decoded)))"

definition resolvePageSize :: "rat option \<Rightarrow> discovery_error + nat" where
  "resolvePageSize limit =
     (case limit of
        None \<Rightarrow> Inr DEFAULT_DISCOVERY_PAGE_SIZE
      | Some q \<Rightarrow>
          if of_int \<lfloor>q\<rfloor> \<noteq> q then Inl (PageSizeNotInteger q)
          else if q < 1 then Inl (PageSizeTooSmall q)
          else if q > of_nat MAX_DISCOVERY_PAGE_SIZE then Inl (DiscoveryPageSizeError MAX_DISCOVERY_PAGE_SIZE q)
          else Inr (nat \<lfloor>q\<rfloor>))"

section \<open>Pages\<close>

text \<open>\<open>resource.accepts.some(test)\<close>, where the test reads a property: of \<open>null\<close> that throws.\<close>

fun some_accept :: "(json \<Rightarrow> bool) \<Rightarrow> json list \<Rightarrow> discovery_error + bool" where
  "some_accept test [] = Inr False"
| "some_accept test (a # as) =
     (if is_nullish a then Inl NullAccess else if test a then Inr True else some_accept test as)"

definition accepts_list :: "json \<Rightarrow> json list" where
  "accepts_list r = (case jprop r ''accepts'' of JArr vs \<Rightarrow> vs | _ \<Rightarrow> [])"

definition res_id :: "json \<Rightarrow> string" where
  "res_id r = (case jprop r ''resource'' of JStr s \<Rightarrow> s | _ \<Rightarrow> [])"

definition matchesFilters :: "json \<Rightarrow> discovery_query \<Rightarrow> discovery_error + bool" where
  "matchesFilters r query =
     ebind (case truthy (dq_network query) of
              None \<Rightarrow> Inr True
            | Some n \<Rightarrow> some_accept (\<lambda>a. jprop a ''network'' = JStr n) (accepts_list r)) (\<lambda>on_network.
       if \<not> on_network then Inr False
       else
         (case dq_assets query of
            None \<Rightarrow> Inr True
          | Some assets \<Rightarrow> some_accept (\<lambda>a. jprop a ''asset'' \<in> JStr ` set assets) (accepts_list r)))"

fun filter_resources :: "discovery_query \<Rightarrow> json list \<Rightarrow> discovery_error + json list" where
  "filter_resources query [] = Inr []"
| "filter_resources query (r # rs) =
     ebind (matchesFilters r query) (\<lambda>keep.
       ebind (filter_resources query rs) (\<lambda>rest. Inr (if keep then r # rest else rest)))"

definition compare_ids :: "json \<Rightarrow> json \<Rightarrow> int" where
  "compare_ids a b =
     (if codes (res_id a) < codes (res_id b) then -1 else if codes (res_id a) > codes (res_id b) then 1 else 0)"

fun find_index :: "('a \<Rightarrow> bool) \<Rightarrow> 'a list \<Rightarrow> nat option" where
  "find_index P [] = None"
| "find_index P (x # xs) = (if P x then Some 0 else map_option Suc (find_index P xs))"

record discovery_page =
  dp_resources :: "json list"
  dp_next_cursor :: "string option"
  dp_has_more :: bool

definition page_start :: "json list \<Rightarrow> string option \<Rightarrow> discovery_error + nat" where
  "page_start filtered cursor =
     (case cursor of
        None \<Rightarrow> Inr 0
      | Some c \<Rightarrow>
          ebind (decodeCursor c) (\<lambda>anchor.
            Inr (case find_index (\<lambda>r. codes (res_id r) = anchor) filtered of
                   Some index \<Rightarrow> index + 1
                 | None \<Rightarrow>
                     (case find_index (\<lambda>r. codes (res_id r) > anchor) filtered of
                        Some index \<Rightarrow> index
                      | None \<Rightarrow> length filtered))))"

definition page_from :: "json list \<Rightarrow> nat \<Rightarrow> nat \<Rightarrow> discovery_page" where
  "page_from filtered limit start =
     (let resources = take limit (drop start filtered);
          hasMore = (start + length resources < length filtered) in
      \<lparr>dp_resources = resources,
       dp_next_cursor = (if hasMore \<and> resources \<noteq> [] then Some (encodeCursor (res_id (last resources))) else None),
       dp_has_more = hasMore\<rparr>)"

definition paginateResources :: "json list \<Rightarrow> discovery_query \<Rightarrow> discovery_error + discovery_page" where
  "paginateResources all query =
     ebind (resolvePageSize (dq_limit query)) (\<lambda>limit.
     ebind (filter_resources query all) (\<lambda>matching.
       let filtered = sort_by compare_ids matching in
       ebind (page_start filtered (dq_cursor query)) (\<lambda>start. Inr (page_from filtered limit start))))"

section \<open>The client\<close>

type_synonym discovery_source = "discovery_error + json list"

definition discover :: "discovery_source \<Rightarrow> discovery_query \<Rightarrow> discovery_error + discovery_page" where
  "discover source query =
     ebind (resolvePageSize (dq_limit query)) (\<lambda>_. ebind source (\<lambda>all. paginateResources all query))"

text \<open>The loop of \<open>discoverAll\<close>; an empty cursor is falsy.\<close>

partial_function (option) discover_loop ::
    "json list \<Rightarrow> discovery_query \<Rightarrow> string option \<Rightarrow> json list \<Rightarrow> (discovery_error + json list) option" where
  "discover_loop all query cursor out =
     (case paginateResources all (query\<lparr>dq_cursor := cursor\<rparr>) of
        Inl e \<Rightarrow> Some (Inl e)
      | Inr page \<Rightarrow>
          if truthy (dp_next_cursor page) = None \<or> dp_resources page = [] then Some (Inr (out @ dp_resources page))
          else discover_loop all query (dp_next_cursor page) (out @ dp_resources page))"

definition discoverAll :: "discovery_source \<Rightarrow> discovery_query \<Rightarrow> (discovery_error + json list) option" where
  "discoverAll source query =
     (case source of Inl e \<Rightarrow> Some (Inl e) | Inr all \<Rightarrow> discover_loop all query None [])"

definition isDiscoveredResource :: "json \<Rightarrow> bool" where
  "isDiscoveredResource v =
     ((case jprop v ''resource'' of JStr s \<Rightarrow> s \<noteq> [] | _ \<Rightarrow> False) \<and>
      (case jprop v ''accepts'' of JArr _ \<Rightarrow> True | _ \<Rightarrow> False))"

text \<open>The answer of the catalogue: the body is an array, or an object with one; of \<open>null\<close> the property read throws.\<close>

definition listResources :: "(string + http_response) \<Rightarrow> discovery_source" where
  "listResources answer =
     (case answer of
        Inl e \<Rightarrow> Inl (SourceFailed e)
      | Inr res \<Rightarrow>
          if \<not> response_ok res then Inl (CatalogRequestFailed (rs_status res))
          else
            (case rs_json res of
               Inl e \<Rightarrow> Inl (SourceFailed e)
             | Inr body \<Rightarrow>
                 (case body of
                    JArr vs \<Rightarrow> Inr (filter isDiscoveredResource vs)
                  | JNull \<Rightarrow> Inl NullAccess
                  | _ \<Rightarrow> (case jprop body ''resources'' of JArr vs \<Rightarrow> Inr (filter isDiscoveredResource vs) | _ \<Rightarrow> Inr []))))"

section \<open>A cursor is read back\<close>

lemma dropWhile_end: "(\<forall>c\<in>set a. c \<noteq> x) \<Longrightarrow> rev (dropWhile (\<lambda>c. c = x) (rev (a @ replicate n x))) = a"
proof -
  assume a: "\<forall>c\<in>set a. c \<noteq> x"
  have "dropWhile (\<lambda>c. c = x) (replicate n x @ rev a) = dropWhile (\<lambda>c. c = x) (rev a)" by (induction n) auto
  also have "\<dots> = rev a" using a by (cases a rule: rev_cases) (auto simp: dropWhile_eq_self_iff)
  finally show ?thesis by simp
qed

lemma b64_pad_replicate: "b64_pad bs = replicate (length (b64_pad bs)) CHR ''=''"
  by (simp add: b64_pad_def numeral_2_eq_2)

lemma b64_not_url:
  assumes "i < 64"
  shows "b64_char i \<noteq> CHR ''-''" "b64_char i \<noteq> CHR ''_''"
proof -
  have "(of_char (b64_char i) :: nat) \<noteq> of_char CHR ''-''" "(of_char (b64_char i) :: nat) \<noteq> of_char CHR ''_''"
    using assms by (auto simp: of_char_b64_char)
  then show "b64_char i \<noteq> CHR ''-''" "b64_char i \<noteq> CHR ''_''" by metis+
qed

lemma url_std: "i < 64 \<Longrightarrow> std_char (url_char (b64_char i)) = b64_char i"
  using b64_not_url [of i] by (auto simp: url_char_def std_char_def)

lemma pad4_btoa: "pad4 (map b64_char (sextets bs)) = btoa bs"
proof -
  let ?n = "length (sextets bs)"
  have "?n mod 4 = (if length bs mod 3 = 0 then 0 else length bs mod 3 + 1)" by (rule length_sextets_mod)
  moreover have "(?n + 3) div 4 * 4 - ?n = (if ?n mod 4 = 0 then 0 else 4 - ?n mod 4)" by presburger
  moreover consider "length bs mod 3 = 0" | "length bs mod 3 = 1" | "length bs mod 3 = 2" by linarith
  ultimately have "(?n + 3) div 4 * 4 - ?n = length (b64_pad bs)"
    by cases (simp_all add: b64_pad_def)
  then show ?thesis unfolding pad4_def btoa_def length_map using b64_pad_replicate [of bs] by simp
qed

lemma encodeCursor_eq:
  assumes "list_all (\<lambda>b. b < 256) (utf8_encode (codes s))"
  shows "encodeCursor s = map url_char (map b64_char (sextets (utf8_encode (codes s))))"
proof -
  let ?bs = "utf8_encode (codes s)"
  have small: "\<forall>x \<in> set (sextets ?bs). x < 64" using sextets_small [OF assms] by (simp add: list_all_iff)
  have pad: "map url_char (b64_pad ?bs) = replicate (length (b64_pad ?bs)) CHR ''=''"
    by (simp add: b64_pad_def url_char_def numeral_2_eq_2)
  have "\<forall>c\<in>set (map url_char (map b64_char (sextets ?bs))). c \<noteq> CHR ''=''"
    using small b64_char_facts(3) by (fastforce simp: url_char_def)
  from dropWhile_end [OF this, of "length (b64_pad ?bs)"] show ?thesis
    by (simp only: encodeCursor_def btoa_def map_append pad)
qed

lemma codes_scalar: "list_all is_scalar (codes s)"
proof -
  have small: "(of_char c :: nat) < 256" for c :: char by simp
  have "is_scalar (of_char c)" for c :: char
    unfolding is_scalar_def is_surrogate_def using small [of c] by linarith
  then show ?thesis by (simp add: list_all_iff codes_def)
qed

lemma cursor_roundtrip:
  assumes "s \<noteq> []"
  shows "encodeCursor s \<noteq> [] \<and> decodeCursor (encodeCursor s) = Inr (codes s)"
proof -
  let ?bs = "utf8_encode (codes s)"
  have b: "list_all (\<lambda>b. b < 256) ?bs" by (rule utf8_encode_small [OF codes_scalar])
  have small: "\<forall>x \<in> set (sextets ?bs). x < 64" using sextets_small [OF b] by (simp add: list_all_iff)
  have "(of_char (hd s) :: nat) < 256" by simp
  then have "(of_char (hd s) :: nat) \<noteq> 0xFEFF" by linarith
  then have "hd (codes s) \<noteq> 0xFEFF" using assms by (simp add: codes_def hd_map)
  then have dec: "utf8_decode ?bs = codes s" by (intro utf8_decode_encode codes_scalar) simp
  have ne: "codes s \<noteq> []" using assms by (simp add: codes_def)
  have std: "map std_char (encodeCursor s) = map b64_char (sextets ?bs)"
    using small url_std by (simp add: encodeCursor_eq [OF b])
  have at: "atob (pad4 (map std_char (encodeCursor s))) = Some ?bs"
    unfolding std pad4_btoa by (rule atob_btoa [OF b])
  moreover have "encodeCursor s \<noteq> []"
  proof
    assume "encodeCursor s = []"
    then have "?bs = []" using at by (simp add: pad4_def atob_def strip_pad_def)
    then show False using dec ne by (simp add: utf8_decode_def utf8_run.simps)
  qed
  ultimately show ?thesis using dec ne by (simp add: decodeCursor_def)
qed

section \<open>Following every page\<close>

lemma codes_inject [simp]: "codes a = codes b \<longleftrightarrow> a = b"
  by (simp add: codes_def inj_map_eq_map inj_of_char)

lemma find_index_distinct:
  "distinct (map f xs) \<Longrightarrow> i < length xs \<Longrightarrow> find_index (\<lambda>r. f r = f (xs ! i)) xs = Some i"
proof (induction xs arbitrary: i)
  case (Cons x xs)
  then show ?case
  proof (cases i)
    case (Suc j)
    then have "f x \<noteq> f (xs ! j)" using Cons.prems by (auto simp: image_iff)
    then show ?thesis using Cons Suc by simp
  qed simp
qed simp

lemma page_start_after:
  assumes "distinct (map res_id xs)" "j < length xs" "res_id (xs ! j) \<noteq> []"
  shows "page_start xs (Some (encodeCursor (res_id (xs ! j)))) = Inr (Suc j)"
  using assms cursor_roundtrip [OF assms(3)] find_index_distinct [OF assms(1,2)] by (simp add: page_start_def)

lemma filter_cursor: "filter_resources (q\<lparr>dq_cursor := c\<rparr>) rs = filter_resources q rs"
proof -
  have "matchesFilters r (q\<lparr>dq_cursor := c\<rparr>) = matchesFilters r q" for r
    by (simp add: matchesFilters_def cong: option.case_cong if_cong)
  then show ?thesis by (induction rs) auto
qed

lemma filter_resources_eq:
  "filter_resources q rs = Inr m \<Longrightarrow> m = filter (\<lambda>r. matchesFilters r q = Inr True) rs"
  by (induction rs arbitrary: m) (auto simp: ebind_eq_Inr)

lemma resolvePageSize_pos: "resolvePageSize l = Inr n \<Longrightarrow> 1 \<le> n \<and> n \<le> 100"
  by (auto simp: resolvePageSize_def DEFAULT_DISCOVERY_PAGE_SIZE_def MAX_DISCOVERY_PAGE_SIZE_def le_nat_iff le_floor_iff
      nat_le_iff floor_le_iff split: option.splits if_splits)

lemma paginate_from:
  assumes "resolvePageSize (dq_limit q) = Inr limit" "filter_resources q all = Inr m"
    and "page_start (sort_by compare_ids m) c = Inr i"
  shows "paginateResources all (q\<lparr>dq_cursor := c\<rparr>) = Inr (page_from (sort_by compare_ids m) limit i)"
  using assms by (simp add: paginateResources_def filter_cursor Let_def)

lemma loop_from:
  assumes page: "resolvePageSize (dq_limit q) = Inr limit" "filter_resources q all = Inr m"
    and ids: "distinct (map res_id (sort_by compare_ids m))" "\<forall>r\<in>set m. res_id r \<noteq> []"
    and start: "page_start (sort_by compare_ids m) c = Inr i" "i \<le> length m"
  shows "discover_loop all q c out = Some (Inr (out @ drop i (sort_by compare_ids m)))"
  using start
proof (induction "length m - i" arbitrary: i c out rule: less_induct)
  case less
  let ?xs = "sort_by compare_ids m"
  let ?page = "page_from ?xs limit i"
  have lim: "1 \<le> limit" using resolvePageSize_pos [OF page(1)] by simp
  have eq: "discover_loop all q c out =
      (if truthy (dp_next_cursor ?page) = None \<or> dp_resources ?page = [] then Some (Inr (out @ dp_resources ?page))
       else discover_loop all q (dp_next_cursor ?page) (out @ dp_resources ?page))"
    by (subst discover_loop.simps) (simp add: paginate_from [OF page less.prems(1)])
  show ?case
  proof (cases "i + limit < length m")
    case True
    let ?j = "i + limit - 1"
    have j: "?j < length ?xs" "Suc ?j = i + limit" using True lim by auto
    have res: "dp_resources ?page = take limit (drop i ?xs)" "length (take limit (drop i ?xs)) = limit"
      using True by (simp_all add: page_from_def Let_def)
    have "take limit (drop i ?xs) \<noteq> []" using True lim by auto
    moreover have "last (take limit (drop i ?xs)) = ?xs ! ?j"
      using True lim calculation by (simp add: last_conv_nth)
    moreover have ne: "res_id (?xs ! ?j) \<noteq> []" using ids(2) nth_mem [OF j(1)] by simp
    ultimately have next_page: "dp_next_cursor ?page = Some (encodeCursor (res_id (?xs ! ?j)))"
      using True res(2) by (simp add: page_from_def Let_def)
    have "discover_loop all q c out = discover_loop all q (dp_next_cursor ?page) (out @ dp_resources ?page)"
      using eq next_page cursor_roundtrip [OF ne] res \<open>take limit (drop i ?xs) \<noteq> []\<close> by (simp add: truthy_def)
    also have "\<dots> = Some (Inr ((out @ dp_resources ?page) @ drop (i + limit) ?xs))"
      by (rule less.hyps) (use True lim j page_start_after [OF ids(1) j(1) ne] next_page in auto)
    finally have "discover_loop all q c out = Some (Inr (out @ take limit (drop i ?xs) @ drop (i + limit) ?xs))"
      using res by simp
    moreover have "take limit (drop i ?xs) @ drop (i + limit) ?xs = drop i ?xs"
      using append_take_drop_id [of limit "drop i ?xs"] by (simp add: add.commute)
    ultimately show ?thesis by simp
  next
    case False
    then have "dp_resources ?page = drop i ?xs" "dp_next_cursor ?page = None"
      using less.prems(2) by (auto simp: page_from_def Let_def)
    then show ?thesis using eq by (simp add: truthy_def)
  qed
qed

lemma compare_ids_orders: "orders_by compare_ids (\<lambda>r. codes (res_id r)) A"
  by (auto simp: orders_by_def compare_ids_def)


definition sample_entry :: "string \<Rightarrow> json" where
  "sample_entry i = JObj [(''resource'', JStr i), (''accepts'', JArr [JObj [(''network'', JStr ''stellar:testnet'')]])]"

definition one_per_page :: discovery_query where
  "one_per_page = \<lparr>dq_cursor = None, dq_limit = Some 1, dq_assets = None, dq_network = Some ''stellar:testnet''\<rparr>"

lemma sample_entry_matches: "matchesFilters (sample_entry i) one_per_page = Inr True"
  by (simp add: matchesFilters_def one_per_page_def truthy_def sample_entry_def accepts_list_def is_nullish_def)

lemma sample_entry_id [simp]: "res_id (sample_entry i) = i"
  by (simp add: res_id_def sample_entry_def)


section \<open>Where it does not\<close>

text \<open>
  With a repeated id the loop need not end: the cursor of a page that ends at the second of two entries with one id
  leads to that page again. The comment says the loop ends even if a source misbehaves.
\<close>

lemma repeated_page:
  assumes "paginateResources all (q\<lparr>dq_cursor := c\<rparr>) = Inr page" "dp_next_cursor page = c" "truthy c \<noteq> None" "dp_resources page \<noteq> []"
  shows "discover_loop all q c out = None"
proof (rule ccontr)
  assume "discover_loop all q c out \<noteq> None"
  then obtain y where "discover_loop all q c out = Some y" by blast
  then have "\<not> (all = all \<and> q = q \<and> c = c)"
  proof (rule discover_loop.raw_induct [where P = "\<lambda>a q' c' out y. \<not> (a = all \<and> q' = q \<and> c' = c)", rotated])
    fix loop a q' c' out' y'
    assume hyp: "\<And>a q' c' out y. loop a q' c' out = Some y \<Longrightarrow> \<not> (a = all \<and> q' = q \<and> c' = c)"
      and body: "(case paginateResources a (q'\<lparr>dq_cursor := c'\<rparr>) of
        Inl e \<Rightarrow> Some (Inl e)
      | Inr page \<Rightarrow>
          if truthy (dp_next_cursor page) = None \<or> dp_resources page = [] then Some (Inr (out' @ dp_resources page))
          else loop a q' (dp_next_cursor page) (out' @ dp_resources page)) = Some y'"
    show "\<not> (a = all \<and> q' = q \<and> c' = c)"
      using hyp [of a q' c' "out' @ dp_resources page" y'] body assms by auto
  qed
  then show False by simp
qed

lemma repeated_id_never_ends:
  "discoverAll (Inr [sample_entry ''a'', sample_entry ''a'', sample_entry ''b'']) one_per_page = None"
proof -
  let ?all = "[sample_entry ''a'', sample_entry ''a'', sample_entry ''b'']"
  let ?c = "Some (encodeCursor ''a'')"
  have lim: "resolvePageSize (dq_limit one_per_page) = Inr 1"
    by (simp add: resolvePageSize_def one_per_page_def MAX_DISCOVERY_PAGE_SIZE_def)
  have m: "filter_resources one_per_page ?all = Inr ?all" by (simp add: sample_entry_matches)
  have sorted: "sort_by compare_ids ?all = ?all"
    by (simp add: sort_by_def compare_ids_def codes_def)
  have "page_start ?all ?c = Inr 1"
    using cursor_roundtrip [of "''a''"] by (simp add: page_start_def)
  then have second: "paginateResources ?all (one_per_page\<lparr>dq_cursor := ?c\<rparr>) = Inr (page_from ?all 1 1)"
    using paginate_from [OF lim m, unfolded sorted] by simp
  have first: "paginateResources ?all (one_per_page\<lparr>dq_cursor := None\<rparr>) = Inr (page_from ?all 1 0)"
    using paginate_from [OF lim m, of None, unfolded sorted] by (simp add: page_start_def)
  have cur: "truthy ?c \<noteq> None" using cursor_roundtrip [of "''a''"] by (simp add: truthy_def)
  have "discover_loop ?all one_per_page ?c out = None" for out
    by (rule repeated_page [OF second]) (use cur in \<open>simp_all add: page_from_def\<close>)
  then show ?thesis
    unfolding discoverAll_def sum.case
    by (subst discover_loop.simps) (use cur in \<open>simp add: first page_from_def\<close>)
qed

text \<open>
  A catalogue entry with \<open>null\<close> among its payment options passes the check of the source and makes a filtered
  discovery throw; the comment says malformed entries are dropped.
\<close>

lemma null_option_breaks_discovery:
  defines "bad \<equiv> JObj [(''resource'', JStr ''a''), (''accepts'', JArr [JNull])]"
  shows "listResources (Inr \<lparr>rs_status = 200, rs_json = Inr (JArr [bad, sample_entry ''b''])\<rparr>) = Inr [bad, sample_entry ''b''] \<and>
    paginateResources [bad, sample_entry ''b''] one_per_page = Inl NullAccess"
  by (simp add: bad_def listResources_def response_ok_def isDiscoveredResource_def sample_entry_def paginateResources_def
      resolvePageSize_def one_per_page_def MAX_DISCOVERY_PAGE_SIZE_def matchesFilters_def truthy_def accepts_list_def is_nullish_def)

end
