(* ===== verification/UptoBuyer.thy ===== *)
theory UptoBuyer
  imports Client Ledger Json
begin

text \<open>
  The buyer side of the experimental \<open>upto\<close> scheme (\<open>contrib/issue-509-upto-buyer/upto-buyer.ts\<close>) with the
  expiration window it uses (\<open>contrib/issue-508-expiration-override/expiration.ts\<close>): the option is checked, a
  \<open>settle\<close> call is simulated, the payer's authorization entries are compared with the call and signed, and the
  reported settlement is decoded. RPC, simulation, signer, random source and XDR codec are parameters. Equality
  of XDR encodings is equality of the values. The settlement queue is the promise chain of the payer's mutex.
\<close>

section \<open>The expiration window\<close>

datatype js_number = Finite rat | NotFinite

record expiration_options =
  eo_ledgerSecondsEstimate :: "js_number option"
  eo_safetyMarginLedgers :: "js_number option"
  eo_minExpirationLedgers :: "js_number option"
  eo_maxExpirationLedgers :: "js_number option"

definition safe_integer :: "js_number \<Rightarrow> int option" where
  "safe_integer n =
     (case n of
        NotFinite \<Rightarrow> None
      | Finite q \<Rightarrow> if of_int \<lfloor>q\<rfloor> = q \<and> \<bar>\<lfloor>q\<rfloor>\<bar> \<le> 2 ^ 53 - 1 then Some \<lfloor>q\<rfloor> else None)"

definition given :: "js_number option \<Rightarrow> rat \<Rightarrow> js_number" where
  "given v d = (case v of None \<Rightarrow> Finite d | Some n \<Rightarrow> n)"

definition boundedOffsetFor :: "js_number option \<Rightarrow> expiration_options \<Rightarrow> int outcome" where
  "boundedOffsetFor maxTimeoutSeconds options =
     (case given (eo_ledgerSecondsEstimate options) 5 of
        NotFinite \<Rightarrow> Inl (Thrown ''ledgerSecondsEstimate must be finite and greater than zero'')
      | Finite ledgerSeconds \<Rightarrow>
          if ledgerSeconds \<le> 0 then Inl (Thrown ''ledgerSecondsEstimate must be finite and greater than zero'')
          else
            (case safe_integer (given (eo_safetyMarginLedgers options) 2) of
               None \<Rightarrow> Inl (Thrown ''safetyMarginLedgers must be a non-negative safe integer'')
             | Some margin \<Rightarrow>
                 if margin < 0 then Inl (Thrown ''safetyMarginLedgers must be a non-negative safe integer'')
                 else
                   (case safe_integer (given (eo_minExpirationLedgers options) 3) of
                      None \<Rightarrow> Inl (Thrown ''minExpirationLedgers must be a positive safe integer'')
                    | Some minimum \<Rightarrow>
                        if minimum < 1 then Inl (Thrown ''minExpirationLedgers must be a positive safe integer'')
                        else
                          (case safe_integer (given (eo_maxExpirationLedgers options) 58) of
                             None \<Rightarrow> Inl (Thrown ''maxExpirationLedgers must be a safe integer >= minExpirationLedgers'')
                           | Some maximum \<Rightarrow>
                               if maximum < minimum
                               then Inl (Thrown ''maxExpirationLedgers must be a safe integer >= minExpirationLedgers'')
                               else
                                 (case given maxTimeoutSeconds 120 of
                                    NotFinite \<Rightarrow> Inl (Thrown ''maxTimeoutSeconds must be finite and non-negative'')
                                  | Finite t \<Rightarrow>
                                      if t < 0 then Inl (Thrown ''maxTimeoutSeconds must be finite and non-negative'')
                                      else Inr (max (min (\<lceil>t / ledgerSeconds\<rceil> - margin) maximum) minimum))))))"

section \<open>The option\<close>

definition assertUptoRequirement :: "(rat \<Rightarrow> string) \<Rightarrow> payment_requirements \<Rightarrow> int \<Rightarrow> string \<Rightarrow> int outcome" where
  "assertUptoRequirement num requirement maxAmount trustedContract =
     (if pr_scheme requirement \<noteq> ''upto'' then Inl (Thrown ''Unsupported payment scheme; expected upto.'')
      else if jprop (pr_extra requirement) ''areFeesSponsored'' \<noteq> JBool True
      then Inl (Thrown ''Refusing upto payment without explicit fee sponsorship.'')
      else if jprop (pr_extra requirement) ''uptoContract'' \<noteq> JStr trustedContract
      then Inl (Thrown ''The seller's uptoContract does not match the trusted contract.'')
      else if \<not> all_digits (to_string num (pr_amount requirement))
      then Inl (Thrown ''The upto ceiling must be a non-negative integer.'')
      else
        (case toBigInt num (pr_amount requirement) of
           None \<Rightarrow> Inl (Thrown ''Cannot convert to a BigInt'')
         | Some cap \<Rightarrow>
             if cap > maxAmount
             then Inl (Thrown (''Upto ceiling '' @ show_int cap @ '' exceeds maxAmount '' @ show_int maxAmount @ ''.''))
             else Inr cap))"

section \<open>The call and its entries\<close>

record upto_expected =
  up_contract :: string
  up_token :: string
  up_from :: string
  up_to :: string
  up_ceiling :: int
  up_expirationLedger :: int
  up_nonce :: bytes

definition void_val :: sc_val where "void_val = ScvOther ''scvVoid''"

definition settle_tuple :: "xdr_env \<Rightarrow> sc_val list \<Rightarrow> upto_expected \<Rightarrow> bool outcome" where
  "settle_tuple xe args e =
     (let address = (\<lambda>i. case xe_address xe (args ! i) of None \<Rightarrow> Inl (Thrown ''Unsupported ScVal'') | Some a \<Rightarrow> Inr a);
          integer = (\<lambda>i. case xe_bigint xe (args ! i) of None \<Rightarrow> Inl (Thrown ''Cannot convert to a BigInt'') | Some n \<Rightarrow> Inr n) in
      ebind (address 0) (\<lambda>token. if token \<noteq> up_token e then Inr False else
      ebind (address 1) (\<lambda>from. if from \<noteq> up_from e then Inr False else
      ebind (address 2) (\<lambda>to. if to \<noteq> up_to e then Inr False else
      ebind (integer 3) (\<lambda>cap. if cap \<noteq> up_ceiling e then Inr False else
      ebind (integer 4) (\<lambda>ledger. if ledger \<noteq> up_expirationLedger e then Inr False else
      ebind (integer 6) (\<lambda>actual. if actual \<noteq> up_ceiling e then Inr False else
      Inr (args ! 5 = ScvBytes (up_nonce e) \<and> args ! 7 = void_val))))))))"

definition assertExpectedUptoInvocation :: "xdr_env \<Rightarrow> auth_entry \<Rightarrow> upto_expected \<Rightarrow> unit outcome" where
  "assertExpectedUptoInvocation xe entry e =
     (case inv_function (ae_root entry) of
        OtherFn name \<Rightarrow> Inl (Thrown ''Refusing to sign upto auth entry: expected a contract invocation.'')
      | ContractFn contract name args \<Rightarrow>
          if contract \<noteq> up_contract e \<or> name \<noteq> ''settle'' \<or> length args \<noteq> 8
          then Inl (Thrown ''Refusing to sign upto auth entry: contract invocation did not match settle.'')
          else
            ebind (settle_tuple xe args e) (\<lambda>same.
              if same then Inr ()
              else Inl (Thrown ''Refusing to sign upto auth entry: signed tuple differed from the requested payment.'')))"

record upto_call =
  uc_contract :: string
  uc_args :: "sc_val list"
  uc_passphrase :: string
  uc_source :: string

datatype upto_event =
    UpLatest "string + int"
  | UpBuild upto_call
  | UpSign auth_entry string int

record upto_env =
  ue_address :: string
  ue_signAuthEntry :: "upto_event list \<Rightarrow> string \<Rightarrow> string \<Rightarrow> int \<Rightarrow> string outcome"
  ue_latestLedger :: "upto_event list \<Rightarrow> string + int"
  ue_random :: "upto_event list \<Rightarrow> bytes"
  ue_u32 :: "int \<Rightarrow> sc_val"
  ue_build :: "upto_event list \<Rightarrow> upto_call \<Rightarrow> string + auth_entry list option"
  ue_xdr :: xdr_env
  ue_toXDR :: "auth_entry \<Rightarrow> string"
  ue_fromXDR :: "string \<Rightarrow> auth_entry option"
  ue_envelope :: "auth_entry list \<Rightarrow> string"
  ue_number :: "rat \<Rightarrow> string"

type_synonym 'a upto = "(upto_event list, js_error, 'a) act"

record upto_options =
  uo_requirements :: payment_requirements
  uo_maxAmount :: int
  uo_trustedContract :: string
  uo_simulationSourceAccount :: string
  uo_networkPassphrase :: string
  uo_ledgerSecondsEstimate :: "js_number option"

definition payer_entry :: "upto_env \<Rightarrow> auth_entry \<Rightarrow> bool" where
  "payer_entry env entry =
     (case ae_credentials entry of AddressCreds c \<Rightarrow> ac_address c = ue_address env | OtherCreds _ \<Rightarrow> False)"

definition sign_upto :: "upto_env \<Rightarrow> string \<Rightarrow> int \<Rightarrow> auth_entry \<Rightarrow> auth_entry upto" where
  "sign_upto env pass ledger entry =
     andThen (\<lambda>tr. (ue_signAuthEntry env tr (ue_toXDR env entry) pass ledger, tr @ [UpSign entry pass ledger])) (\<lambda>signed.
       case ue_fromXDR env signed of None \<Rightarrow> throw (Thrown ''XDR'') | Some e \<Rightarrow> ret e)"

primrec sign_upto_entries ::
    "upto_env \<Rightarrow> upto_expected \<Rightarrow> string \<Rightarrow> int \<Rightarrow> auth_entry list \<Rightarrow> (auth_entry list \<times> nat) upto" where
  "sign_upto_entries env e pass ledger [] = ret ([], 0)"
| "sign_upto_entries env e pass ledger (entry # rest) =
     (if \<not> payer_entry env entry then
        andThen (sign_upto_entries env e pass ledger rest) (\<lambda>(auth, n). ret (entry # auth, n))
      else
        andThen (lift (assertExpectedUptoInvocation (ue_xdr env) entry e)) (\<lambda>_.
        andThen (sign_upto env pass ledger entry) (\<lambda>signed.
        andThen (sign_upto_entries env e pass ledger rest) (\<lambda>(auth, n). ret (signed # auth, Suc n)))))"

definition settle_call :: "upto_env \<Rightarrow> upto_options \<Rightarrow> int \<Rightarrow> int \<Rightarrow> bytes \<Rightarrow> upto_call" where
  "settle_call env options cap ledger nonce =
     \<lparr>uc_contract = uo_trustedContract options,
      uc_args = [ScvAddress (pr_asset (uo_requirements options)), ScvAddress (ue_address env),
        ScvAddress (pr_payTo (uo_requirements options)), ScvI128 cap, ue_u32 env ledger, ScvBytes nonce, ScvI128 cap, void_val],
      uc_passphrase = uo_networkPassphrase options, uc_source = uo_simulationSourceAccount options\<rparr>"

definition expected_settle :: "upto_env \<Rightarrow> upto_options \<Rightarrow> int \<Rightarrow> int \<Rightarrow> bytes \<Rightarrow> upto_expected" where
  "expected_settle env options cap ledger nonce =
     \<lparr>up_contract = uo_trustedContract options, up_token = pr_asset (uo_requirements options), up_from = ue_address env,
      up_to = pr_payTo (uo_requirements options), up_ceiling = cap, up_expirationLedger = ledger, up_nonce = nonce\<rparr>"

definition timeout_number :: "payment_requirements \<Rightarrow> js_number option" where
  "timeout_number r = map_option Finite (pr_maxTimeoutSeconds r)"

text \<open>The transaction and the ceiling; the payload wraps them with the accepted option.\<close>

definition createUptoPaymentPayload :: "upto_env \<Rightarrow> upto_options \<Rightarrow> (string \<times> int) upto" where
  "createUptoPaymentPayload env options =
     andThen (lift (assertUptoRequirement (ue_number env) (uo_requirements options) (uo_maxAmount options) (uo_trustedContract options))) (\<lambda>cap.
     andThen (loggedCall (ue_latestLedger env) UpLatest) (\<lambda>latest.
     andThen (lift (boundedOffsetFor (timeout_number (uo_requirements options))
       \<lparr>eo_ledgerSecondsEstimate = uo_ledgerSecondsEstimate options, eo_safetyMarginLedgers = None,
        eo_minExpirationLedgers = None, eo_maxExpirationLedgers = None\<rparr>)) (\<lambda>offset.
     let ledger = latest + offset in
     andThen (gets (ue_random env)) (\<lambda>nonce.
     let call = settle_call env options cap ledger nonce in
     andThen (loggedCall (\<lambda>tr. ue_build env tr call) (\<lambda>_. UpBuild call)) (\<lambda>built.
     case built of
       None \<Rightarrow> throw (Thrown ''Could not simulate the upto settle invocation.'')
     | Some auth \<Rightarrow>
         andThen (sign_upto_entries env (expected_settle env options cap ledger nonce) (uo_networkPassphrase options) ledger auth) (\<lambda>(signed, n).
           if n = 0 then throw (Thrown ''No payer authorization entry was returned by simulation.'')
           else ret (ue_envelope env signed, cap)))))))"

section \<open>The settlement\<close>

record upto_settlement =
  us_transaction :: string
  us_ceiling :: int
  us_settledAmount :: int

definition settlement_value :: "(jstext \<Rightarrow> json option) \<Rightarrow> string \<Rightarrow> json option" where
  "settlement_value parse header =
     (case Option.bind (atob header) (\<lambda>bytes. parse (utf8_decode bytes)) of
        Some v \<Rightarrow> Some v
      | None \<Rightarrow> parse (codes header))"

definition decodeUptoSettlement :: "(jstext \<Rightarrow> json option) \<Rightarrow> response \<Rightarrow> int \<Rightarrow> upto_settlement option outcome" where
  "decodeUptoSettlement parse res cap =
     (case (case headers_get (rs_headers res) ''X-PAYMENT-RESPONSE'' of
              Some h \<Rightarrow> Some h | None \<Rightarrow> headers_get (rs_headers res) ''PAYMENT-RESPONSE'') of
        None \<Rightarrow> Inr None
      | Some header \<Rightarrow>
          if header = [] then Inr None
          else
            (case settlement_value parse header of
               None \<Rightarrow> Inr None
             | Some v \<Rightarrow>
                 (case (jprop v ''success'' = JBool False, jprop v ''transaction'', jprop v ''amount'') of
                    (False, JStr tx, JStr amount) \<Rightarrow>
                      if \<not> is_hex64 tx \<or> \<not> all_digits amount then Inr None
                      else if digits_val amount > cap
                      then Inl (Thrown ''Reported upto settlement exceeds the buyer-authorized ceiling.'')
                      else Inr (Some \<lparr>us_transaction = tx, us_ceiling = cap, us_settledAmount = digits_val amount\<rparr>)
                  | _ \<Rightarrow> Inr None)))"

text \<open>\<open>UptoSettlementQueue.run\<close>: the tail never rejects, so the next settlement starts when the one before has settled.\<close>

definition queue_run :: "call_status list \<Rightarrow> call_status list" where
  "queue_run tail = run_call tail"

section \<open>The window\<close>

lemma boundedOffsetFor_Inr:
  assumes "boundedOffsetFor t options = Inr offset"
  shows "\<exists>low high. safe_integer (given (eo_minExpirationLedgers options) 3) = Some low \<and>
    safe_integer (given (eo_maxExpirationLedgers options) 58) = Some high \<and> 1 \<le> low \<and> low \<le> offset \<and> offset \<le> high"
  using assms by (auto simp: boundedOffsetFor_def split: js_number.splits if_splits option.splits)

lemma safe_defaults: "safe_integer (Finite 2) = Some 2" "safe_integer (Finite 3) = Some 3" "safe_integer (Finite 58) = Some 58"
  by (simp_all add: safe_integer_def)

lemma default_window_bounds:
  assumes "boundedOffsetFor t \<lparr>eo_ledgerSecondsEstimate = l, eo_safetyMarginLedgers = None, eo_minExpirationLedgers = None,
    eo_maxExpirationLedgers = None\<rparr> = Inr offset"
  shows "3 \<le> offset \<and> offset \<le> 58"
  using boundedOffsetFor_Inr [OF assms] by (auto simp: given_def safe_defaults)

text \<open>With its defaults the configurable window is the window of the SDK's client.\<close>

lemma default_window_agrees:
  assumes "case t of None \<Rightarrow> True | Some s \<Rightarrow> 0 \<le> s"
  shows "boundedOffsetFor (map_option Finite t) \<lparr>eo_ledgerSecondsEstimate = None, eo_safetyMarginLedgers = None,
      eo_minExpirationLedgers = None, eo_maxExpirationLedgers = None\<rparr> = Inr (expirationOffsetFor t None)"
  using assms
  by (cases t) (simp_all add: boundedOffsetFor_def given_def safe_defaults expirationOffsetFor_def Let_def)

section \<open>What is signed\<close>

definition settles :: "xdr_env \<Rightarrow> auth_entry \<Rightarrow> upto_expected \<Rightarrow> bool" where
  "settles xe entry e =
     (\<exists>args. inv_function (ae_root entry) = ContractFn (up_contract e) ''settle'' args \<and> length args = 8 \<and>
        xe_address xe (args ! 0) = Some (up_token e) \<and> xe_address xe (args ! 1) = Some (up_from e) \<and>
        xe_address xe (args ! 2) = Some (up_to e) \<and> xe_bigint xe (args ! 3) = Some (up_ceiling e) \<and>
        xe_bigint xe (args ! 4) = Some (up_expirationLedger e) \<and> args ! 5 = ScvBytes (up_nonce e) \<and>
        xe_bigint xe (args ! 6) = Some (up_ceiling e) \<and> args ! 7 = void_val)"

lemma settle_tuple_True:
  "settle_tuple xe args e = Inr True \<longleftrightarrow>
     xe_address xe (args ! 0) = Some (up_token e) \<and> xe_address xe (args ! 1) = Some (up_from e) \<and>
     xe_address xe (args ! 2) = Some (up_to e) \<and> xe_bigint xe (args ! 3) = Some (up_ceiling e) \<and>
     xe_bigint xe (args ! 4) = Some (up_expirationLedger e) \<and> args ! 5 = ScvBytes (up_nonce e) \<and>
     xe_bigint xe (args ! 6) = Some (up_ceiling e) \<and> args ! 7 = void_val"
  by (auto simp: settle_tuple_def Let_def ebind_eq_Inr split: option.splits if_splits)

lemma assertExpectedUptoInvocation_iff: "assertExpectedUptoInvocation xe entry e = Inr () \<longleftrightarrow> settles xe entry e"
  by (auto simp: assertExpectedUptoInvocation_def settles_def ebind_eq_Inr settle_tuple_True
      split: authorized_fn.splits if_splits)

lemma sign_upto_event:
  "sign_upto env pass ledger entry tr = (r, tr') \<Longrightarrow> tr' = tr @ [UpSign entry pass ledger]"
  by (auto simp: sign_upto_def act_defs split: sum.splits option.splits)

lemma sign_upto_entries_events:
  "sign_upto_entries env e pass ledger entries tr = (r, tr') \<Longrightarrow>
   \<exists>evs. tr' = tr @ evs \<and> (\<forall>ev\<in>set evs. \<exists>entry. ev = UpSign entry pass ledger \<and>
     payer_entry env entry \<and> settles (ue_xdr env) entry e)"
proof (induction entries arbitrary: tr r tr')
  case (Cons entry rest)
  show ?case
  proof (cases "payer_entry env entry")
    case False
    obtain r1 tr1 where run: "sign_upto_entries env e pass ledger rest tr = (r1, tr1)"
      by (cases "sign_upto_entries env e pass ledger rest tr")
    then have "tr' = tr1" using Cons.prems False by (auto simp: andThen_def ret_def split: sum.splits prod.splits)
    then show ?thesis using Cons.IH [OF run] by auto
  next
    case True
    show ?thesis
    proof (cases "assertExpectedUptoInvocation (ue_xdr env) entry e")
      case (Inl x)
      then show ?thesis using Cons.prems True by (auto simp: andThen_def lift_def)
    next
      case (Inr u)
      then have ok: "settles (ue_xdr env) entry e" using assertExpectedUptoInvocation_iff by simp
      obtain r1 tr1 where one: "sign_upto env pass ledger entry tr = (r1, tr1)" by (cases "sign_upto env pass ledger entry tr")
      note ev = sign_upto_event [OF one]
      show ?thesis
      proof (cases r1)
        case (Inl x)
        then have "tr' = tr1" using Cons.prems True one \<open>assertExpectedUptoInvocation _ _ _ = Inr u\<close> by (simp add: andThen_def lift_def)
        then show ?thesis using ev ok True by auto
      next
        case (Inr signed)
        obtain r2 tr2 where run: "sign_upto_entries env e pass ledger rest tr1 = (r2, tr2)"
          by (cases "sign_upto_entries env e pass ledger rest tr1")
        then have "tr' = tr2"
          using Cons.prems True one Inr \<open>assertExpectedUptoInvocation _ _ _ = Inr u\<close>
          by (auto simp: andThen_def lift_def ret_def split: sum.splits prod.splits)
        moreover obtain evs where "tr2 = tr1 @ evs" "\<forall>ev\<in>set evs. \<exists>entry. ev = UpSign entry pass ledger \<and>
            payer_entry env entry \<and> settles (ue_xdr env) entry e"
          using Cons.IH [OF run] by blast
        ultimately show ?thesis using ev ok True by (intro exI [of _ "UpSign entry pass ledger # evs"]) auto
      qed
    qed
  qed
qed (simp add: ret_def)

lemma signed_entries:
  "\<exists>evs. snd (sign_upto_entries env e pass ledger entries tr) = tr @ evs \<and> (\<forall>ev\<in>set evs. \<exists>entry. ev = UpSign entry pass ledger \<and>
     payer_entry env entry \<and> settles (ue_xdr env) entry e)"
  by (rule sign_upto_entries_events [OF prod.collapse [symmetric]])

lemma assertUptoRequirement_Inr:
  assumes "assertUptoRequirement num r m c = Inr cap"
  shows "pr_scheme r = ''upto'' \<and> jprop (pr_extra r) ''areFeesSponsored'' = JBool True \<and>
    jprop (pr_extra r) ''uptoContract'' = JStr c \<and> toBigInt num (pr_amount r) = Some cap \<and> cap \<le> m"
  using assms by (auto simp: assertUptoRequirement_def split: if_splits option.splits)

definition fit_upto_signature :: "upto_env \<Rightarrow> upto_options \<Rightarrow> upto_event list \<Rightarrow> upto_event \<Rightarrow> bool" where
  "fit_upto_signature env opts evs ev =
     (\<exists>entry latest offset cap nonce.
        ev = UpSign entry (uo_networkPassphrase opts) (latest + offset) \<and> UpLatest (Inr latest) \<in> set evs \<and>
        3 \<le> offset \<and> offset \<le> 58 \<and>
        assertUptoRequirement (ue_number env) (uo_requirements opts) (uo_maxAmount opts) (uo_trustedContract opts) = Inr cap \<and>
        payer_entry env entry \<and> settles (ue_xdr env) entry (expected_settle env opts cap (latest + offset) nonce))"

lemma upto_events:
  assumes "createUptoPaymentPayload env opts tr = (r, tr')"
  shows "\<exists>evs. tr' = tr @ evs \<and> (\<forall>ev\<in>set evs. (\<exists>entry p l. ev = UpSign entry p l) \<longrightarrow> fit_upto_signature env opts evs ev)"
proof -
  let ?Q = "\<lambda>(r :: (string \<times> int) outcome) tr'. \<exists>evs. tr' = tr @ evs \<and>
    (\<forall>ev\<in>set evs. (\<exists>entry p l. ev = UpSign entry p l) \<longrightarrow> fit_upto_signature env opts evs ev)"
  have entries: "wp (sign_upto_entries env (expected_settle env opts cap (latest + offset) nonce) (uo_networkPassphrase opts) (latest + offset) auth)
      (\<lambda>r tr'. \<exists>evs. tr' = (tr @ [UpLatest (Inr latest), UpBuild call]) @ evs \<and>
        (\<forall>ev\<in>set evs. fit_upto_signature env opts ([UpLatest (Inr latest), UpBuild call] @ evs) ev))
      (tr @ [UpLatest (Inr latest), UpBuild call])"
    if "assertUptoRequirement (ue_number env) (uo_requirements opts) (uo_maxAmount opts) (uo_trustedContract opts) = Inr cap"
      "boundedOffsetFor (timeout_number (uo_requirements opts)) \<lparr>eo_ledgerSecondsEstimate = uo_ledgerSecondsEstimate opts,
        eo_safetyMarginLedgers = None, eo_minExpirationLedgers = None, eo_maxExpirationLedgers = None\<rparr> = Inr offset"
    for cap latest offset nonce auth call
  proof -
    let ?tr = "tr @ [UpLatest (Inr latest), UpBuild call]" and ?e = "expected_settle env opts cap (latest + offset) nonce"
    let ?run = "sign_upto_entries env ?e (uo_networkPassphrase opts) (latest + offset) auth ?tr"
    obtain evs where "snd ?run = ?tr @ evs" and evs: "\<forall>ev\<in>set evs. \<exists>entry. ev = UpSign entry (uo_networkPassphrase opts) (latest + offset) \<and>
        payer_entry env entry \<and> settles (ue_xdr env) entry ?e"
      using signed_entries [of env ?e "uo_networkPassphrase opts" "latest + offset" auth ?tr] by (elim exE conjE)
    moreover have "fit_upto_signature env opts ([UpLatest (Inr latest), UpBuild call] @ evs) ev" if ev: "ev \<in> set evs" for ev
    proof -
      obtain entry where "ev = UpSign entry (uo_networkPassphrase opts) (latest + offset)" "payer_entry env entry"
        "settles (ue_xdr env) entry ?e" using evs ev by blast
      then show ?thesis
        unfolding fit_upto_signature_def
        using default_window_bounds [OF \<open>boundedOffsetFor _ _ = Inr offset\<close>] \<open>assertUptoRequirement _ _ _ _ = Inr cap\<close>
        by (intro exI [of _ entry] exI [of _ latest] exI [of _ offset] exI [of _ cap] exI [of _ nonce]) simp
    qed
    ultimately show ?thesis by (auto simp: wp_def split: prod.splits)
  qed
  have "wp (createUptoPaymentPayload env opts) ?Q tr"
    unfolding createUptoPaymentPayload_def Let_def wp
    apply (auto simp: wp split: sum.splits option.splits)
    subgoal premises p for cap latest offset auth
      using entries [OF p(4) p(2)]
      by (rule wp_mono) (auto 0 4 simp: append_eq_append_conv2 intro!: exI)
    done
  then show ?thesis using assms by (rule wpD)
qed


lemma upto_result_cap:
  assumes "createUptoPaymentPayload env opts tr = (Inr (tx, c), tr')"
  shows "assertUptoRequirement (ue_number env) (uo_requirements opts) (uo_maxAmount opts) (uo_trustedContract opts) = Inr c"
proof -
  have "wp (createUptoPaymentPayload env opts) (\<lambda>r _. \<forall>tx c. r = Inr (tx, c) \<longrightarrow>
      assertUptoRequirement (ue_number env) (uo_requirements opts) (uo_maxAmount opts) (uo_trustedContract opts) = Inr c) tr"
    unfolding createUptoPaymentPayload_def Let_def wp
    by (auto simp: wp split: sum.splits option.splits) (auto simp: wp_def)
  then show ?thesis using assms by (auto dest: wpD)
qed

lemma decodeUptoSettlement_cap:
  assumes "decodeUptoSettlement parse res cap = Inr (Some s)"
  shows "us_ceiling s = cap \<and> us_settledAmount s \<le> cap \<and> is_hex64 (us_transaction s)"
  using assms by (auto simp: decodeUptoSettlement_def split: option.splits if_splits json.splits bool.splits)

text \<open>Settlements that share a queue run one at a time.\<close>

lemma settlements_run_alone:
  assumes "reach (\<lambda>m. m = []) mutex_step m" "can_settle m i" "can_settle m j"
  shows "i = j"
  using mutex_inv_unique [OF mutex.inv_reach [OF assms(1)] assms(2,3)] .

lemma queue_run_is_a_step: "mutex_step m (queue_run m)"
  unfolding queue_run_def by (rule mx_call)

text \<open>
  C25 (safety): whatever the RPC, the simulation and the seller's option say, every authorization entry the upto
  buyer signs is the payer's own, is a \<open>settle\<close> call of the trusted contract for exactly the requested token,
  payer, payee, ceiling, expiration and one nonce, with the ceiling at most \<open>maxAmount\<close>, and its signature ends
  between 3 and 58 ledgers after the ledger the RPC reported; and a settlement decoded against the ceiling the
  call returned never charges more than \<open>maxAmount\<close>.
\<close>

theorem upto_signatures_stay_within_the_maximum:
  assumes run: "createUptoPaymentPayload env opts [] = (r, evs)"
  shows "(\<forall>entry pass ledger. UpSign entry pass ledger \<in> set evs \<longrightarrow>
      pass = uo_networkPassphrase opts \<and> payer_entry env entry \<and>
      (\<exists>latest cap nonce. UpLatest (Inr latest) \<in> set evs \<and> latest + 3 \<le> ledger \<and> ledger \<le> latest + 58 \<and>
         toBigInt (ue_number env) (pr_amount (uo_requirements opts)) = Some cap \<and> cap \<le> uo_maxAmount opts \<and>
         settles (ue_xdr env) entry (expected_settle env opts cap ledger nonce))) \<and>
    (\<forall>tx c parse res s. r = Inr (tx, c) \<longrightarrow> decodeUptoSettlement parse res c = Inr (Some s) \<longrightarrow>
      us_settledAmount s \<le> uo_maxAmount opts)"
proof (intro conjI allI impI)
  fix entry pass ledger
  assume "UpSign entry pass ledger \<in> set evs"
  then have fit: "fit_upto_signature env opts evs (UpSign entry pass ledger)" using upto_events [OF run] by auto
  then show "pass = uo_networkPassphrase opts" "payer_entry env entry" by (auto simp: fit_upto_signature_def)
  show "\<exists>latest cap nonce. UpLatest (Inr latest) \<in> set evs \<and> latest + 3 \<le> ledger \<and> ledger \<le> latest + 58 \<and>
         toBigInt (ue_number env) (pr_amount (uo_requirements opts)) = Some cap \<and> cap \<le> uo_maxAmount opts \<and>
         settles (ue_xdr env) entry (expected_settle env opts cap ledger nonce)"
    using fit by (force simp: fit_upto_signature_def dest: assertUptoRequirement_Inr)
next
  fix tx c parse res s
  assume "r = Inr (tx, c)" "decodeUptoSettlement parse res c = Inr (Some s)"
  then show "us_settledAmount s \<le> uo_maxAmount opts"
    using upto_result_cap run decodeUptoSettlement_cap assertUptoRequirement_Inr by (metis order_trans)
qed

definition upto_sample_options :: upto_options where
  "upto_sample_options =
     \<lparr>uo_requirements = \<lparr>pr_scheme = ''upto'', pr_network = ''stellar:testnet'', pr_asset = ''CUSDC'', pr_amount = JStr ''500'',
        pr_payTo = ''GSELLER'', pr_maxTimeoutSeconds = Some 60,
        pr_extra = JObj [(''areFeesSponsored'', JBool True), (''uptoContract'', JStr ''CUPTO'')]\<rparr>,
      uo_maxAmount = 1000, uo_trustedContract = ''CUPTO'', uo_simulationSourceAccount = ''GSIM'',
      uo_networkPassphrase = ''Test'', uo_ledgerSecondsEstimate = None\<rparr>"

definition upto_sample_entry :: "sc_val list \<Rightarrow> auth_entry" where
  "upto_sample_entry args =
     \<lparr>ae_credentials = AddressCreds \<lparr>ac_address = ''CBUYER'', ac_nonce = 7, ac_expirationLedger = 0, ac_signature = void_val\<rparr>,
      ae_root = Invocation (ContractFn ''CUPTO'' ''settle'' args) []\<rparr>"

definition upto_sample_env :: upto_env where
  "upto_sample_env =
     \<lparr>ue_address = ''CBUYER'', ue_signAuthEntry = (\<lambda>tr x p l. Inr ''signed''), ue_latestLedger = (\<lambda>tr. Inr 1000),
      ue_random = (\<lambda>tr. replicate 32 9), ue_u32 = ScvI128, ue_build = (\<lambda>tr call. Inr (Some [upto_sample_entry (uc_args call)])),
      ue_xdr = sample_xdr, ue_toXDR = (\<lambda>e. ''entry''), ue_fromXDR = (\<lambda>x. Some (upto_sample_entry [])),
      ue_envelope = (\<lambda>es. ''envelope''), ue_number = (\<lambda>q. [])\<rparr>"

definition upto_sample_args :: "sc_val list" where
  "upto_sample_args = uc_args (settle_call upto_sample_env upto_sample_options 500 1010 (replicate 32 9))"

definition upto_sample_trace :: "upto_event list" where
  "upto_sample_trace =
     [UpLatest (Inr 1000), UpBuild (settle_call upto_sample_env upto_sample_options 500 1010 (replicate 32 9)),
      UpSign (upto_sample_entry upto_sample_args) ''Test'' 1010]"

lemma upto_sample_run:
  "createUptoPaymentPayload upto_sample_env upto_sample_options [] = (Inr (''envelope'', 500), upto_sample_trace)"
  by code_simp

text \<open>A buyer with a maximum of 1000 signs a ceiling of 500 until ledger 1010.\<close>

theorem upto_signatures_stay_within_the_maximum_witness:
  "createUptoPaymentPayload upto_sample_env upto_sample_options [] = (Inr (''envelope'', 500), upto_sample_trace) \<and>
   payer_entry upto_sample_env (upto_sample_entry upto_sample_args) \<and>
   (\<exists>cap nonce. cap \<le> 1000 \<and> settles sample_xdr (upto_sample_entry upto_sample_args)
      (expected_settle upto_sample_env upto_sample_options cap 1010 nonce))"
  using upto_signatures_stay_within_the_maximum [OF upto_sample_run] upto_sample_run
  by (fastforce simp: upto_sample_trace_def upto_sample_env_def upto_sample_options_def)

end
