(* ===== verification/DurableLedger.thy ===== *)
theory DurableLedger
  imports Ledger Json
begin

text \<open>
  The spend ledger of the payer kept across restarts (\<open>contrib/x402-wave-403-414/durable-mcp-ledger.ts\<close>). The
  session ledger is the payer's own. A store is an interface of two operations, the locale \<open>ledger_store\<close>; the
  file store provides it.

  The disk has what \<open>readFile\<close> gives (a text, or an error code with its message) and the outcomes that the next
  \<open>mkdir\<close> and \<open>writeFile\<close> calls will have: \<open>None\<close> is success, otherwise the call fails with a message and leaves
  the given content. A plan that has run out means success. Texts are one-byte characters.
\<close>

section \<open>The store\<close>

datatype durable_error = DurableLedgerStoreError string | LedgerRefused js_error | EntriesOfNull

type_synonym file_read = "string \<times> string + string"

record disk =
  dk_file :: file_read
  dk_plan :: "(string \<times> file_read) option list"

definition next_outcome :: "disk \<Rightarrow> (string \<times> file_read) option" where
  "next_outcome d = (case dk_plan d of [] \<Rightarrow> None | x # _ \<Rightarrow> x)"

definition disk_call :: "(file_read \<Rightarrow> file_read) \<Rightarrow> disk \<Rightarrow> (string + unit) \<times> disk" where
  "disk_call f d =
     (case next_outcome d of
        None \<Rightarrow> (Inr (), \<lparr>dk_file = f (dk_file d), dk_plan = tl (dk_plan d)\<rparr>)
      | Some (message, left) \<Rightarrow> (Inl message, \<lparr>dk_file = left, dk_plan = tl (dk_plan d)\<rparr>))"

text \<open>\<open>JSON.stringify(snapshot, null, 2)\<close> of an object of strings.\<close>

definition indent_member :: "string \<times> string \<Rightarrow> string" where
  "indent_member = (\<lambda>(k, v). CHR 0x0A # ''  '' @ quote_string k @ '': '' @ quote_string v)"

definition stringify_indented :: "(string \<times> string) list \<Rightarrow> string" where
  "stringify_indented kvs =
     (if kvs = [] then ''{}'' else CHR ''{'' # commas (map indent_member kvs) @ [CHR 0x0A, CHR ''}''])"

definition file_load :: "string \<Rightarrow> disk \<Rightarrow> string + json" where
  "file_load path d =
     (let failed = (\<lambda>message. Inl (''Could not load durable spend ledger from '' @ path @ '': '' @ message)) in
      case dk_file d of
        Inr contents \<Rightarrow>
          (case JSON_parse contents of
             Some v \<Rightarrow> Inr v
           | None \<Rightarrow> failed ''Unexpected token in JSON'')
      | Inl (code, message) \<Rightarrow>
          if code = ''ENOENT'' \<or> code = ''ENOTDIR'' then Inr (JObj []) else failed message)"

text \<open>The last argument of the path is \<open>dirname(filePath)\<close>.\<close>

definition file_save :: "string \<Rightarrow> string \<Rightarrow> (string \<times> string) list \<Rightarrow> disk \<Rightarrow> (string + unit) \<times> disk" where
  "file_save path dir kvs d =
     (let failed = (\<lambda>message. Inl (''Could not save durable spend ledger to '' @ path @ '': '' @ message)) in
      case (if dir \<noteq> [] \<and> dir \<noteq> ''.'' then disk_call id d else (Inr (), d)) of
        (Inl message, d1) \<Rightarrow> (failed message, d1)
      | (Inr _, d1) \<Rightarrow>
          (case disk_call (\<lambda>_. Inr (stringify_indented kvs)) d1 of
             (Inl message, d2) \<Rightarrow> (failed message, d2)
           | (Inr _, d2) \<Rightarrow> (Inr (), d2)))"

section \<open>The ledger\<close>

text \<open>\<open>Object.entries\<close> of what was loaded, which is not checked to be an object of strings.\<close>

definition object_entries :: "json \<Rightarrow> (string \<times> json) list option" where
  "object_entries v =
     (case v of
        JObj kvs \<Rightarrow> Some kvs
      | JArr vs \<Rightarrow> Some (zip (map show_nat [0..<length vs]) vs)
      | JStr s \<Rightarrow> Some (zip (map show_nat [0..<length s]) (map (\<lambda>c. JStr [c]) s))
      | JNull \<Rightarrow> None
      | JUndefined \<Rightarrow> None
      | _ \<Rightarrow> Some [])"

definition record_initial :: "(rat \<Rightarrow> string) \<Rightarrow> spend_ledger \<Rightarrow> string \<times> json \<Rightarrow> spend_ledger" where
  "record_initial num l = (\<lambda>(asset, val).
     case toBigInt num val of
       None \<Rightarrow> l
     | Some n \<Rightarrow> (case recordSpend l asset n of Inl _ \<Rightarrow> l | Inr l' \<Rightarrow> l'))"

definition createDurableSpendLedgerWrapper ::
    "(rat \<Rightarrow> string) \<Rightarrow> (string \<times> int) list \<Rightarrow> json \<Rightarrow> durable_error + spend_ledger" where
  "createDurableSpendLedgerWrapper num ceilings initialSpent =
     (case object_entries initialSpent of
        None \<Rightarrow> Inl EntriesOfNull
      | Some kvs \<Rightarrow> Inr (foldl (record_initial num) (createSpendLedger ceilings) kvs))"

definition createDurableSpendLedger ::
    "(rat \<Rightarrow> string) \<Rightarrow> ('s \<Rightarrow> string + json) \<Rightarrow> (string \<times> int) list \<Rightarrow> 's \<Rightarrow> durable_error + spend_ledger" where
  "createDurableSpendLedger num load ceilings st =
     (case load st of
        Inl message \<Rightarrow> Inl (DurableLedgerStoreError (''Failed to load initial spend ledger state: '' @ message))
      | Inr v \<Rightarrow> createDurableSpendLedgerWrapper num ceilings v)"

fun put_entry :: "string \<Rightarrow> 'v \<Rightarrow> (string \<times> 'v) list \<Rightarrow> (string \<times> 'v) list" where
  "put_entry k v [] = [(k, v)]"
| "put_entry k v ((k', v') # kvs) = (if k' = k then (k, v) # kvs else (k', v') # put_entry k v kvs)"

definition snapshotMap :: "spend_ledger \<Rightarrow> (string \<times> string) list" where
  "snapshotMap l = foldl (\<lambda>m item. put_entry (ss_asset item) (ss_spent item) m) [] (snapshot l)"

definition recordAndPersist ::
    "((string \<times> string) list \<Rightarrow> 's \<Rightarrow> (string + unit) \<times> 's) \<Rightarrow> string \<Rightarrow> int \<Rightarrow> spend_ledger \<times> 's \<Rightarrow>
     (durable_error + unit) \<times> spend_ledger \<times> 's" where
  "recordAndPersist save asset amount = (\<lambda>(l, st).
     case recordSpend l asset amount of
       Inl e \<Rightarrow> (Inl (LedgerRefused e), l, st)
     | Inr l' \<Rightarrow>
         (case save (snapshotMap l') st of
            (Inl message, st') \<Rightarrow> (Inl (DurableLedgerStoreError (''Failed to persist spend ledger state: '' @ message)), l', st')
          | (Inr _, st') \<Rightarrow> (Inr (), l', st')))"

section \<open>Amounts and texts are read back\<close>

lemma BigInt_show_int: "BigInt (show_int n) = Some n"
proof (cases "n < 0")
  case True
  let ?d = "show_nat (nat (- n))"
  have "is_digit c \<Longrightarrow> \<not> is_ws c" for c by (rule digit_not_ws)
  then have "trim (CHR ''-'' # ?d) = CHR ''-'' # ?d"
    using show_nat_digits [of "nat (- n)"] by (intro trim_id) (auto simp: list_all_iff is_ws_def)
  then show ?thesis using True all_digits_show_nat [of "nat (- n)"] by (simp add: show_int_def BigInt_def)
next
  case False
  then show ?thesis by (simp add: show_int_def BigInt_digits all_digits_show_nat)
qed

lemma parse_quoted: "parse_value (Suc n) (CHR '' '' # quote_string v @ rest) = Some (JStr v, rest)"
  by (simp add: quote_string_def skip_ws_def json_ws_def string_body_escaped)

lemma indented_Cons:
  "commas (map indent_member ((k, v) # kvs)) @ [CHR 0x0A, CHR ''}''] =
     CHR 0x0A # CHR '' '' # CHR '' '' # CHR 0x22 # concat (map escape_char k) @ CHR 0x22 # CHR '':'' #
       (CHR '' '' # quote_string v @ (if kvs = [] then [CHR 0x0A, CHR ''}'']
         else CHR '','' # commas (map indent_member kvs) @ [CHR 0x0A, CHR ''}'']))"
  by (simp add: commas_Cons indent_member_def quote_string_def)

lemma parse_indented:
  assumes "kvs \<noteq> []" "distinct (map fst (acc @ map (apsnd JStr) kvs))" "2 * length kvs \<le> n"
  shows "parse_members n acc (commas (map indent_member kvs) @ [CHR 0x0A, CHR ''}'']) = Some (JObj (acc @ map (apsnd JStr) kvs), [])"
  using assms
proof (induction kvs arbitrary: acc n)
  case (Cons kv kvs)
  obtain k v where kv: "kv = (k, v)" by (cases kv)
  obtain m where n: "n = Suc (Suc m)" using Cons.prems(3) by (cases n; cases "n - 1") auto
  have set_k: "jset k (JStr v) acc = acc @ [(k, JStr v)]"
    using Cons.prems(2) kv by (auto intro!: jset_append)
  have more: "parse_members (Suc m) (acc @ [(k, JStr v)]) (commas (map indent_member kvs) @ [CHR 0x0A, CHR ''}'']) =
      Some (JObj ((acc @ [(k, JStr v)]) @ map (apsnd JStr) kvs), [])" if "kvs \<noteq> []"
    by (rule Cons.IH) (use Cons.prems that n kv in auto)
  show ?case
    unfolding kv indented_Cons n using more set_k
    by (auto simp: skip_ws_def json_ws_def string_body_escaped parse_quoted simp del: parse_value.simps jset.simps)
qed simp

lemma length_indented: "2 * length kvs \<le> length (commas (map indent_member kvs))"
  by (induction kvs) (auto simp: commas_Cons indent_member_def quote_string_def split: prod.splits)

lemma JSON_parse_indented:
  assumes "distinct (map fst kvs)"
  shows "JSON_parse (stringify_indented kvs) = Some (JObj (map (apsnd JStr) kvs))"
proof (cases kvs)
  case Nil
  then show ?thesis by (simp add: stringify_indented_def JSON_parse_def skip_ws_def json_ws_def)
next
  case (Cons kv rest)
  obtain k v where kv: "kv = (k, v)" by (cases kv)
  let ?body = "commas (map indent_member kvs) @ [CHR 0x0A, CHR ''}'']"
  have "parse_members (Suc (length ?body)) [] ?body = Some (JObj ([] @ map (apsnd JStr) kvs), [])"
    using assms length_indented [of kvs] Cons by (intro parse_indented) (auto simp: comp_def)
  moreover have "strip_prefix ''}'' (skip_ws ?body) = None"
    unfolding Cons kv indented_Cons by (simp add: skip_ws_def json_ws_def)
  ultimately show ?thesis
    using Cons by (simp add: stringify_indented_def JSON_parse_def skip_ws_def json_ws_def)
qed

section \<open>What a store promises\<close>

text \<open>
  A store gives back the object of the last save that succeeded. Its clients restart from it: the ledger created
  anew has spent what the one before had, and any number of payments and restarts stays under the ceilings.
\<close>

lemma record_initial_spent:
  assumes "map_of (sl_ceilings l) a \<noteq> None" "toBigInt num v = Some n"
  shows "spentFor (record_initial num l (k, v)) a = spentFor l a + (if a = k then n else 0)"
    and "sl_ceilings (record_initial num l (k, v)) = sl_ceilings l"
proof -
  have known: "\<exists>l'. recordSpend l k n = Inr l'" if "a = k"
    using assms(1) that by (auto simp: recordSpend_def ceilingFor_def)
  show "spentFor (record_initial num l (k, v)) a = spentFor l a + (if a = k then n else 0)"
    using known by (cases "recordSpend l k n") (auto simp: record_initial_def assms(2) spentFor_record)
  show "sl_ceilings (record_initial num l (k, v)) = sl_ceilings l"
    by (cases "recordSpend l k n") (auto simp: record_initial_def assms(2) ceilings_record)
qed

lemma spentFor_initial:
  assumes "map_of (sl_ceilings l) a \<noteq> None" "distinct (map fst kvs)" "\<And>k v. (k, v) \<in> set kvs \<Longrightarrow> toBigInt num v = Some (f k)"
  shows "spentFor (foldl (record_initial num) l kvs) a = spentFor l a + (if a \<in> fst ` set kvs then f a else 0) \<and>
    sl_ceilings (foldl (record_initial num) l kvs) = sl_ceilings l"
  using assms
proof (induction kvs arbitrary: l)
  case (Cons kv kvs)
  obtain k v where kv: "kv = (k, v)" by (cases kv)
  let ?l = "record_initial num l (k, v)"
  have v: "toBigInt num v = Some (f k)" using Cons.prems(3) kv by simp
  note one = record_initial_spent [OF Cons.prems(1) v, of k]
  have ceil: "sl_ceilings ?l = sl_ceilings l" by (rule one(2))
  have "spentFor ?l a = spentFor l a + (if a = k then f k else 0)" by (rule one(1))
  moreover have "spentFor (foldl (record_initial num) ?l kvs) a = spentFor ?l a + (if a \<in> fst ` set kvs then f a else 0) \<and>
      sl_ceilings (foldl (record_initial num) ?l kvs) = sl_ceilings ?l"
    using Cons.prems ceil by (intro Cons.IH) auto
  ultimately show ?case using Cons.prems(2) kv ceil by auto
qed simp

lemma put_entry_new: "k \<notin> fst ` set m \<Longrightarrow> put_entry k v m = m @ [(k, v)]"
  by (induction m) auto

lemma put_entries:
  "distinct (map fst m @ map ss_asset items) \<Longrightarrow>
   foldl (\<lambda>m item. put_entry (ss_asset item) (ss_spent item) m) m items = m @ map (\<lambda>i. (ss_asset i, ss_spent i)) items"
  by (induction items arbitrary: m) (auto simp: put_entry_new)

lemma snapshotMap_eq:
  assumes "distinct (map fst (sl_ceilings l))"
  shows "snapshotMap l = map (\<lambda>(a, c). (a, show_int (spentFor l a))) (sl_ceilings l)"
proof -
  have "map ss_asset (snapshot l) = map fst (sl_ceilings l)" by (auto simp: snapshot_def)
  then have "snapshotMap l = map (\<lambda>i. (ss_asset i, ss_spent i)) (snapshot l)"
    using put_entries [of "[]" "snapshot l"] assms by (simp add: snapshotMap_def)
  also have "\<dots> = map (\<lambda>(a, c). (a, show_int (spentFor l a))) (sl_ceilings l)" by (simp add: snapshot_def case_prod_unfold comp_def)
  finally show ?thesis .
qed

lemma restart_from_snapshot:
  assumes "distinct (map fst (sl_ceilings l))" "map_of (sl_ceilings l) a \<noteq> None"
  shows "\<exists>l2. createDurableSpendLedgerWrapper num (sl_ceilings l) (JObj (map (apsnd JStr) (snapshotMap l))) = Inr l2 \<and>
    spentFor l2 a = spentFor l a \<and> sl_ceilings l2 = sl_ceilings l"
proof -
  let ?kvs = "map (apsnd JStr) (snapshotMap l)" and ?l0 = "createSpendLedger (sl_ceilings l)"
  have keys: "map fst ?kvs = map fst (sl_ceilings l)"
    by (auto simp: snapshotMap_eq [OF assms(1)])
  have vals: "toBigInt num v = Some (spentFor l k)" if "(k, v) \<in> set ?kvs" for k v
    using that by (auto simp: snapshotMap_eq [OF assms(1)] toBigInt_def BigInt_show_int)
  have "a \<in> set (map fst ?kvs)" unfolding keys using assms(2) by (metis map_of_eq_None_iff set_map)
  then have "a \<in> fst ` set ?kvs" by (simp only: set_map)
  then show ?thesis
    using spentFor_initial [of ?l0 a ?kvs num "spentFor l"] vals assms keys
    by (simp add: createDurableSpendLedgerWrapper_def object_entries_def createSpendLedger_def spentFor_def)
qed

text \<open>
  A payment is checked, recorded and persisted before the next one starts, as under the payer's mutex; a restart
  loses the ledger and creates one from the store. \<open>du_paid\<close> is what was paid since the store was empty.
\<close>

record 's durable =
  du_ledger :: spend_ledger
  du_store :: 's
  du_paid :: "string \<Rightarrow> int"

inductive durable_step ::
    "(rat \<Rightarrow> string) \<Rightarrow> ('s \<Rightarrow> string + json) \<Rightarrow> ((string \<times> string) list \<Rightarrow> 's \<Rightarrow> (string + unit) \<times> 's) \<Rightarrow>
     (string \<times> int) list \<Rightarrow> 's durable \<Rightarrow> 's durable \<Rightarrow> bool" for num load save ceilings where
  durable_pay: "assertWithinCeiling (du_ledger s) asset amount = Inr () \<Longrightarrow>
    recordAndPersist save asset amount (du_ledger s, du_store s) = (Inr (), l, st) \<Longrightarrow>
    durable_step num load save ceilings s
      \<lparr>du_ledger = l, du_store = st, du_paid = (du_paid s)(asset := du_paid s asset + amount)\<rparr>"
| durable_restart: "createDurableSpendLedger num load ceilings (du_store s) = Inr l \<Longrightarrow>
    durable_step num load save ceilings s (s\<lparr>du_ledger := l\<rparr>)"

definition durable_init :: "(rat \<Rightarrow> string) \<Rightarrow> ('s \<Rightarrow> string + json) \<Rightarrow> (string \<times> int) list \<Rightarrow> 's durable \<Rightarrow> bool" where
  "durable_init num load ceilings s =
     (distinct (map fst ceilings) \<and> (\<forall>(a, c) \<in> set ceilings. 0 \<le> c) \<and> load (du_store s) = Inr (JObj []) \<and>
      createDurableSpendLedger num load ceilings (du_store s) = Inr (du_ledger s) \<and> du_paid s = (\<lambda>_. 0))"

definition ledger_of :: "(string \<times> int) list \<Rightarrow> (string \<Rightarrow> int) \<Rightarrow> spend_ledger \<Rightarrow> bool" where
  "ledger_of ceilings paid l =
     (sl_ceilings l = ceilings \<and> (\<forall>a. map_of ceilings a \<noteq> None \<longrightarrow> spentFor l a = paid a))"

definition durable_inv :: "(rat \<Rightarrow> string) \<Rightarrow> ('s \<Rightarrow> string + json) \<Rightarrow> (string \<times> int) list \<Rightarrow> 's durable \<Rightarrow> bool" where
  "durable_inv num load ceilings s =
     (distinct (map fst ceilings) \<and> ledger_of ceilings (du_paid s) (du_ledger s) \<and>
      (\<exists>l. createDurableSpendLedger num load ceilings (du_store s) = Inr l \<and> ledger_of ceilings (du_paid s) l) \<and>
      (\<forall>a c. map_of ceilings a = Some c \<longrightarrow> du_paid s a \<le> c))"

lemma ledger_of_snapshot:
  assumes "distinct (map fst ceilings)" "ledger_of ceilings paid l"
  shows "\<exists>l2. createDurableSpendLedgerWrapper num ceilings (JObj (map (apsnd JStr) (snapshotMap l))) = Inr l2 \<and>
    ledger_of ceilings paid l2"
proof -
  have l: "sl_ceilings l = ceilings" using assms(2) by (simp add: ledger_of_def)
  obtain l2 where l2: "createDurableSpendLedgerWrapper num ceilings (JObj (map (apsnd JStr) (snapshotMap l))) = Inr l2"
    by (simp add: createDurableSpendLedgerWrapper_def object_entries_def)
  have "spentFor l2 a = spentFor l a" if "map_of ceilings a \<noteq> None" for a
    using restart_from_snapshot [of l a num] assms(1) l l2 that by auto
  moreover have "sl_ceilings l2 = ceilings"
  proof -
    have "sl_ceilings (record_initial num m kv) = sl_ceilings m" for m kv
      by (auto simp: record_initial_def ceilings_record split: option.splits sum.splits prod.splits)
    then have "sl_ceilings (foldl (record_initial num) m kvs) = sl_ceilings m" for m kvs
      by (induction kvs arbitrary: m) auto
    then show ?thesis using l2 by (auto simp: createDurableSpendLedgerWrapper_def object_entries_def createSpendLedger_def)
  qed
  ultimately show ?thesis using l2 assms(2) by (auto simp: ledger_of_def)
qed

locale ledger_store =
  fixes load :: "'s \<Rightarrow> string + json"
    and save :: "(string \<times> string) list \<Rightarrow> 's \<Rightarrow> (string + unit) \<times> 's"
  assumes load_saved: "distinct (map fst kvs) \<Longrightarrow> save kvs st = (Inr (), st') \<Longrightarrow> load st' = Inr (JObj (map (apsnd JStr) kvs))"
begin

lemma persisted:
  assumes "recordAndPersist save asset amount (l, st) = (Inr (), l', st')"
    and "distinct (map fst ceilings)" "ledger_of ceilings paid l"
  shows "ledger_of ceilings (paid(asset := paid asset + amount)) l' \<and>
    (\<exists>l2. createDurableSpendLedger num load ceilings st' = Inr l2 \<and> ledger_of ceilings (paid(asset := paid asset + amount)) l2)"
proof -
  have rec: "recordSpend l asset amount = Inr l'" and saved: "save (snapshotMap l') st = (Inr (), st')"
    using assms(1) by (auto simp: recordAndPersist_def split: sum.splits prod.splits)
  have now: "ledger_of ceilings (paid(asset := paid asset + amount)) l'"
    using assms(3) rec by (auto simp: ledger_of_def spentFor_record ceilings_record)
  then have "distinct (map fst (snapshotMap l'))"
    using assms(2) by (simp add: snapshotMap_eq ledger_of_def case_prod_unfold comp_def)
  then have "load st' = Inr (JObj (map (apsnd JStr) (snapshotMap l')))" using load_saved saved by blast
  then show ?thesis
    using now ledger_of_snapshot [OF assms(2) now, of num] by (simp add: createDurableSpendLedger_def)
qed

lemma durable_inv_step:
  "durable_step num load save ceilings s s' \<Longrightarrow> durable_inv num load ceilings s \<Longrightarrow> durable_inv num load ceilings s'"
proof (induction rule: durable_step.induct)
  case (durable_pay s asset amount l st)
  have led: "distinct (map fst ceilings)" "ledger_of ceilings (du_paid s) (du_ledger s)"
    using durable_pay.prems by (auto simp: durable_inv_def)
  have "du_paid s asset + amount \<le> c" if "map_of ceilings asset = Some c" for c
    using durable_pay.hyps(1) led(2) that by (auto simp: assertWithinCeiling_iff ledger_of_def)
  then show ?case
    using durable_pay.prems persisted [OF durable_pay.hyps(2) led, of num] by (auto simp: durable_inv_def)
next
  case (durable_restart s l)
  then show ?case by (auto simp: durable_inv_def)
qed

end

lemma durable_init_inv:
  assumes "durable_init num load ceilings s"
  shows "durable_inv num load ceilings s"
proof -
  have fresh: "createDurableSpendLedger num load ceilings (du_store s) = Inr (createSpendLedger ceilings)"
    using assms by (simp add: durable_init_def createDurableSpendLedger_def createDurableSpendLedgerWrapper_def object_entries_def)
  moreover have "ledger_of ceilings (\<lambda>_. 0) (createSpendLedger ceilings)"
    by (simp add: ledger_of_def createSpendLedger_def spentFor_def)
  ultimately show ?thesis
    using assms by (auto simp: durable_init_def durable_inv_def dest: map_of_SomeD)
qed

sublocale ledger_store < durable: preserved "durable_init num load ceilings" "durable_step num load save ceilings" "durable_inv num load ceilings"
  for num ceilings
  by unfold_locales (auto intro: durable_init_inv durable_inv_step)

lemma disk_call_ok: "disk_call f d = (Inr u, d') \<Longrightarrow> dk_file d' = f (dk_file d)"
  by (auto simp: disk_call_def split: option.splits)

interpretation file_store: ledger_store "file_load path" "file_save path dir" for path dir
proof
  fix kvs d d'
  assume "distinct (map fst kvs)" and saved: "file_save path dir kvs d = (Inr (), d')"
  then have "dk_file d' = Inr (stringify_indented kvs)"
    by (auto simp: file_save_def Let_def dest!: disk_call_ok split: prod.splits sum.splits if_splits)
  then show "file_load path d' = Inr (JObj (map (apsnd JStr) kvs))"
    using JSON_parse_indented [OF \<open>distinct _\<close>] by (simp add: file_load_def Let_def)
qed

text \<open>
  C8 (invariant): with the file store and payments that are each persisted, any number of payments and
  restarts stays under the ceiling of the asset: what was paid over all processes is at most the ceiling, the running
  ledger leaves exactly the rest, and so does the ledger that the next restart creates, which succeeds.
\<close>

theorem spend_survives_restarts:
  assumes "reach (durable_init num (file_load path) ceilings) (durable_step num (file_load path) (file_save path dir) ceilings) s"
    and "map_of ceilings asset = Some cap"
  shows "du_paid s asset \<le> cap \<and> remainingFor (du_ledger s) asset = Inr (cap - du_paid s asset) \<and>
    (\<exists>l. createDurableSpendLedger num (file_load path) ceilings (du_store s) = Inr l \<and>
       remainingFor l asset = Inr (cap - du_paid s asset))"
proof -
  have "durable_inv num (file_load path) ceilings s" using file_store.durable.inv_reach assms(1) by blast
  moreover have "remainingFor l asset = Inr (cap - du_paid s asset)"
    if "ledger_of ceilings (du_paid s) l" "du_paid s asset \<le> cap" for l
    using that assms(2) by (simp add: ledger_of_def remainingFor_eq)
  ultimately show ?thesis using assms(2) by (auto simp: durable_inv_def)
qed

definition durable_start :: "disk durable" where
  "durable_start =
     \<lparr>du_ledger = createSpendLedger [(''CUSDC'', 100)], du_store = \<lparr>dk_file = Inl (''ENOENT'', ''no such file''), dk_plan = []\<rparr>,
      du_paid = (\<lambda>_. 0)\<rparr>"

definition durable_paid :: "spend_ledger \<times> disk" where
  "durable_paid = snd (recordAndPersist (file_save ''ledger.json'' ''.'') ''CUSDC'' 60 (du_ledger durable_start, du_store durable_start))"

definition durable_restarted :: "disk durable" where
  "durable_restarted =
     \<lparr>du_ledger = (case createDurableSpendLedger (\<lambda>q. []) (file_load ''ledger.json'') [(''CUSDC'', 100)] (snd durable_paid) of
        Inr l \<Rightarrow> l | Inl _ \<Rightarrow> fst durable_paid),
      du_store = snd durable_paid, du_paid = (\<lambda>_. 0)(''CUSDC'' := 60)\<rparr>"

lemma durable_sample_reach:
  "reach (durable_init (\<lambda>q. []) (file_load ''ledger.json'') [(''CUSDC'', 100)])
     (durable_step (\<lambda>q. []) (file_load ''ledger.json'') (file_save ''ledger.json'' ''.'') [(''CUSDC'', 100)]) durable_restarted"
proof -
  let ?load = "file_load ''ledger.json''" and ?save = "file_save ''ledger.json'' ''.''" and ?cs = "[(''CUSDC'', 100 :: int)]"
  let ?paid = "\<lparr>du_ledger = fst durable_paid, du_store = snd durable_paid, du_paid = (\<lambda>_. 0)(''CUSDC'' := 60)\<rparr>"
  have start: "durable_init (\<lambda>q. []) ?load ?cs durable_start"
    by (simp add: durable_init_def durable_start_def file_load_def createDurableSpendLedger_def
        createDurableSpendLedgerWrapper_def object_entries_def)
  have "fst (recordAndPersist ?save ''CUSDC'' 60 (du_ledger durable_start, du_store durable_start)) = Inr ()" by code_simp
  then have "recordAndPersist ?save ''CUSDC'' 60 (du_ledger durable_start, du_store durable_start) = (Inr (), fst durable_paid, snd durable_paid)"
    by (simp add: durable_paid_def prod_eq_iff)
  moreover have "assertWithinCeiling (du_ledger durable_start) ''CUSDC'' 60 = Inr ()" by code_simp
  ultimately have "durable_step (\<lambda>q. []) ?load ?save ?cs durable_start
      \<lparr>du_ledger = fst durable_paid, du_store = snd durable_paid,
       du_paid = (du_paid durable_start)(''CUSDC'' := du_paid durable_start ''CUSDC'' + 60)\<rparr>"
    by (intro durable_pay)
  then have paid: "reach (durable_init (\<lambda>q. []) ?load ?cs) (durable_step (\<lambda>q. []) ?load ?save ?cs) ?paid"
    using reach_step [OF reach_init [of "durable_init (\<lambda>q. []) ?load ?cs", OF start]] by (simp add: durable_start_def)
  obtain l where l: "createDurableSpendLedger (\<lambda>q. []) ?load ?cs (snd durable_paid) = Inr l"
    using file_store.durable.inv_reach [OF paid] by (auto simp: durable_inv_def)
  then have "durable_step (\<lambda>q. []) ?load ?save ?cs ?paid (?paid\<lparr>du_ledger := l\<rparr>)" by (intro durable_restart) simp
  then show ?thesis using reach_step [OF paid] l by (simp add: durable_restarted_def)
qed

text \<open>After a payment of 60 of 100 and a restart, 40 are left and 50 more are refused.\<close>

theorem spend_survives_restarts_witness:
  "remainingFor (du_ledger durable_restarted) ''CUSDC'' = Inr 40 \<and>
   assertWithinCeiling (du_ledger durable_restarted) ''CUSDC'' 50 \<noteq> Inr ()"
  using spend_survives_restarts [OF durable_sample_reach, of "''CUSDC''" 100]
  by (auto simp: durable_restarted_def remainingFor_def ceilingFor_def assertWithinCeiling_iff Let_def split: option.splits if_splits)

section \<open>What is lost\<close>

text \<open>
  The plain \<open>record\<close>, the one the payer calls, does not reach the store: a ledger created afterwards has spent nothing.
\<close>

lemma plain_record_is_lost:
  assumes "recordSpend (du_ledger durable_start) ''CUSDC'' 60 = Inr l"
  shows "spentFor l ''CUSDC'' = 60 \<and>
    createDurableSpendLedger num (file_load path) [(''CUSDC'', 100)] (du_store durable_start) = Inr (createSpendLedger [(''CUSDC'', 100)])"
  using spentFor_record [OF assms, of "''CUSDC''"]
  by (simp add: durable_start_def file_load_def createDurableSpendLedger_def createDurableSpendLedgerWrapper_def object_entries_def
      createSpendLedger_def spentFor_def)

text \<open>A stored amount that is not a number counts as nothing spent, and a negative one raises the budget.\<close>

lemma unreadable_amount_counts_as_unspent:
  "createDurableSpendLedgerWrapper num [(''CUSDC'', 100)] (JObj [(''CUSDC'', JStr ''90 USDC'')]) = Inr (createSpendLedger [(''CUSDC'', 100)])"
proof -
  have "BigInt ''90 USDC'' = None" by code_simp
  then show ?thesis by (simp add: createDurableSpendLedgerWrapper_def object_entries_def record_initial_def toBigInt_def)
qed

lemma negative_amount_raises_the_budget:
  "\<exists>l. createDurableSpendLedgerWrapper num [(''CUSDC'', 100)] (JObj [(''CUSDC'', JStr ''-900'')]) = Inr l \<and>
     assertWithinCeiling l ''CUSDC'' 1000 = Inr ()"
proof -
  have "BigInt ''-900'' = Some (- 900)" by code_simp
  then show ?thesis
    by (simp add: createDurableSpendLedgerWrapper_def object_entries_def record_initial_def toBigInt_def recordSpend_def
        ceilingFor_def createSpendLedger_def spentFor_def assertWithinCeiling_def)
qed

end
