(* ===== verification/PolicyQueue.thy ===== *)
theory PolicyQueue
  imports Ledger
begin

text \<open>
  Per-wallet ordering of policy operations (\<open>contrib/examples/issue-242-policy-batch-ordering/policy-batch-ordering.ts\<close>).

  The tail of an account is the chain of promises \<open>enqueue\<close> builds for it: one entry per call, in the order of the
  calls, each started only when the one before has settled, whatever its outcome. Calls, starts and completions of
  all accounts interleave freely. What \<open>onOutOfOrder\<close> is told is part of the state, without its time stamp.
\<close>

section \<open>The queue\<close>

record out_of_order =
  oo_accountId :: string
  oo_sequence :: int
  oo_lastCompletedSequence :: int

record task =
  tk_sequence :: int
  tk_status :: call_status

record wallet_queue =
  wq_tail :: "string \<Rightarrow> task list"
  wq_next :: "string \<Rightarrow> int option"
  wq_lastCompleted :: "string \<Rightarrow> int option"
  wq_events :: "out_of_order list"

definition createPerWalletQueue :: wallet_queue where
  "createPerWalletQueue = \<lparr>wq_tail = (\<lambda>_. []), wq_next = (\<lambda>_. None), wq_lastCompleted = (\<lambda>_. None), wq_events = []\<rparr>"

definition or_int :: "int option \<Rightarrow> int \<Rightarrow> int" where
  "or_int v d = (case v of None \<Rightarrow> d | Some n \<Rightarrow> n)"

definition enqueue :: "string \<Rightarrow> wallet_queue \<Rightarrow> wallet_queue" where
  "enqueue accountId q =
     (let sequence = or_int (wq_next q accountId) 0 in
      q\<lparr>wq_next := (wq_next q)(accountId \<mapsto> sequence + 1),
        wq_tail := (wq_tail q)(accountId := wq_tail q accountId @ [\<lparr>tk_sequence = sequence, tk_status = Waiting\<rparr>])\<rparr>)"

text \<open>The two ends of a task: what runs before \<open>run\<close>, and what runs when it has settled.\<close>

definition set_status :: "string \<Rightarrow> nat \<Rightarrow> call_status \<Rightarrow> wallet_queue \<Rightarrow> wallet_queue" where
  "set_status accountId i st q =
     q\<lparr>wq_tail := (wq_tail q)(accountId := (wq_tail q accountId)[i := (wq_tail q accountId ! i)\<lparr>tk_status := st\<rparr>])\<rparr>"

definition task_begins :: "string \<Rightarrow> nat \<Rightarrow> wallet_queue \<Rightarrow> wallet_queue" where
  "task_begins accountId i q =
     (let sequence = tk_sequence (wq_tail q accountId ! i);
          lastCompleted = or_int (wq_lastCompleted q accountId) (-1) in
      set_status accountId i Running
        (if sequence \<noteq> lastCompleted + 1
         then q\<lparr>wq_events := wq_events q @ [\<lparr>oo_accountId = accountId, oo_sequence = sequence, oo_lastCompletedSequence = lastCompleted\<rparr>]\<rparr>
         else q))"

definition task_settles :: "string \<Rightarrow> nat \<Rightarrow> wallet_queue \<Rightarrow> wallet_queue" where
  "task_settles accountId i q =
     set_status accountId i Done
       (q\<lparr>wq_lastCompleted := (wq_lastCompleted q)(accountId \<mapsto> tk_sequence (wq_tail q accountId ! i))\<rparr>)"

abbreviation statuses :: "string \<Rightarrow> wallet_queue \<Rightarrow> call_status list" where
  "statuses accountId q \<equiv> map tk_status (wq_tail q accountId)"

inductive queue_step :: "wallet_queue \<Rightarrow> wallet_queue \<Rightarrow> bool" where
  q_enqueue: "queue_step q (enqueue accountId q)"
| q_begin: "can_start (statuses accountId q) i \<Longrightarrow> queue_step q (task_begins accountId i q)"
| q_settle: "can_settle (statuses accountId q) i \<Longrightarrow> queue_step q (task_settles accountId i q)"

section \<open>Batches\<close>

text \<open>
  \<open>runBatch\<close>: the operations go through the queue one after the other; \<open>run\<close> gives what an operation comes to on the
  state of the outside. The first failure stops the batch and carries what succeeded before it.
\<close>

datatype ('e, 'r) batch_error = BatchOperationError nat "'r list" 'e

fun run_batch :: "('i \<Rightarrow> ('w, 'e, 'r) act) \<Rightarrow> nat \<Rightarrow> 'r list \<Rightarrow> 'i list \<Rightarrow> ('w, ('e, 'r) batch_error, 'r list) act" where
  "run_batch run i results [] w = (Inr results, w)"
| "run_batch run i results (x # xs) w =
     (case run x w of
        (Inl e, w') \<Rightarrow> (Inl (BatchOperationError i results e), w')
      | (Inr r, w') \<Rightarrow> run_batch run (Suc i) (results @ [r]) xs w')"

definition runBatch :: "('i \<Rightarrow> ('w, 'e, 'r) act) \<Rightarrow> 'i list \<Rightarrow> ('w, ('e, 'r) batch_error, 'r list) act" where
  "runBatch run inputs = run_batch run 0 [] inputs"

section \<open>Operations of a wallet run in order\<close>

definition done_count :: "call_status list \<Rightarrow> nat" where
  "done_count m = length (takeWhile (\<lambda>s. s = Done) m)"

definition account_inv :: "string \<Rightarrow> wallet_queue \<Rightarrow> bool" where
  "account_inv a q =
     (mutex_inv (statuses a q) \<and> map tk_sequence (wq_tail q a) = map int [0..<length (wq_tail q a)] \<and>
      or_int (wq_next q a) 0 = int (length (wq_tail q a)) \<and>
      or_int (wq_lastCompleted q a) (-1) = int (done_count (statuses a q)) - 1)"

definition queue_inv :: "wallet_queue \<Rightarrow> bool" where
  "queue_inv q = (wq_events q = [] \<and> (\<forall>a. account_inv a q))"

text \<open>What the mutex gives: the settled entries are a prefix, and only the entry behind it can start or settle.\<close>

lemma takeWhile_prefix: "(\<And>j. j < i \<Longrightarrow> P (m ! j)) \<Longrightarrow> i < length m \<Longrightarrow> \<not> P (m ! i) \<Longrightarrow> length (takeWhile P m) = i"
  by (rule takeWhile_eq_take_P_nth [THEN arg_cong [of _ _ length], THEN trans]) auto

lemma done_count_start:
  assumes "mutex_inv m" "can_start m i"
  shows "done_count m = i"
  unfolding done_count_def
  using before_start_settled [OF assms] assms(2) by (intro takeWhile_prefix) (auto simp: can_start_def)

lemma running_behind_done:
  assumes "mutex_inv m" "can_settle m i" "j < i"
  shows "m ! j = Done"
  using assms unfolding mutex_inv_def can_settle_def by (metis call_status.distinct(1))

lemma done_count_running:
  assumes "mutex_inv m" "can_settle m i"
  shows "done_count m = i"
  unfolding done_count_def
  using running_behind_done [OF assms] assms(2) by (intro takeWhile_prefix) (auto simp: can_settle_def)

lemma done_count_call: "done_count (m @ [Waiting]) = done_count m"
  by (induction m) (auto simp: done_count_def)

lemma done_count_begin:
  assumes "mutex_inv m" "can_start m i"
  shows "done_count (m[i := Running]) = done_count m"
  using done_count_start [OF assms] done_count_running [OF mutex_inv_start [OF assms], of i] assms(2)
  by (simp add: can_settle_def can_start_def)

lemma done_count_settle:
  assumes "mutex_inv m" "can_settle m i"
  shows "done_count (m[i := Done]) = Suc i"
proof (cases "Suc i < length m")
  case True
  have "m ! Suc i = Waiting" using assms True lessI [of i] unfolding mutex_inv_def can_settle_def by (metis call_status.distinct(5))
  then have "can_start (m[i := Done]) (Suc i)" using True assms(2) by (simp add: can_start_def can_settle_def)
  then show ?thesis using done_count_start mutex_inv_settle [OF assms] by blast
next
  case False
  then have "m ! j = Done" if "j < length m" "i \<noteq> j" for j
    using running_behind_done [OF assms, of j] that by linarith
  then have "\<forall>s\<in>set (m[i := Done]). s = Done"
    using assms(2) by (auto simp: in_set_conv_nth can_settle_def nth_list_update)
  then have "done_count (m[i := Done]) = length m" by (simp add: done_count_def takeWhile_eq_all_conv [THEN iffD2])
  then show ?thesis using False assms(2) by (simp add: can_settle_def)
qed

lemma statuses_set: "statuses a (set_status b i st q) = (if a = b then (statuses a q)[i := st] else statuses a q)"
  by (simp add: set_status_def map_update)

lemma sequences_set: "map tk_sequence (wq_tail (set_status b i st q) a) = map tk_sequence (wq_tail q a)"
proof (cases "a = b \<and> i < length (wq_tail q a)")
  case True
  then show ?thesis by (auto simp: set_status_def map_update intro!: nth_equalityI simp: nth_list_update)
next
  case False
  then show ?thesis by (auto simp: set_status_def list_update_beyond)
qed

lemma set_status_simps [simp]:
  "wq_next (set_status b i st q) = wq_next q" "wq_lastCompleted (set_status b i st q) = wq_lastCompleted q"
  "wq_events (set_status b i st q) = wq_events q" "length (wq_tail (set_status b i st q) a) = length (wq_tail q a)"
  by (simp_all add: set_status_def)

lemma queue_inv_enqueue:
  assumes "queue_inv q"
  shows "queue_inv (enqueue accountId q)"
proof -
  have inv: "account_inv a q" for a using assms by (simp add: queue_inv_def)
  have "account_inv a (enqueue accountId q)" for a
    using inv [of a] mutex_inv_call [of "statuses a q"]
    by (auto simp: account_inv_def enqueue_def or_int_def Let_def run_call_def done_count_call)
  then show ?thesis using assms by (simp add: queue_inv_def enqueue_def Let_def)
qed

lemma sequence_at: "account_inv a q \<Longrightarrow> i < length (wq_tail q a) \<Longrightarrow> tk_sequence (wq_tail q a ! i) = int i"
  unfolding account_inv_def by (metis length_map map_nth nth_map nth_upt add_0)

lemma queue_inv_begin:
  assumes "queue_inv q" and start: "can_start (statuses accountId q) i"
  shows "queue_inv (task_begins accountId i q)"
proof -
  have inv: "account_inv a q" for a using assms by (simp add: queue_inv_def)
  have m: "mutex_inv (statuses accountId q)" using inv [of accountId] by (simp add: account_inv_def)
  have "tk_sequence (wq_tail q accountId ! i) = or_int (wq_lastCompleted q accountId) (-1) + 1"
    using sequence_at [OF inv, of i accountId] inv [of accountId] done_count_start [OF m start] start
    by (simp add: account_inv_def can_start_def)
  then have eq: "task_begins accountId i q = set_status accountId i Running q" by (simp add: task_begins_def Let_def)
  have "account_inv a (task_begins accountId i q)" for a
    using inv [of a] mutex_inv_start [OF m start] done_count_begin [OF m start]
    unfolding eq account_inv_def statuses_set sequences_set set_status_simps by auto
  then show ?thesis using assms eq by (simp add: queue_inv_def)
qed

lemma queue_inv_settle:
  assumes "queue_inv q" and settle: "can_settle (statuses accountId q) i"
  shows "queue_inv (task_settles accountId i q)"
proof -
  have inv: "account_inv a q" for a using assms by (simp add: queue_inv_def)
  have m: "mutex_inv (statuses accountId q)" using inv [of accountId] by (simp add: account_inv_def)
  have seq: "tk_sequence (wq_tail q accountId ! i) = int i"
    using sequence_at [OF inv, of i accountId] settle by (simp add: can_settle_def)
  have "account_inv a (task_settles accountId i q)" for a
    using inv [of a] mutex_inv_settle [OF m settle] done_count_settle [OF m settle] seq
    unfolding task_settles_def account_inv_def statuses_set sequences_set set_status_simps
    by (auto simp: or_int_def)
  then show ?thesis using assms by (simp add: queue_inv_def task_settles_def)
qed

lemma queue_inv_step: "queue_step q q' \<Longrightarrow> queue_inv q \<Longrightarrow> queue_inv q'"
  by (induction rule: queue_step.induct) (auto intro: queue_inv_enqueue queue_inv_begin queue_inv_settle)

lemma queue_inv_init: "queue_inv createPerWalletQueue"
  by (simp add: queue_inv_def account_inv_def createPerWalletQueue_def or_int_def done_count_def mutex_inv_def)

interpretation policy_queue: preserved "\<lambda>q. q = createPerWalletQueue" queue_step queue_inv
  by unfold_locales (auto intro: queue_inv_step simp: queue_inv_init)

lemma mutex_not_stuck:
  assumes "mutex_inv m" "i < length m" "m ! i \<noteq> Done"
  shows "\<exists>j. can_start m j \<or> can_settle m j"
proof -
  let ?n = "done_count m"
  have "?n \<le> i" using assms(3) nth_take_lemma set_takeWhileD
    by (metis (mono_tags, lifting) done_count_def leI takeWhile_nth nth_mem)
  then have n: "?n < length m" using assms(2) by simp
  then have "m ! ?n \<noteq> Done" unfolding done_count_def by (rule nth_length_takeWhile)
  moreover have "m ! (?n - 1) = Done" if "?n \<noteq> 0"
    using that by (metis (mono_tags, lifting) One_nat_def diff_less done_count_def gr0I lessI nth_mem set_takeWhileD takeWhile_nth)
  ultimately show ?thesis using n by (cases "m ! ?n") (auto simp: can_start_def can_settle_def)
qed

text \<open>
  C17 (safety): in every interleaving of the calls of all wallets, the operations of a wallet have the sequence
  numbers of their calls, one starts only when every earlier one of that wallet has settled, and the out-of-order signal
  never fires; a wallet that has an operation left is not stuck, whatever the ones before came to.
\<close>

theorem wallet_operations_run_in_order:
  assumes "reach (\<lambda>q. q = createPerWalletQueue) queue_step q"
  shows "wq_events q = [] \<and>
    (\<forall>a j. j < length (wq_tail q a) \<longrightarrow> tk_sequence (wq_tail q a ! j) = int j \<and>
       (tk_status (wq_tail q a ! j) \<noteq> Waiting \<longrightarrow> (\<forall>i<j. tk_status (wq_tail q a ! i) = Done)) \<and>
       (tk_status (wq_tail q a ! j) \<noteq> Done \<longrightarrow> (\<exists>i. can_start (statuses a q) i \<or> can_settle (statuses a q) i)))"
proof -
  have inv: "queue_inv q" by (rule policy_queue.inv_reach [OF assms])
  then have acc: "account_inv a q" for a by (simp add: queue_inv_def)
  have "tk_status (wq_tail q a ! i) = Done" if "j < length (wq_tail q a)" "i < j" "tk_status (wq_tail q a ! j) \<noteq> Waiting" for a i j
    using acc [of a] that by (fastforce simp: account_inv_def mutex_inv_def)
  moreover have "\<exists>i. can_start (statuses a q) i \<or> can_settle (statuses a q) i"
    if "j < length (wq_tail q a)" "tk_status (wq_tail q a ! j) \<noteq> Done" for a j
    using mutex_not_stuck [of "statuses a q" j] acc [of a] that by (simp add: account_inv_def)
  ultimately show ?thesis using inv sequence_at [OF acc] by (auto simp: queue_inv_def)
qed

definition queue_sample :: wallet_queue where
  "queue_sample =
     task_begins ''GA'' 1 (task_settles ''GA'' 0 (task_begins ''GA'' 0 (enqueue ''GB'' (enqueue ''GA'' (enqueue ''GA'' createPerWalletQueue)))))"

lemma queue_sample_reach: "reach (\<lambda>q. q = createPerWalletQueue) queue_step queue_sample"
proof -
  let ?R = "reach (\<lambda>q. q = createPerWalletQueue) queue_step"
  let ?q = "enqueue ''GB'' (enqueue ''GA'' (enqueue ''GA'' createPerWalletQueue))"
  have "?R (enqueue ''GA'' createPerWalletQueue)" by (blast intro: reach_init reach_step q_enqueue)
  then have calls: "?R ?q"
    by (blast intro: reach_step q_enqueue)
  have "can_start (statuses ''GA'' ?q) 0" by code_simp
  then have begun: "?R (task_begins ''GA'' 0 ?q)" using calls by (blast intro: reach_step q_begin)
  have "can_settle (statuses ''GA'' (task_begins ''GA'' 0 ?q)) 0" by code_simp
  then have settled: "?R (task_settles ''GA'' 0 (task_begins ''GA'' 0 ?q))" using begun by (blast intro: reach_step q_settle)
  have "can_start (statuses ''GA'' (task_settles ''GA'' 0 (task_begins ''GA'' 0 ?q))) 1" by code_simp
  then show ?thesis unfolding queue_sample_def using settled by (blast intro: reach_step q_begin)
qed

text \<open>Two calls of one wallet and one of another: the second runs, so the first has settled.\<close>

theorem wallet_operations_run_in_order_witness:
  "statuses ''GA'' queue_sample = [Done, Running] \<and> statuses ''GB'' queue_sample = [Waiting] \<and> wq_events queue_sample = [] \<and>
   tk_sequence (wq_tail queue_sample ''GA'' ! 1) = 1"
proof -
  have st: "statuses ''GA'' queue_sample = [Done, Running]" "statuses ''GB'' queue_sample = [Waiting]" by code_simp+
  then have "length (wq_tail queue_sample ''GA'') = 2" by (metis length_map length_Cons list.size(3) numeral_2_eq_2)
  then have "tk_sequence (wq_tail queue_sample ''GA'' ! 1) = int 1" "wq_events queue_sample = []"
    using wallet_operations_run_in_order [OF queue_sample_reach] by simp_all
  then show ?thesis using st by simp
qed

text \<open>A batch gives the results of all its operations in order, or stops at the first that fails with the results before it.\<close>

lemma run_batch_outcome:
  "case run_batch run i results xs w of
     (Inr rs, _) \<Rightarrow> length rs = length results + length xs \<and> take (length results) rs = results
   | (Inl (BatchOperationError k rs e), _) \<Rightarrow> i \<le> k \<and> k < i + length xs \<and> length rs = length results + (k - i) \<and>
       take (length results) rs = results \<and> (\<exists>w' w''. run (xs ! (k - i)) w' = (Inl e, w''))"
proof (induction xs arbitrary: i results w)
  case (Cons x xs)
  show ?case
  proof (cases "run x w")
    case (Pair r w')
    show ?thesis
    proof (cases r)
      case (Inl e)
      then show ?thesis using Pair by auto
    next
      case (Inr y)
      have "take (length results) rs = results" if "take (Suc (length results)) rs = results @ [y]" for rs
        using arg_cong [OF that, of "take (length results)"] by (simp add: min_def)
      then show ?thesis
        using Cons.IH [of "Suc i" "results @ [y]" w'] Pair Inr
        by (auto split: prod.splits sum.splits batch_error.splits simp: nth_Cons' Suc_diff_le)
    qed
  qed
qed simp

end
