(* ===== verification/SessionGuards.thy ===== *)
theory SessionGuards
  imports Session
begin

text \<open>
  Two guards around the session store: a retention window on what is read from a storage adapter
  (\<open>contrib/session-retention.ts\<close>) and a store that refuses a session of another network
  (\<open>contrib/wave-218-409-412-416/session-network-guard.ts\<close>). The clock and \<open>Date.parse\<close> are parameters; times are
  milliseconds.
\<close>

section \<open>Retention\<close>

datatype max_age = Ms rat | Unlimited | NotANumber

definition DEFAULT_SESSION_MAX_AGE_MS :: rat where
  "DEFAULT_SESSION_MAX_AGE_MS = 30 * 24 * 60 * 60 * 1000"

definition isSessionExpired :: "(json \<Rightarrow> rat option) \<Rightarrow> json \<Rightarrow> max_age \<Rightarrow> rat \<Rightarrow> bool" where
  "isSessionExpired dateParse v maxAgeMs now =
     (if maxAgeMs = Unlimited then False
      else
        (case dateParse (jprop v ''lastActiveAt'') of
           None \<Rightarrow> True
         | Some lastActive \<Rightarrow>
             (let ageMs = max 0 (now - lastActive) in
              case maxAgeMs of Ms m \<Rightarrow> ageMs > m | _ \<Rightarrow> False)))"

definition resolveMaxAgeMs :: "max_age option \<Rightarrow> max_age outcome" where
  "resolveMaxAgeMs maxAgeMs =
     (case maxAgeMs of
        None \<Rightarrow> Inr (Ms DEFAULT_SESSION_MAX_AGE_MS)
      | Some NotANumber \<Rightarrow> Inl (Thrown ''RangeError'')
      | Some Unlimited \<Rightarrow> Inr Unlimited
      | Some (Ms m) \<Rightarrow> if m \<le> 0 then Inl (Thrown ''RangeError'') else Inr (Ms m))"

text \<open>The adapter that the wrapper returns; \<open>now\<close> is the clock when it is read.\<close>

definition retained :: "(json \<Rightarrow> rat option) \<Rightarrow> max_age \<Rightarrow> rat \<Rightarrow> 's storage_adapter \<Rightarrow> 's storage_adapter" where
  "retained dateParse maxAgeMs now a =
     \<lparr>load = andThen (load a) (\<lambda>stored.
        case stored of
          None \<Rightarrow> ret None
        | Some v \<Rightarrow>
            if \<not> isSessionExpired dateParse v maxAgeMs now then ret (Some v)
            else andThen (tryCatch (clear a) (\<lambda>_. ret ())) (\<lambda>_. ret None)),
      save = save a,
      clear = clear a\<rparr>"

definition withSessionRetention ::
    "(json \<Rightarrow> rat option) \<Rightarrow> max_age option \<Rightarrow> rat \<Rightarrow> 's storage_adapter \<Rightarrow> 's storage_adapter outcome" where
  "withSessionRetention dateParse maxAgeMs now a =
     ebind (resolveMaxAgeMs maxAgeMs) (\<lambda>m. Inr (retained dateParse m now a))"

section \<open>The network guard\<close>

datatype disconnect_reason = Manual | NetworkMismatch

record 's guarded_store =
  gs_store :: "'s session_store"
  gs_reason :: "disconnect_reason option"
  gs_mismatches :: "(json \<times> string) list"

type_synonym ('s, 'a) guarded_act = "('s guarded_store, js_error, 'a) act"

definition on_store :: "('s session_store, js_error, 'a) act \<Rightarrow> ('s, 'a) guarded_act" where
  "on_store m = (\<lambda>g. case m (gs_store g) of (r, st) \<Rightarrow> (r, g\<lparr>gs_store := st\<rparr>))"

definition set_reason :: "disconnect_reason option \<Rightarrow> ('s, unit) guarded_act" where
  "set_reason r = modify (\<lambda>g. g\<lparr>gs_reason := r\<rparr>)"

definition createGuardedStore :: "'s \<Rightarrow> 's guarded_store" where
  "createGuardedStore st = \<lparr>gs_store = createSessionStore st, gs_reason = None, gs_mismatches = []\<rparr>"

definition guarded_start :: "'s storage_adapter \<Rightarrow> int option \<Rightarrow> json \<Rightarrow> ('s, unit) guarded_act" where
  "guarded_start a i v = andThen (on_store (start_session a i v)) (\<lambda>_. set_reason None)"

definition guarded_touch :: "'s storage_adapter \<Rightarrow> string \<Rightarrow> ('s, unit) guarded_act" where
  "guarded_touch a now = on_store (touch a now)"

definition guarded_end :: "'s storage_adapter \<Rightarrow> ('s, unit) guarded_act" where
  "guarded_end a = andThen (on_store (end_session a)) (\<lambda>_. set_reason (Some Manual))"

definition disconnect :: "disconnect_reason option \<Rightarrow> ('s, unit) guarded_act" where
  "disconnect r =
     andThen (on_store (modify (\<lambda>st. st\<lparr>session := None, status := Disconnected\<rparr>))) (\<lambda>_. set_reason r)"

text \<open>\<open>expectedNetwork\<close>, where an empty name counts as not given; the callback may throw.\<close>

definition on_other_network :: "string option \<Rightarrow> json \<Rightarrow> bool" where
  "on_other_network expected v =
     (case expected of None \<Rightarrow> False | Some n \<Rightarrow> n \<noteq> [] \<and> jprop v ''network'' \<noteq> JStr n)"

definition discard_session ::
    "'s storage_adapter \<Rightarrow> string option \<Rightarrow> (json \<Rightarrow> js_error option) \<Rightarrow> json \<Rightarrow> ('s, unit) guarded_act" where
  "discard_session a expected callback v =
     andThen (on_store (onStorage (clear a))) (\<lambda>_.
     andThen (on_store (modify stopRefresh)) (\<lambda>_.
     andThen (disconnect (Some NetworkMismatch)) (\<lambda>_.
     andThen (modify (\<lambda>g. g\<lparr>gs_mismatches := gs_mismatches g @ [(v, case expected of None \<Rightarrow> [] | Some n \<Rightarrow> n)]\<rparr>)) (\<lambda>_.
       case callback v of None \<Rightarrow> ret () | Some e \<Rightarrow> throw e))))"

definition guarded_restore ::
    "'s storage_adapter \<Rightarrow> int option \<Rightarrow> string option \<Rightarrow> (json \<Rightarrow> js_error option) \<Rightarrow> ('s, unit) guarded_act" where
  "guarded_restore a i expected callback =
     tryCatch
       (andThen (on_store (onStorage (load a))) (\<lambda>stored.
        case stored of
          Some v \<Rightarrow>
            if isWalletSession v then
              (if on_other_network expected v then discard_session a expected callback v
               else
                 andThen (on_store (modify (\<lambda>st. startRefresh i (st\<lparr>session := Some v, status := Connected\<rparr>)))) (\<lambda>_.
                   set_reason None))
            else disconnect None
        | None \<Rightarrow> disconnect None))
       (\<lambda>_. disconnect None)"

definition guarded_dispose :: "('s, unit) guarded_act" where
  "guarded_dispose = on_store (modify dispose)"

section \<open>Only idle sessions are forgotten\<close>

context session_storage
begin

lemma retained_load:
  assumes "mirrored st"
  shows "load (retained parse m now a) (storage st) =
    (case session st of
       None \<Rightarrow> (Inr None, storage st)
     | Some v \<Rightarrow>
         if isSessionExpired parse v m now then (Inr None, snd (clear a (storage st)))
         else (Inr (Some v), storage st))"
proof -
  have "load a (storage st) = (Inr (session st), storage st)" using assms by (simp add: mirrored_def)
  then show ?thesis
    by (auto simp: retained_def act_defs split: option.splits prod.splits sum.splits)
qed

lemma retained_restore:
  assumes "mirrored st"
  shows "\<exists>st'. restore (retained parse m now a) i (createSessionStore (storage st)) = (Inr (), st') \<and>
    (case session st of
       None \<Rightarrow> session st' = None \<and> status st' = Disconnected
     | Some v \<Rightarrow>
         if isSessionExpired parse v m now
         then session st' = None \<and> status st' = Disconnected \<and> storage st' = snd (clear a (storage st))
         else session st' = Some v \<and> status st' = Connected \<and> storage st' = storage st)"
proof -
  have valid: "\<forall>v. session st = Some v \<longrightarrow> isWalletSession v" using assms storable_valid by (simp add: mirrored_def)
  show ?thesis
    using restore_outcome [of "retained parse m now a" "createSessionStore (storage st)"] retained_load [OF assms, of parse m now] valid
    by (cases "session st") (auto simp: createSessionStore_def startRefresh_def split: if_splits)
qed

end

text \<open>
  With the storage of a browser and a retention window, a reload resumes the live session exactly when it
  was active within the window; a session idle for longer is not resumed, and its entry is removed from the storage.
\<close>

theorem retention_forgets_only_idle_sessions:
  assumes "isWalletSession v" "printable v"
    and "start_session (createWebStorageAdapter num key) i v st = (Inr u, st1)"
    and "list_all (starts_with_valid web_storable) ops"
    and "st2 = run_ops (createWebStorageAdapter num key) i ops st1"
    and "withSessionRetention parse m now (createWebStorageAdapter num key) = Inr guarded"
  shows "\<exists>age st'. resolveMaxAgeMs m = Inr age \<and> restore guarded i (createSessionStore (storage st2)) = (Inr (), st') \<and>
    (case session st2 of
       None \<Rightarrow> session st' = None \<and> status st' = Disconnected
     | Some w \<Rightarrow>
         if isSessionExpired parse w age now
         then session st' = None \<and> status st' = Disconnected \<and> getItem key (storage st') = None
         else session st' = Some w \<and> status st' = Connected \<and> storage st' = storage st2)"
proof -
  let ?a = "createWebStorageAdapter num key"
  obtain age where age: "resolveMaxAgeMs m = Inr age" "guarded = retained parse age now ?a"
    using assms(6) by (auto simp: withSessionRetention_def ebind_eq_Inr)
  have live: "web.mirrored num key st2"
    using web.run_ops_keeps web.start_mirrored [OF _ assms(3)] assms by (auto simp: web_storable_def)
  have "getItem key (snd (clear ?a (storage st2))) = None"
    by (simp add: createWebStorageAdapter_def removeItem_def getItem_def act_defs)
  then show ?thesis
    using web.retained_restore [OF live, of parse age now i] age by (auto split: option.splits if_splits)
qed

text \<open>An entry last active 20 days ago survives the default window of 30 days, one of 31 days ago does not.\<close>

definition day_ms :: rat where "day_ms = 24 * 60 * 60 * 1000"

theorem retention_forgets_only_idle_sessions_witness:
  "let a = createWebStorageAdapter (\<lambda>_. []) ''s'';
       st1 = snd (start_session a None (session_json sample_session) (createSessionStore sample_web));
       after = (\<lambda>days. case withSessionRetention (\<lambda>_. Some 0) None (days * day_ms) a of
         Inr g \<Rightarrow> snd (restore g None (createSessionStore (storage st1))) | Inl _ \<Rightarrow> st1)
   in session (after 20) = Some (session_json sample_session) \<and> session (after 31) = None"
proof -
  let ?a = "createWebStorageAdapter (\<lambda>_. []) ''s''"
  let ?r = "start_session ?a None (session_json sample_session) (createSessionStore sample_web)"
  have start: "?r = (Inr (), snd ?r)" using sample_start by (metis prod.collapse)
  have live: "session (snd ?r) = Some (session_json sample_session)"
    by (simp add: start_session_def onStorage_def act_defs createWebStorageAdapter_def setItem_def createSessionStore_def
        sample_web_def startRefresh_def)
  have "withSessionRetention (\<lambda>_. Some 0) None now ?a = Inr (retained (\<lambda>_. Some 0) (Ms DEFAULT_SESSION_MAX_AGE_MS) now ?a)" for now
    by (simp add: withSessionRetention_def resolveMaxAgeMs_def)
  note guarded = this
  note rule = retention_forgets_only_idle_sessions [OF sample_session_valid start, of "[]", OF _ _ guarded]
  have "\<not> isSessionExpired (\<lambda>_. Some 0) w (Ms DEFAULT_SESSION_MAX_AGE_MS) (20 * day_ms)"
    "isSessionExpired (\<lambda>_. Some 0) w (Ms DEFAULT_SESSION_MAX_AGE_MS) (31 * day_ms)" for w
    by (simp_all add: isSessionExpired_def day_ms_def DEFAULT_SESSION_MAX_AGE_MS_def Let_def)
  then show ?thesis
    using rule [of _ "20 * day_ms"] rule [of _ "31 * day_ms"] live guarded
    by (auto simp: run_ops_def resolveMaxAgeMs_def Let_def)
qed

section \<open>Only sessions of the expected network are resumed\<close>

lemma guarded_restore_outcome:
  assumes "load a (storage (gs_store g)) = (r, s1)" "guarded_restore a i expected callback g = (x, g')"
  shows "x = Inr () \<and>
    (\<forall>v. r = Inr (Some v) \<longrightarrow> isWalletSession v \<longrightarrow> \<not> on_other_network expected v \<longrightarrow>
       session (gs_store g') = Some v \<and> status (gs_store g') = Connected) \<and>
    (\<forall>v. r = Inr (Some v) \<longrightarrow> isWalletSession v \<longrightarrow> on_other_network expected v \<longrightarrow>
       session (gs_store g') = None \<and> status (gs_store g') = Disconnected \<and> storage (gs_store g') = snd (clear a s1) \<and>
       (fst (clear a s1) = Inr () \<and> callback v = None \<longrightarrow>
          gs_reason g' = Some NetworkMismatch \<and> \<not> timer (gs_store g') \<and> (\<exists>n. expected = Some n \<and> gs_mismatches g' = gs_mismatches g @ [(v, n)]))) \<and>
    ((\<forall>v. r = Inr (Some v) \<longrightarrow> \<not> isWalletSession v) \<longrightarrow> session (gs_store g') = None \<and> status (gs_store g') = Disconnected)"
  using assms
  by (auto simp: guarded_restore_def discard_session_def disconnect_def set_reason_def on_store_def onStorage_def act_defs
      startRefresh_def stopRefresh_def on_other_network_def split: sum.splits option.splits if_splits prod.splits)

text \<open>When the storage cannot be cleared, the mismatch is not reported: no reason is set and the callback is not told.\<close>

lemma mismatch_is_silent_when_clear_fails:
  assumes "load a (storage (gs_store g)) = (Inr (Some v), s1)" "isWalletSession v" "on_other_network expected v"
    and "clear a s1 = (Inl e, s2)" "guarded_restore a i expected callback g = (x, g')"
  shows "gs_reason g' = None \<and> gs_mismatches g' = gs_mismatches g \<and> storage (gs_store g') = s2"
  using assms
  by (auto simp: guarded_restore_def discard_session_def disconnect_def set_reason_def on_store_def onStorage_def act_defs)

end
