(* ===== verification/Confirmation.thy ===== *)
theory Confirmation
  imports ClientProps
begin

text \<open>
  The confirmation gate for high-value payments
  (\<open>contrib/examples/issue-228-x402-confirmation-threshold/confirmation-threshold.ts\<close>) around the SDK's x402 client.
  The state has the client's own state and every confirmation that was asked with its answer. The \<open>confirm\<close> callback
  and the probe, a request of the global \<open>fetch\<close> without the body, are parameters.
\<close>

section \<open>The gate\<close>

record pending_confirmation =
  pn_amount :: int
  pn_asset :: string
  pn_requirements :: payment_requirements

datatype confirm_error = Client js_error | PaymentNotConfirmedError int int string

record confirm_state =
  cf_client :: client_state
  cf_asked :: "(pending_confirmation \<times> (string + bool)) list"

record confirm_options =
  co_confirmationThreshold :: int
  co_confirm :: "confirm_state \<Rightarrow> pending_confirmation \<Rightarrow> string + bool"
  co_ourCaip2 :: string
  co_probe :: "confirm_state \<Rightarrow> string \<Rightarrow> string \<Rightarrow> (string \<times> string) list \<Rightarrow> string + response"

type_synonym 'a confirming = "(confirm_state, confirm_error, 'a) act"

definition on_client :: "'a client \<Rightarrow> 'a confirming" where
  "on_client m = (\<lambda>s. case m (cf_client s) of (r, c) \<Rightarrow> (map_sum Client id r, s\<lparr>cf_client := c\<rparr>))"

definition needsConfirmation :: "int \<Rightarrow> int \<Rightarrow> bool" where
  "needsConfirmation amount threshold = (amount \<ge> threshold)"

definition ask_confirm :: "confirm_options \<Rightarrow> pending_confirmation \<Rightarrow> bool confirming" where
  "ask_confirm opts p = (\<lambda>s. let x = co_confirm opts s p in
     (map_sum (\<lambda>m. Client (Thrown m)) id x, s\<lparr>cf_asked := cf_asked s @ [(p, x)]\<rparr>))"

definition requestConfirmation :: "confirm_options \<Rightarrow> payment_requirements \<Rightarrow> int \<Rightarrow> unit confirming" where
  "requestConfirmation opts requirements amount =
     (if \<not> needsConfirmation amount (co_confirmationThreshold opts) then ret ()
      else
        andThen (ask_confirm opts \<lparr>pn_amount = amount, pn_asset = pr_asset requirements, pn_requirements = requirements\<rparr>) (\<lambda>approved.
          if \<not> approved
          then throw (PaymentNotConfirmedError amount (co_confirmationThreshold opts) (pr_asset requirements))
          else ret ()))"

definition confirmed_createPayment ::
    "x402_deps \<Rightarrow> confirm_options \<Rightarrow> payment_requirements \<Rightarrow> x402_pay_options \<Rightarrow> signed_payment confirming" where
  "confirmed_createPayment deps copts requirements opts =
     andThen (on_client (lift (parseAmount (pr_amount requirements)))) (\<lambda>amount.
     andThen (requestConfirmation copts requirements amount) (\<lambda>_.
       on_client (createPayment deps requirements opts)))"

text \<open>The option the probe's challenge leads to, as in the client.\<close>

definition probe_option :: "json_env \<Rightarrow> string \<Rightarrow> response \<Rightarrow> x402_pay_options \<Rightarrow> payment_requirements outcome" where
  "probe_option je caip2 res opts =
     ebind (decodePaymentRequired je res) (\<lambda>decoded.
     case decoded of
       DNull \<Rightarrow> Inl JsTypeError
     | DPrimitive \<Rightarrow> Inl (X402 (NoUsablePaymentOptionError (NotOffered caip2 [])))
     | DObject d \<Rightarrow> selectRequirements d opts caip2)"

definition confirmed_fetch :: "x402_deps \<Rightarrow> confirm_options \<Rightarrow> string \<Rightarrow> fetch_init \<Rightarrow> x402_response confirming" where
  "confirmed_fetch deps copts url init =
     andThen (\<lambda>s. (map_sum (\<lambda>m. Client (Thrown m)) id
         (co_probe copts s url (case fi_method init of None \<Rightarrow> ''GET'' | Some m \<Rightarrow> m) (fi_headers init)), s)) (\<lambda>probe.
       if rs_status probe \<noteq> 402 then on_client (x402Fetch deps url init)
       else
         andThen (on_client (lift (probe_option (xd_json deps) (co_ourCaip2 copts) probe (fi_opts init)))) (\<lambda>requirements.
         andThen (on_client (lift (parseAmount (pr_amount requirements)))) (\<lambda>amount.
         andThen (requestConfirmation copts requirements amount) (\<lambda>_.
           on_client (x402Fetch deps url init)))))"

section \<open>What the gate lets through\<close>

lemma map_sum_Inr: "map_sum f id x = Inr y \<longleftrightarrow> x = Inr y"
  by (cases x) auto

lemma requestConfirmation_run:
  assumes "requestConfirmation copts q amount s = (r, s')"
  shows "cf_client s' = cf_client s \<and>
    (r = Inr () \<longrightarrow> amount < co_confirmationThreshold copts \<and> s' = s \<or>
       cf_asked s' = cf_asked s @ [(\<lparr>pn_amount = amount, pn_asset = pr_asset q, pn_requirements = q\<rparr>, Inr True)])"
  using assms
  by (auto simp: requestConfirmation_def ask_confirm_def needsConfirmation_def act_defs Let_def map_sum_Inr split: if_splits sum.splits)

text \<open>
  \<open>createPayment\<close> behind the gate: unless it behaves as the client's own, it leaves the client untouched and fails. It
  behaves so only for an amount below the threshold, when nothing is asked, or when exactly this payment was confirmed.
\<close>

theorem high_value_payments_are_confirmed:
  assumes "confirmed_createPayment deps copts q opts s = (r, s')"
  shows "cf_client s' = cf_client s \<and> (\<exists>e. r = Inl e) \<or>
    (\<exists>amount x c. parseAmount (pr_amount q) = Inr amount \<and>
       createPayment deps q opts (cf_client s) = (x, c) \<and> r = map_sum Client id x \<and> cf_client s' = c \<and>
       (amount < co_confirmationThreshold copts \<and> cf_asked s' = cf_asked s \<or>
        cf_asked s' = cf_asked s @ [(\<lparr>pn_amount = amount, pn_asset = pr_asset q, pn_requirements = q\<rparr>, Inr True)]))"
proof (cases "parseAmount (pr_amount q)")
  case (Inl e)
  then show ?thesis using assms by (auto simp: confirmed_createPayment_def on_client_def act_defs)
next
  case (Inr amount)
  obtain r1 s1 where ask: "requestConfirmation copts q amount s = (r1, s1)" by (cases "requestConfirmation copts q amount s")
  note run = requestConfirmation_run [OF ask]
  show ?thesis
  proof (cases r1)
    case (Inl e)
    then show ?thesis using assms Inr ask run by (auto simp: confirmed_createPayment_def on_client_def act_defs)
  next
    case ok: (Inr u)
    obtain x c where x: "createPayment deps q opts (cf_client s) = (x, c)" by (cases "createPayment deps q opts (cf_client s)")
    then have "r = map_sum Client id x \<and> s' = s1\<lparr>cf_client := c\<rparr>"
      using assms Inr ask ok run by (auto simp: confirmed_createPayment_def on_client_def act_defs)
    then show ?thesis using Inr x run ok by auto
  qed
qed

text \<open>
  A probe that is not answered with 402 lets any payment through: the probe has no body, so the answer to it need not be
  the answer to the real request. Here a payment above the threshold of 1 is signed and nothing is asked.
\<close>

lemma unpaid_probe_skips_confirmation:
  assumes "co_probe copts s url (case fi_method init of None \<Rightarrow> ''GET'' | Some m \<Rightarrow> m) (fi_headers init) = Inr probe" "rs_status probe \<noteq> 402"
  shows "confirmed_fetch deps copts url init s = on_client (x402Fetch deps url init) s"
  using assms by (simp add: confirmed_fetch_def act_defs)

definition asking_first :: confirm_options where
  "asking_first = \<lparr>co_confirmationThreshold = 1, co_confirm = (\<lambda>s p. Inr False), co_ourCaip2 = ''stellar:testnet'',
     co_probe = (\<lambda>s u m h. Inr \<lparr>rs_status = 400, rs_headers = [], rs_body = Inr []\<rparr>)\<rparr>"

lemma unasked_payment_is_signed:
  "\<exists>p s'. confirmed_fetch sample_deps asking_first ''u'' sample_init \<lparr>cf_client = sample_client_state, cf_asked = []\<rparr> = (Inr p, s') \<and>
     xr_paid p \<and> cf_asked s' = [] \<and>
     CSign ''entry'' ''Test SDF Network ; September 2015'' 1010 \<in> set (cs_trace (cf_client s'))"
proof -
  obtain p c where "x402Fetch sample_deps ''u'' sample_init sample_client_state = (Inr p, c)" "xr_paid p"
    "CSign ''entry'' ''Test SDF Network ; September 2015'' 1010 \<in> set (cs_trace c)"
    using sample_fetch by blast
  moreover have "confirmed_fetch sample_deps asking_first ''u'' sample_init s = on_client (x402Fetch sample_deps ''u'' sample_init) s" for s
    by (rule unpaid_probe_skips_confirmation [where probe = "\<lparr>rs_status = 400, rs_headers = [], rs_body = Inr []\<rparr>"]) (simp_all add: asking_first_def)
  ultimately show ?thesis by (simp add: on_client_def)
qed

end
