(* ===== verification/BatchedBalances.thy ===== *)
theory BatchedBalances
  imports Errors
begin

text \<open>
  Balance reads in batches (\<open>contrib/examples/issue-216-batched-trustline-balances/batched-trustline-balances.ts\<close>) beside
  the unbatched reads they replace. \<open>Promise.all\<close> runs the chunks, and the tokens of a chunk
  that failed, at the same time. A reader is therefore given the place of each call, the number of the chunk and the number of
  the token in it: a call of a run is made once, so that any answers the calls get, in whatever order they settle, are those
  of such a reader. \<open>rpcCalls\<close> and \<open>fallbackCalls\<close> are the counters of
  the service.
\<close>

section \<open>Chunks\<close>

definition MAX_INVOCATIONS_PER_SIMULATION :: nat where "MAX_INVOCATIONS_PER_SIMULATION = 20"

text \<open>
  \<open>items.slice(i, i + size)\<close> for \<open>i = 0\<close>, \<open>size\<close>, \<open>2 * size\<close> and so on; \<open>slice\<close> cuts fractions off its bounds. A size
  that is \<open>NaN\<close> passes the check, and the loop stops after one slice, an empty one.
\<close>

datatype chunk_size = Size rat | PositiveInfinity | NaN

definition slice :: "'a list \<Rightarrow> rat \<Rightarrow> rat \<Rightarrow> 'a list" where
  "slice items i j = take (nat \<lfloor>j\<rfloor> - nat \<lfloor>i\<rfloor>) (drop (nat \<lfloor>i\<rfloor>) items)"

function slices :: "rat \<Rightarrow> 'a list \<Rightarrow> rat \<Rightarrow> 'a list list" where
  "slices n items i =
     (if n < 1 \<or> of_nat (length items) \<le> i then [] else slice items i (i + n) # slices n items (i + n))"
  by pat_completeness auto
termination
proof (relation "measure (\<lambda>(n, items, i). nat \<lceil>of_nat (length items) - i\<rceil>)", goal_cases)
  case (2 n items i)
  then have "\<lceil>of_nat (length items) - (i + n)\<rceil> \<le> \<lceil>of_nat (length items) - i - 1\<rceil>" by (intro ceiling_mono) simp
  then have "\<lceil>of_nat (length items) - (i + n)\<rceil> < \<lceil>of_nat (length items) - i\<rceil>" by simp
  moreover have "0 < \<lceil>of_nat (length items) - i\<rceil>" using 2 by (simp add: zero_less_ceiling)
  ultimately show ?case by simp
qed simp

declare slices.simps [simp del]

definition chunk :: "'a list \<Rightarrow> chunk_size \<Rightarrow> 'a list list outcome" where
  "chunk items k =
     (case k of
        NaN \<Rightarrow> Inr (if items = [] then [] else [[]])
      | PositiveInfinity \<Rightarrow> Inr (if items = [] then [] else [items])
      | Size n \<Rightarrow> if n < 1 then Inl (Thrown ''RangeError'') else Inr (slices n items 0))"

section \<open>The services\<close>

datatype balance_result = Balance string int | BalanceFailed string string

record balance_state =
  bs_rpcCalls :: nat
  bs_fallbackCalls :: nat

record balance_readers =
  rd_batch :: "nat \<Rightarrow> string list \<Rightarrow> string \<Rightarrow> string + int list"
  rd_single :: "nat \<times> nat \<Rightarrow> string \<Rightarrow> string \<Rightarrow> string + int"

record batch_options =
  bo_maxBatchSize :: "chunk_size option"
  bo_fallbackToSingle :: "bool option"

definition to_result :: "string \<Rightarrow> string + int \<Rightarrow> balance_result" where
  "to_result contractId r = (case r of Inr amount \<Rightarrow> Balance contractId amount | Inl e \<Rightarrow> BalanceFailed contractId e)"

fun read_singles ::
    "balance_readers \<Rightarrow> nat \<Rightarrow> nat \<Rightarrow> string \<Rightarrow> string list \<Rightarrow> balance_state \<Rightarrow> balance_result list \<times> balance_state" where
  "read_singles rd k i holder [] s = ([], s)"
| "read_singles rd k i holder (contractId # ids) s =
     (let r = rd_single rd (k, i) contractId holder;
          s1 = s\<lparr>bs_rpcCalls := bs_rpcCalls s + 1, bs_fallbackCalls := bs_fallbackCalls s + 1\<rparr>;
          (rest, s2) = read_singles rd k (i + 1) holder ids s1 in
      (to_result contractId r # rest, s2))"

definition readChunk ::
    "balance_readers \<Rightarrow> bool \<Rightarrow> nat \<Rightarrow> string list \<Rightarrow> string \<Rightarrow> balance_state \<Rightarrow> balance_result list \<times> balance_state" where
  "readChunk rd fallbackToSingle k ids holder s =
     (let s1 = s\<lparr>bs_rpcCalls := bs_rpcCalls s + 1\<rparr>;
          failed = (\<lambda>message. if \<not> fallbackToSingle then (map (\<lambda>c. BalanceFailed c message) ids, s1)
                              else read_singles rd k 0 holder ids s1) in
      case rd_batch rd k ids holder of
        Inl message \<Rightarrow> failed message
      | Inr amounts \<Rightarrow>
          if length amounts \<noteq> length ids then
            failed (''batched balance read returned '' @ show_nat (length amounts) @ '' results for '' @
                    show_nat (length ids) @ '' tokens'')
          else (map2 Balance ids amounts, s1))"

fun read_chunks ::
    "balance_readers \<Rightarrow> bool \<Rightarrow> nat \<Rightarrow> string list list \<Rightarrow> string \<Rightarrow> balance_state \<Rightarrow> balance_result list list \<times> balance_state" where
  "read_chunks rd fb k [] holder s = ([], s)"
| "read_chunks rd fb k (ids # chunks) holder s =
     (let (rs, s1) = readChunk rd fb k ids holder s; (rest, s2) = read_chunks rd fb (k + 1) chunks holder s1 in (rs # rest, s2))"

definition batched_getBalances ::
    "balance_readers \<Rightarrow> batch_options \<Rightarrow> string \<Rightarrow> string list \<Rightarrow> balance_state \<Rightarrow> balance_result list outcome \<times> balance_state" where
  "batched_getBalances rd opts holder ids s =
     (let maxBatchSize = (case bo_maxBatchSize opts of None \<Rightarrow> Size (of_nat MAX_INVOCATIONS_PER_SIMULATION) | Some n \<Rightarrow> n);
          fb = (case bo_fallbackToSingle opts of None \<Rightarrow> True | Some b \<Rightarrow> b) in
      if ids = [] then (Inr [], s)
      else
        (case chunk ids maxBatchSize of
           Inl e \<Rightarrow> (Inl e, s)
         | Inr chunks \<Rightarrow> (let (rss, s') = read_chunks rd fb 0 chunks holder s in (Inr (concat rss), s'))))"

definition resetStats :: "balance_state \<Rightarrow> balance_state" where
  "resetStats s = s\<lparr>bs_rpcCalls := 0, bs_fallbackCalls := 0\<rparr>"

text \<open>The baseline: every token on its own.\<close>

fun unbatched_getBalances ::
    "balance_readers \<Rightarrow> nat \<Rightarrow> string \<Rightarrow> string list \<Rightarrow> balance_state \<Rightarrow> balance_result list \<times> balance_state" where
  "unbatched_getBalances rd i holder [] s = ([], s)"
| "unbatched_getBalances rd i holder (contractId # ids) s =
     (let r = rd_single rd (0, i) contractId holder;
          s1 = s\<lparr>bs_rpcCalls := bs_rpcCalls s + 1\<rparr>;
          (rest, s2) = unbatched_getBalances rd (i + 1) holder ids s1 in
      (to_result contractId r # rest, s2))"

record balance_invocation =
  bi_contract :: string
  bi_function :: string
  bi_args :: "string list"

definition buildBalanceInvocations :: "string list \<Rightarrow> string \<Rightarrow> balance_invocation list" where
  "buildBalanceInvocations ids holder = map (\<lambda>c. \<lparr>bi_contract = c, bi_function = ''balance'', bi_args = [holder]\<rparr>) ids"

section \<open>Batched and unbatched reads agree\<close>

lemma concat_slices:
  "1 \<le> n \<Longrightarrow> 0 \<le> i \<Longrightarrow> concat (slices n items i) = drop (nat \<lfloor>i\<rfloor>) items"
proof (induction n items i rule: slices.induct)
  case (1 n items i)
  show ?case
  proof (cases "of_nat (length items) \<le> i")
    case True
    then have "length items \<le> nat \<lfloor>i\<rfloor>" by (simp add: le_floor_iff le_nat_iff)
    then show ?thesis using True by (simp add: slices.simps)
  next
    case False
    have "nat \<lfloor>i\<rfloor> \<le> nat \<lfloor>i + n\<rfloor>" using 1 by (intro nat_mono floor_mono) simp
    then have "slice items i (i + n) @ drop (nat \<lfloor>i + n\<rfloor>) items = drop (nat \<lfloor>i\<rfloor>) items"
      unfolding slice_def by (metis append_take_drop_id drop_drop le_add_diff_inverse2)
    then show ?thesis using 1 False by (simp add: slices.simps [of n items i])
  qed
qed

lemma length_slices:
  "1 \<le> n \<Longrightarrow> int (length (slices n items i)) = max 0 \<lceil>(of_nat (length items) - i) / n\<rceil>"
proof (induction n items i rule: slices.induct)
  case (1 n items i)
  let ?k = "(of_nat (length items) - i) / n"
  show ?case
  proof (cases "of_nat (length items) \<le> i")
    case True
    then have "?k \<le> 0" using 1 by (simp add: divide_nonpos_pos)
    then show ?thesis using True by (simp add: slices.simps)
  next
    case False
    have next_k: "(of_nat (length items) - (i + n)) / n = ?k - 1" using 1 by (simp add: field_simps)
    have "0 < ?k" using 1 False by simp
    then have "0 < \<lceil>?k\<rceil>" by simp
    then show ?thesis using 1 False by (simp add: slices.simps [of n items i] next_k)
  qed
qed

text \<open>
  What the two readers are to each other when balances do not move while they are read: every read of a token gives
  its one answer, and a batch gives the answers of its tokens when it does not fail.
\<close>

definition steady :: "balance_readers \<Rightarrow> string \<Rightarrow> (string \<Rightarrow> string + int) \<Rightarrow> bool" where
  "steady rd holder answer =
     ((\<forall>t c. rd_single rd t c holder = answer c) \<and>
      (\<forall>t ids amounts. rd_batch rd t ids holder = Inr amounts \<longrightarrow> length amounts = length ids \<longrightarrow> map answer ids = map Inr amounts))"

lemma read_singles_steady: "steady rd holder answer \<Longrightarrow> fst (read_singles rd k i holder ids s) = map (\<lambda>c. to_result c (answer c)) ids"
  by (induction ids arbitrary: i s) (simp_all add: steady_def Let_def case_prod_unfold)

lemma unbatched_steady: "steady rd holder answer \<Longrightarrow> fst (unbatched_getBalances rd i holder ids s) = map (\<lambda>c. to_result c (answer c)) ids"
  by (induction ids arbitrary: i s) (simp_all add: steady_def Let_def case_prod_unfold)

lemma batch_steady:
  assumes "steady rd holder answer" "rd_batch rd t ids holder = Inr amounts" "length amounts = length ids"
  shows "map2 Balance ids amounts = map (\<lambda>c. to_result c (answer c)) ids"
proof -
  have "map answer ids = map Inr amounts" using assms by (auto simp: steady_def)
  then show ?thesis using assms(3)
    by (induction ids amounts rule: list_induct2') (auto simp: to_result_def)
qed

lemma readChunk_steady: "steady rd holder answer \<Longrightarrow> fst (readChunk rd True k ids holder s) = map (\<lambda>c. to_result c (answer c)) ids"
  by (auto simp: readChunk_def Let_def read_singles_steady batch_steady split: sum.splits)

lemma read_chunks_steady:
  "steady rd holder answer \<Longrightarrow> concat (fst (read_chunks rd True k chunks holder s)) = map (\<lambda>c. to_result c (answer c)) (concat chunks)"
proof (induction chunks arbitrary: k s)
  case (Cons ids chunks)
  show ?case
    using readChunk_steady [OF Cons.prems, of k ids s] Cons.IH [OF Cons.prems]
    by (auto simp: Let_def split: prod.splits) (metis fst_conv)
qed simp

section \<open>How many calls are made\<close>

definition batches_work :: "balance_readers \<Rightarrow> string \<Rightarrow> bool" where
  "batches_work rd holder = (\<forall>t ids. \<exists>amounts. rd_batch rd t ids holder = Inr amounts \<and> length amounts = length ids)"

lemma read_singles_calls: "bs_rpcCalls (snd (read_singles rd k i holder ids s)) = bs_rpcCalls s + length ids"
  by (induction ids arbitrary: i s) (simp_all add: Let_def case_prod_unfold)

lemma unbatched_calls: "bs_rpcCalls (snd (unbatched_getBalances rd i holder ids s)) = bs_rpcCalls s + length ids"
  by (induction ids arbitrary: i s) (simp_all add: Let_def case_prod_unfold)

lemma readChunk_calls:
  "bs_rpcCalls (snd (readChunk rd fb k ids holder s)) \<le> bs_rpcCalls s + 1 + length ids"
  "batches_work rd holder \<Longrightarrow> bs_rpcCalls (snd (readChunk rd fb k ids holder s)) = bs_rpcCalls s + 1"
proof -
  show "bs_rpcCalls (snd (readChunk rd fb k ids holder s)) \<le> bs_rpcCalls s + 1 + length ids"
    by (auto simp: readChunk_def Let_def read_singles_calls split: sum.splits)
  assume "batches_work rd holder"
  then obtain amounts where "rd_batch rd k ids holder = Inr amounts" "length amounts = length ids"
    unfolding batches_work_def by blast
  then show "bs_rpcCalls (snd (readChunk rd fb k ids holder s)) = bs_rpcCalls s + 1" by (simp add: readChunk_def Let_def)
qed

lemma read_chunks_calls:
  "bs_rpcCalls (snd (read_chunks rd fb k chunks holder s)) \<le> bs_rpcCalls s + length chunks + length (concat chunks) \<and>
   (batches_work rd holder \<longrightarrow> bs_rpcCalls (snd (read_chunks rd fb k chunks holder s)) = bs_rpcCalls s + length chunks)"
proof (induction chunks arbitrary: k s)
  case (Cons ids chunks)
  show ?case
    using Cons.IH [of "k + 1" "snd (readChunk rd fb k ids holder s)"] readChunk_calls [where rd = rd and fb = fb and k = k and holder = holder and ids = ids and s = s]
    by (simp add: Let_def case_prod_unfold)
qed simp

definition batch_size :: "batch_options \<Rightarrow> chunk_size" where
  "batch_size opts = (case bo_maxBatchSize opts of None \<Rightarrow> Size (of_nat MAX_INVOCATIONS_PER_SIMULATION) | Some n \<Rightarrow> n)"

lemma batched_eq:
  assumes "batch_size opts = Size n" "1 \<le> n" "bo_fallbackToSingle opts \<noteq> Some False" "ids \<noteq> []"
  shows "batched_getBalances rd opts holder ids s =
    (let (rss, s') = read_chunks rd True 0 (slices n ids 0) holder s in (Inr (concat rss), s'))"
proof -
  have "(case bo_fallbackToSingle opts of None \<Rightarrow> True | Some b \<Rightarrow> b) = True"
    using assms(3) by (cases "bo_fallbackToSingle opts") auto
  moreover have "chunk ids (Size n) = Inr (slices n ids 0)" using assms(2) by (simp add: chunk_def)
  ultimately show ?thesis using assms(1,4) by (simp add: batched_getBalances_def Let_def batch_size_def [symmetric])
qed

text \<open>
  C24 (equivalence): while balances do not move, a batched read with the fallback on gives exactly the results of
  the unbatched reads, token by token, errors included, in the order of the request. It makes as many calls as the
  request has chunks when no batch fails, where the unbatched reads make one per token, and never more than the chunks and
  the tokens together.
\<close>

theorem batched_reads_equal_unbatched:
  assumes "steady rd holder answer" "batch_size opts = Size n" "1 \<le> n" "bo_fallbackToSingle opts \<noteq> Some False"
    and "batched_getBalances rd opts holder ids s = (r, s')" "unbatched_getBalances rd 0 holder ids s = (u, s'')"
  shows "r = Inr u \<and> bs_rpcCalls s'' = bs_rpcCalls s + length ids \<and>
    int (bs_rpcCalls s') \<le> int (bs_rpcCalls s) + \<lceil>of_nat (length ids) / n\<rceil> + int (length ids) \<and>
    (batches_work rd holder \<longrightarrow> int (bs_rpcCalls s') = int (bs_rpcCalls s) + \<lceil>of_nat (length ids) / n\<rceil>)"
proof (cases "ids = []")
  case True
  then show ?thesis using assms(5,6) by (auto simp: batched_getBalances_def)
next
  case False
  have u: "u = map (\<lambda>c. to_result c (answer c)) ids" "bs_rpcCalls s'' = bs_rpcCalls s + length ids"
    using unbatched_steady [OF assms(1), of 0 ids s] unbatched_calls [of rd 0 holder ids s] assms(6) by simp_all
  have all: "concat (slices n ids 0) = ids" using concat_slices [OF assms(3), of 0 ids] by simp
  have "0 \<le> of_nat (length ids) / n" using assms(3) by simp
  then have count: "int (length (slices n ids 0)) = \<lceil>of_nat (length ids) / n\<rceil>" using length_slices [OF assms(3), of ids 0] by simp
  obtain rss where run: "read_chunks rd True 0 (slices n ids 0) holder s = (rss, s')" and r: "r = Inr (concat rss)"
    using batched_eq [OF assms(2-4) False, of rd holder s] assms(5) by (auto simp: Let_def split: prod.splits)
  then show ?thesis
    using u read_chunks_steady [OF assms(1), of 0 "slices n ids 0" s] all count
      read_chunks_calls [of rd True 0 "slices n ids 0" holder s] by auto
qed

definition sample_readers :: balance_readers where
  "sample_readers =
     \<lparr>rd_batch = (\<lambda>t ids h. if ''BAD'' \<in> set ids then Inl ''simulation failed'' else Inr (map (\<lambda>c. int (length c)) ids)),
      rd_single = (\<lambda>t c h. if c = ''BAD'' then Inl ''no such contract'' else Inr (int (length c)))\<rparr>"

definition sample_batching :: batch_options where
  "sample_batching = \<lparr>bo_maxBatchSize = Some (Size 2), bo_fallbackToSingle = None\<rparr>"

definition no_calls :: balance_state where "no_calls = \<lparr>bs_rpcCalls = 0, bs_fallbackCalls = 0\<rparr>"

lemma sample_steady: "steady sample_readers h (\<lambda>c. if c = ''BAD'' then Inl ''no such contract'' else Inr (int (length c)))"
  by (auto simp: steady_def sample_readers_def split: if_splits)

text \<open>Four tokens, one of them bad, in two chunks: the chunk with the bad one is read again token by token.\<close>

theorem batched_reads_equal_unbatched_witness:
  "let ids = [''USD'', ''EURO'', ''BAD'', ''X'']; (r, s') = batched_getBalances sample_readers sample_batching ''C1'' ids no_calls in
   r = Inr [Balance ''USD'' 3, Balance ''EURO'' 4, BalanceFailed ''BAD'' ''no such contract'', Balance ''X'' 1] \<and> bs_rpcCalls s' \<le> 6"
proof -
  let ?ids = "[''USD'', ''EURO'', ''BAD'', ''X'']"
  let ?b = "batched_getBalances sample_readers sample_batching ''C1'' ?ids no_calls"
  let ?u = "unbatched_getBalances sample_readers 0 ''C1'' ?ids no_calls"
  have opts: "batch_size sample_batching = Size 2" "bo_fallbackToSingle sample_batching \<noteq> Some False" "(1 :: rat) \<le> 2"
    by (simp_all add: batch_size_def sample_batching_def)
  have u: "fst ?u = [Balance ''USD'' 3, Balance ''EURO'' 4, BalanceFailed ''BAD'' ''no such contract'', Balance ''X'' 1]"
    by (simp add: Let_def sample_readers_def to_result_def)
  have "fst ?b = Inr (fst ?u) \<and> int (bs_rpcCalls (snd ?b)) \<le> int (bs_rpcCalls no_calls) + \<lceil>of_nat (length ?ids) / (2 :: rat)\<rceil> + int (length ?ids)"
    using batched_reads_equal_unbatched [OF sample_steady opts(1,3,2) prod.collapse [symmetric] prod.collapse [symmetric], of "''C1''" ?ids no_calls]
    by blast
  then show ?thesis using u by (simp add: Let_def case_prod_unfold no_calls_def)
qed

section \<open>A size that is not a number\<close>

lemma nan_size_drops_balances:
  assumes "bo_maxBatchSize opts = Some NaN"
  shows "fst (batched_getBalances rd opts holder ids s) = Inr []"
  using assms by (auto simp: batched_getBalances_def chunk_def readChunk_def Let_def split: sum.splits prod.splits)

end
