(* ===== verification/ChallengeTracker.thy ===== *)
theory ChallengeTracker
  imports Errors
begin

text \<open>
  Single-use passkey challenges (\<open>contrib/examples/issue-230-passkey-challenge-tracker/passkey-challenge-tracker.ts\<close>).
  The fields of the class are a record, its methods functions on it; the readings of the injected clock are arguments.
  \<open>tracker_step\<close> runs any calls and keeps their history.
\<close>

section \<open>The tracker\<close>

datatype tracker_error =
    PasskeyAssertionExpiredError string int int
  | PasskeyAssertionReplayedError string
  | UnknownChallenge string

record challenge_tracker =
  ct_issuedAt :: "string \<rightharpoonup> int"
  ct_consumed :: "string set"
  ct_maxAgeMs :: int

definition challenge_age :: "int option \<Rightarrow> int" where
  "challenge_age maxAgeMs = (case maxAgeMs of None \<Rightarrow> 5 * 60 * 1000 | Some m \<Rightarrow> m)"

definition new_tracker :: "int option \<Rightarrow> challenge_tracker" where
  "new_tracker maxAgeMs = \<lparr>ct_issuedAt = Map.empty, ct_consumed = {}, ct_maxAgeMs = challenge_age maxAgeMs\<rparr>"

text \<open>The challenges the loop of \<open>pruneExpired\<close> deletes.\<close>

definition stale :: "int \<Rightarrow> challenge_tracker \<Rightarrow> string \<Rightarrow> bool" where
  "stale now s c = (case ct_issuedAt s c of None \<Rightarrow> False | Some issuedAt \<Rightarrow> issuedAt < now - ct_maxAgeMs s)"

definition pruneExpired :: "int \<Rightarrow> challenge_tracker \<Rightarrow> challenge_tracker" where
  "pruneExpired now s =
     s\<lparr>ct_issuedAt := (\<lambda>c. if stale now s c then None else ct_issuedAt s c),
       ct_consumed := {c \<in> ct_consumed s. \<not> stale now s c}\<rparr>"

text \<open>\<open>register\<close> reads the clock twice.\<close>

definition register :: "int \<Rightarrow> int \<Rightarrow> string \<Rightarrow> challenge_tracker \<Rightarrow> challenge_tracker" where
  "register now1 now2 challenge s =
     (let s1 = pruneExpired now1 s in
      s1\<lparr>ct_issuedAt := (ct_issuedAt s1)(challenge \<mapsto> now2), ct_consumed := ct_consumed s1 - {challenge}\<rparr>)"

definition consume :: "int \<Rightarrow> string \<Rightarrow> challenge_tracker \<Rightarrow> tracker_error + challenge_tracker" where
  "consume now challenge s =
     (if challenge \<in> ct_consumed s then Inl (PasskeyAssertionReplayedError challenge)
      else
        (case ct_issuedAt s challenge of
           None \<Rightarrow> Inl (UnknownChallenge challenge)
         | Some issuedAt \<Rightarrow>
             if now - issuedAt > ct_maxAgeMs s then Inl (PasskeyAssertionExpiredError challenge issuedAt (ct_maxAgeMs s))
             else Inr (s\<lparr>ct_consumed := insert challenge (ct_consumed s), ct_issuedAt := (ct_issuedAt s)(challenge := None)\<rparr>)))"

section \<open>Histories\<close>

datatype challenge_event = Registered string int | Accepted string int | Refused string tracker_error

record tracked =
  td_tracker :: challenge_tracker
  td_history :: "challenge_event list"

inductive tracker_step :: "tracked \<Rightarrow> tracked \<Rightarrow> bool" where
  step_register: "tracker_step s \<lparr>td_tracker = register now1 now2 c (td_tracker s), td_history = Registered c now2 # td_history s\<rparr>"
| step_accept: "consume now c (td_tracker s) = Inr tr \<Longrightarrow>
    tracker_step s \<lparr>td_tracker = tr, td_history = Accepted c now # td_history s\<rparr>"
| step_refuse: "consume now c (td_tracker s) = Inl e \<Longrightarrow> tracker_step s (s\<lparr>td_history := Refused c e # td_history s\<rparr>)"

inductive_cases tracker_stepE: "tracker_step s t"

definition tracker_init :: "int option \<Rightarrow> tracked \<Rightarrow> bool" where
  "tracker_init maxAgeMs s = (s = \<lparr>td_tracker = new_tracker maxAgeMs, td_history = []\<rparr>)"

text \<open>The last time the challenge was registered or accepted; histories are kept with the latest event first.\<close>

fun last_use :: "string \<Rightarrow> challenge_event list \<Rightarrow> challenge_event option" where
  "last_use c [] = None"
| "last_use c (Registered d t # h) = (if d = c then Some (Registered d t) else last_use c h)"
| "last_use c (Accepted d t # h) = (if d = c then Some (Accepted d t) else last_use c h)"
| "last_use c (Refused d e # h) = last_use c h"

text \<open>Every acceptance answers a registration of its own, not too long before.\<close>

fun single_use :: "int \<Rightarrow> challenge_event list \<Rightarrow> bool" where
  "single_use m [] = True"
| "single_use m (Accepted c t # h) =
     ((case last_use c h of Some (Registered d t0) \<Rightarrow> t - t0 \<le> m | _ \<Rightarrow> False) \<and> single_use m h)"
| "single_use m (e # h) = single_use m h"

text \<open>A refused challenge is called replayed exactly when it was accepted since it was last registered.\<close>

fun replays_named :: "challenge_event list \<Rightarrow> bool" where
  "replays_named [] = True"
| "replays_named (Refused c e # h) =
     ((e = PasskeyAssertionReplayedError c \<longleftrightarrow> (\<exists>t. last_use c h = Some (Accepted c t))) \<and> replays_named h)"
| "replays_named (e # h) = replays_named h"

definition tracker_inv :: "int \<Rightarrow> tracked \<Rightarrow> bool" where
  "tracker_inv m s =
     (ct_maxAgeMs (td_tracker s) = m \<and>
      (\<forall>c t. ct_issuedAt (td_tracker s) c = Some t \<longrightarrow> last_use c (td_history s) = Some (Registered c t)) \<and>
      (\<forall>c. c \<in> ct_consumed (td_tracker s) \<longleftrightarrow> (\<exists>t. last_use c (td_history s) = Some (Accepted c t))) \<and>
      single_use m (td_history s) \<and> replays_named (td_history s))"

lemma consume_Inr:
  "consume now c s = Inr s' \<longleftrightarrow>
     c \<notin> ct_consumed s \<and> (\<exists>t. ct_issuedAt s c = Some t \<and> now - t \<le> ct_maxAgeMs s) \<and>
     s' = s\<lparr>ct_consumed := insert c (ct_consumed s), ct_issuedAt := (ct_issuedAt s)(c := None)\<rparr>"
  by (auto simp: consume_def split: option.splits)

lemma consume_replayed:
  "consume now c s = Inl e \<Longrightarrow> e = PasskeyAssertionReplayedError c \<longleftrightarrow> c \<in> ct_consumed s"
  by (auto simp: consume_def split: option.splits if_splits)

text \<open>A consumed challenge has no time of issue, so that pruning never forgets it.\<close>

lemma prune_keeps_consumed: "tracker_inv m s \<Longrightarrow> ct_consumed (pruneExpired now (td_tracker s)) = ct_consumed (td_tracker s)"
  by (fastforce simp: tracker_inv_def pruneExpired_def stale_def split: option.splits)

lemma prune_issuedAt: "ct_issuedAt (pruneExpired now s) c = Some t \<Longrightarrow> ct_issuedAt s c = Some t"
  by (simp add: pruneExpired_def split: if_splits)

lemma tracker_inv_init: "tracker_init m s \<Longrightarrow> tracker_inv (challenge_age m) s"
  by (simp add: tracker_init_def tracker_inv_def new_tracker_def)

lemma tracker_inv_step: "tracker_step s t \<Longrightarrow> tracker_inv m s \<Longrightarrow> tracker_inv m t"
proof (elim tracker_stepE)
  fix now1 now2 c
  assume inv: "tracker_inv m s"
    and t: "t = \<lparr>td_tracker = register now1 now2 c (td_tracker s), td_history = Registered c now2 # td_history s\<rparr>"
  let ?p = "pruneExpired now1 (td_tracker s)"
  have "ct_maxAgeMs ?p = m" using inv by (simp add: tracker_inv_def pruneExpired_def)
  moreover have "\<forall>d t. ct_issuedAt ?p d = Some t \<longrightarrow> last_use d (td_history s) = Some (Registered d t)"
    using inv prune_issuedAt unfolding tracker_inv_def by blast
  moreover have "\<forall>d. d \<in> ct_consumed ?p \<longleftrightarrow> (\<exists>t. last_use d (td_history s) = Some (Accepted d t))"
    using inv unfolding prune_keeps_consumed [OF inv] tracker_inv_def by blast
  ultimately show "tracker_inv m t" using inv by (simp add: t tracker_inv_def register_def Let_def)
next
  fix now c tr
  assume "tracker_inv m s" "consume now c (td_tracker s) = Inr tr"
    and "t = \<lparr>td_tracker = tr, td_history = Accepted c now # td_history s\<rparr>"
  then show "tracker_inv m t" by (auto simp: tracker_inv_def consume_Inr)
next
  fix now c e
  assume "tracker_inv m s" "consume now c (td_tracker s) = Inl e" "t = s\<lparr>td_history := Refused c e # td_history s\<rparr>"
  then show "tracker_inv m t" using consume_replayed [of now c "td_tracker s" e] by (simp add: tracker_inv_def)
qed

interpretation challenges: preserved "tracker_init m" tracker_step "tracker_inv (challenge_age m)" for m
  by unfold_locales (auto intro: tracker_inv_init tracker_inv_step)


text \<open>A challenge is registered, accepted, tried again and registered again.\<close>

definition sample_tracked :: tracked where
  "sample_tracked =
     \<lparr>td_tracker = register 900 900 ''abc'' \<lparr>ct_issuedAt = Map.empty, ct_consumed = {''abc''}, ct_maxAgeMs = 5000\<rparr>,
      td_history = [Registered ''abc'' 900, Refused ''abc'' (PasskeyAssertionReplayedError ''abc''), Accepted ''abc'' 700,
        Registered ''abc'' 500]\<rparr>"

lemma sample_tracked_reach: "reach (tracker_init (Some 5000)) tracker_step sample_tracked"
proof -
  let ?s0 = "\<lparr>td_tracker = new_tracker (Some 5000), td_history = []\<rparr>"
  let ?s1 = "\<lparr>td_tracker = register 500 500 ''abc'' (td_tracker ?s0), td_history = [Registered ''abc'' 500]\<rparr>"
  let ?s2 = "\<lparr>td_tracker = \<lparr>ct_issuedAt = Map.empty, ct_consumed = {''abc''}, ct_maxAgeMs = 5000\<rparr>,
    td_history = [Accepted ''abc'' 700, Registered ''abc'' 500]\<rparr>"
  let ?s3 = "?s2\<lparr>td_history := Refused ''abc'' (PasskeyAssertionReplayedError ''abc'') # td_history ?s2\<rparr>"
  have "tracker_init (Some 5000) ?s0" by (simp add: tracker_init_def)
  moreover have "tracker_step ?s0 ?s1" using step_register [of ?s0] by simp
  moreover have "tracker_step ?s1 ?s2"
    using step_accept [of 700 "''abc''" ?s1]
    by (simp add: consume_def register_def pruneExpired_def stale_def new_tracker_def challenge_age_def Let_def)
  moreover have "tracker_step ?s2 ?s3" using step_refuse [of 800 "''abc''" ?s2] by (simp add: consume_def)
  moreover have "tracker_step ?s3 sample_tracked" using step_register [of ?s3 900 900 "''abc''"] by (simp add: sample_tracked_def)
  ultimately show ?thesis by (meson reach.intros)
qed


section \<open>What is kept and what is forgotten\<close>

text \<open>Consumed challenges are never dropped, however old: the set grows with every challenge that is used.\<close>

theorem consumed_challenges_are_never_dropped:
  assumes "reach (tracker_init m) tracker_step s" "c \<in> ct_consumed (td_tracker s)"
  shows "c \<in> ct_consumed (pruneExpired now (td_tracker s))"
  using challenges.inv_reach [OF assms(1)] prune_keeps_consumed assms(2) by blast

text \<open>A registration of another challenge makes an expired one unknown.\<close>

lemma expired_challenge_becomes_unknown:
  assumes "ct_issuedAt s c = Some t" "c \<notin> ct_consumed s" "now - t > ct_maxAgeMs s" "d \<noteq> c"
  shows "consume now c s = Inl (PasskeyAssertionExpiredError c t (ct_maxAgeMs s)) \<and>
    consume now c (register now now d s) = Inl (UnknownChallenge c)"
  using assms by (simp add: consume_def register_def pruneExpired_def stale_def Let_def)

end
