(* ===== verification/RedirectGuard.thy ===== *)
theory RedirectGuard
  imports Errors
begin

text \<open>
  The redirect guard around \<open>fetch\<close> (\<open>contrib/v659-v661-v664-v665/x402-redirect-guard.ts\<close>). The URL parser of the
  runtime and the wrapped \<open>fetch\<close> are parameters; requests are logged with their answers.
\<close>

section \<open>The guard\<close>

datatype redirect_error =
    X402CrossOriginRedirectError string "string option"
  | X402TooManyRedirectsError int
  | InvalidUrl string
  | BaseFetchError string

record url_view =
  uv_href :: string
  uv_origin :: string

text \<open>\<open>new URL(text, base)\<close>, \<open>None\<close> where it throws.\<close>

type_synonym url_parser = "string option \<Rightarrow> string \<Rightarrow> url_view option"

record redirect_init =
  rqi_method :: "string option"
  rqi_body :: "string option"
  rqi_headers :: "(string \<times> string) list"
  rqi_redirect :: "string option"

record fetch_response =
  fr_type :: string
  fr_status :: nat
  fr_location :: "string option"

datatype fetch_event = Fetched string redirect_init "string + fetch_response"

type_synonym base_fetch = "fetch_event list \<Rightarrow> string \<Rightarrow> redirect_init \<Rightarrow> string + fetch_response"

definition REDIRECT_STATUSES :: "nat set" where "REDIRECT_STATUSES = {301, 302, 303, 307, 308}"

definition location_of :: "fetch_response \<Rightarrow> string option" where
  "location_of res = (if fr_status res \<in> REDIRECT_STATUSES then fr_location res else None)"

definition next_init :: "nat \<Rightarrow> redirect_init \<Rightarrow> redirect_init" where
  "next_init status req =
     (let verb = toUpperCase (case rqi_method req of None \<Rightarrow> ''GET'' | Some m \<Rightarrow> m) in
      if status = 303 \<or> (status = 301 \<or> status = 302) \<and> verb = ''POST''
      then req\<lparr>rqi_method := Some ''GET'', rqi_body := None\<rparr> else req)"

text \<open>\<open>left\<close> is the number of redirects that may still be followed.\<close>

fun follow ::
    "url_parser \<Rightarrow> base_fetch \<Rightarrow> int \<Rightarrow> string \<Rightarrow> nat \<Rightarrow> string \<Rightarrow> redirect_init \<Rightarrow>
     (fetch_event list, redirect_error, fetch_response) act" where
  "follow url base maxRedirects origin left target req tr =
     (let answer = base tr target req; tr1 = tr @ [Fetched target req answer] in
      case answer of
        Inl e \<Rightarrow> (Inl (BaseFetchError e), tr1)
      | Inr res \<Rightarrow>
          if fr_type res = ''opaqueredirect'' then (Inl (X402CrossOriginRedirectError origin None), tr1)
          else
            (case location_of res of
               None \<Rightarrow> (Inr res, tr1)
             | Some location \<Rightarrow>
                 (case url (Some target) location of
                    None \<Rightarrow> (Inl (InvalidUrl location), tr1)
                  | Some nxt \<Rightarrow>
                      if uv_origin nxt \<noteq> origin then (Inl (X402CrossOriginRedirectError origin (Some (uv_href nxt))), tr1)
                      else
                        (case left of
                           0 \<Rightarrow> (Inl (X402TooManyRedirectsError maxRedirects), tr1)
                         | Suc n \<Rightarrow> follow url base maxRedirects origin n (uv_href nxt) (next_init (fr_status res) req) tr1))))"

declare follow.simps [simp del]

definition redirectGuardedFetch ::
    "url_parser \<Rightarrow> base_fetch \<Rightarrow> int option \<Rightarrow> string \<Rightarrow> redirect_init \<Rightarrow>
     (fetch_event list, redirect_error, fetch_response) act" where
  "redirectGuardedFetch url base maxRedirects target req tr =
     (let limit = (case maxRedirects of None \<Rightarrow> 3 | Some m \<Rightarrow> m) in
      case url None target of
        None \<Rightarrow> (Inl (InvalidUrl target), tr)
      | Some u \<Rightarrow> follow url base limit (uv_origin u) (nat limit) target (req\<lparr>rqi_redirect := Some ''manual''\<rparr>) tr)"

section \<open>Requests stay at the origin\<close>

text \<open>
  What is used of the URL parser: the text of a parsed URL is again a URL, of the same origin.
\<close>

definition href_parses :: "url_parser \<Rightarrow> bool" where
  "href_parses url = (\<forall>base text u. url base text = Some u \<longrightarrow>
     (\<exists>v. url None (uv_href u) = Some v \<and> uv_origin v = uv_origin u))"

definition at_origin :: "url_parser \<Rightarrow> string \<Rightarrow> redirect_init \<Rightarrow> fetch_event \<Rightarrow> bool" where
  "at_origin url origin req ev =
     (case ev of Fetched target r answer \<Rightarrow>
        (\<exists>u. url None target = Some u \<and> uv_origin u = origin) \<and> rqi_redirect r = rqi_redirect req \<and> rqi_headers r = rqi_headers req \<and>
        ((rqi_method r = rqi_method req \<and> rqi_body r = rqi_body req) \<or> (rqi_method r = Some ''GET'' \<and> rqi_body r = None)))"

lemma at_origin_next: "at_origin url origin (next_init st req) ev \<Longrightarrow> at_origin url origin req ev"
  by (auto simp: at_origin_def next_init_def Let_def split: fetch_event.splits if_splits)

lemma follow_stays:
  assumes "href_parses url" "url None target = Some u" "uv_origin u = origin"
    and "follow url base m origin left target req tr = (r, tr')"
  shows "\<exists>evs. tr' = tr @ evs \<and> evs \<noteq> [] \<and> length evs \<le> left + 1 \<and> list_all (at_origin url origin req) evs \<and>
    (\<forall>res. r = Inr res \<longrightarrow> (\<exists>t i. last evs = Fetched t i (Inr res)) \<and> location_of res = None)"
  using assms(2-4)
proof (induction left arbitrary: target u req tr)
  case 0
  then show ?case
    by (subst (asm) follow.simps) (auto simp: Let_def at_origin_def split: sum.splits option.splits if_splits)
next
  case (Suc n)
  let ?answer = "base tr target req"
  let ?ev = "Fetched target req ?answer"
  have here: "at_origin url origin req ?ev" using Suc.prems(1,2) by (simp add: at_origin_def)
  show ?case
  proof (cases "\<exists>res location nxt. ?answer = Inr res \<and> fr_type res \<noteq> ''opaqueredirect'' \<and> location_of res = Some location \<and>
      url (Some target) location = Some nxt \<and> uv_origin nxt = origin")
    case True
    then obtain res location nxt where hop: "?answer = Inr res" "fr_type res \<noteq> ''opaqueredirect''" "location_of res = Some location"
      "url (Some target) location = Some nxt" "uv_origin nxt = origin" by blast
    obtain v where v: "url None (uv_href nxt) = Some v" "uv_origin v = origin" using assms(1) hop(4,5) unfolding href_parses_def by blast
    have "follow url base m origin n (uv_href nxt) (next_init (fr_status res) req) (tr @ [?ev]) = (r, tr')"
      using Suc.prems(3) hop by (subst (asm) follow.simps) (simp add: Let_def)
    from Suc.IH [OF v this] obtain evs where "tr' = (tr @ [?ev]) @ evs" "evs \<noteq> []" "length evs \<le> n + 1"
      "list_all (at_origin url origin (next_init (fr_status res) req)) evs"
      "\<forall>res. r = Inr res \<longrightarrow> (\<exists>t i. last evs = Fetched t i (Inr res)) \<and> location_of res = None" by blast
    then show ?thesis using here at_origin_next by (intro exI [of _ "?ev # evs"]) (auto simp: list_all_iff)
  next
    case False
    then show ?thesis
      using Suc.prems(3) here by (subst (asm) follow.simps) (auto simp: Let_def split: sum.splits option.splits if_splits)
  qed
qed

text \<open>
  C5 (safety): with the guard every request goes to the origin of the URL it was called with, with the headers it was
  called with and its body dropped at most, whatever the servers answer. At most \<open>maxRedirects + 1\<close> requests are made; the
  response that is returned is the last answer and not a redirect.
\<close>

theorem requests_stay_at_the_origin:
  assumes "href_parses url" "redirectGuardedFetch url base maxRedirects target req tr = (r, tr @ evs)"
  shows "evs = [] \<or> (\<exists>u. url None target = Some u \<and>
    list_all (at_origin url (uv_origin u) (req\<lparr>rqi_redirect := Some ''manual''\<rparr>)) evs \<and>
    length evs \<le> nat (case maxRedirects of None \<Rightarrow> 3 | Some m \<Rightarrow> m) + 1 \<and>
    (\<forall>res. r = Inr res \<longrightarrow> (\<exists>t i. last evs = Fetched t i (Inr res)) \<and> location_of res = None))"
proof (cases "url None target")
  case None
  then show ?thesis using assms(2) by (simp add: redirectGuardedFetch_def)
next
  case (Some u)
  then show ?thesis
    using assms(2) follow_stays [OF assms(1) Some refl] by (fastforce simp: redirectGuardedFetch_def Let_def)
qed

text \<open>A parser of URLs of the form \<open>scheme://host/path\<close>, and of paths relative to one.\<close>

definition sample_parser :: url_parser where
  "sample_parser base text =
     (if startsWith text ''/'' then
        (case base of
           Some b \<Rightarrow> if startsWith b ''https://a.example'' then Some \<lparr>uv_href = ''https://a.example'' @ text, uv_origin = ''https://a.example''\<rparr> else None
         | None \<Rightarrow> None)
      else if startsWith text ''https://a.example'' then Some \<lparr>uv_href = text, uv_origin = ''https://a.example''\<rparr>
      else if startsWith text ''https://b.example'' then Some \<lparr>uv_href = text, uv_origin = ''https://b.example''\<rparr>
      else None)"

lemma sample_parser_href: "href_parses sample_parser"
  by (auto simp: href_parses_def sample_parser_def startsWith_def split: if_splits option.splits)

text \<open>The server moves the resource once, then sends the request to another host.\<close>

definition sample_redirects :: base_fetch where
  "sample_redirects tr target req =
     Inr (if length tr = 0 then \<lparr>fr_type = ''basic'', fr_status = 307, fr_location = Some ''/v2''\<rparr>
          else \<lparr>fr_type = ''basic'', fr_status = 302, fr_location = Some ''https://b.example/collect''\<rparr>)"

definition sample_redirect_init :: redirect_init where
  "sample_redirect_init = \<lparr>rqi_method = Some ''POST'', rqi_body = Some ''q'', rqi_headers = [(''PAYMENT-SIGNATURE'', ''sig'')], rqi_redirect = None\<rparr>"

theorem requests_stay_at_the_origin_witness:
  "\<exists>evs. redirectGuardedFetch sample_parser sample_redirects None ''https://a.example/paid'' sample_redirect_init [] =
      (Inl (X402CrossOriginRedirectError ''https://a.example'' (Some ''https://b.example/collect'')), evs) \<and>
    length evs = 2 \<and> list_all (at_origin sample_parser ''https://a.example'' (sample_redirect_init\<lparr>rqi_redirect := Some ''manual''\<rparr>)) evs"
proof -
  let ?run = "redirectGuardedFetch sample_parser sample_redirects None ''https://a.example/paid'' sample_redirect_init []"
  have run: "fst ?run = Inl (X402CrossOriginRedirectError ''https://a.example'' (Some ''https://b.example/collect''))"
    "length (snd ?run) = 2"
    by (simp_all add: redirectGuardedFetch_def follow.simps sample_parser_def sample_redirects_def sample_redirect_init_def startsWith_def
        location_of_def REDIRECT_STATUSES_def Let_def numeral_3_eq_3)
  have "?run = (fst ?run, [] @ snd ?run)" by simp
  from requests_stay_at_the_origin [OF sample_parser_href this] run(2)
  have "list_all (at_origin sample_parser ''https://a.example'' (sample_redirect_init\<lparr>rqi_redirect := Some ''manual''\<rparr>)) (snd ?run)"
    by (auto simp: sample_parser_def startsWith_def)
  then show ?thesis using run by (intro exI [of _ "snd ?run"]) (metis prod.collapse)
qed

section \<open>What differs from a followed redirect\<close>

text \<open>The request after a 303 is a \<open>GET\<close>, also when a \<open>HEAD\<close> was asked for.\<close>

lemma head_becomes_get: "rqi_method req = Some ''HEAD'' \<Longrightarrow> rqi_method (next_init 303 req) = Some ''GET''"
  by (simp add: next_init_def Let_def)

end
