(* ===== verification/ResumableDeploy.thy ===== *)
theory ResumableDeploy
  imports Services
begin

text \<open>
  The resumable policy deployment (\<open>contrib/wave-447-448-449-450/resumable-deploy.ts\<close>) over the policy client and the attach
  runtime of \<open>Services\<close>, on the same trace. The waits between retries have no effect on it.
\<close>

section \<open>Deploying and resuming\<close>

definition MAX_RETRY_ATTEMPTS :: nat where "MAX_RETRY_ATTEMPTS = 3"

text \<open>A \<open>DeployPolicyError\<close> has the contract, the hash of the attachment if there is one, and the cause.\<close>

datatype deploy_error = DeployPolicyError json "json option" js_error | NotDeployed js_error

type_synonym 'a deployment = "(service_event list, deploy_error, 'a) act"

text \<open>\<open>retry_if n\<close>: the attempt with \<open>n\<close> attempts left after it.\<close>

primrec retry_if :: "nat \<Rightarrow> 'a service \<Rightarrow> 'a service" where
  "retry_if 0 fn = fn"
| "retry_if (Suc n) fn = tryCatch fn (\<lambda>e. if retryable e then retry_if n fn else throw e)"

definition retryIfRetryable :: "'a service \<Rightarrow> 'a service" where
  "retryIfRetryable fn = retry_if (MAX_RETRY_ATTEMPTS - 1) fn"

text \<open>\<open>catch\<close> that wraps the error.\<close>

definition wrapping :: "(js_error \<Rightarrow> deploy_error) \<Rightarrow> 'a service \<Rightarrow> 'a deployment" where
  "wrapping f m = (\<lambda>tr. case m tr of (Inl e, tr') \<Rightarrow> (Inl (f e), tr') | (Inr x, tr') \<Rightarrow> (Inr x, tr'))"

definition attach_step :: "attach_runtime \<Rightarrow> string option \<Rightarrow> json \<Rightarrow> json service" where
  "attach_step rt key contractId =
     andThen (resumeKey rt key) (\<lambda>_.
     andThen (loggedCall (\<lambda>tr. ar_attach rt tr contractId) (SAttach contractId)) (\<lambda>attached.
       lift (member_of ''hash'' attached)))"

definition resumableDeploy :: "policy_env \<Rightarrow> facade_session \<Rightarrow> attach_runtime \<Rightarrow> string \<Rightarrow> deploy_result deployment" where
  "resumableDeploy env ses rt policyId =
     andThen (wrapping NotDeployed (lift ses)) (\<lambda>(accountId, key).
     andThen (wrapping NotDeployed (retryIfRetryable (deployInstance env policyId accountId))) (\<lambda>contractId.
     andThen (wrapping (DeployPolicyError contractId None) (attach_step rt key contractId)) (\<lambda>attachHash.
     andThen (wrapping (DeployPolicyError contractId (Some attachHash))
       (retryIfRetryable (recordDeployment env policyId attachHash contractId))) (\<lambda>policy.
       ret \<lparr>dr_policy = policy, dr_contractId = contractId, dr_attachTxHash = attachHash\<rparr>))))"

text \<open>\<open>contractId\<close> may be left out; the result then has the empty text.\<close>

definition resumeDeploy :: "policy_env \<Rightarrow> string \<Rightarrow> json \<Rightarrow> json option \<Rightarrow> deploy_result service" where
  "resumeDeploy env policyId attachTxHash contractId =
     andThen (retryIfRetryable (recordDeployment env policyId attachTxHash (case contractId of None \<Rightarrow> JUndefined | Some c \<Rightarrow> c)))
       (\<lambda>policy. ret \<lparr>dr_policy = policy, dr_contractId = (case contractId of None \<Rightarrow> JStr '''' | Some c \<Rightarrow> c),
          dr_attachTxHash = attachTxHash\<rparr>)"

section \<open>Retried requests\<close>

text \<open>Between one and \<open>n\<close> sendings of one request, all but the last answered with an error that may be retried.\<close>

definition sent :: "nat \<Rightarrow> http_request \<Rightarrow> service_event list \<Rightarrow> bool" where
  "sent n rq evs = (evs \<noteq> [] \<and> length evs \<le> n \<and> (\<forall>e \<in> set evs. \<exists>a. e = SRequest rq a))"

lemma request_run:
  "andThen (req env path body) (\<lambda>v. lift (g v)) tr =
     (let a = pl_fetch env tr (policy_request env path body) in
      (ebind (req_result a) g, tr @ [SRequest (policy_request env path body) a]))"
  by (auto simp: act_defs req_def Let_def ebind_def split: sum.splits)

lemma retry_if_sent:
  assumes "retry_if n (andThen (req env path body) (\<lambda>v. lift (g v))) tr = (r, tr')"
  shows "\<exists>evs. tr' = tr @ evs \<and> sent (n + 1) (policy_request env path body) evs \<and>
    (\<exists>a. last evs = SRequest (policy_request env path body) a \<and> r = ebind (req_result a) g)"
  using assms
proof (induction n arbitrary: tr)
  case 0
  then show ?case
    by (auto simp: request_run Let_def sent_def)
next
  case (Suc n)
  let ?rq = "policy_request env path body"
  let ?a = "pl_fetch env tr ?rq"
  let ?fn = "andThen (req env path body) (\<lambda>v. lift (g v))"
  have one: "?fn tr = (ebind (req_result ?a) g, tr @ [SRequest ?rq ?a])"
    by (simp add: request_run Let_def)
  show ?case
  proof (cases "\<exists>e. ebind (req_result ?a) g = Inl e \<and> retryable e")
    case True
    then have "retry_if n ?fn (tr @ [SRequest ?rq ?a]) = (r, tr')" using Suc.prems by (auto simp: tryCatch_def one)
    from Suc.IH [OF this] obtain evs a where "tr' = (tr @ [SRequest ?rq ?a]) @ evs" "sent (n + 1) ?rq evs"
      "last evs = SRequest ?rq a" "r = ebind (req_result a) g" by blast
    then show ?thesis by (intro exI [of _ "SRequest ?rq ?a # evs"]) (auto simp: sent_def)
  next
    case False
    then have "r = ebind (req_result ?a) g \<and> tr' = tr @ [SRequest ?rq ?a]"
      using Suc.prems by (auto simp: tryCatch_def one throw_def split: sum.splits if_splits)
    then show ?thesis by (auto simp: sent_def)
  qed
qed

lemma instance_sent:
  assumes "retryIfRetryable (deployInstance env policyId account) tr = (r, tr')"
  shows "\<exists>evs. tr' = tr @ evs \<and> sent 3 (instance_request env policyId account) evs \<and>
    (\<exists>a. last evs = SRequest (instance_request env policyId account) a \<and> r = ebind (req_result a) (member_of ''contractId''))"
  using retry_if_sent [OF assms [unfolded retryIfRetryable_def deployInstance_def]]
  by (simp add: MAX_RETRY_ATTEMPTS_def)

lemma record_sent:
  assumes "retryIfRetryable (recordDeployment env policyId txHash c) tr = (r, tr')"
  shows "\<exists>evs. tr' = tr @ evs \<and> sent 3 (record_request env policyId txHash c) evs \<and>
    (\<exists>a. last evs = SRequest (record_request env policyId txHash c) a \<and> r = ebind (req_result a) (member_of ''policy''))"
  using retry_if_sent [OF assms [unfolded retryIfRetryable_def recordDeployment_def]]
  by (simp add: MAX_RETRY_ATTEMPTS_def)

text \<open>The step of the passkey: at most one prompt, for this contract.\<close>

definition prompts_once :: "json \<Rightarrow> js_error + json \<Rightarrow> service_event list \<Rightarrow> bool" where
  "prompts_once c r evs = (\<exists>mid. resumes mid \<and>
     (evs = mid \<and> (\<exists>e. r = Inl e) \<or>
      (\<exists>x. evs = mid @ [SAttach c x] \<and> (\<forall>h. r = Inr h \<longrightarrow> (\<exists>v. x = Inr v \<and> h = jprop v ''hash'')))))"

lemma resumeKey_run: "\<exists>r mid. resumeKey rt key tr = (r, tr @ mid) \<and> resumes mid"
  by (auto simp: resumeKey_def loggedCall_def ret_def resumes_def split: option.splits)

lemma attach_step_prompts:
  assumes "attach_step rt key c tr = (r, tr')"
  shows "\<exists>evs. tr' = tr @ evs \<and> prompts_once c r evs"
proof -
  obtain r0 mid where k: "resumeKey rt key tr = (r0, tr @ mid)" "resumes mid" using resumeKey_run by blast
  show ?thesis
  proof (cases r0)
    case (Inl e)
    then have "r = Inl e \<and> tr' = tr @ mid" using assms k(1) by (simp add: attach_step_def andThen_def)
    then show ?thesis using k(2) by (auto simp: prompts_once_def)
  next
    case (Inr u)
    let ?x = "ar_attach rt (tr @ mid) c"
    have "r = ebind (map_sum Thrown id ?x) (member_of ''hash'') \<and> tr' = tr @ mid @ [SAttach c ?x]"
      using assms k(1) Inr by (auto simp: attach_step_def andThen_def loggedCall_def lift_def ebind_def split: sum.splits)
    then show ?thesis
      using k(2) by (cases ?x) (auto simp: prompts_once_def ebind_def member_of_def)
  qed
qed

section \<open>One prompt per deployment\<close>

text \<open>How far a deployment got, with what it asked.\<close>

inductive resumable_events ::
    "policy_env \<Rightarrow> string \<Rightarrow> string \<Rightarrow> deploy_error + deploy_result \<Rightarrow> service_event list \<Rightarrow> bool"
  for env policyId account where
  not_deployed: "sent 3 (instance_request env policyId account) evs \<Longrightarrow>
    resumable_events env policyId account (Inl (NotDeployed e)) evs"
| not_attached: "sent 3 (instance_request env policyId account) evs \<Longrightarrow>
    last evs = SRequest (instance_request env policyId account) a \<Longrightarrow> req_result a = Inr v \<Longrightarrow> c = jprop v ''contractId'' \<Longrightarrow>
    prompts_once c (Inl e) mid \<Longrightarrow> resumable_events env policyId account (Inl (DeployPolicyError c None e)) (evs @ mid)"
| attached: "sent 3 (instance_request env policyId account) evs \<Longrightarrow>
    last evs = SRequest (instance_request env policyId account) a \<Longrightarrow> req_result a = Inr v \<Longrightarrow> c = jprop v ''contractId'' \<Longrightarrow>
    prompts_once c (Inr h) mid \<Longrightarrow> sent 3 (record_request env policyId h c) recs \<Longrightarrow>
    last recs = SRequest (record_request env policyId h c) ra \<Longrightarrow>
    (r = (case ebind (req_result ra) (member_of ''policy'') of
       Inl e \<Rightarrow> Inl (DeployPolicyError c (Some h) e)
     | Inr p \<Rightarrow> Inr \<lparr>dr_policy = p, dr_contractId = c, dr_attachTxHash = h\<rparr>)) \<Longrightarrow>
    resumable_events env policyId account r (evs @ mid @ recs)"

lemma resumableDeploy_events:
  assumes "resumableDeploy env (Inr (account, key)) rt policyId tr = (r, tr')"
  shows "\<exists>evs. tr' = tr @ evs \<and> resumable_events env policyId account r evs"
proof -
  obtain r1 t1 where i: "retryIfRetryable (deployInstance env policyId account) tr = (r1, t1)" by fastforce
  obtain evs a where evs: "t1 = tr @ evs" "sent 3 (instance_request env policyId account) evs"
    "last evs = SRequest (instance_request env policyId account) a" "r1 = ebind (req_result a) (member_of ''contractId'')"
    using instance_sent [OF i] by blast
  show ?thesis
  proof (cases r1)
    case (Inl e)
    then have "r = Inl (NotDeployed e)" "tr' = t1"
      using assms i by (auto simp: resumableDeploy_def andThen_def wrapping_def lift_def)
    then show ?thesis using evs not_deployed by blast
  next
    case (Inr c)
    then obtain v where v: "req_result a = Inr v" "c = jprop v ''contractId''"
      using evs(4) by (auto simp: ebind_def member_of_def split: sum.splits if_splits)
    obtain r2 t2 where at: "attach_step rt key c t1 = (r2, t2)" by fastforce
    obtain mid where mid: "t2 = t1 @ mid" "prompts_once c r2 mid" using attach_step_prompts [OF at] by blast
    show ?thesis
    proof (cases r2)
      case (Inl e)
      then have "r = Inl (DeployPolicyError c None e)" "tr' = t2"
        using assms i at Inr by (auto simp: resumableDeploy_def andThen_def wrapping_def lift_def)
      then show ?thesis using evs v mid Inl resumable_events.not_attached by fastforce
    next
      case (Inr h)
      obtain r3 t3 where re: "retryIfRetryable (recordDeployment env policyId h c) t2 = (r3, t3)" by fastforce
      obtain recs ra where recs: "t3 = t2 @ recs" "sent 3 (record_request env policyId h c) recs"
        "last recs = SRequest (record_request env policyId h c) ra" "r3 = ebind (req_result ra) (member_of ''policy'')"
        using record_sent [OF re] by blast
      have "r = (case r3 of Inl e \<Rightarrow> Inl (DeployPolicyError c (Some h) e)
          | Inr p \<Rightarrow> Inr \<lparr>dr_policy = p, dr_contractId = c, dr_attachTxHash = h\<rparr>) \<and> tr' = t3"
        using assms i at re \<open>r1 = Inr c\<close> Inr
        by (auto simp: resumableDeploy_def andThen_def wrapping_def lift_def ret_def split: sum.splits)
      then show ?thesis
        using resumable_events.attached [OF evs(2,3) v, of h mid recs ra] recs mid evs(1) Inr by auto
    qed
  qed
qed

lemma sent_no_attach: "sent n rq evs \<Longrightarrow> filter is_attach evs = []"
  by (fastforce simp: sent_def filter_empty_conv is_attach_def)

lemma prompts_once_attach: "prompts_once c r evs \<Longrightarrow> length (filter is_attach evs) \<le> 1"
  by (auto simp: prompts_once_def resumes_def is_attach_def)

text \<open>
  C16 (safety): the passkey is prompted at most once per logical deployment. A run of \<open>resumableDeploy\<close> prompts at most
  once, sends the request for an instance and the one that records it at most three times each; when it fails with the hash of an
  attachment, that attachment was made, for the contract of the error, and \<open>resumeDeploy\<close> with that error's hash and contract
  prompts never, sends only the missing record at most three times, and, when it returns, returns what the deployment
  would have returned.
\<close>

theorem one_prompt_per_deployment:
  assumes "resumableDeploy env (Inr (account, key)) rt policyId tr = (r, tr @ evs)"
  shows "length (filter is_attach evs) \<le> 1 \<and>
    (\<forall>c h e. r = Inl (DeployPolicyError c (Some h) e) \<longrightarrow>
       (\<exists>v. SAttach c (Inr v) \<in> set evs \<and> h = jprop v ''hash'') \<and>
       (\<forall>r2 tr2. resumeDeploy env policyId h (Some c) (tr @ evs) = (r2, tr2) \<longrightarrow>
          (\<exists>recs a. tr2 = tr @ evs @ recs \<and> sent 3 (record_request env policyId h c) recs \<and>
             last recs = SRequest (record_request env policyId h c) a \<and>
             (\<forall>d. r2 = Inr d \<longrightarrow> dr_contractId d = c \<and> dr_attachTxHash d = h \<and>
                (\<exists>p. req_result a = Inr p \<and> dr_policy d = jprop p ''policy'')))))"
proof (intro conjI allI impI)
  have run: "resumable_events env policyId account r evs" using resumableDeploy_events [OF assms] by auto
  then show "length (filter is_attach evs) \<le> 1"
    by cases (auto simp: sent_no_attach dest: prompts_once_attach)
  fix c h e assume r: "r = Inl (DeployPolicyError c (Some h) e)"
  show "\<exists>v. SAttach c (Inr v) \<in> set evs \<and> h = jprop v ''hash''"
    using run r by cases (auto simp: prompts_once_def split: sum.splits)
  fix r2 tr2 assume "resumeDeploy env policyId h (Some c) (tr @ evs) = (r2, tr2)"
  then obtain r3 where "retryIfRetryable (recordDeployment env policyId h c) (tr @ evs) = (r3, tr2)"
    and r2: "r2 = map_sum id (\<lambda>p. \<lparr>dr_policy = p, dr_contractId = c, dr_attachTxHash = h\<rparr>) r3"
    by (auto simp: resumeDeploy_def andThen_def ret_def split: sum.splits prod.splits)
  from record_sent [OF this(1)] obtain recs a where "tr2 = (tr @ evs) @ recs" "sent 3 (record_request env policyId h c) recs"
    "last recs = SRequest (record_request env policyId h c) a" "r3 = ebind (req_result a) (member_of ''policy'')" by blast
  then show "\<exists>recs a. tr2 = tr @ evs @ recs \<and> sent 3 (record_request env policyId h c) recs \<and>
      last recs = SRequest (record_request env policyId h c) a \<and>
      (\<forall>d. r2 = Inr d \<longrightarrow> dr_contractId d = c \<and> dr_attachTxHash d = h \<and>
         (\<exists>p. req_result a = Inr p \<and> dr_policy d = jprop p ''policy''))"
    using r2 by (auto simp: ebind_def member_of_def split: sum.splits if_splits)
qed

text \<open>The record is refused three times; resuming completes it.\<close>

definition sample_policy_service :: policy_env where
  "sample_policy_service =
     \<lparr>pl_apiUrl = ''https://api'', pl_network = ''testnet'',
      pl_fetch = (\<lambda>tr rq. Inr
        (if rq_url rq \<noteq> ''https://api/policies/deploy'' then \<lparr>rs_status = 200, rs_json = Inr (JObj [(''contractId'', JStr ''CPOLICY'')])\<rparr>
         else if length tr < 5 then \<lparr>rs_status = 503, rs_json = Inr (JObj [])\<rparr>
         else \<lparr>rs_status = 200, rs_json = Inr (JObj [(''policy'', JStr ''P1'')])\<rparr>))\<rparr>"

definition sample_attach :: attach_runtime where
  "sample_attach = \<lparr>ar_resume = None, ar_attach = (\<lambda>tr c. Inr (JObj [(''hash'', JStr ''H1'')]))\<rparr>"

lemmas sample_deploy_simps = resumableDeploy_def resumeDeploy_def attach_step_def resumeKey_def retryIfRetryable_def
  MAX_RETRY_ATTEMPTS_def deployInstance_def recordDeployment_def request_run loggedCall_def wrapping_def tryCatch_def andThen_def
  lift_def ret_def sample_policy_service_def sample_attach_def policy_request_def response_ok_def member_of_def retryable_def
  isRetryableStatus_def strip_slashes_def truthy_def ebind_def

theorem one_prompt_per_deployment_witness:
  "\<exists>evs e. resumableDeploy sample_policy_service (Inr (''CWALLET'', None)) sample_attach ''p1'' [] =
      (Inl (DeployPolicyError (JStr ''CPOLICY'') (Some (JStr ''H1'')) e), evs) \<and> length evs = 5 \<and>
    length (filter is_attach evs) \<le> 1 \<and>
    (\<exists>d recs. resumeDeploy sample_policy_service ''p1'' (JStr ''H1'') (Some (JStr ''CPOLICY'')) evs = (Inr d, evs @ recs) \<and>
       dr_contractId d = JStr ''CPOLICY'' \<and> length recs \<le> 3)"
proof -
  let ?run = "resumableDeploy sample_policy_service (Inr (''CWALLET'', None)) sample_attach ''p1'' []"
  let ?again = "resumeDeploy sample_policy_service ''p1'' (JStr ''H1'') (Some (JStr ''CPOLICY'')) (snd ?run)"
  obtain e where e: "fst ?run = Inl (DeployPolicyError (JStr ''CPOLICY'') (Some (JStr ''H1'')) e)"
    by (simp add: sample_deploy_simps numeral_2_eq_2 Let_def req_def)
  have len: "length (snd ?run) = 5" and ok: "\<exists>d. fst ?again = Inr d"
    by (simp_all add: sample_deploy_simps numeral_2_eq_2 Let_def req_def)
  have run: "?run = (Inl (DeployPolicyError (JStr ''CPOLICY'') (Some (JStr ''H1'')) e), [] @ snd ?run)"
    using e by (metis append_Nil prod.collapse)
  have again: "?again = (fst ?again, snd ?again)" by simp
  from ok obtain d where d: "fst ?again = Inr d" by blast
  from one_prompt_per_deployment [OF run] again d
  obtain recs where "snd ?again = snd ?run @ recs" "sent 3 (record_request sample_policy_service ''p1'' (JStr ''H1'') (JStr ''CPOLICY'')) recs"
    "dr_contractId d = JStr ''CPOLICY''" by fastforce
  moreover have "length (filter is_attach (snd ?run)) \<le> 1" using one_prompt_per_deployment [OF run] by simp
  ultimately show ?thesis
    using e len d by (intro exI [of _ "snd ?run"] exI [of _ e]) (auto simp: sent_def intro!: exI [of _ d] exI [of _ recs] prod_eqI)
qed

section \<open>A lost attach response\<close>

text \<open>
  When the answer of the runtime is lost, the error has no hash: there is nothing \<open>resumeDeploy\<close> could be given,
  and another run asks for another instance and prompts again.
\<close>

lemma lost_attach_has_no_hash:
  assumes "resumableDeploy env (Inr (account, key)) rt policyId tr = (Inl (DeployPolicyError c h e), tr')"
    and "\<And>tr. \<exists>m. ar_attach rt tr c = Inl m"
  shows "h = None"
proof (rule ccontr)
  assume "h \<noteq> None"
  obtain r1 t1 where i: "retryIfRetryable (deployInstance env policyId account) tr = (r1, t1)" by fastforce
  from assms(1) i \<open>h \<noteq> None\<close> obtain k t2 where "attach_step rt key c t1 = (Inr k, t2)"
    by (auto simp: resumableDeploy_def andThen_def wrapping_def lift_def ret_def split: sum.splits prod.splits)
  then show False using assms(2)
    by (auto simp: attach_step_def andThen_def loggedCall_def split: sum.splits prod.splits) (metis map_sum.simps(1) sum.distinct(1))
qed

text \<open>A request for an instance whose answer is lost is sent again, whether or not the instance was deployed.\<close>

lemma lost_instance_is_deployed_again:
  assumes "\<And>rq. pl_fetch env tr rq = Inl m"
  shows "\<exists>r evs. retryIfRetryable (deployInstance env policyId account) tr = (r, tr @ evs) \<and> 2 \<le> length evs"
proof -
  let ?rq = "instance_request env policyId account"
  let ?fn = "deployInstance env policyId account"
  have first: "?fn tr = (Inl (Wallet (PolicyApiError (JStr m) 0 JUndefined)), tr @ [SRequest ?rq (Inl m)])"
    using assms by (simp add: deployInstance_def request_run Let_def)
  obtain r tr' where again: "retry_if 1 ?fn (tr @ [SRequest ?rq (Inl m)]) = (r, tr')" by fastforce
  obtain evs where "tr' = (tr @ [SRequest ?rq (Inl m)]) @ evs" "evs \<noteq> []"
    using retry_if_sent [OF again [unfolded deployInstance_def]] by (auto simp: sent_def)
  then show ?thesis
    using first again
    by (intro exI [of _ r] exI [of _ "SRequest ?rq (Inl m) # evs"])
      (simp add: retryIfRetryable_def MAX_RETRY_ATTEMPTS_def numeral_2_eq_2 tryCatch_def retryable_def isRetryableStatus_def
        Suc_le_eq del: retry_if.simps(2), subst retry_if.simps(2), simp add: tryCatch_def retryable_def isRetryableStatus_def)
qed

end
