(* ===== verification/SettledLedger.thy ===== *)
theory SettledLedger
  imports UptoReceipt
begin

text \<open>
  The settled-spend ledger (\<open>contrib/mcp-payer-wave-511/settled-spend-ledger.ts\<close>): like the session budget of
  \<open>UptoReceipt\<close> it reserves and settles, but checks its arguments, so that it keeps its bounds for every caller.
\<close>

section \<open>The ledger\<close>

record settled_ledger =
  stl_ceilings :: "(string \<times> int) list"
  stl_spent :: "string \<rightharpoonup> int"
  stl_reserved :: "string \<rightharpoonup> int"

definition createSettledSpendLedger :: "(string \<times> int) list \<Rightarrow> settled_ledger" where
  "createSettledSpendLedger ceilings = \<lparr>stl_ceilings = ceilings, stl_spent = Map.empty, stl_reserved = Map.empty\<rparr>"

definition settledCeilingFor :: "settled_ledger \<Rightarrow> string \<Rightarrow> int outcome" where
  "settledCeilingFor l asset =
     (case map_of (stl_ceilings l) asset of
        None \<Rightarrow> Inl (Payer (SessionCeilingExceededError asset 0 0 0))
      | Some c \<Rightarrow> Inr c)"

definition amountForOperation :: "int \<Rightarrow> unit outcome" where
  "amountForOperation amount = require (0 \<le> amount) (Thrown ''Spend amounts cannot be negative.'')"

definition entry_of :: "(string \<rightharpoonup> int) \<Rightarrow> string \<Rightarrow> int" where
  "entry_of m asset = (case m asset of None \<Rightarrow> 0 | Some v \<Rightarrow> v)"

definition sl_reserve :: "string \<Rightarrow> int \<Rightarrow> settled_ledger \<Rightarrow> settled_ledger outcome" where
  "sl_reserve asset requestedAmount l =
     ebind (amountForOperation requestedAmount) (\<lambda>_.
     ebind (settledCeilingFor l asset) (\<lambda>limit.
       let currentSpent = entry_of (stl_spent l) asset; currentReserved = entry_of (stl_reserved l) asset in
       if currentSpent + currentReserved + requestedAmount > limit
       then Inl (Payer (SessionCeilingExceededError asset requestedAmount (currentSpent + currentReserved) limit))
       else Inr (l\<lparr>stl_reserved := (stl_reserved l)(asset \<mapsto> currentReserved + requestedAmount)\<rparr>)))"

definition sl_settle :: "string \<Rightarrow> int \<Rightarrow> int \<Rightarrow> settled_ledger \<Rightarrow> settled_ledger outcome" where
  "sl_settle asset requestedAmount settledAmount l =
     ebind (amountForOperation requestedAmount) (\<lambda>_.
     ebind (amountForOperation settledAmount) (\<lambda>_.
     ebind (settledCeilingFor l asset) (\<lambda>_.
     ebind (require (settledAmount \<le> requestedAmount) (Thrown ''Settled amount cannot exceed its reservation.'')) (\<lambda>_.
       let currentReserved = entry_of (stl_reserved l) asset in
       if currentReserved < requestedAmount then Inl (Thrown ''Cannot settle more budget than is reserved.'')
       else Inr (l\<lparr>stl_reserved := (stl_reserved l)(asset \<mapsto> currentReserved - requestedAmount),
                   stl_spent := (stl_spent l)(asset \<mapsto> entry_of (stl_spent l) asset + settledAmount)\<rparr>)))))"

definition sl_release :: "string \<Rightarrow> int \<Rightarrow> settled_ledger \<Rightarrow> settled_ledger outcome" where
  "sl_release asset requestedAmount l =
     ebind (amountForOperation requestedAmount) (\<lambda>_.
     ebind (settledCeilingFor l asset) (\<lambda>_.
       let currentReserved = entry_of (stl_reserved l) asset in
       if currentReserved < requestedAmount then Inl (Thrown ''Cannot release more budget than is reserved.'')
       else Inr (l\<lparr>stl_reserved := (stl_reserved l)(asset \<mapsto> currentReserved - requestedAmount)\<rparr>)))"

definition sl_remainingFor :: "string \<Rightarrow> settled_ledger \<Rightarrow> int outcome" where
  "sl_remainingFor asset l =
     ebind (settledCeilingFor l asset) (\<lambda>limit.
       let remaining = limit - entry_of (stl_spent l) asset - entry_of (stl_reserved l) asset in
       Inr (if remaining > 0 then remaining else 0))"

section \<open>Any calls\<close>

datatype sl_call = Reserve string int | Settle string int int | Release string int

fun sl_do :: "sl_call \<Rightarrow> settled_ledger \<Rightarrow> settled_ledger outcome" where
  "sl_do (Reserve asset n) l = sl_reserve asset n l"
| "sl_do (Settle asset n p) l = sl_settle asset n p l"
| "sl_do (Release asset n) l = sl_release asset n l"

text \<open>A caller that may go on after an error: a call that throws leaves the ledger as it was.\<close>

definition sl_call_step :: "sl_call \<Rightarrow> settled_ledger \<Rightarrow> bool \<times> settled_ledger" where
  "sl_call_step c l = (case sl_do c l of Inl _ \<Rightarrow> (False, l) | Inr l' \<Rightarrow> (True, l'))"

text \<open>The specification: what was settled and what is reserved, counted from the calls that were accepted.\<close>

fun settled_by :: "string \<Rightarrow> (sl_call \<times> bool) list \<Rightarrow> int" where
  "settled_by asset [] = 0"
| "settled_by asset ((Settle a n p, True) # cs) = (if a = asset then p else 0) + settled_by asset cs"
| "settled_by asset (c # cs) = settled_by asset cs"

fun reserved_by :: "string \<Rightarrow> (sl_call \<times> bool) list \<Rightarrow> int" where
  "reserved_by asset [] = 0"
| "reserved_by asset ((Reserve a n, True) # cs) = (if a = asset then n else 0) + reserved_by asset cs"
| "reserved_by asset ((Settle a n p, True) # cs) = reserved_by asset cs - (if a = asset then n else 0)"
| "reserved_by asset ((Release a n, True) # cs) = reserved_by asset cs - (if a = asset then n else 0)"
| "reserved_by asset (c # cs) = reserved_by asset cs"

definition sl_wf :: "(string \<times> int) list \<Rightarrow> settled_ledger \<Rightarrow> bool" where
  "sl_wf ceilings l =
     (stl_ceilings l = ceilings \<and>
      (\<forall>asset. 0 \<le> entry_of (stl_spent l) asset \<and> 0 \<le> entry_of (stl_reserved l) asset \<and>
         (case map_of ceilings asset of
            None \<Rightarrow> entry_of (stl_spent l) asset = 0 \<and> entry_of (stl_reserved l) asset = 0
          | Some limit \<Rightarrow> entry_of (stl_spent l) asset + entry_of (stl_reserved l) asset \<le> limit)))"

lemma entry_of_upd [simp]: "entry_of (m(a \<mapsto> v)) b = (if b = a then v else entry_of m b)"
  by (simp add: entry_of_def)

lemmas sl_defs = sl_reserve_def sl_settle_def sl_release_def amountForOperation_def settledCeilingFor_def require_def Let_def

text \<open>What an accepted call does to the entries of its asset.\<close>

lemma sl_do_entries:
  assumes "sl_do c l = Inr l'"
  obtains a limit s r where "map_of (stl_ceilings l) a = Some limit" "stl_ceilings l' = stl_ceilings l"
    "\<And>x. entry_of (stl_spent l') x = entry_of (stl_spent l) x + (if a = x then s else 0)"
    "\<And>x. entry_of (stl_reserved l') x = entry_of (stl_reserved l) x + (if a = x then r else 0)"
    "0 \<le> s" "0 \<le> r \<or> 0 \<le> entry_of (stl_reserved l) a + r" "s + r \<le> 0 \<or> entry_of (stl_spent l) a + entry_of (stl_reserved l) a + s + r \<le> limit"
    "\<And>x. settled_by x [(c, True)] = (if a = x then s else 0)" "\<And>x. reserved_by x [(c, True)] = (if a = x then r else 0)"
proof (cases c)
  case (Reserve a n)
  then show ?thesis using assms that [of a _ 0 n] by (auto simp: sl_defs split: option.splits if_splits)
next
  case (Settle a n p)
  then show ?thesis using assms that [of a _ p "- n"] by (fastforce simp: sl_defs split: option.splits if_splits)
next
  case (Release a n)
  then show ?thesis using assms that [of a _ 0 "- n"] by (fastforce simp: sl_defs split: option.splits if_splits)
qed

lemma sl_do_keeps:
  assumes "sl_wf ceilings l" "sl_do c l = Inr l'"
  shows "sl_wf ceilings l' \<and>
    entry_of (stl_spent l') asset = entry_of (stl_spent l) asset + settled_by asset [(c, True)] \<and>
    entry_of (stl_reserved l') asset = entry_of (stl_reserved l) asset + reserved_by asset [(c, True)]"
proof -
  obtain a limit s r where e: "map_of (stl_ceilings l) a = Some limit" "stl_ceilings l' = stl_ceilings l"
    "\<And>x. entry_of (stl_spent l') x = entry_of (stl_spent l) x + (if a = x then s else 0)"
    "\<And>x. entry_of (stl_reserved l') x = entry_of (stl_reserved l) x + (if a = x then r else 0)"
    "0 \<le> s" "0 \<le> r \<or> 0 \<le> entry_of (stl_reserved l) a + r" "s + r \<le> 0 \<or> entry_of (stl_spent l) a + entry_of (stl_reserved l) a + s + r \<le> limit"
    "\<And>x. settled_by x [(c, True)] = (if a = x then s else 0)" "\<And>x. reserved_by x [(c, True)] = (if a = x then r else 0)"
    using sl_do_entries [OF assms(2)] by blast
  note entries = e(3,4)
  have "sl_wf ceilings l'"
    unfolding sl_wf_def
  proof (intro conjI allI)
    show "stl_ceilings l' = ceilings" using assms(1) e(2) by (simp add: sl_wf_def)
    fix x
    have w: "0 \<le> entry_of (stl_spent l) x" "0 \<le> entry_of (stl_reserved l) x"
      "case map_of ceilings x of None \<Rightarrow> entry_of (stl_spent l) x = 0 \<and> entry_of (stl_reserved l) x = 0
       | Some m \<Rightarrow> entry_of (stl_spent l) x + entry_of (stl_reserved l) x \<le> m" and c: "stl_ceilings l = ceilings"
      using assms(1) unfolding sl_wf_def by blast+
    show "0 \<le> entry_of (stl_spent l') x" using w(1) e(5) by (simp add: entries)
    show "0 \<le> entry_of (stl_reserved l') x" using w(2) e(6) by (auto simp: entries)
    show "case map_of ceilings x of None \<Rightarrow> entry_of (stl_spent l') x = 0 \<and> entry_of (stl_reserved l') x = 0
      | Some m \<Rightarrow> entry_of (stl_spent l') x + entry_of (stl_reserved l') x \<le> m"
      using w(3) e(1,7) c by (auto simp: entries split: option.splits)
  qed
  then show ?thesis using e(3,4,8,9) by auto
qed

lemma settled_by_Cons: "settled_by asset (x # cs) = settled_by asset [x] + settled_by asset cs"
  by (cases x; cases "fst x"; cases "snd x") auto

lemma reserved_by_Cons: "reserved_by asset (x # cs) = reserved_by asset [x] + reserved_by asset cs"
  by (cases x; cases "fst x"; cases "snd x") auto

lemma refused_counts [simp]: "settled_by asset [(c, False)] = 0" "reserved_by asset [(c, False)] = 0"
  by (cases c; simp)+

lemma sl_runs_keep:
  assumes "sl_wf ceilings l" "run_all sl_call_step calls l = (oks, l')"
  shows "sl_wf ceilings l' \<and>
    entry_of (stl_spent l') asset = entry_of (stl_spent l) asset + settled_by asset (zip calls oks) \<and>
    entry_of (stl_reserved l') asset = entry_of (stl_reserved l) asset + reserved_by asset (zip calls oks)"
  using assms
proof (induction calls arbitrary: l oks)
  case (Cons c calls)
  obtain ok l1 where c: "sl_call_step c l = (ok, l1)" by fastforce
  obtain oks' where rest: "run_all sl_call_step calls l1 = (oks', l')" "oks = ok # oks'"
    using Cons.prems(2) c by (auto split: prod.splits)
  have "sl_wf ceilings l1 \<and>
    entry_of (stl_spent l1) asset = entry_of (stl_spent l) asset + settled_by asset [(c, ok)] \<and>
    entry_of (stl_reserved l1) asset = entry_of (stl_reserved l) asset + reserved_by asset [(c, ok)]"
    using c sl_do_keeps [OF Cons.prems(1), of c l1 asset] Cons.prems(1) by (auto simp: sl_call_step_def split: sum.splits)
  then show ?case
    using Cons.IH [OF _ rest(1)] rest(2) settled_by_Cons [of asset "(c, ok)" "zip calls oks'"]
      reserved_by_Cons [of asset "(c, ok)" "zip calls oks'"]
    by (simp del: settled_by.simps reserved_by.simps)
qed simp

lemma sl_wf_new: "(\<And>asset limit. map_of ceilings asset = Some limit \<Longrightarrow> 0 \<le> limit) \<Longrightarrow> sl_wf ceilings (createSettledSpendLedger ceilings)"
  by (auto simp: sl_wf_def createSettledSpendLedger_def entry_of_def split: option.splits)

text \<open>
  The ledger is the account of its accepted calls. Whatever is asked of it, in whatever order,
  misuse included, it has spent the sum of what was settled and holds the reservations that were neither settled nor released;
  both are never negative, together they never exceed the ceiling of an asset, and \<open>remainingFor\<close> is exactly what is left.
\<close>

theorem settled_ledger_is_its_account:
  assumes "\<And>a m. map_of ceilings a = Some m \<Longrightarrow> 0 \<le> m"
    and "run_all sl_call_step calls (createSettledSpendLedger ceilings) = (oks, l)" "map_of ceilings asset = Some limit"
  shows "0 \<le> settled_by asset (zip calls oks) \<and> 0 \<le> reserved_by asset (zip calls oks) \<and>
    settled_by asset (zip calls oks) + reserved_by asset (zip calls oks) \<le> limit \<and>
    sl_remainingFor asset l = Inr (limit - settled_by asset (zip calls oks) - reserved_by asset (zip calls oks))"
proof -
  have "sl_wf ceilings l" "entry_of (stl_spent l) asset = settled_by asset (zip calls oks)"
    "entry_of (stl_reserved l) asset = reserved_by asset (zip calls oks)"
    using sl_runs_keep [OF sl_wf_new [OF assms(1)] assms(2), where asset = asset]
    by (simp_all add: createSettledSpendLedger_def entry_of_def)
  moreover have "0 \<le> entry_of (stl_spent l) asset" "0 \<le> entry_of (stl_reserved l) asset"
    "entry_of (stl_spent l) asset + entry_of (stl_reserved l) asset \<le> limit"
    using \<open>sl_wf ceilings l\<close> assms(3) unfolding sl_wf_def by (auto dest: spec [of _ asset])
  ultimately show ?thesis using assms(3)
    by (auto simp: sl_wf_def sl_remainingFor_def settledCeilingFor_def Let_def)
qed

text \<open>A payment of at most 5 that settles for 3, a second one that is refused, and a settlement nobody reserved.\<close>

theorem settled_ledger_is_its_account_witness:
  "let calls = [Reserve ''USDC'' 5, Reserve ''USDC'' 8, Settle ''USDC'' 5 3, Settle ''USDC'' 4 4];
       (oks, l) = run_all sl_call_step calls (createSettledSpendLedger [(''USDC'', 10)]) in
   oks = [True, False, True, False] \<and> settled_by ''USDC'' (zip calls oks) \<le> 10 \<and> sl_remainingFor ''USDC'' l = Inr 7"
proof -
  let ?calls = "[Reserve ''USDC'' 5, Reserve ''USDC'' 8, Settle ''USDC'' 5 3, Settle ''USDC'' 4 4]"
  have ok: "\<And>a m. map_of [(''USDC'', 10 :: int)] a = Some m \<Longrightarrow> 0 \<le> m" by (auto split: if_splits)
  obtain oks l where run: "run_all sl_call_step ?calls (createSettledSpendLedger [(''USDC'', 10)]) = (oks, l)" by fastforce
  have oks: "oks = [True, False, True, False]"
    using run by (auto simp: sl_call_step_def createSettledSpendLedger_def sl_defs entry_of_def)
  have "settled_by ''USDC'' (zip ?calls oks) + reserved_by ''USDC'' (zip ?calls oks) \<le> 10 \<and>
    sl_remainingFor ''USDC'' l = Inr (10 - settled_by ''USDC'' (zip ?calls oks) - reserved_by ''USDC'' (zip ?calls oks))"
    using settled_ledger_is_its_account [OF ok run, where asset = "''USDC''" and limit = 10] by simp
  then show ?thesis using run oks by simp
qed

section \<open>The session budget does what the ledger does\<close>

definition same_account :: "settled_ledger \<Rightarrow> session_budget \<Rightarrow> bool" where
  "same_account l b = (stl_ceilings l = sb_ceilings b \<and> stl_spent l = sb_spent b \<and> stl_reserved l = sb_reserved b)"

lemma session_budget_follows:
  assumes "same_account l b"
  shows "sl_reserve asset n l = Inr l' \<Longrightarrow> \<exists>b'. reserve asset n b = Inr b' \<and> same_account l' b'"
    and "sl_settle asset n p l = Inr l' \<Longrightarrow> rp_authorizedCeiling rc = n \<Longrightarrow> rp_settledAmount rc = p \<Longrightarrow>
      \<exists>b'. settle asset rc b = Inr b' \<and> same_account l' b'"
    and "sl_release asset n l = Inr l' \<Longrightarrow> \<exists>b'. release asset n b = Inr b' \<and> same_account l' b'"
  using assms
  by (auto simp: same_account_def sl_defs reserve_def settle_def release_def budgetCeilingFor_def budgetSpentFor_def
      reservedFor_def dropReservation_def entry_of_def split: option.splits if_splits)

end
