(* ===== verification/AssetPreference.thy ===== *)
theory AssetPreference
  imports Guards
begin

text \<open>
  Selection among options of several assets (\<open>contrib/x402-multi-asset/multi-asset-selector.ts\<close>), beside
  \<open>selectRequirements\<close> of \<open>Guards\<close>.
\<close>

section \<open>The selector\<close>

datatype asset_choice_error =
    NoOptionsOffered
  | SpansAssets "string list"
  | NoPreferredAsset "string list" "string list"
  | BadAmount js_error

type_synonym asset_groups = "(string \<times> payment_requirements list) list"

text \<open>A \<open>Map\<close> keeps the order in which its keys were first set.\<close>

definition put_group :: "asset_groups \<Rightarrow> payment_requirements \<Rightarrow> asset_groups" where
  "put_group groups req =
     (case map_of groups (pr_asset req) of
        None \<Rightarrow> groups @ [(pr_asset req, [req])]
      | Some list \<Rightarrow> map (\<lambda>(a, rs). if a = pr_asset req then (a, list @ [req]) else (a, rs)) groups)"

definition byAsset :: "payment_requirements list \<Rightarrow> asset_groups" where
  "byAsset candidates = foldl put_group [] candidates"

definition pickCheapest :: "payment_requirements list \<Rightarrow> asset_choice_error + payment_requirements" where
  "pickCheapest list =
     (case list of
        [] \<Rightarrow> Inl (BadAmount JsTypeError)
      | c # cs \<Rightarrow> map_sum BadAmount id (reduce_min (\<lambda>a. parseAmount (pr_amount a)) c cs))"

fun first_preferred :: "asset_groups \<Rightarrow> string list \<Rightarrow> payment_requirements list option" where
  "first_preferred groups [] = None"
| "first_preferred groups (preferred # rest) =
     (case map_of groups preferred of
        Some list \<Rightarrow> if list \<noteq> [] then Some list else first_preferred groups rest
      | None \<Rightarrow> first_preferred groups rest)"

definition selectWithAssetPreference ::
    "payment_required \<Rightarrow> string list option \<Rightarrow> asset_choice_error + payment_requirements" where
  "selectWithAssetPreference decoded preferredAssets =
     (let candidates = (case pd_accepts decoded of None \<Rightarrow> [] | Some as \<Rightarrow> as);
          groups = byAsset candidates;
          assets = map fst groups in
      if candidates = [] then Inl NoOptionsOffered
      else if length assets = 1 then pickCheapest (the (map_of groups (hd assets)))
      else
        (case preferredAssets of
           None \<Rightarrow> Inl (SpansAssets assets)
         | Some preferred \<Rightarrow>
             if preferred = [] then Inl (SpansAssets assets)
             else
               (case first_preferred groups preferred of
                  Some list \<Rightarrow> pickCheapest list
                | None \<Rightarrow> Inl (NoPreferredAsset preferred assets))))"

section \<open>Grouping\<close>

definition of_asset :: "string \<Rightarrow> payment_requirements list \<Rightarrow> payment_requirements list" where
  "of_asset a cs = filter (\<lambda>r. pr_asset r = a) cs"

lemma map_of_put_group:
  "map_of (put_group groups req) a =
     (if a = pr_asset req then Some (case map_of groups a of None \<Rightarrow> [req] | Some list \<Rightarrow> list @ [req]) else map_of groups a)"
proof (cases "map_of groups (pr_asset req)")
  case None
  then show ?thesis by (auto simp: put_group_def map_add_def split: option.splits)
next
  case (Some list)
  have "map_of (map (\<lambda>(b, rs). if b = pr_asset req then (b, list @ [req]) else (b, rs)) groups) a =
    (if a = pr_asset req then (case map_of groups a of None \<Rightarrow> None | Some _ \<Rightarrow> Some (list @ [req])) else map_of groups a)"
    by (induction groups) (auto split: option.splits)
  then show ?thesis using Some by (simp add: put_group_def)
qed

lemma keys_put_group:
  "map fst (put_group groups req) = (if pr_asset req \<in> set (map fst groups) then map fst groups else map fst groups @ [pr_asset req])"
proof (cases "map_of groups (pr_asset req)")
  case None
  then have "pr_asset req \<notin> set (map fst groups)" by (simp add: map_of_eq_None_iff)
  then show ?thesis using None by (simp add: put_group_def)
next
  case (Some list)
  then have "pr_asset req \<in> set (map fst groups)" by (metis map_of_eq_None_iff option.distinct(1) set_map)
  moreover have "map fst (put_group groups req) = map fst groups" using Some by (auto simp: put_group_def split: if_splits)
  ultimately show ?thesis by simp
qed

text \<open>The keys depend on the assets of the options only; a group is the options of its asset, in order.\<close>

fun key_order :: "string list \<Rightarrow> string list \<Rightarrow> string list" where
  "key_order seen [] = seen"
| "key_order seen (a # as) = key_order (if a \<in> set seen then seen else seen @ [a]) as"

lemma byAsset_keys: "map fst (byAsset cs) = key_order [] (map pr_asset cs)"
proof -
  have "map fst (foldl put_group groups cs) = key_order (map fst groups) (map pr_asset cs)" for groups
    by (induction cs arbitrary: groups) (simp_all add: keys_put_group)
  then show ?thesis by (simp add: byAsset_def)
qed

lemma byAsset_group: "map_of (byAsset cs) a = (if of_asset a cs = [] then None else Some (of_asset a cs))"
proof (induction cs rule: rev_induct)
  case (snoc c cs)
  then show ?case by (auto simp: byAsset_def map_of_put_group of_asset_def)
qed (simp add: byAsset_def of_asset_def)

lemma set_key_order: "set (key_order seen as) = set seen \<union> set as"
  by (induction as arbitrary: seen) auto

lemma first_preferred_eq:
  "first_preferred (byAsset cs) preferred = map_option (\<lambda>a. of_asset a cs) (find (\<lambda>a. a \<in> pr_asset ` set cs) preferred)"
proof (induction preferred)
  case (Cons a preferred)
  have "of_asset a cs = [] \<longleftrightarrow> a \<notin> pr_asset ` set cs" by (auto simp: of_asset_def filter_empty_conv)
  then show ?case using Cons by (simp add: byAsset_group)
qed simp

lemma find_nothing: "find (\<lambda>x. False) xs = None"
  by (simp add: find_None_iff)

lemma pickCheapest_Inr:
  "pickCheapest list = Inr r \<longleftrightarrow> (\<exists>c cs. list = c # cs \<and> reduce_min (\<lambda>a. parseAmount (pr_amount a)) c cs = Inr r)"
proof (cases list)
  case (Cons c cs)
  then show ?thesis by (cases "reduce_min (\<lambda>a. parseAmount (pr_amount a)) c cs") (simp_all add: pickCheapest_def)
qed (simp add: pickCheapest_def)

text \<open>The asset the selector settles on, from the offered assets and the preferences alone.\<close>

definition choice_of_asset :: "string list \<Rightarrow> string list option \<Rightarrow> string option" where
  "choice_of_asset offered preferredAssets =
     (case key_order [] offered of
        [a] \<Rightarrow> Some a
      | _ \<Rightarrow> (case preferredAssets of None \<Rightarrow> None | Some preferred \<Rightarrow> find (\<lambda>a. a \<in> set offered) preferred))"

lemma choice_offered: "choice_of_asset offered preferred = Some a \<Longrightarrow> a \<in> set offered"
  using set_key_order [of "[]" offered]
  by (auto simp: choice_of_asset_def find_Some_iff split: list.splits option.splits)

lemma select_by_asset:
  "selectWithAssetPreference d preferred =
     (case choice_of_asset (map pr_asset (accepts_of d)) preferred of
        Some a \<Rightarrow> pickCheapest (of_asset a (accepts_of d))
      | None \<Rightarrow> (case accepts_of d of [] \<Rightarrow> Inl NoOptionsOffered
          | _ \<Rightarrow> (case preferred of
                None \<Rightarrow> Inl (SpansAssets (key_order [] (map pr_asset (accepts_of d))))
              | Some p \<Rightarrow> if p = [] then Inl (SpansAssets (key_order [] (map pr_asset (accepts_of d))))
                  else Inl (NoPreferredAsset p (key_order [] (map pr_asset (accepts_of d)))))))"
proof -
  let ?cs = "accepts_of d"
  have cs: "(case pd_accepts d of None \<Rightarrow> [] | Some as \<Rightarrow> as) = ?cs" by (simp add: accepts_of_def)
  show ?thesis
  proof (cases "length (key_order [] (map pr_asset ?cs)) = 1")
    case True
    then obtain a where a: "key_order [] (map pr_asset ?cs) = [a]" by (metis One_nat_def length_0_conv length_Suc_conv)
    then have "a \<in> pr_asset ` set ?cs" using set_key_order [of "[]" "map pr_asset ?cs"] by auto
    then have ne: "of_asset a ?cs \<noteq> []" "?cs \<noteq> []" by (auto simp: of_asset_def filter_empty_conv)
    then show ?thesis
      by (simp add: selectWithAssetPreference_def cs byAsset_keys byAsset_group a choice_of_asset_def Let_def)
  next
    case False
    then have "choice_of_asset (map pr_asset ?cs) preferred =
        (case preferred of None \<Rightarrow> None | Some p \<Rightarrow> find (\<lambda>a. a \<in> pr_asset ` set ?cs) p)"
      by (auto simp: choice_of_asset_def split: list.splits option.splits)
    then show ?thesis
      using False
      by (auto simp: selectWithAssetPreference_def cs byAsset_keys first_preferred_eq Let_def find_nothing split: option.splits list.splits)
  qed
qed

text \<open>
  C28 (safety): amounts of different assets are never compared. The option that is chosen is an offered one and the cheapest
  of its asset, the only asset offered or the first preferred one that is; and it stays the choice whatever the options of the other
  assets cost.
\<close>

theorem amounts_are_compared_within_one_asset:
  assumes "selectWithAssetPreference d preferred = Inr r"
  shows "r \<in> set (accepts_of d) \<and> choice_of_asset (map pr_asset (accepts_of d)) preferred = Some (pr_asset r) \<and>
    (\<forall>o' \<in> set (accepts_of d). \<forall>p. pr_asset o' = pr_asset r \<longrightarrow> parseAmount (pr_amount r) = Inr p \<longrightarrow>
       (\<exists>q. parseAmount (pr_amount o') = Inr q \<and> p \<le> q)) \<and>
    (\<forall>d'. map pr_asset (accepts_of d') = map pr_asset (accepts_of d) \<longrightarrow>
       of_asset (pr_asset r) (accepts_of d') = of_asset (pr_asset r) (accepts_of d) \<longrightarrow>
       selectWithAssetPreference d' preferred = Inr r)"
proof -
  obtain a where a: "choice_of_asset (map pr_asset (accepts_of d)) preferred = Some a"
    and pick: "pickCheapest (of_asset a (accepts_of d)) = Inr r"
    using assms by (auto simp: select_by_asset split: option.splits list.splits if_splits)
  obtain c cs where group: "of_asset a (accepts_of d) = c # cs"
    and least: "reduce_min (\<lambda>a. parseAmount (pr_amount a)) c cs = Inr r"
    using pick by (auto simp: pickCheapest_Inr)
  have mem: "r \<in> set (of_asset a (accepts_of d))" using reduce_min_mem [OF least] group by simp
  then have r: "r \<in> set (accepts_of d)" "pr_asset r = a" by (auto simp: of_asset_def)
  have "\<exists>q. parseAmount (pr_amount x) = Inr q \<and> p \<le> q"
    if "x \<in> set (accepts_of d)" "pr_asset x = a" "parseAmount (pr_amount r) = Inr p" for x p
  proof -
    have "x \<in> set (of_asset a (accepts_of d))" using that by (simp add: of_asset_def)
    then show ?thesis using reduce_min_least [OF least that(3), of x] group by simp
  qed
  moreover have "selectWithAssetPreference d' preferred = Inr r"
    if "map pr_asset (accepts_of d') = map pr_asset (accepts_of d)" "of_asset a (accepts_of d') = of_asset a (accepts_of d)" for d'
    using a pick that by (simp add: select_by_asset)
  ultimately show ?thesis using a r by auto
qed

theorem amounts_are_compared_within_one_asset_witness:
  "selectWithAssetPreference sample_challenge (Some [''CEUR'', ''CUSDC'']) = Inr (sample_option ''CUSDC'' ''120'') \<and>
   choice_of_asset (map pr_asset (accepts_of sample_challenge)) (Some [''CEUR'', ''CUSDC'']) = Some ''CUSDC''"
proof -
  have "selectWithAssetPreference sample_challenge (Some [''CEUR'', ''CUSDC'']) = Inr (sample_option ''CUSDC'' ''120'')"
    by (simp add: sample_defs selectWithAssetPreference_def byAsset_def put_group_def pickCheapest_def all_digits_def
        is_digit_def digits_val_def digit_val_def Let_def)
  from this amounts_are_compared_within_one_asset [OF this] show ?thesis by (simp add: sample_option_def)
qed

section \<open>Prices that are not checked\<close>

text \<open>The price of the only option of an asset is not parsed: an option without a price is chosen.\<close>

lemma lone_option_is_not_priced: "pickCheapest [r] = Inr r"
  by (simp add: pickCheapest_def)

text \<open>\<open>selectRequirements\<close> compares the amounts of different assets: the smaller number wins.\<close>

theorem guards_compare_across_assets:
  "selectRequirements sample_challenge \<lparr>po_maxAmount = 1000, po_allowedAssets = None\<rparr> ''stellar:testnet'' =
     Inr (sample_option ''CXLM'' ''70'') \<and>
   selectWithAssetPreference sample_challenge None = Inl (SpansAssets [''CUSDC'', ''CXLM''])"
  by (simp add: sample_defs selectRequirements_def onNetwork_def allowedCandidates_def areFeesSponsored_def all_digits_def
      is_digit_def digits_val_def digit_val_def selectWithAssetPreference_def byAsset_def put_group_def Let_def)

end
