(* ===== verification/AuditPolicy.thy ===== *)
theory AuditPolicy
  imports Encoding Json Errors "HOL-Library.List_Lexorder"
begin

text \<open>
  The advisory gate of the build (\<open>contrib/issue-507-510-515/audit-advisory-policy.mjs\<close>): the verdict on an
  \<open>npm audit --json\<close> report, the lines that are printed and the exit status. The report stays JSON. The entries of a
  \<open>vulnerabilities\<close> that is neither an object nor an array have no effect on the verdict; how a number is printed is
  an argument.
\<close>

section \<open>The allowlist\<close>

record advisory_entry =
  ae_url :: string
  ae_title :: string
  ae_vulnerableRange :: string
  ae_expectedNodes :: "string list option"
  ae_productionPath :: bool
  ae_reason :: string

definition REVIEW_BY :: string where "REVIEW_BY = ''2026-12-15''"

definition ALLOWED_ADVISORIES :: "advisory_entry list" where
  "ALLOWED_ADVISORIES =
     [\<lparr>ae_url = ''https://github.com/advisories/GHSA-7w5x-hrqm-74c2'',
       ae_title = ''smol-toml: Denial of Service via malformed TOML documents'', ae_vulnerableRange = ''<=1.7.0'',
       ae_expectedNodes = Some [''node_modules/smol-toml''], ae_productionPath = True,
       ae_reason = ''smol-toml parses TOML for the SDK's contract-configuration and simulation inputs, all of which are operator-supplied rather than attacker-supplied on a hosted payer. The DoS requires a malformed document, which the SDK does not fetch from a network endpoint.''\<rparr>,
      \<lparr>ae_url = ''https://github.com/advisories/GHSA-82x6-q7mm-w9cf'',
       ae_title = ''toml-node: Uncontrolled Recursion'', ae_vulnerableRange = ''<4.2.0'',
       ae_expectedNodes = Some [''node_modules/toml''], ae_productionPath = False,
       ae_reason = ''dev-only chain reached through the optional `passkey-kit` peer dependency. Uncontrolled recursion needs attacker-supplied TOML, and this chain parses none at runtime.''\<rparr>,
      \<lparr>ae_url = ''https://github.com/advisories/GHSA-v5mp-jgw5-2x6j'',
       ae_title = ''toml-node: Prototype Pollution Leads to `Object.prototype` Corruption via `__proto__` Key-Path Desynchronization'',
       ae_vulnerableRange = ''<4.1.2'', ae_expectedNodes = Some [''node_modules/toml''], ae_productionPath = False,
       ae_reason = ''Same dev-only chain. Prototype pollution requires attacker-supplied TOML; this chain parses none at runtime.''\<rparr>]"

definition GATE_SEVERITIES :: "string list" where "GATE_SEVERITIES = [''high'', ''critical'']"

definition SEVERITY_ORDER :: "string list" where
  "SEVERITY_ORDER = [''critical'', ''high'', ''moderate'', ''low'', ''info'']"

section \<open>The verdict\<close>

record audit_record =
  ar_name :: string
  ar_url :: string
  ar_severity :: string
  ar_nodes :: "json list"

record allowed_record =
  al_record :: audit_record
  al_reason :: string
  al_productionPath :: bool

record off_chain =
  oc_name :: string
  oc_url :: string
  oc_expected :: "string list option"
  oc_found :: "json list"

record gated_package =
  gp_name :: string
  gp_severity :: string
  gp_nodes :: "json list"
  gp_isDirect :: bool
  gp_advisoryUrls :: "string list"

record audit_state =
  as_seenUrls :: "string list"
  as_urlsBySeverity :: "(string \<times> string) list"
  as_packages :: "string list"
  as_gatedUrls :: "string list"
  as_allowed :: "allowed_record list"
  as_unlisted :: "audit_record list"
  as_offChain :: "off_chain list"
  as_gated :: "gated_package list"

record verdict =
  vd_ok :: bool
  vd_expired :: bool
  vd_reviewBy :: string
  vd_today :: string
  vd_packageCounts :: "string \<Rightarrow> nat"
  vd_advisoryCounts :: "string \<Rightarrow> nat"
  vd_gatedPackages :: nat
  vd_gatedAdvisories :: nat
  vd_gated :: "gated_package list"
  vd_allowed :: "allowed_record list"
  vd_unlisted :: "audit_record list"
  vd_offChain :: "off_chain list"
  vd_resolvedUpstream :: "advisory_entry list"

definition is_gated :: "json \<Rightarrow> bool" where
  "is_gated v = (case v of JStr s \<Rightarrow> s \<in> set GATE_SEVERITIES | _ \<Rightarrow> False)"

text \<open>\<open>Object.entries\<close>\<close>

definition report_entries :: "json \<Rightarrow> (string \<times> json) list" where
  "report_entries v =
     (case v of JObj kvs \<Rightarrow> kvs | JArr vs \<Rightarrow> map (\<lambda>i. (show_nat i, vs ! i)) [0..<length vs] | _ \<Rightarrow> [])"

text \<open>The advisories of a package: the objects of \<open>via\<close> with a text as \<open>url\<close>, with their URL.\<close>

definition has_url :: "json \<Rightarrow> bool" where
  "has_url v = (case (v, jprop v ''url'') of (JObj _, JStr _) \<Rightarrow> True | _ \<Rightarrow> False)"

definition url_of :: "json \<Rightarrow> string" where
  "url_of v = (case jprop v ''url'' of JStr u \<Rightarrow> u | _ \<Rightarrow> '''')"

definition advisories_of :: "json \<Rightarrow> json list outcome" where
  "advisories_of vuln =
     (let via = jprop vuln ''via'' in
      if is_nullish via then Inr []
      else (case via of JArr vs \<Rightarrow> Inr (filter has_url vs) | _ \<Rightarrow> Inl JsTypeError))"

definition severity_of :: "(rat \<Rightarrow> string) \<Rightarrow> json \<Rightarrow> string" where
  "severity_of num vuln =
     (let s = jprop vuln ''severity'' in if is_nullish s then ''unknown'' else to_string num s)"

definition nodes_of :: "json \<Rightarrow> json list" where
  "nodes_of vuln = (case jprop vuln ''nodes'' of JArr vs \<Rightarrow> vs | _ \<Rightarrow> [])"

definition entry_for :: "advisory_entry list \<Rightarrow> string \<Rightarrow> advisory_entry option" where
  "entry_for allowlist url = map_of (rev (map (\<lambda>e. (ae_url e, e)) allowlist)) url"

definition unexpected_nodes :: "advisory_entry \<Rightarrow> json list \<Rightarrow> json list" where
  "unexpected_nodes e nodes =
     filter (\<lambda>node. node \<notin> JStr ` set (case ae_expectedNodes e of None \<Rightarrow> [] | Some ns \<Rightarrow> ns)) nodes"

definition at_floor :: "string \<Rightarrow> json \<Rightarrow> bool" where
  "at_floor severity advisory = (severity \<in> set GATE_SEVERITIES \<or> is_gated (jprop advisory ''severity''))"

text \<open>The body of the inner loop.\<close>

definition audit_advisory ::
    "advisory_entry list \<Rightarrow> string \<Rightarrow> string \<Rightarrow> json list \<Rightarrow> json \<Rightarrow> audit_state \<Rightarrow> audit_state" where
  "audit_advisory allowlist name severity nodes advisory s =
     (let url = url_of advisory;
          record = \<lparr>ar_name = name, ar_url = url, ar_severity = severity, ar_nodes = nodes\<rparr>;
          s1 = s\<lparr>as_urlsBySeverity := (case jprop advisory ''severity'' of
                    JStr v \<Rightarrow> if v \<in> set SEVERITY_ORDER then List.insert (v, url) (as_urlsBySeverity s) else as_urlsBySeverity s
                  | _ \<Rightarrow> as_urlsBySeverity s),
                 as_seenUrls := List.insert url (as_seenUrls s),
                 as_gatedUrls := (if at_floor severity advisory then List.insert url (as_gatedUrls s) else as_gatedUrls s)\<rparr> in
      case entry_for allowlist url of
        None \<Rightarrow> if at_floor severity advisory then s1\<lparr>as_unlisted := as_unlisted s1 @ [record]\<rparr> else s1
      | Some e \<Rightarrow>
          (let s2 = s1\<lparr>as_allowed := as_allowed s1 @
                   [\<lparr>al_record = record, al_reason = ae_reason e, al_productionPath = ae_productionPath e\<rparr>]\<rparr>;
               unexpected = unexpected_nodes e nodes in
           if unexpected \<noteq> []
           then s2\<lparr>as_offChain := as_offChain s2 @
                  [\<lparr>oc_name = name, oc_url = url, oc_expected = ae_expectedNodes e, oc_found = unexpected\<rparr>]\<rparr>
           else s2))"

definition audit_package ::
    "(rat \<Rightarrow> string) \<Rightarrow> advisory_entry list \<Rightarrow> string \<times> json \<Rightarrow> audit_state \<Rightarrow> audit_state outcome" where
  "audit_package num allowlist entry s =
     (let (name, vuln) = entry; severity = severity_of num vuln; nodes = nodes_of vuln;
          s1 = s\<lparr>as_packages := as_packages s @ [severity]\<rparr> in
      ebind (advisories_of vuln) (\<lambda>advisories.
        let s2 = (if severity \<in> set GATE_SEVERITIES
                  then s1\<lparr>as_gated := as_gated s1 @
                     [\<lparr>gp_name = name, gp_severity = severity, gp_nodes = nodes,
                       gp_isDirect = (jprop vuln ''isDirect'' = JBool True), gp_advisoryUrls = map url_of advisories\<rparr>]\<rparr>
                  else s1) in
        Inr (foldl (\<lambda>s a. audit_advisory allowlist name severity nodes a s) s2 advisories)))"

fun audit_packages ::
    "(rat \<Rightarrow> string) \<Rightarrow> advisory_entry list \<Rightarrow> (string \<times> json) list \<Rightarrow> audit_state \<Rightarrow> audit_state outcome" where
  "audit_packages num allowlist [] s = Inr s"
| "audit_packages num allowlist (e # es) s = ebind (audit_package num allowlist e s) (audit_packages num allowlist es)"

definition no_audit :: audit_state where
  "no_audit = \<lparr>as_seenUrls = [], as_urlsBySeverity = [], as_packages = [], as_gatedUrls = [], as_allowed = [],
     as_unlisted = [], as_offChain = [], as_gated = []\<rparr>"

definition vulnerabilities_of :: "json \<Rightarrow> (string \<times> json) list" where
  "vulnerabilities_of report =
     (let v = jprop report ''vulnerabilities'' in if is_nullish v then [] else report_entries v)"

text \<open>Dates compare as texts.\<close>

definition evaluateAuditReport ::
    "(rat \<Rightarrow> string) \<Rightarrow> json \<Rightarrow> advisory_entry list \<Rightarrow> string \<Rightarrow> string \<Rightarrow> verdict outcome" where
  "evaluateAuditReport num report allowlist reviewBy today =
     ebind (audit_packages num allowlist (vulnerabilities_of report) no_audit) (\<lambda>s.
       let expired = (codes reviewBy < codes today) in
       Inr \<lparr>vd_ok = (as_unlisted s = [] \<and> as_offChain s = [] \<and> \<not> expired), vd_expired = expired,
            vd_reviewBy = reviewBy, vd_today = today,
            vd_packageCounts = (\<lambda>v. if v \<in> set SEVERITY_ORDER then count_list (as_packages s) v else 0),
            vd_advisoryCounts = (\<lambda>v. length (filter (\<lambda>p. fst p = v) (as_urlsBySeverity s))),
            vd_gatedPackages = length (as_gated s), vd_gatedAdvisories = length (as_gatedUrls s), vd_gated = as_gated s,
            vd_allowed = as_allowed s, vd_unlisted = as_unlisted s, vd_offChain = as_offChain s,
            vd_resolvedUpstream = filter (\<lambda>e. ae_url e \<notin> set (as_seenUrls s)) allowlist\<rparr>)"

section \<open>What is printed\<close>

definition EM_DASH :: jstext where "EM_DASH = codes '' '' @ [0x2014] @ codes '' ''"

definition shown :: "nat \<Rightarrow> jstext" where "shown n = codes (show_nat n)"

definition count_line :: "string \<Rightarrow> (string \<Rightarrow> nat) \<Rightarrow> string \<Rightarrow> jstext" where
  "count_line start counts rest =
     codes start @ shown (counts ''critical'') @ codes '' critical, '' @ shown (counts ''high'') @ codes '' high, '' @
     shown (counts ''moderate'') @ codes '' moderate, '' @ shown (counts ''low'') @ codes '' low'' @ codes rest"

definition header_lines :: "verdict \<Rightarrow> jstext list" where
  "header_lines v =
     [count_line ''npm audit: '' (vd_packageCounts v) '' (vulnerable packages)'',
      count_line ''distinct advisories: '' (vd_advisoryCounts v) '''',
      codes ''at the gate floor: '' @ shown (vd_gatedPackages v) @ codes '' package(s), '' @ shown (vd_gatedAdvisories v) @
      codes '' advisory/advisories'' @ EM_DASH @ shown (length (vd_allowed v)) @ codes '' allowlisted, '' @
      shown (length (vd_unlisted v)) @ codes '' unlisted'']"

definition off_chain_line :: "(rat \<Rightarrow> string) \<Rightarrow> off_chain \<Rightarrow> jstext outcome" where
  "off_chain_line num c =
     (case oc_expected c of
        None \<Rightarrow> Inl JsTypeError
      | Some expected \<Rightarrow> Inr (codes (''::error::'' @ oc_name c @ '': allowlisted advisory '' @ oc_url c @ '' appears on '' @
          join '', '' (map (\<lambda>n. if is_nullish n then '''' else to_string num n) (oc_found c)) @
          '', which is not the recorded chain ('' @ join '', '' expected @ '').'')))"

fun off_chain_lines :: "(rat \<Rightarrow> string) \<Rightarrow> off_chain list \<Rightarrow> jstext list outcome" where
  "off_chain_lines num [] = Inr []"
| "off_chain_lines num (c # cs) =
     ebind (off_chain_line num c) (\<lambda>l. ebind (off_chain_lines num cs) (\<lambda>ls. Inr (l # ls)))"

definition formatVerdict :: "(rat \<Rightarrow> string) \<Rightarrow> verdict \<Rightarrow> jstext list outcome" where
  "formatVerdict num v =
     ebind (off_chain_lines num (vd_offChain v)) (\<lambda>offs.
       Inr (header_lines v @
         (if vd_expired v then [codes (''::error::the allowlist review checkpoint ('' @ vd_reviewBy v @
            '') has passed (today is '' @ vd_today v @
            ''). Re-check each advisory, then remove the entry or extend the date with a fresh reason.'')] else []) @
         map (\<lambda>u. codes (''::error::'' @ ar_severity u @ '' '' @ ar_name u) @ EM_DASH @ codes (ar_url u)) (vd_unlisted v) @
         offs @
         map (\<lambda>e. codes (''::warning::'' @ ae_url e @ '' is allowlisted but no longer reported'') @ EM_DASH @
           codes ''upstream appears to have fixed it. Remove the entry.'') (vd_resolvedUpstream v)))"

text \<open>\<open>emit\<close>: errors to one stream, the rest to the other.\<close>

definition is_error_line :: "jstext \<Rightarrow> bool" where
  "is_error_line l = (take 9 l = codes ''::error::'')"

definition emit_lines :: "jstext list \<Rightarrow> jstext list \<times> jstext list" where
  "emit_lines ls = (filter is_error_line ls, filter (\<lambda>l. \<not> is_error_line l) ls)"

text \<open>The exit status with what was printed; \<open>raw\<close> is the output of \<open>npm audit\<close>, an uncaught error exits with 1.\<close>

definition audit_main :: "(rat \<Rightarrow> string) \<Rightarrow> string option \<Rightarrow> string \<Rightarrow> nat \<times> jstext list \<times> jstext list" where
  "audit_main num raw today =
     (case raw of
        None \<Rightarrow> (1, [codes ''::error::npm audit --json produced no output''], [])
      | Some text' \<Rightarrow>
          if text' = [] then (1, [codes ''::error::npm audit --json produced no output''], [])
          else
            (case JSON_parse text' of
               None \<Rightarrow> (1, [], [])
             | Some report \<Rightarrow>
                 (case evaluateAuditReport num report ALLOWED_ADVISORIES REVIEW_BY today of
                    Inl e \<Rightarrow> (1, [], [])
                  | Inr v \<Rightarrow>
                      (case formatVerdict num v of
                         Inl e \<Rightarrow> (1, [], [])
                       | Inr ls \<Rightarrow> (if vd_ok v then 0 else 1, emit_lines ls)))))"

section \<open>The gate is exact\<close>

text \<open>What the policy admits of one advisory of a package.\<close>

definition admitted :: "(rat \<Rightarrow> string) \<Rightarrow> advisory_entry list \<Rightarrow> json \<Rightarrow> json \<Rightarrow> bool" where
  "admitted num allowlist vuln advisory =
     (case entry_for allowlist (url_of advisory) of
        None \<Rightarrow> \<not> at_floor (severity_of num vuln) advisory
      | Some e \<Rightarrow> unexpected_nodes e (nodes_of vuln) = [])"

definition clean :: "audit_state \<Rightarrow> bool" where
  "clean s = (as_unlisted s = [] \<and> as_offChain s = [])"

lemma clean_advisory:
  "clean (audit_advisory allowlist name (severity_of num vuln) (nodes_of vuln) a s) \<longleftrightarrow>
     clean s \<and> admitted num allowlist vuln a"
  by (auto simp: audit_advisory_def admitted_def clean_def Let_def split: option.splits)

lemma clean_advisories:
  "clean (foldl (\<lambda>s a. audit_advisory allowlist name (severity_of num vuln) (nodes_of vuln) a s) s as) \<longleftrightarrow>
     clean s \<and> (\<forall>a \<in> set as. admitted num allowlist vuln a)"
  by (induction as arbitrary: s) (auto simp: clean_advisory)

lemma clean_package:
  "audit_package num allowlist (name, vuln) s = Inr s' \<Longrightarrow>
     \<exists>as. advisories_of vuln = Inr as \<and> (clean s' \<longleftrightarrow> clean s \<and> (\<forall>a \<in> set as. admitted num allowlist vuln a))"
  by (auto simp: audit_package_def Let_def ebind_eq_Inr clean_advisories) (auto simp: clean_def)

lemma clean_packages:
  assumes "audit_packages num allowlist es s = Inr s'"
  shows "clean s' \<longleftrightarrow> clean s \<and> (\<forall>(name, vuln) \<in> set es. \<exists>as. advisories_of vuln = Inr as \<and> (\<forall>a \<in> set as. admitted num allowlist vuln a))"
  using assms
proof (induction es arbitrary: s)
  case (Cons e es)
  obtain name vuln where e: "e = (name, vuln)" by fastforce
  obtain s1 where s1: "audit_package num allowlist (name, vuln) s = Inr s1" "audit_packages num allowlist es s1 = Inr s'"
    using Cons.prems by (auto simp: e ebind_eq_Inr)
  then show ?case using clean_package [OF s1(1)] Cons.IH [OF s1(2)] by (auto simp: e)
qed simp

lemma error_lines:
  "is_error_line (codes (''::error::'' @ t))" "is_error_line (codes (''::error::'' @ t) @ u)"
  by (simp_all add: is_error_line_def codes_def)

lemma other_lines:
  "\<not> is_error_line (codes (''::warning::'' @ t) @ u)" "list_all (\<lambda>l. \<not> is_error_line l) (header_lines v)"
  by (simp_all add: is_error_line_def codes_def header_lines_def count_line_def)

lemma off_chain_errors: "off_chain_lines num cs = Inr ls \<Longrightarrow> length ls = length cs \<and> list_all is_error_line ls"
proof (induction cs arbitrary: ls)
  case (Cons c cs)
  then show ?case
    using error_lines(1) by (fastforce simp: ebind_eq_Inr off_chain_line_def split: option.splits)
qed simp

lemma verdict_is_printed:
  assumes "formatVerdict num v = Inr ls" "vd_ok v = (vd_unlisted v = [] \<and> vd_offChain v = [] \<and> \<not> vd_expired v)"
  shows "vd_ok v \<longleftrightarrow> fst (emit_lines ls) = []"
proof -
  obtain offs where offs: "off_chain_lines num (vd_offChain v) = Inr offs"
    using assms(1) by (auto simp: formatVerdict_def ebind_eq_Inr)
  have off: "filter is_error_line offs = offs" "offs = [] \<longleftrightarrow> vd_offChain v = []"
    using off_chain_errors [OF offs] by (auto simp: list_all_iff)
  have head: "filter is_error_line (header_lines v) = []" using other_lines(2) by (auto simp: list_all_iff filter_empty_conv)
  let ?unlisted = "map (\<lambda>u. codes (''::error::'' @ ar_severity u @ '' '' @ ar_name u) @ EM_DASH @ codes (ar_url u)) (vd_unlisted v)"
  let ?warnings = "map (\<lambda>e. codes (''::warning::'' @ ae_url e @ '' is allowlisted but no longer reported'') @ EM_DASH @
    codes ''upstream appears to have fixed it. Remove the entry.'') (vd_resolvedUpstream v)"
  let ?e = "codes (''::error::the allowlist review checkpoint ('' @ vd_reviewBy v @ '') has passed (today is '' @ vd_today v @
    ''). Re-check each advisory, then remove the entry or extend the date with a fresh reason.'')"
  have "is_error_line ?e" by (simp add: is_error_line_def codes_def)
  moreover have ls: "ls = header_lines v @ (if vd_expired v then [?e] else []) @ ?unlisted @ offs @ ?warnings"
    using assms(1) unfolding formatVerdict_def offs ebind_Inr sum.inject by (rule sym)
  moreover have "filter is_error_line ?unlisted = ?unlisted" "filter is_error_line ?warnings = []"
    using error_lines(2) other_lines(1) by (auto simp: filter_id_conv filter_empty_conv)
  ultimately have "fst (emit_lines ls) = (if vd_expired v then [?e] else []) @ ?unlisted @ offs"
    using off(1) head by (simp add: emit_lines_def)
  then show ?thesis using assms(2) off(2) by auto
qed

text \<open>Every entry of the allowlist has its paths, so that the verdict can be printed.\<close>

definition paths_known :: "audit_state \<Rightarrow> bool" where
  "paths_known s = (\<forall>c \<in> set (as_offChain s). oc_expected c \<noteq> None)"

lemma entry_for_expected: "entry_for ALLOWED_ADVISORIES url = Some e \<Longrightarrow> ae_expectedNodes e \<noteq> None"
proof -
  assume "entry_for ALLOWED_ADVISORIES url = Some e"
  then have "e \<in> set ALLOWED_ADVISORIES" by (auto simp: entry_for_def dest: map_of_SomeD)
  moreover have "\<forall>e \<in> set ALLOWED_ADVISORIES. ae_expectedNodes e \<noteq> None" by (simp add: ALLOWED_ADVISORIES_def)
  ultimately show ?thesis by blast
qed

lemma paths_known_advisory: "paths_known s \<Longrightarrow> paths_known (audit_advisory ALLOWED_ADVISORIES name sev nodes a s)"
  by (auto simp: paths_known_def audit_advisory_def Let_def dest: entry_for_expected split: option.splits)

lemma paths_known_advisories:
  "paths_known s \<Longrightarrow> paths_known (foldl (\<lambda>s a. audit_advisory ALLOWED_ADVISORIES name sev nodes a s) s as)"
  by (induction as arbitrary: s) (auto simp: paths_known_advisory)

lemma paths_known_packages: "audit_packages num ALLOWED_ADVISORIES es s = Inr s' \<Longrightarrow> paths_known s \<Longrightarrow> paths_known s'"
proof (induction es arbitrary: s)
  case (Cons e es)
  obtain s1 where s1: "audit_package num ALLOWED_ADVISORIES e s = Inr s1" "audit_packages num ALLOWED_ADVISORIES es s1 = Inr s'"
    using Cons.prems(1) by (auto simp: ebind_eq_Inr)
  have "paths_known s1"
    using s1(1) Cons.prems(2)
    by (auto simp: audit_package_def Let_def ebind_eq_Inr split: prod.splits intro!: paths_known_advisories)
      (auto simp: paths_known_def)
  then show ?case using Cons.IH s1(2) by blast
qed simp

lemma off_chain_lines_total: "\<forall>c \<in> set cs. oc_expected c \<noteq> None \<Longrightarrow> \<exists>ls. off_chain_lines num cs = Inr ls"
  by (induction cs) (auto simp: off_chain_line_def split: option.splits)

lemma verdict_formats:
  assumes "evaluateAuditReport num report ALLOWED_ADVISORIES reviewBy today = Inr v"
  obtains ls where "formatVerdict num v = Inr ls"
proof -
  obtain s where s: "audit_packages num ALLOWED_ADVISORIES (vulnerabilities_of report) no_audit = Inr s"
    using assms by (auto simp: evaluateAuditReport_def ebind_eq_Inr)
  have "paths_known s" by (rule paths_known_packages [OF s]) (simp add: paths_known_def no_audit_def)
  moreover have "vd_offChain v = as_offChain s" using assms s by (auto simp: evaluateAuditReport_def Let_def)
  ultimately obtain offs where "off_chain_lines num (vd_offChain v) = Inr offs"
    using off_chain_lines_total [of "as_offChain s" num] by (auto simp: paths_known_def)
  then show ?thesis using that unfolding formatVerdict_def ebind_def by simp
qed

text \<open>
  The build passes the gate exactly when the output of the audit is a report in which every advisory
  of every package is admitted, one at or above \<open>high\<close> only if it is on the allowlist and an allowlisted one only on the install
  paths of its entry, and the review date has not passed. A verdict that fails is never silent: an error line is printed exactly
  then.
\<close>

theorem gate_passes_exactly_when_admitted:
  assumes "JSON_parse raw = Some report" "raw \<noteq> []"
    and "evaluateAuditReport num report ALLOWED_ADVISORIES REVIEW_BY today = Inr v"
  shows "(fst (audit_main num (Some raw) today) = 0 \<longleftrightarrow>
      (\<forall>(name, vuln) \<in> set (vulnerabilities_of report). \<exists>as. advisories_of vuln = Inr as \<and>
         (\<forall>a \<in> set as. admitted num ALLOWED_ADVISORIES vuln a)) \<and>
      codes today \<le> codes REVIEW_BY) \<and>
    (fst (audit_main num (Some raw) today) = 0 \<longleftrightarrow> fst (snd (audit_main num (Some raw) today)) = [])"
proof -
  obtain s where s: "audit_packages num ALLOWED_ADVISORIES (vulnerabilities_of report) no_audit = Inr s"
    using assms(3) by (auto simp: evaluateAuditReport_def ebind_eq_Inr)
  have v: "vd_ok v = (clean s \<and> \<not> codes REVIEW_BY < codes today)"
    "vd_ok v = (vd_unlisted v = [] \<and> vd_offChain v = [] \<and> \<not> vd_expired v)"
    using assms(3) s by (auto simp: evaluateAuditReport_def Let_def clean_def)
  obtain ls where ls: "formatVerdict num v = Inr ls" using verdict_formats [OF assms(3)] .
  have main: "audit_main num (Some raw) today = (if vd_ok v then 0 else 1, emit_lines ls)"
    using assms ls by (simp add: audit_main_def)
  have "clean s \<longleftrightarrow> (\<forall>(name, vuln) \<in> set (vulnerabilities_of report). \<exists>as. advisories_of vuln = Inr as \<and>
         (\<forall>a \<in> set as. admitted num ALLOWED_ADVISORIES vuln a))"
    using clean_packages [OF s] by (simp add: clean_def no_audit_def)
  then show ?thesis using v(1) verdict_is_printed [OF ls v(2)] main by (auto simp: not_less)
qed

text \<open>A report of one allowlisted advisory, on its path.\<close>

definition sample_report :: string where
  "sample_report = ''{\"vulnerabilities\":{\"toml\":{\"severity\":\"high\",\"nodes\":[\"node_modules/toml\"],\"via\":[{\"url\":\"https://github.com/advisories/GHSA-82x6-q7mm-w9cf\",\"severity\":\"high\"}]}}}''"

abbreviation sample_vuln :: json where
  "sample_vuln \<equiv> JObj [(''severity'', JStr ''high''), (''nodes'', JArr [JStr ''node_modules/toml'']),
     (''via'', JArr [JObj [(''url'', JStr ''https://github.com/advisories/GHSA-82x6-q7mm-w9cf''), (''severity'', JStr ''high'')]])]"

lemma sample_report_parsed: "JSON_parse sample_report = Some (JObj [(''vulnerabilities'', JObj [(''toml'', sample_vuln)])])"
  by code_simp

lemmas sample_audit_simps = vulnerabilities_of_def report_entries_def is_nullish_def advisories_of_def has_url_def url_of_def
  severity_of_def nodes_of_def entry_for_def ALLOWED_ADVISORIES_def unexpected_nodes_def

theorem gate_passes_exactly_when_admitted_witness:
  "fst (audit_main (\<lambda>_. '''') (Some sample_report) ''2026-10-01'') = 0"
proof -
  let ?report = "JObj [(''vulnerabilities'', JObj [(''toml'', sample_vuln)])]"
  let ?num = "\<lambda>_ :: rat. '''' :: string"
  obtain v where v: "evaluateAuditReport ?num ?report ALLOWED_ADVISORIES REVIEW_BY ''2026-10-01'' = Inr v"
    by (simp add: evaluateAuditReport_def audit_package_def sample_audit_simps Let_def)
  have "sample_report \<noteq> []" by (simp add: sample_report_def)
  moreover have "codes ''2026-10-01'' \<le> codes REVIEW_BY" by (simp add: codes_def REVIEW_BY_def)
  moreover have "\<forall>(name, vuln) \<in> set (vulnerabilities_of ?report). \<exists>as. advisories_of vuln = Inr as \<and>
      (\<forall>a \<in> set as. admitted ?num ALLOWED_ADVISORIES vuln a)"
    by (simp add: admitted_def sample_audit_simps Let_def)
  ultimately show ?thesis
    using gate_passes_exactly_when_admitted [OF sample_report_parsed _ v] by blast
qed

section \<open>An audit that failed\<close>

text \<open>
  A report without vulnerabilities passes, also one that only says that the audit itself failed.
\<close>

theorem failed_audit_passes:
  "fst (audit_main num (Some ''{\"error\":{\"code\":\"ENETUNREACH\"}}'') ''2026-10-01'') = 0"
proof -
  have parsed: "JSON_parse ''{\"error\":{\"code\":\"ENETUNREACH\"}}'' = Some (JObj [(''error'', JObj [(''code'', JStr ''ENETUNREACH'')])])"
    by code_simp
  show ?thesis
    by (simp add: audit_main_def parsed evaluateAuditReport_def vulnerabilities_of_def is_nullish_def no_audit_def formatVerdict_def
        Let_def REVIEW_BY_def codes_def)
qed

end
