(* ===== verification/Preflight.thy ===== *)
theory Preflight
  imports Errors
begin

text \<open>
  The self-check of the payer (\<open>contrib/x402-payer-wave-415-419/preflight.ts\<close>). The Stellar SDK, the RPC node and the
  passkey kit are parameters. A call of the node is made at most once per place, so that its answers are a function of the
  place: \<open>getContractInstance\<close> is given 0 for the wallet and \<open>i + 1\<close> for the \<open>i\<close>th configured policy. What is asked of the
  outside are reads only.
\<close>

section \<open>Configuration and results\<close>

record preflight_config =
  fc_secret :: string
  fc_network :: "string option"
  fc_rpcUrl :: "string option"
  fc_walletAddress :: "string option"
  fc_policies :: "string list option"

datatype problem =
    NoSecretConfigured
  | InvalidSeed
  | KeyNotDerived string
  | RpcNetworkMismatch string string "string option" string
  | RpcFailure "string option" string
  | WalletNotOnChain string
  | SignerNotRegistered string string
  | SignerCheckFailed string string
  | PolicyNotConfigured string
  | PolicyNotOnChain string

datatype spend_mode = ChainEnforced | ProcessOnly

record preflight_result =
  pfr_ok :: bool
  pfr_spendMode :: spend_mode
  pfr_problems :: "problem list"
  pfr_network :: string
  pfr_payerAddress :: "string option"
  pfr_walletAddress :: "string option"
  pfr_policies :: "string list option"
  pfr_requiredPolicies :: "string list"
  pfr_rpcUrl :: "string option"

section \<open>Signer values\<close>

text \<open>A value of the passkey kit, of type \<open>unknown\<close>.\<close>

datatype signer_val =
    KvUndefined | KvNull | KvBool bool | KvNum rat | KvStr string
  | KvArr "signer_val list"
  | KvMap "(signer_val \<times> signer_val) list"
  | KvObj "(string \<times> signer_val) list"

fun kv_prop :: "signer_val \<Rightarrow> string \<Rightarrow> signer_val" where
  "kv_prop (KvObj kvs) k = (case map_of kvs k of None \<Rightarrow> KvUndefined | Some v \<Rightarrow> v)"
| "kv_prop v k = KvUndefined"

fun kv_truthy :: "signer_val \<Rightarrow> bool" where
  "kv_truthy KvUndefined = False"
| "kv_truthy KvNull = False"
| "kv_truthy (KvBool b) = b"
| "kv_truthy (KvNum q) = (q \<noteq> 0)"
| "kv_truthy (KvStr s) = (s \<noteq> [])"
| "kv_truthy v = True"

text \<open>\<open>v && typeof v === "object"\<close>\<close>

fun kv_object :: "signer_val \<Rightarrow> bool" where
  "kv_object (KvArr vs) = True"
| "kv_object (KvMap kvs) = True"
| "kv_object (KvObj kvs) = True"
| "kv_object v = False"

definition contract_text :: "(string \<Rightarrow> bool) \<Rightarrow> signer_val \<Rightarrow> string list" where
  "contract_text isContract v = (case v of KvStr s \<Rightarrow> if isContract s then [s] else [] | _ \<Rightarrow> [])"

text \<open>The policy a signer key of a limit names.\<close>

definition policies_of_key :: "signer_val \<Rightarrow> string list" where
  "policies_of_key key =
     (if \<not> kv_object key then []
      else
        (case kv_prop key ''value'' of
           KvStr v \<Rightarrow>
             if kv_prop key ''tag'' = KvStr ''Policy'' \<or> kv_prop key ''key'' = KvStr ''Policy'' then [v]
             else (case kv_prop key ''values'' of KvArr (KvStr w # vs) \<Rightarrow> [w] | _ \<Rightarrow> [])
         | _ \<Rightarrow> (case kv_prop key ''values'' of KvArr (KvStr w # vs) \<Rightarrow> [w] | _ \<Rightarrow> [])))"

definition policies_of_limits :: "(string \<Rightarrow> bool) \<Rightarrow> signer_val \<Rightarrow> string list" where
  "policies_of_limits isContract limits =
     (case limits of
        KvMap entries \<Rightarrow>
          concat (map (\<lambda>(contract, keys). contract_text isContract contract @
            (case keys of KvArr ks \<Rightarrow> concat (map policies_of_key ks) | _ \<Rightarrow> [])) entries)
      | _ \<Rightarrow> [])"

definition dedup :: "'a list \<Rightarrow> 'a list" where
  "dedup xs = rev (remdups (rev xs))"

definition extractPoliciesFromSignerVal :: "(string \<Rightarrow> bool) \<Rightarrow> signer_val \<Rightarrow> string list" where
  "extractPoliciesFromSignerVal isContract val =
     (if \<not> kv_truthy val \<or> \<not> kv_object val then []
      else
        dedup
          ((case kv_prop val ''values'' of
              KvArr (pk # expiry # KvArr (limits # rest) # others) \<Rightarrow> policies_of_limits isContract limits
            | _ \<Rightarrow> []) @
           (case kv_prop val ''limits'' of
              KvMap entries \<Rightarrow> concat (map (\<lambda>(contract, _). contract_text isContract contract) entries)
            | KvArr vs \<Rightarrow> concat (map (contract_text isContract) vs)
            | _ \<Rightarrow> []) @
           (case kv_prop val ''requiredPolicies'' of
              KvArr vs \<Rightarrow> concat (map (contract_text isContract) vs)
            | _ \<Rightarrow> [])))"

section \<open>The check\<close>

definition DEFAULT_RPC_URLS :: "string \<Rightarrow> string option" where
  "DEFAULT_RPC_URLS network =
     (if network = ''testnet'' then Some ''https://soroban-testnet.stellar.org''
      else if network = ''mainnet'' then Some ''https://mainnet.sorobanrpc.com'' else None)"

definition expectedPassphrase :: "string \<Rightarrow> string" where
  "expectedPassphrase network =
     (if network = ''mainnet'' then ''Public Global Stellar Network ; September 2015'' else ''Test SDF Network ; September 2015'')"

record rpc_server =
  rv_getNetwork :: "string + string"
  rv_getContractInstance :: "(nat \<Rightarrow> string \<Rightarrow> string + unit) option"

text \<open>\<open>new rpc.Server\<close> and the kit built for a wallet, where none is passed in.\<close>

record preflight_env =
  fe_isSeed :: "string \<Rightarrow> bool"
  fe_publicKey :: "string \<Rightarrow> string + string"
  fe_isContract :: "string \<Rightarrow> bool"
  fe_newServer :: "string option \<Rightarrow> string + rpc_server"
  fe_newKit :: "string option \<Rightarrow> string \<Rightarrow> string \<Rightarrow> string + (string \<Rightarrow> string + signer_val)"

record preflight_options =
  fo_env :: "string \<Rightarrow> string option"
  fo_config :: "preflight_config option"
  fo_rpcServer :: "rpc_server option"
  fo_kit :: "(string \<Rightarrow> string + signer_val) option"

text \<open>\<open>env.X?.trim() || undefined\<close>\<close>

definition env_value :: "(string \<Rightarrow> string option) \<Rightarrow> string \<Rightarrow> string option" where
  "env_value env k = (case env k of None \<Rightarrow> None | Some v \<Rightarrow> if trim v = [] then None else Some (trim v))"

definition config_from_env :: "(string \<Rightarrow> string option) \<Rightarrow> preflight_config" where
  "config_from_env env =
     \<lparr>fc_secret = (case env_value env ''VELLAR_X402_SECRET'' of None \<Rightarrow> '''' | Some s \<Rightarrow> s),
      fc_network = Some (case env_value env ''VELLAR_X402_NETWORK'' of None \<Rightarrow> ''testnet'' | Some n \<Rightarrow> n),
      fc_rpcUrl = env_value env ''VELLAR_X402_RPC_URL'',
      fc_walletAddress = env_value env ''VELLAR_X402_WALLET'',
      fc_policies = (case env ''VELLAR_X402_POLICIES'' of
        None \<Rightarrow> None
      | Some v \<Rightarrow> if v = [] then None else Some (filter (\<lambda>s. s \<noteq> []) (map trim (split_on CHR '','' v))))\<rparr>"

definition resolved_config :: "preflight_options \<Rightarrow> preflight_config \<times> problem list" where
  "resolved_config opts =
     (case fo_config opts of
        Some c \<Rightarrow> (c, [])
      | None \<Rightarrow> (let c = config_from_env (fo_env opts) in (c, if fc_secret c = [] then [NoSecretConfigured] else [])))"

text \<open>Step 1: the key of the payer.\<close>

definition derive_key :: "preflight_env \<Rightarrow> string \<Rightarrow> string option \<times> problem list" where
  "derive_key env secret =
     (if secret = [] \<or> \<not> fe_isSeed env secret then (None, [InvalidSeed])
      else (case fe_publicKey env secret of Inr pk \<Rightarrow> (Some pk, []) | Inl e \<Rightarrow> (None, [KeyNotDerived e])))"

text \<open>Step 4: the node.\<close>

definition check_network :: "rpc_server \<Rightarrow> string \<Rightarrow> string option \<Rightarrow> problem list" where
  "check_network server network rpcUrl =
     (case rv_getNetwork server of
        Inl e \<Rightarrow> [RpcFailure rpcUrl e]
      | Inr passphrase \<Rightarrow>
          if passphrase \<noteq> expectedPassphrase network
          then [RpcNetworkMismatch network (expectedPassphrase network) rpcUrl passphrase] else [])"

definition on_chain :: "rpc_server \<Rightarrow> nat \<Rightarrow> string \<Rightarrow> bool" where
  "on_chain server i contractId =
     (case rv_getContractInstance server of None \<Rightarrow> True | Some f \<Rightarrow> (\<exists>u. f i contractId = Inr u))"

text \<open>Step 2: the signer, with the problem of a wallet that is not on chain; the kit that is passed in skips that check.\<close>

definition signer_value ::
    "preflight_env \<Rightarrow> preflight_options \<Rightarrow> rpc_server \<Rightarrow> string \<Rightarrow> string option \<Rightarrow> string \<Rightarrow> string \<Rightarrow> (string + signer_val) \<times> problem list" where
  "signer_value env opts server network rpcUrl walletAddress pk =
     (case fo_kit opts of
        Some getSigner \<Rightarrow> (getSigner pk, [])
      | None \<Rightarrow>
          (case fe_newKit env rpcUrl (expectedPassphrase network) walletAddress of
             Inl e \<Rightarrow> (Inl e, [])
           | Inr getSigner \<Rightarrow> (getSigner pk, if on_chain server 0 walletAddress then [] else [WalletNotOnChain walletAddress])))"

definition check_signer :: "preflight_env \<Rightarrow> string \<Rightarrow> string \<Rightarrow> string + signer_val \<Rightarrow> string list \<times> problem list" where
  "check_signer env walletAddress pk val =
     (case val of
        Inl e \<Rightarrow> ([], [SignerCheckFailed walletAddress e])
      | Inr v \<Rightarrow>
          if \<not> kv_truthy v then ([], [SignerNotRegistered pk walletAddress])
          else (dedup (extractPoliciesFromSignerVal (fe_isContract env) v), []))"

text \<open>Step 3: the policies.\<close>

definition check_policies :: "rpc_server \<Rightarrow> string list \<Rightarrow> string list \<Rightarrow> problem list" where
  "check_policies server requiredPolicies configured =
     map PolicyNotConfigured (filter (\<lambda>p. p \<notin> set configured) requiredPolicies) @
     map (\<lambda>(i, p). PolicyNotOnChain p) (filter (\<lambda>(i, p). \<not> on_chain server (i + 1) p) (enumerate 0 configured))"

definition check_wallet ::
    "preflight_env \<Rightarrow> preflight_options \<Rightarrow> rpc_server \<Rightarrow> preflight_config \<Rightarrow> string \<Rightarrow> string option \<Rightarrow> string option \<Rightarrow>
     string list \<times> problem list" where
  "check_wallet env opts server config network rpcUrl payer =
     (case (fc_walletAddress config, payer) of
        (Some walletAddress, Some pk) \<Rightarrow>
          if walletAddress = [] \<or> pk = [] then ([], [])
          else
            (let (val, p1) = signer_value env opts server network rpcUrl walletAddress pk;
                 (requiredPolicies, p2) = check_signer env walletAddress pk val;
                 configured = (case fc_policies config of None \<Rightarrow> [] | Some ps \<Rightarrow> ps) in
             (requiredPolicies, p1 @ p2 @ check_policies server requiredPolicies configured))
      | _ \<Rightarrow> ([], []))"

definition network_of :: "preflight_config \<Rightarrow> string" where
  "network_of config = (case fc_network config of None \<Rightarrow> ''testnet'' | Some n \<Rightarrow> n)"

definition rpcUrl_of :: "preflight_config \<Rightarrow> string option" where
  "rpcUrl_of config = (case fc_rpcUrl config of None \<Rightarrow> DEFAULT_RPC_URLS (network_of config) | Some u \<Rightarrow> Some u)"

text \<open>The error is that of \<open>new rpc.Server\<close>, which stands outside the handlers.\<close>

definition runPreflight :: "preflight_env \<Rightarrow> preflight_options \<Rightarrow> preflight_result outcome" where
  "runPreflight env opts =
     (let (config, p0) = resolved_config opts;
          (payer, p1) = derive_key env (fc_secret config);
          network = network_of config;
          spendMode = (if fc_walletAddress config \<noteq> None then ChainEnforced else ProcessOnly);
          rpcUrl = rpcUrl_of config in
      ebind (case fo_rpcServer opts of Some s \<Rightarrow> Inr s | None \<Rightarrow> map_sum Thrown id (fe_newServer env rpcUrl)) (\<lambda>server.
        let p2 = check_network server network rpcUrl;
            (requiredPolicies, p3) = check_wallet env opts server config network rpcUrl payer;
            problems = p0 @ p1 @ p2 @ p3 in
        Inr \<lparr>pfr_ok = (problems = []), pfr_spendMode = spendMode, pfr_problems = problems, pfr_network = network,
             pfr_payerAddress = payer, pfr_walletAddress = fc_walletAddress config, pfr_policies = fc_policies config,
             pfr_requiredPolicies = requiredPolicies, pfr_rpcUrl = rpcUrl\<rparr>))"

section \<open>What a passed check means\<close>

lemma set_dedup [simp]: "set (dedup xs) = set xs"
  by (simp add: dedup_def)

lemma distinct_dedup: "distinct (dedup xs)"
  by (simp add: dedup_def)

lemma check_policies_clear:
  "check_policies server required configured = [] \<longleftrightarrow>
     set required \<subseteq> set configured \<and> (\<forall>i < length configured. on_chain server (i + 1) (configured ! i))"
proof -
  have "set (enumerate 0 configured) = (\<lambda>i. (i, configured ! i)) ` {..<length configured}"
    by (auto simp: in_set_enumerate_eq image_iff)
  then show ?thesis by (auto simp: check_policies_def filter_empty_conv case_prod_unfold)
qed

lemma resolved_config_clear: "resolved_config opts = (c, p) \<Longrightarrow> p = [] \<or> fc_secret c = []"
  by (auto simp: resolved_config_def Let_def split: option.splits if_splits)

text \<open>What the self-check is meant to establish.\<close>

definition payer_ready :: "preflight_env \<Rightarrow> preflight_options \<Rightarrow> rpc_server \<Rightarrow> preflight_config \<Rightarrow> string \<Rightarrow> string option \<Rightarrow> bool" where
  "payer_ready env opts server config network rpcUrl =
     (fc_secret config \<noteq> [] \<and> fe_isSeed env (fc_secret config) \<and>
      rv_getNetwork server = Inr (expectedPassphrase network) \<and>
      (\<exists>pk. fe_publicKey env (fc_secret config) = Inr pk \<and>
        (\<forall>w. fc_walletAddress config = Some w \<longrightarrow> w \<noteq> [] \<longrightarrow> pk \<noteq> [] \<longrightarrow>
          (fo_kit opts = None \<longrightarrow> on_chain server 0 w) \<and>
          (\<exists>v. fst (signer_value env opts server network rpcUrl w pk) = Inr v \<and> kv_truthy v \<and>
             set (extractPoliciesFromSignerVal (fe_isContract env) v) \<subseteq> set (case fc_policies config of None \<Rightarrow> [] | Some ps \<Rightarrow> ps)) \<and>
          (\<forall>i < length (case fc_policies config of None \<Rightarrow> [] | Some ps \<Rightarrow> ps).
             on_chain server (i + 1) ((case fc_policies config of None \<Rightarrow> [] | Some ps \<Rightarrow> ps) ! i)))))"

lemma derive_key_clear: "snd (derive_key env secret) = [] \<longleftrightarrow> secret \<noteq> [] \<and> fe_isSeed env secret \<and> (\<exists>pk. fe_publicKey env secret = Inr pk)"
  by (auto simp: derive_key_def split: sum.splits)

lemma derive_key_Inr: "secret \<noteq> [] \<Longrightarrow> fe_isSeed env secret \<Longrightarrow> fe_publicKey env secret = Inr pk \<Longrightarrow> derive_key env secret = (Some pk, [])"
  by (simp add: derive_key_def)

lemma check_network_clear: "check_network server network rpcUrl = [] \<longleftrightarrow> rv_getNetwork server = Inr (expectedPassphrase network)"
  by (auto simp: check_network_def split: sum.splits)

lemma check_signer_clear:
  "snd (check_signer env w pk val) = [] \<longleftrightarrow> (\<exists>v. val = Inr v \<and> kv_truthy v)"
  "val = Inr v \<Longrightarrow> kv_truthy v \<Longrightarrow> fst (check_signer env w pk val) = dedup (extractPoliciesFromSignerVal (fe_isContract env) v)"
  by (auto simp: check_signer_def split: sum.splits)

lemma signer_value_clear:
  "fst (signer_value env opts server network rpcUrl w pk) = Inr v \<Longrightarrow>
     snd (signer_value env opts server network rpcUrl w pk) = [] \<longleftrightarrow> (fo_kit opts = None \<longrightarrow> on_chain server 0 w)"
  by (auto simp: signer_value_def split: option.splits sum.splits)

lemma check_wallet_clear:
  "snd (check_wallet env opts server config network rpcUrl (Some pk)) = [] \<longleftrightarrow>
     (\<forall>w. fc_walletAddress config = Some w \<longrightarrow> w \<noteq> [] \<longrightarrow> pk \<noteq> [] \<longrightarrow>
        (fo_kit opts = None \<longrightarrow> on_chain server 0 w) \<and>
        (\<exists>v. fst (signer_value env opts server network rpcUrl w pk) = Inr v \<and> kv_truthy v \<and>
           set (extractPoliciesFromSignerVal (fe_isContract env) v) \<subseteq> set (case fc_policies config of None \<Rightarrow> [] | Some ps \<Rightarrow> ps)) \<and>
        (\<forall>i < length (case fc_policies config of None \<Rightarrow> [] | Some ps \<Rightarrow> ps).
           on_chain server (i + 1) ((case fc_policies config of None \<Rightarrow> [] | Some ps \<Rightarrow> ps) ! i)))"
proof (cases "\<exists>w. fc_walletAddress config = Some w \<and> w \<noteq> [] \<and> pk \<noteq> []")
  case True
  then obtain w where w: "fc_walletAddress config = Some w" "w \<noteq> []" "pk \<noteq> []" by blast
  let ?ps = "case fc_policies config of None \<Rightarrow> [] | Some ps \<Rightarrow> ps"
  let ?sv = "signer_value env opts server network rpcUrl w pk"
  have "snd (check_wallet env opts server config network rpcUrl (Some pk)) =
      snd ?sv @ snd (check_signer env w pk (fst ?sv)) @ check_policies server (fst (check_signer env w pk (fst ?sv))) ?ps"
    using w by (simp add: check_wallet_def Let_def case_prod_unfold)
  note all = this
  show ?thesis
  proof (cases "\<exists>v. fst ?sv = Inr v \<and> kv_truthy v")
    case True
    then obtain v where v: "fst ?sv = Inr v" "kv_truthy v" by blast
    have "snd (check_signer env w pk (fst ?sv)) = []" using v by (simp add: check_signer_clear(1))
    moreover have "fst (check_signer env w pk (fst ?sv)) = dedup (extractPoliciesFromSignerVal (fe_isContract env) v)"
      using v by (simp add: check_signer_clear(2))
    ultimately show ?thesis
      using w v signer_value_clear [OF v(1)] by (auto simp: all check_policies_clear)
  next
    case False
    then have "snd (check_signer env w pk (fst ?sv)) \<noteq> []" by (simp add: check_signer_clear(1))
    then show ?thesis using False w by (auto simp: all)
  qed
next
  case False
  then show ?thesis by (auto simp: check_wallet_def split: option.splits)
qed

text \<open>
  The self-check passes exactly for a payer that is ready: the secret is a seed whose key can be derived,
  the node is of the configured network, and, with a wallet, the key is a signer of it, the wallet and every configured
  policy are on chain and every policy the signer's limits name is configured.
\<close>

theorem preflight_passes_exactly_when_ready:
  assumes "runPreflight env opts = Inr r" "resolved_config opts = (config, p0)"
    and "fo_rpcServer opts = Some server \<or> fo_rpcServer opts = None \<and> fe_newServer env (pfr_rpcUrl r) = Inr server"
  shows "pfr_ok r \<longleftrightarrow> payer_ready env opts server config (pfr_network r) (pfr_rpcUrl r)"
proof -
  obtain payer p1 where key: "derive_key env (fc_secret config) = (payer, p1)" by fastforce
  have server: "(case fo_rpcServer opts of Some s \<Rightarrow> Inr s | None \<Rightarrow> map_sum Thrown id (fe_newServer env (pfr_rpcUrl r))) = (Inr server :: rpc_server outcome)"
    using assms(3) by auto
  have url: "pfr_rpcUrl r = rpcUrl_of config" and net: "pfr_network r = network_of config"
    using assms(1,2) by (auto simp: runPreflight_def Let_def ebind_eq_Inr case_prod_unfold)
  have "pfr_problems r = p0 @ p1 @ check_network server (pfr_network r) (pfr_rpcUrl r) @
      snd (check_wallet env opts server config (pfr_network r) (pfr_rpcUrl r) payer) \<and> pfr_ok r = (pfr_problems r = [])"
    using assms(1) server unfolding url net
    by (auto simp: runPreflight_def assms(2) key Let_def case_prod_unfold cong: option.case_cong)
  then have ok: "pfr_ok r \<longleftrightarrow> p0 = [] \<and> p1 = [] \<and> check_network server (pfr_network r) (pfr_rpcUrl r) = [] \<and>
      snd (check_wallet env opts server config (pfr_network r) (pfr_rpcUrl r) payer) = []"
    by auto
  show ?thesis
  proof (cases "p1 = []")
    case True
    then obtain pk where pk: "fc_secret config \<noteq> []" "fe_isSeed env (fc_secret config)" "fe_publicKey env (fc_secret config) = Inr pk"
      using derive_key_clear [of env "fc_secret config"] key by auto
    then have "payer = Some pk" "p0 = []"
      using derive_key_Inr [OF pk] key resolved_config_clear [OF assms(2)] by auto
    then show ?thesis
      using ok True pk by (simp add: payer_ready_def check_network_clear check_wallet_clear)
  next
    case False
    then show ?thesis using ok derive_key_clear [of env "fc_secret config"] key by (auto simp: payer_ready_def)
  qed
qed

section \<open>What a passed check does not mean\<close>

text \<open>An empty wallet address is reported as chain-enforced, and nothing about a wallet is checked.\<close>

lemma empty_wallet_is_chain_enforced:
  assumes "runPreflight env opts = Inr r" "fo_config opts = Some config" "fc_walletAddress config = Some ''''"
  shows "pfr_spendMode r = ChainEnforced \<and>
    runPreflight env (opts\<lparr>fo_config := Some (config\<lparr>fc_policies := ps\<rparr>)\<rparr>) = Inr (r\<lparr>pfr_policies := ps\<rparr>)"
proof -
  have "check_wallet env o' server (config\<lparr>fc_policies := qs\<rparr>) n u payer = ([], [])" for o' server n u payer qs
    using assms(3) by (auto simp: check_wallet_def split: option.splits)
  from this [of _ _ "fc_policies config"] this show ?thesis
    using assms by (auto simp: runPreflight_def resolved_config_def Let_def ebind_eq_Inr case_prod_unfold
        network_of_def rpcUrl_of_def cong: option.case_cong)
qed

text \<open>A network the program does not know is checked as the test network.\<close>

lemma unknown_network_counts_as_testnet: "network \<noteq> ''mainnet'' \<Longrightarrow> expectedPassphrase network = expectedPassphrase ''testnet''"
  by (simp add: expectedPassphrase_def)

text \<open>Without a key nothing about the wallet and its policies is reported.\<close>

lemma bad_secret_hides_wallet_problems: "check_wallet env opts server config network rpcUrl None = ([], [])"
  by (simp add: check_wallet_def split: option.splits)

end
