(* ===== verification/Telemetry.thy ===== *)
theory Telemetry
  imports Json Errors DurableLedger
begin

text \<open>
  Telemetry of completed payments (\<open>contrib/examples/issue-296-x402-payment-telemetry/x402-telemetry.ts\<close>): the event, the
  wrapper that emits it and the sink that keeps events in memory. Per call the answer of the wrapped \<open>fetch\<close> and the
  three readings of the clock, which may throw, are arguments; so are the URL parser, the sink and \<open>onError\<close>. The state is the
  list of what the sink and \<open>onError\<close> were given.
\<close>

section \<open>The event\<close>

record tele_settlement =
  ts_transaction :: string
  ts_payer :: string
  ts_asset :: string
  ts_amount :: int
  ts_network :: string

record tele_response =
  tr_status :: nat
  tr_paid :: bool
  tr_settlement :: "tele_settlement option"

record payment_event =
  pe_resourceId :: string
  pe_amount :: int
  pe_asset :: string
  pe_network :: string
  pe_transaction :: string
  pe_payer :: string
  pe_status :: nat
  pe_timestamp :: int
  pe_durationMs :: "int option"

datatype resource_id_mode = PathMode | OriginMode | FullMode

text \<open>The URL parser gives the origin and the path.\<close>

definition sanitizeResourceId :: "(string \<Rightarrow> (string \<times> string) option) \<Rightarrow> string \<Rightarrow> resource_id_mode \<Rightarrow> string" where
  "sanitizeResourceId parse url mode =
     (if mode = FullMode then url
      else
        (case parse url of
           Some (origin, pathname) \<Rightarrow> if mode = OriginMode then origin else origin @ pathname
         | None \<Rightarrow> takeWhile (\<lambda>c. c \<noteq> CHR ''?'' \<and> c \<noteq> CHR ''#'') url))"

definition buildPaymentCompletedEvent ::
    "(string \<Rightarrow> (string \<times> string) option) \<Rightarrow> string \<Rightarrow> tele_response \<Rightarrow> resource_id_mode option \<Rightarrow> string + int \<Rightarrow> int option \<Rightarrow>
     string + payment_event option" where
  "buildPaymentCompletedEvent parse url result mode now durationMs =
     (case tr_settlement result of
        None \<Rightarrow> Inr None
      | Some s \<Rightarrow>
          if \<not> tr_paid result then Inr None
          else ebind now (\<lambda>t. Inr (Some
            \<lparr>pe_resourceId = sanitizeResourceId parse url (case mode of None \<Rightarrow> PathMode | Some m \<Rightarrow> m),
             pe_amount = ts_amount s, pe_asset = ts_asset s, pe_network = ts_network s, pe_transaction = ts_transaction s,
             pe_payer = ts_payer s, pe_status = tr_status result, pe_timestamp = t, pe_durationMs = durationMs\<rparr>)))"

text \<open>\<open>toJSON\<close>: the amount becomes a text.\<close>

definition event_toJSON :: "payment_event \<Rightarrow> json" where
  "event_toJSON e =
     JObj [(''type'', JStr ''x402.payment.completed''), (''resourceId'', JStr (pe_resourceId e)),
       (''amount'', JStr (show_int (pe_amount e))), (''asset'', JStr (pe_asset e)), (''network'', JStr (pe_network e)),
       (''transaction'', JStr (pe_transaction e)), (''payer'', JStr (pe_payer e)), (''status'', JNum (of_nat (pe_status e))),
       (''timestamp'', JNum (of_int (pe_timestamp e))),
       (''durationMs'', (case pe_durationMs e of None \<Rightarrow> JUndefined | Some d \<Rightarrow> JNum (of_int d)))]"

section \<open>The wrapper\<close>

text \<open>A sink throws, returns, or returns a promise that is fulfilled or rejected.\<close>

datatype sink_outcome = SinkThrows string | SinkReturns | SinkFulfils | SinkRejects string

datatype tele_event = Emitted payment_event | Reported string payment_event

record tele_options =
  tl_sink :: "(payment_event \<Rightarrow> sink_outcome) option"
  tl_resourceIdMode :: "resource_id_mode option"
  tl_onError :: "(string \<Rightarrow> payment_event \<Rightarrow> string + unit) option"

record tele_clock =
  tk_start :: "string + int"
  tk_end :: "string + int"
  tk_stamp :: "string + int"

text \<open>What \<open>onError\<close> throws is dropped.\<close>

definition report_error :: "tele_options \<Rightarrow> string \<Rightarrow> payment_event \<Rightarrow> tele_event list" where
  "report_error opts e event = (case tl_onError opts of None \<Rightarrow> [] | Some f \<Rightarrow> [Reported e event])"

definition emitSafely :: "tele_options \<Rightarrow> (payment_event \<Rightarrow> sink_outcome) \<Rightarrow> payment_event \<Rightarrow> tele_event list" where
  "emitSafely opts sink event =
     Emitted event #
       (case sink event of
          SinkThrows e \<Rightarrow> report_error opts e event
        | SinkRejects e \<Rightarrow> report_error opts e event
        | SinkReturns \<Rightarrow> []
        | SinkFulfils \<Rightarrow> [])"

text \<open>Without a sink the wrapped \<open>fetch\<close> is returned as it is.\<close>

definition telemetryFetch ::
    "(string \<Rightarrow> (string \<times> string) option) \<Rightarrow> tele_options \<Rightarrow> string \<Rightarrow> string + tele_response \<Rightarrow> tele_clock \<Rightarrow>
     (tele_event list, string, tele_response) act" where
  "telemetryFetch parse opts url answer clock =
     (case tl_sink opts of
        None \<Rightarrow> lift answer
      | Some sink \<Rightarrow>
          andThen (lift (tk_start clock)) (\<lambda>startedAt.
          andThen (lift answer) (\<lambda>result.
          andThen (lift (tk_end clock)) (\<lambda>ended.
          andThen (lift (buildPaymentCompletedEvent parse url result (tl_resourceIdMode opts) (tk_stamp clock) (Some (ended - startedAt))))
            (\<lambda>event.
              andThen (modify (\<lambda>evs. case event of None \<Rightarrow> evs | Some e \<Rightarrow> evs @ emitSafely opts sink e)) (\<lambda>_. ret result))))))"

text \<open>The sink that keeps events in memory.\<close>

definition memory_sink :: "payment_event \<Rightarrow> sink_outcome" where "memory_sink event = SinkReturns"

definition memory_events :: "tele_event list \<Rightarrow> payment_event list" where
  "memory_events evs = concat (map (\<lambda>ev. case ev of Emitted e \<Rightarrow> [e] | Reported _ _ \<Rightarrow> []) evs)"

definition totalFor :: "payment_event list \<Rightarrow> string \<Rightarrow> int" where
  "totalFor events asset = foldl (\<lambda>sum e. sum + pe_amount e) 0 (filter (\<lambda>e. pe_asset e = asset) events)"

section \<open>Telemetry does not change a payment\<close>

definition clock_works :: "tele_clock \<Rightarrow> bool" where
  "clock_works clock = (\<exists>a b c. tk_start clock = Inr a \<and> tk_end clock = Inr b \<and> tk_stamp clock = Inr c)"

text \<open>The payment of an answer, if it settled one.\<close>

definition settled_payment :: "string + tele_response \<Rightarrow> tele_settlement option" where
  "settled_payment answer = (case answer of Inr r \<Rightarrow> if tr_paid r then tr_settlement r else None | Inl _ \<Rightarrow> None)"

lemma telemetryFetch_run:
  assumes "clock_works clock" "tl_sink opts = Some sink"
  shows "telemetryFetch parse opts url answer clock evs =
    (answer, evs @
      (case settled_payment answer of
         None \<Rightarrow> []
       | Some s \<Rightarrow> emitSafely opts sink
           \<lparr>pe_resourceId = sanitizeResourceId parse url (case tl_resourceIdMode opts of None \<Rightarrow> PathMode | Some m \<Rightarrow> m),
            pe_amount = ts_amount s, pe_asset = ts_asset s, pe_network = ts_network s, pe_transaction = ts_transaction s,
            pe_payer = ts_payer s, pe_status = (case answer of Inr r \<Rightarrow> tr_status r | Inl _ \<Rightarrow> 0),
            pe_timestamp = projr (tk_stamp clock), pe_durationMs = Some (projr (tk_end clock) - projr (tk_start clock))\<rparr>))"
  using assms
  by (auto simp: telemetryFetch_def clock_works_def settled_payment_def buildPaymentCompletedEvent_def act_defs split: sum.splits option.splits)

lemma memory_events_emit [simp]: "memory_events (evs @ emitSafely opts sink e) = memory_events evs @ [e]"
  by (auto simp: memory_events_def emitSafely_def report_error_def split: sink_outcome.splits option.splits)

lemma totalFor_snoc: "totalFor (es @ [e]) asset = totalFor es asset + (if pe_asset e = asset then pe_amount e else 0)"
  by (simp add: totalFor_def)

section \<open>A session of payments\<close>

record tele_call =
  tc_url :: string
  tc_answer :: "string + tele_response"
  tc_clock :: tele_clock

definition tele_step ::
    "(string \<Rightarrow> (string \<times> string) option) \<Rightarrow> tele_options \<Rightarrow> tele_call \<Rightarrow> tele_event list \<Rightarrow> (string + tele_response) \<times> tele_event list" where
  "tele_step parse opts c evs = telemetryFetch parse opts (tc_url c) (tc_answer c) (tc_clock c) evs"

definition paid_in :: "string \<Rightarrow> tele_call list \<Rightarrow> int" where
  "paid_in asset calls = sum_list (map (\<lambda>c. case settled_payment (tc_answer c) of
     Some s \<Rightarrow> if ts_asset s = asset then ts_amount s else 0 | None \<Rightarrow> 0) calls)"

lemma tele_steps:
  assumes "tl_sink opts = Some sink" "\<forall>c \<in> set calls. clock_works (tc_clock c)"
  shows "fst (run_all (tele_step parse opts) calls evs) = map tc_answer calls \<and>
    length (memory_events (snd (run_all (tele_step parse opts) calls evs))) =
      length (memory_events evs) + length (filter (\<lambda>c. settled_payment (tc_answer c) \<noteq> None) calls) \<and>
    totalFor (memory_events (snd (run_all (tele_step parse opts) calls evs))) asset = totalFor (memory_events evs) asset + paid_in asset calls"
  using assms(2)
proof (induction calls arbitrary: evs)
  case (Cons c calls)
  define evs1 where "evs1 = snd (tele_step parse opts c evs)"
  have step: "tele_step parse opts c evs = (tc_answer c, evs1)"
    "length (memory_events evs1) = length (memory_events evs) + (if settled_payment (tc_answer c) = None then 0 else 1)"
    "totalFor (memory_events evs1) asset = totalFor (memory_events evs) asset + paid_in asset [c]"
    using telemetryFetch_run [OF _ assms(1), of "tc_clock c" parse "tc_url c" "tc_answer c" evs] Cons.prems
    by (auto simp: evs1_def tele_step_def totalFor_snoc paid_in_def split: option.splits)
  have "paid_in asset (c # calls) = paid_in asset [c] + paid_in asset calls" by (simp add: paid_in_def)
  then show ?case using Cons.IH [of evs1] Cons.prems step by (auto simp: case_prod_unfold)
qed (simp add: paid_in_def)

text \<open>
  Telemetry reports what was paid and changes nothing. Over any calls, whatever the sink and
  \<open>onError\<close> do, as long as the clock works every call gives what the wrapped \<open>fetch\<close> gave, a failure included; the sink is given
  one event for each settled payment and none else, and \<open>totalFor\<close> of the events is exactly what was paid in the asset.
\<close>

theorem telemetry_reports_exactly_what_was_paid:
  assumes "tl_sink opts = Some sink" "\<And>c. c \<in> set calls \<Longrightarrow> clock_works (tc_clock c)"
    and "run_all (tele_step parse opts) calls [] = (results, evs)"
  shows "results = map tc_answer calls \<and>
    length (memory_events evs) = length (filter (\<lambda>c. settled_payment (tc_answer c) \<noteq> None) calls) \<and>
    totalFor (memory_events evs) asset = paid_in asset calls"
  using tele_steps [OF assms(1), of calls parse "[]" asset] assms(2,3) by (simp add: memory_events_def totalFor_def)

text \<open>A free answer, a payment of 7 and a failed call, with a sink that throws.\<close>

definition sample_tele :: tele_options where
  "sample_tele = \<lparr>tl_sink = Some (\<lambda>e. SinkThrows ''down''), tl_resourceIdMode = None, tl_onError = Some (\<lambda>e ev. Inl ''too'')\<rparr>"

definition sample_tele_calls :: "tele_call list" where
  "sample_tele_calls =
     (let clock = \<lparr>tk_start = Inr 10, tk_end = Inr 25, tk_stamp = Inr 26\<rparr>;
          paid = \<lparr>ts_transaction = ''T'', ts_payer = ''CP'', ts_asset = ''CUSDC'', ts_amount = 7, ts_network = ''testnet''\<rparr> in
      [\<lparr>tc_url = ''https://a/x?k=1'', tc_answer = Inr \<lparr>tr_status = 200, tr_paid = False, tr_settlement = None\<rparr>, tc_clock = clock\<rparr>,
       \<lparr>tc_url = ''https://a/y'', tc_answer = Inr \<lparr>tr_status = 200, tr_paid = True, tr_settlement = Some paid\<rparr>, tc_clock = clock\<rparr>,
       \<lparr>tc_url = ''https://a/z'', tc_answer = Inl ''refused'', tc_clock = clock\<rparr>])"

theorem telemetry_reports_exactly_what_was_paid_witness:
  "\<exists>results evs. run_all (tele_step (\<lambda>u. None) sample_tele) sample_tele_calls [] = (results, evs) \<and>
     results = map tc_answer sample_tele_calls \<and> length (memory_events evs) = 1 \<and> totalFor (memory_events evs) ''CUSDC'' = 7"
proof -
  obtain results evs where run: "run_all (tele_step (\<lambda>u. None) sample_tele) sample_tele_calls [] = (results, evs)" by fastforce
  have sink: "tl_sink sample_tele = Some (\<lambda>e. SinkThrows ''down'')" by (simp add: sample_tele_def)
  have "clock_works (tc_clock c)" if "c \<in> set sample_tele_calls" for c
    using that by (auto simp: sample_tele_calls_def clock_works_def Let_def)
  from telemetry_reports_exactly_what_was_paid [OF sink this run, of "''CUSDC''"] show ?thesis
    using run by (simp add: sample_tele_calls_def paid_in_def settled_payment_def Let_def)
qed

section \<open>Amounts and URLs\<close>

text \<open>The printed amount is read back exactly.\<close>

lemma event_amount_roundtrip: "jprop (event_toJSON e) ''amount'' = JStr t \<Longrightarrow> BigInt t = Some (pe_amount e)"
  by (auto simp: event_toJSON_def BigInt_show_int)

lemma unparsed_id_has_no_query:
  "parse url = None \<Longrightarrow> mode \<noteq> FullMode \<Longrightarrow> set (sanitizeResourceId parse url mode) \<inter> {CHR ''?'', CHR ''#''} = {}"
  by (auto simp: sanitizeResourceId_def dest: set_takeWhileD)

text \<open>Where the URL does not parse, the mode for the origin alone records the path too.\<close>

lemma origin_mode_records_path: "sanitizeResourceId (\<lambda>u. None) ''/private/report'' OriginMode = ''/private/report''"
  by (simp add: sanitizeResourceId_def)

text \<open>A clock that throws fails a payment that has settled.\<close>

lemma failing_clock_fails_settled_payment:
  assumes "tl_sink opts = Some sink" "tk_start clock = Inr t" "tk_end clock = Inl e"
  shows "telemetryFetch parse opts url (Inr r) clock evs = (Inl e, evs)"
  using assms by (simp add: telemetryFetch_def act_defs)

end
