(* ===== verification/FetchFallback.thy ===== *)
theory FetchFallback
  imports Guards Json
begin

text \<open>
  The x402 client with a cheaper second attempt (\<open>contrib/examples/x402-fetch-fallback/x402-fetch-fallback.ts\<close>): a
  resource server with two tiers, a facilitator that enforces the remaining budget, a client that pays the dearest tier
  it can, and the wrapper that tries once more. The counters of the closures are a record. \<open>num\<close> prints numbers for \<open>BigInt\<close>.
\<close>

section \<open>Server and facilitator\<close>

definition USDC_SAC :: string where "USDC_SAC = ''CDLZFC3SYJYDZT7K67VZ75HPJVIEUVNIXF47ZG2FB2RMQQVU2HHGCYSC''"
definition PAY_TO :: string where "PAY_TO = ''CBIN4HTPJM2QLJ32DTRO6OCLIMM7TR7D74JDIPVQYLNYGL7SBWOXH5ND''"
definition PAYER :: string where "PAYER = ''CC5ZSTLTYKPNIFDSJ4233RVZPALGHHDBRTXGIN6Z3AJCWU57VR5ITXXR''"
definition PREMIUM_AMOUNT :: string where "PREMIUM_AMOUNT = ''800''"
definition BASIC_AMOUNT :: string where "BASIC_AMOUNT = ''400''"

definition tier :: "string \<Rightarrow> string \<Rightarrow> payment_requirements" where
  "tier amount description =
     \<lparr>pr_scheme = ''exact'', pr_network = ''stellar:testnet'', pr_asset = USDC_SAC, pr_amount = JStr amount, pr_payTo = PAY_TO,
      pr_maxTimeoutSeconds = Some 60, pr_extra = JObj [(''description'', JStr description)]\<rparr>"

definition quoted_tiers :: "payment_requirements list" where
  "quoted_tiers = [tier PREMIUM_AMOUNT ''premium quarterly report'', tier BASIC_AMOUNT ''basic quarterly summary'']"

record fallback_world =
  fw_quotes :: nat
  fw_attempts :: nat
  fw_remaining :: int
  fw_txSeq :: nat
  fw_settled :: "int list"
  fw_network :: string

record mock_payment =
  mp_header :: string
  mp_requirements :: payment_requirements
  mp_amount :: int

record mock_settlement =
  ms_transaction :: string
  ms_payer :: string
  ms_asset :: string
  ms_amount :: int
  ms_network :: string

definition padded :: "nat \<Rightarrow> string" where
  "padded n = replicate (4 - length (show_nat n)) CHR ''0'' @ show_nat n"

definition settle_payment :: "mock_payment \<Rightarrow> (fallback_world, js_error, mock_settlement) act" where
  "settle_payment p w =
     (let w1 = w\<lparr>fw_attempts := fw_attempts w + 1\<rparr> in
      if mp_amount p > fw_remaining w then (Inl (X402 (PaymentRejectedError 0 (Some ''over_budget''))), w1)
      else
        (let w2 = w1\<lparr>fw_remaining := fw_remaining w - mp_amount p, fw_txSeq := fw_txSeq w + 1,
                     fw_settled := fw_settled w @ [mp_amount p]\<rparr>;
             parts = split_on CHR '':'' (mp_header p) in
         (Inr \<lparr>ms_transaction = ''mocktx-'' @ padded (fw_txSeq w2), ms_payer = (if length parts > 3 then parts ! 3 else PAYER),
               ms_asset = pr_asset (mp_requirements p), ms_amount = mp_amount p, ms_network = fw_network w\<rparr>, w2)))"

section \<open>The client\<close>

definition price :: "(rat \<Rightarrow> string) \<Rightarrow> payment_requirements \<Rightarrow> int outcome" where
  "price num a = (case toBigInt num (pr_amount a) of Some n \<Rightarrow> Inr n | None \<Rightarrow> Inl (Thrown ''SyntaxError''))"

text \<open>\<open>filter\<close> and \<open>reduce\<close> with a price that may throw.\<close>

fun affordable_tiers :: "(rat \<Rightarrow> string) \<Rightarrow> int \<Rightarrow> payment_requirements list \<Rightarrow> payment_requirements list outcome" where
  "affordable_tiers num maxAmount [] = Inr []"
| "affordable_tiers num maxAmount (a # as) =
     ebind (price num a) (\<lambda>p. ebind (affordable_tiers num maxAmount as) (\<lambda>rest. Inr (if p \<le> maxAmount then a # rest else rest)))"

fun reduce_max :: "(rat \<Rightarrow> string) \<Rightarrow> payment_requirements \<Rightarrow> payment_requirements list \<Rightarrow> payment_requirements outcome" where
  "reduce_max num c [] = Inr c"
| "reduce_max num c (a # as) =
     ebind (price num a) (\<lambda>x. ebind (price num c) (\<lambda>y. reduce_max num (if x > y then a else c) as))"

definition chooseRequirements ::
    "(rat \<Rightarrow> string) \<Rightarrow> payment_requirements list \<Rightarrow> x402_pay_options \<Rightarrow> payment_requirements outcome" where
  "chooseRequirements num accepts opts =
     (let byAsset = allowedCandidates (po_allowedAssets opts) accepts in
      case byAsset of
        [] \<Rightarrow> Inl (X402 (DisallowedAssetError (case accepts of [] \<Rightarrow> ''?'' | a # _ \<Rightarrow> pr_asset a)
               (case po_allowedAssets opts of None \<Rightarrow> [] | Some as \<Rightarrow> as)))
      | b # bs \<Rightarrow>
          ebind (affordable_tiers num (po_maxAmount opts) byAsset) (\<lambda>aff.
            case aff of
              [] \<Rightarrow> ebind (reduce_min (price num) b bs) (\<lambda>cheapest. ebind (price num cheapest) (\<lambda>p.
                     Inl (X402 (MaxAmountExceededError p (po_maxAmount opts) (pr_asset cheapest)))))
            | c # cs \<Rightarrow> reduce_max num c cs))"

definition mockCreatePayment ::
    "(rat \<Rightarrow> string) \<Rightarrow> string \<Rightarrow> payment_requirements \<Rightarrow> x402_pay_options \<Rightarrow> mock_payment outcome" where
  "mockCreatePayment num payer requirements opts =
     ebind (require (case po_allowedAssets opts of None \<Rightarrow> True | Some as \<Rightarrow> pr_asset requirements \<in> set as)
       (X402 (DisallowedAssetError (pr_asset requirements) (case po_allowedAssets opts of None \<Rightarrow> [] | Some as \<Rightarrow> as)))) (\<lambda>_.
     ebind (price num requirements) (\<lambda>amount.
     ebind (require (amount \<le> po_maxAmount opts) (X402 (MaxAmountExceededError amount (po_maxAmount opts) (pr_asset requirements)))) (\<lambda>_.
       Inr \<lparr>mp_header = ''mockpay:'' @ pr_asset requirements @ '':'' @ show_int amount @ '':'' @ payer,
            mp_requirements = requirements, mp_amount = amount\<rparr>)))"

definition mockFetch :: "(rat \<Rightarrow> string) \<Rightarrow> string \<Rightarrow> x402_pay_options \<Rightarrow> (fallback_world, js_error, mock_settlement) act" where
  "mockFetch num payer opts =
     andThen (modify (\<lambda>w. w\<lparr>fw_quotes := fw_quotes w + 1\<rparr>)) (\<lambda>_.
     andThen (lift (chooseRequirements num quoted_tiers opts)) (\<lambda>chosen.
     andThen (lift (mockCreatePayment num payer chosen opts)) (\<lambda>payment. settle_payment payment)))"

section \<open>The second attempt\<close>

definition is_rejection :: "js_error \<Rightarrow> bool" where
  "is_rejection e = (case e of X402 (PaymentRejectedError s r) \<Rightarrow> True | _ \<Rightarrow> False)"

definition fetchWithPaymentFallback ::
    "('w, js_error, 'r) act \<Rightarrow> ('w, js_error, 'r) act \<Rightarrow> ('w, js_error, 'r) act" where
  "fetchWithPaymentFallback first second = tryCatch first (\<lambda>e. if is_rejection e then second else throw e)"

definition fallbackFetch ::
    "(rat \<Rightarrow> string) \<Rightarrow> string \<Rightarrow> x402_pay_options \<Rightarrow> int \<Rightarrow> (fallback_world, js_error, mock_settlement) act" where
  "fallbackFetch num payer opts fallbackMaxAmount =
     fetchWithPaymentFallback (mockFetch num payer opts) (mockFetch num payer (opts\<lparr>po_maxAmount := fallbackMaxAmount\<rparr>))"

section \<open>At most one payment, within the limits\<close>

definition world_ok :: "int \<Rightarrow> fallback_world \<Rightarrow> bool" where
  "world_ok budget w = (0 \<le> fw_remaining w \<and> fw_remaining w + sum_list (fw_settled w) = budget)"

lemma settle_payment_run:
  assumes "settle_payment p w = (r, w')"
  shows "fw_quotes w' = fw_quotes w \<and> fw_attempts w' = fw_attempts w + 1 \<and> (world_ok b w \<longrightarrow> world_ok b w') \<and>
    (case r of
       Inl e \<Rightarrow> is_rejection e \<and> fw_settled w' = fw_settled w \<and> fw_remaining w < mp_amount p
     | Inr s \<Rightarrow> fw_settled w' = fw_settled w @ [mp_amount p] \<and> ms_amount s = mp_amount p \<and> mp_amount p \<le> fw_remaining w)"
  using assms by (auto simp: settle_payment_def Let_def world_ok_def is_rejection_def split: if_splits)

lemma mockFetch_run:
  assumes "mockFetch num payer opts w = (r, w')"
  shows "fw_quotes w' = fw_quotes w + 1 \<and> fw_attempts w' \<le> fw_attempts w + 1 \<and> (world_ok b w \<longrightarrow> world_ok b w') \<and>
    (case r of
       Inl e \<Rightarrow> fw_settled w' = fw_settled w
     | Inr s \<Rightarrow> fw_settled w' = fw_settled w @ [ms_amount s] \<and> ms_amount s \<le> po_maxAmount opts)"
proof -
  let ?w1 = "w\<lparr>fw_quotes := fw_quotes w + 1\<rparr>"
  have keep: "world_ok b w \<longrightarrow> world_ok b ?w1" by (simp add: world_ok_def)
  show ?thesis
  proof (cases "\<exists>chosen payment. chooseRequirements num quoted_tiers opts = Inr chosen \<and> mockCreatePayment num payer chosen opts = Inr payment")
    case True
    then obtain chosen payment where p: "chooseRequirements num quoted_tiers opts = Inr chosen"
      "mockCreatePayment num payer chosen opts = Inr payment" by blast
    have limit: "mp_amount payment \<le> po_maxAmount opts" using p(2) by (auto simp: mockCreatePayment_def ebind_eq_Inr require_def split: if_splits)
    have "settle_payment payment ?w1 = (r, w')" using assms p by (simp add: mockFetch_def act_defs)
    from settle_payment_run [OF this, of b] show ?thesis using keep limit by (auto split: sum.splits)
  next
    case False
    then have "(\<exists>e. r = Inl e) \<and> w' = ?w1"
      using assms by (auto simp: mockFetch_def act_defs split: sum.splits)
    then show ?thesis using keep by auto
  qed
qed

text \<open>
  The second attempt never pays twice. A call quotes at most twice and asks the facilitator at most twice; it
  settles one payment when it returns and none when it fails; the payment is within \<open>maxAmount\<close>, or within the limit of the
  second attempt after the first was rejected; and the budget pays for exactly what was settled.
\<close>

theorem fallback_settles_at_most_once:
  assumes "fallbackFetch num payer opts fallbackMaxAmount w = (r, w')" "world_ok budget w"
  shows "fw_quotes w' \<le> fw_quotes w + 2 \<and> fw_attempts w' \<le> fw_attempts w + 2 \<and> world_ok budget w' \<and>
    (case r of
       Inl e \<Rightarrow> fw_settled w' = fw_settled w
     | Inr s \<Rightarrow> fw_settled w' = fw_settled w @ [ms_amount s] \<and>
         (ms_amount s \<le> po_maxAmount opts \<or> ms_amount s \<le> fallbackMaxAmount \<and> fw_quotes w' = fw_quotes w + 2))"
proof -
  obtain r1 w1 where first: "mockFetch num payer opts w = (r1, w1)" by fastforce
  note run1 = mockFetch_run [OF first, of budget]
  show ?thesis
  proof (cases "\<exists>e. r1 = Inl e \<and> is_rejection e")
    case True
    then have "mockFetch num payer (opts\<lparr>po_maxAmount := fallbackMaxAmount\<rparr>) w1 = (r, w')"
      using assms(1) first by (auto simp: fallbackFetch_def fetchWithPaymentFallback_def tryCatch_def)
    from mockFetch_run [OF this, of budget] show ?thesis using run1 True assms(2) by (auto split: sum.splits)
  next
    case False
    then have "r = r1 \<and> w' = w1"
      using assms(1) first by (auto simp: fallbackFetch_def fetchWithPaymentFallback_def tryCatch_def throw_def split: sum.splits)
    then show ?thesis using run1 assms(2) by (auto split: sum.splits)
  qed
qed

text \<open>A budget of 500: the premium tier is rejected, the basic tier settles.\<close>

definition sample_world :: fallback_world where
  "sample_world = \<lparr>fw_quotes = 0, fw_attempts = 0, fw_remaining = 500, fw_txSeq = 0, fw_settled = [], fw_network = ''testnet''\<rparr>"

lemmas fallback_eval = fallbackFetch_def fetchWithPaymentFallback_def mockFetch_def chooseRequirements_def mockCreatePayment_def
  settle_payment_def quoted_tiers_def tier_def price_def toBigInt_def allowedCandidates_def require_def act_defs is_rejection_def
  PREMIUM_AMOUNT_def BASIC_AMOUNT_def sample_world_def Let_def

lemma tier_prices: "BigInt ''800'' = Some 800" "BigInt ''400'' = Some 400"
  by code_simp+

theorem fallback_settles_at_most_once_witness:
  "\<exists>s w'. fallbackFetch (\<lambda>_. '''') PAYER \<lparr>po_maxAmount = 1000, po_allowedAssets = None\<rparr> 450 sample_world = (Inr s, w') \<and>
     ms_amount s = 400 \<and> fw_settled w' = [400] \<and> fw_quotes w' \<le> 2 \<and> world_ok 500 w'"
proof -
  let ?run = "fallbackFetch (\<lambda>_. '''') PAYER \<lparr>po_maxAmount = 1000, po_allowedAssets = None\<rparr> 450 sample_world"
  obtain s where s: "fst ?run = Inr s" "ms_amount s = 400" by (simp add: fallback_eval tier_prices)
  have "?run = (Inr s, snd ?run)" using s(1) by (metis prod.collapse)
  from this fallback_settles_at_most_once [OF this, of 500] s(2) show ?thesis
    by (auto simp: sample_world_def world_ok_def intro!: exI [of _ s])
qed

end
