(* ===== verification/ResourceCache.thy ===== *)
theory ResourceCache
  imports RequestAuth
begin

text \<open>
  The cache of x402 resource records scoped by network
  (\<open>contrib/examples/issue-221-x402-resource-cache-key/x402-resource-cache-key.ts\<close>). A \<open>get\<close> that misses waits for
  its lookup while other calls run, so it is two steps: the call and the answer. \<open>rc_lookups\<close> and \<open>rc_returned\<close> keep what
  was looked up and what was returned, with the time of the call. The counts of removed entries are left out.
\<close>

section \<open>Keys\<close>

definition RESOURCE_KEY_VERSION :: string where "RESOURCE_KEY_VERSION = ''v2''"
definition KEY_SEPARATOR :: string where "KEY_SEPARATOR = ''|''"

definition buildResourceCacheKey :: "string \<Rightarrow> string \<Rightarrow> string outcome" where
  "buildResourceCacheKey resourceId network =
     (if network = [] then Inl (Thrown ''x402 resource cache key requires a network identifier'')
      else if resourceId = [] then Inl (Thrown ''x402 resource cache key requires a resource id'')
      else Inr (RESOURCE_KEY_VERSION @ KEY_SEPARATOR @ network @ KEY_SEPARATOR @ resourceId))"

record cached_resource =
  cr_resourceId :: string
  cr_network :: string
  cr_asset :: string
  cr_payTo :: string
  cr_amount :: int

type_synonym resource_store = "string \<rightharpoonup> int \<times> cached_resource"

definition clearUnscopedEntries :: "resource_store \<Rightarrow> resource_store" where
  "clearUnscopedEntries store = (\<lambda>key. if startsWith key (RESOURCE_KEY_VERSION @ KEY_SEPARATOR) then store key else None)"

definition network_prefix :: "string \<Rightarrow> string" where
  "network_prefix network = RESOURCE_KEY_VERSION @ KEY_SEPARATOR @ network @ KEY_SEPARATOR"

definition invalidateNetwork :: "string \<Rightarrow> resource_store \<Rightarrow> resource_store" where
  "invalidateNetwork network store = (\<lambda>key. if startsWith key (network_prefix network) then None else store key)"

section \<open>The cache\<close>

record resource_cache =
  rc_store :: resource_store
  rc_ttlMs :: int
  rc_hits :: nat
  rc_misses :: nat
  rc_pending :: "(string \<times> string \<times> int) list"
  rc_lookups :: "((string \<times> string) \<times> int \<times> cached_resource) set"
  rc_returned :: "((string \<times> string) \<times> int \<times> cached_resource) list"

definition createResourceCache :: "resource_store \<Rightarrow> int option \<Rightarrow> resource_cache" where
  "createResourceCache store ttlMs =
     \<lparr>rc_store = clearUnscopedEntries store, rc_ttlMs = (case ttlMs of None \<Rightarrow> 60000 | Some m \<Rightarrow> m), rc_hits = 0, rc_misses = 0,
      rc_pending = [], rc_lookups = {}, rc_returned = []\<rparr>"

text \<open>\<open>get\<close> up to its answer, or up to the lookup it waits for.\<close>

definition cache_get :: "string \<Rightarrow> string \<Rightarrow> int \<Rightarrow> resource_cache \<Rightarrow> resource_cache outcome" where
  "cache_get resourceId network now c =
     ebind (buildResourceCacheKey resourceId network) (\<lambda>key.
       case rc_store c key of
         Some (expiresAt, value) \<Rightarrow>
           if expiresAt > now
           then Inr (c\<lparr>rc_hits := rc_hits c + 1, rc_returned := ((resourceId, network), now, value) # rc_returned c\<rparr>)
           else Inr (c\<lparr>rc_misses := rc_misses c + 1, rc_pending := (resourceId, network, now) # rc_pending c\<rparr>)
       | None \<Rightarrow> Inr (c\<lparr>rc_misses := rc_misses c + 1, rc_pending := (resourceId, network, now) # rc_pending c\<rparr>))"

text \<open>The lookup of a \<open>get\<close> answers: the record is stored from the time of the call, and returned.\<close>

definition cache_fill :: "string \<times> string \<times> int \<Rightarrow> cached_resource \<Rightarrow> resource_cache \<Rightarrow> resource_cache outcome" where
  "cache_fill call value c =
     (case call of (resourceId, network, t) \<Rightarrow>
        ebind (buildResourceCacheKey resourceId network) (\<lambda>key.
          Inr (c\<lparr>rc_store := (rc_store c)(key \<mapsto> (t + rc_ttlMs c, value)), rc_pending := remove1 call (rc_pending c),
                 rc_lookups := insert ((resourceId, network), t, value) (rc_lookups c),
                 rc_returned := ((resourceId, network), t, value) # rc_returned c\<rparr>)))"

text \<open>Calls in any order. A network has no separator in it, as the format demands of a CAIP-2 id.\<close>

inductive cache_step :: "resource_cache \<Rightarrow> resource_cache \<Rightarrow> bool" where
  step_get: "CHR ''|'' \<notin> set network \<Longrightarrow> cache_get resourceId network now c = Inr c' \<Longrightarrow> cache_step c c'"
| step_fill: "call \<in> set (rc_pending c) \<Longrightarrow> cache_fill call value c = Inr c' \<Longrightarrow> cache_step c c'"
| step_lookup_fails: "call \<in> set (rc_pending c) \<Longrightarrow> cache_step c (c\<lparr>rc_pending := remove1 call (rc_pending c)\<rparr>)"
| step_invalidate: "cache_step c (c\<lparr>rc_store := invalidateNetwork network (rc_store c)\<rparr>)"

inductive_cases cache_stepE: "cache_step c c'"

section \<open>Records stay with their network\<close>

lemma key_eq: "buildResourceCacheKey resourceId network = Inr key \<longleftrightarrow>
    network \<noteq> [] \<and> resourceId \<noteq> [] \<and> key = network_prefix network @ resourceId"
  by (auto simp: buildResourceCacheKey_def network_prefix_def)

lemma key_inj:
  assumes "network_prefix n @ r = network_prefix m @ q" "CHR ''|'' \<notin> set n" "CHR ''|'' \<notin> set m"
  shows "n = m \<and> r = q"
  using assms split_at_first [of "CHR ''|''" n m r q] by (simp add: network_prefix_def RESOURCE_KEY_VERSION_def KEY_SEPARATOR_def)

definition cache_init :: "int option \<Rightarrow> resource_cache \<Rightarrow> bool" where
  "cache_init ttlMs c = (\<exists>store. (\<forall>key \<in> dom store. \<not> startsWith key ''v2|'') \<and> c = createResourceCache store ttlMs)"

definition cache_inv :: "resource_cache \<Rightarrow> bool" where
  "cache_inv c =
     ((\<forall>key expiresAt value. rc_store c key = Some (expiresAt, value) \<longrightarrow>
         (\<exists>r n t. key = network_prefix n @ r \<and> CHR ''|'' \<notin> set n \<and> expiresAt = t + rc_ttlMs c \<and> ((r, n), t, value) \<in> rc_lookups c)) \<and>
      (\<forall>(r, n, t) \<in> set (rc_pending c). CHR ''|'' \<notin> set n) \<and>
      (\<forall>(key, t, value) \<in> set (rc_returned c).
         \<exists>t0. (key, t0, value) \<in> rc_lookups c \<and> (t = t0 \<or> t < t0 + rc_ttlMs c)))"

lemma cache_inv_init: "cache_init ttlMs c \<Longrightarrow> cache_inv c"
  by (fastforce simp: cache_init_def cache_inv_def createResourceCache_def clearUnscopedEntries_def RESOURCE_KEY_VERSION_def
      KEY_SEPARATOR_def dom_def split: if_splits)

lemma cache_inv_get:
  assumes "cache_inv c" "CHR ''|'' \<notin> set network" "cache_get resourceId network now c = Inr c'"
  shows "cache_inv c'"
proof -
  obtain key where key: "buildResourceCacheKey resourceId network = Inr key" using assms(3) by (auto simp: cache_get_def ebind_eq_Inr)
  show ?thesis
  proof (cases "\<exists>e v. rc_store c key = Some (e, v) \<and> e > now")
    case True
    then obtain e v where hit: "rc_store c key = Some (e, v)" "e > now" by blast
    obtain r n t where src: "key = network_prefix n @ r" "CHR ''|'' \<notin> set n" "e = t + rc_ttlMs c" "((r, n), t, v) \<in> rc_lookups c"
      using assms(1) hit(1) unfolding cache_inv_def by blast
    have "n = network \<and> r = resourceId" using key_inj [of n r network resourceId] src(1,2) assms(2) key by (simp add: key_eq)
    moreover have "c' = c\<lparr>rc_hits := rc_hits c + 1, rc_returned := ((resourceId, network), now, v) # rc_returned c\<rparr>"
      using assms(3) key hit by (simp add: cache_get_def)
    ultimately show ?thesis using assms(1) src hit(2) by (auto simp: cache_inv_def)
  next
    case False
    then have "c' = c\<lparr>rc_misses := rc_misses c + 1, rc_pending := (resourceId, network, now) # rc_pending c\<rparr>"
      using assms(3) key by (auto simp: cache_get_def split: option.splits if_splits)
    then show ?thesis using assms(1,2) by (auto simp: cache_inv_def)
  qed
qed

lemma cache_inv_fill:
  assumes "cache_inv c" "call \<in> set (rc_pending c)" "cache_fill call value c = Inr c'"
  shows "cache_inv c'"
proof -
  obtain r n t where call: "call = (r, n, t)" by (cases call)
  have sep: "CHR ''|'' \<notin> set n" using assms(1,2) by (auto simp: cache_inv_def call)
  have c': "c' = c\<lparr>rc_store := (rc_store c)(network_prefix n @ r \<mapsto> (t + rc_ttlMs c, value)), rc_pending := remove1 call (rc_pending c),
      rc_lookups := insert ((r, n), t, value) (rc_lookups c), rc_returned := ((r, n), t, value) # rc_returned c\<rparr>"
    using assms(3) by (auto simp: cache_fill_def call ebind_eq_Inr key_eq)
  have pending: "\<forall>(r, n, t) \<in> set (remove1 call (rc_pending c)). CHR ''|'' \<notin> set n"
    using assms(1) notin_set_remove1 [of _ "rc_pending c" call] unfolding cache_inv_def by blast
  show ?thesis
    unfolding cache_inv_def
  proof (intro conjI allI impI)
    fix key e v assume "rc_store c' key = Some (e, v)"
    then show "\<exists>r n t. key = network_prefix n @ r \<and> CHR ''|'' \<notin> set n \<and> e = t + rc_ttlMs c' \<and> ((r, n), t, v) \<in> rc_lookups c'"
      using assms(1) sep unfolding c' cache_inv_def by (auto split: if_splits) blast
  next
    show "\<forall>(r, n, t) \<in> set (rc_pending c'). CHR ''|'' \<notin> set n" using pending by (simp add: c')
  next
    show "\<forall>(key, t, value) \<in> set (rc_returned c'). \<exists>t0. (key, t0, value) \<in> rc_lookups c' \<and> (t = t0 \<or> t < t0 + rc_ttlMs c')"
      using assms(1) unfolding c' cache_inv_def by auto
  qed
qed

lemma cache_inv_step: "cache_step c c' \<Longrightarrow> cache_inv c \<Longrightarrow> cache_inv c'"
proof (elim cache_stepE)
  fix call assume inv: "cache_inv c" and c': "c' = c\<lparr>rc_pending := remove1 call (rc_pending c)\<rparr>"
  have "\<forall>(r, n, t) \<in> set (remove1 call (rc_pending c)). CHR ''|'' \<notin> set n"
    using inv notin_set_remove1 [of _ "rc_pending c" call] unfolding cache_inv_def by blast
  then show "cache_inv c'" using inv by (simp add: cache_inv_def c')
next
  fix network assume "cache_inv c" "c' = c\<lparr>rc_store := invalidateNetwork network (rc_store c)\<rparr>"
  then show "cache_inv c'" by (auto simp: cache_inv_def invalidateNetwork_def)
qed (blast intro: cache_inv_get cache_inv_fill)+

interpretation resources: preserved "cache_init ttlMs" cache_step cache_inv for ttlMs
  by unfold_locales (auto intro: cache_inv_init cache_inv_step)

text \<open>
  A record is served only for its own network. From a store of old entries without a network, in
  every interleaving of calls, lookups and invalidations, what \<open>get\<close> returns for a resource and a network was looked up for
  that resource and that network, in this call or less than \<open>ttlMs\<close> before it.
\<close>

theorem records_stay_with_their_network:
  assumes "reach (cache_init ttlMs) cache_step c" "((resourceId, network), t, value) \<in> set (rc_returned c)"
  shows "\<exists>t0. ((resourceId, network), t0, value) \<in> rc_lookups c \<and> (t = t0 \<or> t < t0 + rc_ttlMs c)"
  using resources.inv_reach [OF assms(1)] assms(2) unfolding cache_inv_def by blast

text \<open>Invalidating a network leaves the others alone.\<close>

theorem invalidation_is_exact:
  assumes "CHR ''|'' \<notin> set network" "CHR ''|'' \<notin> set n"
  shows "invalidateNetwork network store (network_prefix n @ r) = (if n = network then None else store (network_prefix n @ r))"
proof -
  have "startsWith (network_prefix n @ r) (network_prefix network) \<longleftrightarrow> n = network"
  proof
    assume "startsWith (network_prefix n @ r) (network_prefix network)"
    then have "network_prefix n @ r = network_prefix network @ drop (length (network_prefix network)) (network_prefix n @ r)"
      unfolding startsWith_def by (metis append_take_drop_id)
    then show "n = network" using key_inj [OF _ assms(2,1)] by blast
  qed (simp add: startsWith_def)
  then show ?thesis by (simp add: invalidateNetwork_def)
qed

text \<open>With the separator in a network two lookups share a key.\<close>

lemma separator_in_network_collides: "buildResourceCacheKey ''b'' ''a|x'' = buildResourceCacheKey ''x|b'' ''a''"
  by (simp add: buildResourceCacheKey_def RESOURCE_KEY_VERSION_def KEY_SEPARATOR_def)

end
