(* ===== verification/Keygen.thy ===== *)
theory Keygen
  imports Encoding Json Errors
begin

text \<open>
  The key generator of the command line (\<open>contrib/wave-445-436-438-433/keygen.ts\<close>). WebCrypto is a parameter: key
  generation, the two exports and the encryption under a passphrase, which gives the salt, the initialisation vector and the
  ciphertext. So are the clock and the random identifier of the metadata.
\<close>

section \<open>Keys and options\<close>

datatype key_kind = PrivateKey | PublicKey | SecretKey

record crypto_key =
  ck_kind :: key_kind
  ck_id :: nat

datatype key_algorithm = Ed25519Alg | EcdsaP256 | RsaPss int | AesGcm int

datatype generated_key = KeyPair crypto_key crypto_key | SingleKey crypto_key

record web_crypto =
  wc_generate :: "key_algorithm \<Rightarrow> string + generated_key"
  wc_exportRaw :: "crypto_key \<Rightarrow> string + bytes"
  wc_exportJwk :: "crypto_key \<Rightarrow> string + string"
  wc_encrypt :: "string \<Rightarrow> string \<Rightarrow> string + bytes \<times> bytes \<times> bytes"

text \<open>\<open>None\<close> is a value the command line did not give.\<close>

record keygen_options =
  kg_keyType :: "string option"
  kg_format :: "string option"
  kg_passphrase :: "string option"
  kg_keySize :: "int option"
  kg_includeMetadata :: bool

record key_material =
  km_publicKey :: "string option"
  km_privateKey :: string
  km_keyType :: string
  km_format :: string
  km_timestamp :: "string option"
  km_keyId :: "string option"

section \<open>Export\<close>

definition to_hex :: "bytes \<Rightarrow> string" where
  "to_hex bs = concat (map (\<lambda>b. [hex_char (b div 16), hex_char (b mod 16)]) bs)"

definition pem_text :: "key_kind \<Rightarrow> bytes \<Rightarrow> string" where
  "pem_text kind bs =
     (let label = (if kind = PrivateKey then ''PRIVATE KEY'' else ''PUBLIC KEY'') in
      ''-----BEGIN '' @ label @ ''-----'' @ [CHR 0x0A] @ btoa bs @ [CHR 0x0A] @ ''-----END '' @ label @ ''-----'')"

definition encryptWithPassphrase :: "web_crypto \<Rightarrow> string \<Rightarrow> string \<Rightarrow> string + string" where
  "encryptWithPassphrase wc data passphrase =
     ebind (wc_encrypt wc passphrase data) (\<lambda>(salt, iv, ciphertext). Inr (''ENCRYPTED:'' @ btoa (salt @ iv @ ciphertext)))"

definition export_text :: "web_crypto \<Rightarrow> crypto_key \<Rightarrow> string option \<Rightarrow> string + string" where
  "export_text wc key format =
     (if format = Some ''jwk'' then wc_exportJwk wc key
      else ebind (wc_exportRaw wc key) (\<lambda>bs.
        if format = Some ''hex'' then Inr (to_hex bs)
        else if format = Some ''base64'' then Inr (btoa bs)
        else if format = Some ''pem'' then Inr (pem_text (ck_kind key) bs)
        else Inl (''Unsupported format: '' @ (case format of None \<Rightarrow> ''undefined'' | Some f \<Rightarrow> f))))"

definition exportKey :: "web_crypto \<Rightarrow> crypto_key \<Rightarrow> string option \<Rightarrow> string option \<Rightarrow> string + string" where
  "exportKey wc key format passphrase =
     ebind (export_text wc key format) (\<lambda>exported.
       case passphrase of
         None \<Rightarrow> Inr exported
       | Some p \<Rightarrow> if p \<noteq> [] \<and> ck_kind key = PrivateKey then encryptWithPassphrase wc exported p else Inr exported)"

section \<open>Generation\<close>

definition size_or :: "int option \<Rightarrow> int \<Rightarrow> int" where
  "size_or keySize d = (case keySize of None \<Rightarrow> d | Some n \<Rightarrow> if n = 0 then d else n)"

definition algorithm_of :: "string option \<Rightarrow> int option \<Rightarrow> string + key_algorithm" where
  "algorithm_of keyType keySize =
     (if keyType = Some ''ed25519'' then Inr Ed25519Alg
      else if keyType = Some ''secp256k1'' then Inr EcdsaP256
      else if keyType = Some ''rsa'' then Inr (RsaPss (size_or keySize 2048))
      else if keyType = Some ''symmetric'' then Inr (AesGcm (size_or keySize 256))
      else Inl (''Unsupported key type: '' @ (case keyType of None \<Rightarrow> ''undefined'' | Some t \<Rightarrow> t)))"

text \<open>The exported texts of a generated key: the private one and, of a pair, the public one.\<close>

definition export_generated ::
    "web_crypto \<Rightarrow> keygen_options \<Rightarrow> generated_key \<Rightarrow> string + string \<times> string option" where
  "export_generated wc opts g =
     (case g of
        KeyPair priv pub \<Rightarrow>
          ebind (exportKey wc priv (kg_format opts) (kg_passphrase opts)) (\<lambda>privateKey.
          ebind (exportKey wc pub (kg_format opts) None) (\<lambda>publicKey.
            Inr (privateKey, if publicKey = [] then None else Some publicKey)))
      | SingleKey key \<Rightarrow>
          ebind (exportKey wc key (kg_format opts) (kg_passphrase opts)) (\<lambda>privateKey. Inr (privateKey, None)))"

definition generateKey :: "web_crypto \<Rightarrow> string \<Rightarrow> string \<Rightarrow> keygen_options \<Rightarrow> string + key_material" where
  "generateKey wc timestamp keyId opts =
     ebind (algorithm_of (kg_keyType opts) (kg_keySize opts)) (\<lambda>alg.
     ebind (wc_generate wc alg) (\<lambda>g.
     ebind (export_generated wc opts g) (\<lambda>(privateKey, publicKey).
       Inr \<lparr>km_publicKey = publicKey, km_privateKey = privateKey, km_keyType = the (kg_keyType opts),
            km_format = the (kg_format opts),
            km_timestamp = (if kg_includeMetadata opts then Some timestamp else None),
            km_keyId = (if kg_includeMetadata opts then Some keyId else None)\<rparr>)))"

section \<open>Command line\<close>

text \<open>\<open>parseInt(s, 10)\<close>, \<open>None\<close> for \<open>NaN\<close>.\<close>

definition parseInt :: "string \<Rightarrow> int option" where
  "parseInt s =
     (let t = dropWhile is_ws s;
          (neg, u) = (case t of CHR ''-'' # r \<Rightarrow> (True, r) | CHR ''+'' # r \<Rightarrow> (False, r) | _ \<Rightarrow> (False, t));
          ds = takeWhile is_digit u in
      if ds = [] then None else Some (if neg then - digits_val ds else digits_val ds))"

datatype keygen_command = KeygenRun keygen_options | KeygenExit nat

fun parse_keygen :: "string list \<Rightarrow> keygen_options \<Rightarrow> keygen_command" where
  "parse_keygen [] opts = KeygenRun opts"
| "parse_keygen (arg # args) opts =
     (let value = (case args of [] \<Rightarrow> None | v # _ \<Rightarrow> Some v); rest = drop 1 args in
      if arg = ''--type'' \<or> arg = ''-t'' then parse_keygen rest (opts\<lparr>kg_keyType := value\<rparr>)
      else if arg = ''--format'' \<or> arg = ''-f'' then parse_keygen rest (opts\<lparr>kg_format := value\<rparr>)
      else if arg = ''--passphrase'' \<or> arg = ''-p'' then parse_keygen rest (opts\<lparr>kg_passphrase := value\<rparr>)
      else if arg = ''--size'' \<or> arg = ''-s'' then parse_keygen rest (opts\<lparr>kg_keySize := Option.bind value parseInt\<rparr>)
      else if arg = ''--metadata'' \<or> arg = ''-m'' then parse_keygen args (opts\<lparr>kg_includeMetadata := True\<rparr>)
      else if arg = ''--help'' \<or> arg = ''-h'' then KeygenExit 0
      else KeygenExit 1)"

definition parseKeygenArgs :: "string list \<Rightarrow> keygen_command" where
  "parseKeygenArgs args =
     parse_keygen args \<lparr>kg_keyType = Some ''ed25519'', kg_format = Some ''jwk'', kg_passphrase = None, kg_keySize = None,
       kg_includeMetadata = False\<rparr>"

text \<open>What is printed to the standard output as JSON, with the exit status.\<close>

definition keygenCommand :: "web_crypto \<Rightarrow> string \<Rightarrow> string \<Rightarrow> string list \<Rightarrow> nat \<times> key_material option" where
  "keygenCommand wc timestamp keyId args =
     (case parseKeygenArgs args of
        KeygenExit n \<Rightarrow> (n, None)
      | KeygenRun opts \<Rightarrow>
          (case generateKey wc timestamp keyId opts of Inl e \<Rightarrow> (1, None) | Inr km \<Rightarrow> (0, Some km)))"

section \<open>A passphrase protects the private key of a pair\<close>

text \<open>What WebCrypto promises: a pair has a private key and a public one, other keys are secret; bytes are bytes.\<close>

definition kinds_ok :: "web_crypto \<Rightarrow> bool" where
  "kinds_ok wc =
     ((\<forall>alg g. wc_generate wc alg = Inr g \<longrightarrow>
        (case g of
           KeyPair priv pub \<Rightarrow> ck_kind priv = PrivateKey \<and> ck_kind pub = PublicKey \<and> (\<forall>n. alg \<noteq> AesGcm n)
         | SingleKey k \<Rightarrow> ck_kind k = SecretKey \<and> (\<exists>n. alg = AesGcm n))) \<and>
      (\<forall>p d salt iv ct. wc_encrypt wc p d = Inr (salt, iv, ct) \<longrightarrow> list_all (\<lambda>b. b < 256) (salt @ iv @ ct)))"

lemma exportKey_encrypts:
  assumes "exportKey wc key format (Some p) = Inr out" "p \<noteq> []" "ck_kind key = PrivateKey"
  shows "\<exists>plain salt iv ct. export_text wc key format = Inr plain \<and> wc_encrypt wc p plain = Inr (salt, iv, ct) \<and>
    out = ''ENCRYPTED:'' @ btoa (salt @ iv @ ct)"
  using assms by (auto simp: exportKey_def encryptWithPassphrase_def ebind_eq_Inr)

text \<open>
  With a passphrase the private key of a pair is printed encrypted only: the text is the marker and the base64 of
  salt, vector and ciphertext of the exported key under that passphrase, which decode again.
\<close>

theorem passphrase_protects_private_keys:
  assumes "kinds_ok wc" "generateKey wc timestamp keyId opts = Inr km"
    and "kg_passphrase opts = Some p" "p \<noteq> []" "kg_keyType opts \<noteq> Some ''symmetric''"
  shows "\<exists>key plain salt iv ct. ck_kind key = PrivateKey \<and> export_text wc key (kg_format opts) = Inr plain \<and>
    wc_encrypt wc p plain = Inr (salt, iv, ct) \<and> km_privateKey km = ''ENCRYPTED:'' @ btoa (salt @ iv @ ct) \<and>
    atob (drop 10 (km_privateKey km)) = Some (salt @ iv @ ct)"
proof -
  obtain alg g where alg: "algorithm_of (kg_keyType opts) (kg_keySize opts) = Inr alg" and g: "wc_generate wc alg = Inr g"
    and ex: "\<exists>pub. export_generated wc opts g = Inr (km_privateKey km, pub)"
    using assms(2) by (auto simp: generateKey_def ebind_eq_Inr)
  have "\<forall>n. alg \<noteq> AesGcm n" using alg assms(5) by (auto simp: algorithm_of_def split: if_splits)
  then obtain priv pub where pair: "g = KeyPair priv pub" "ck_kind priv = PrivateKey"
    using assms(1) g unfolding kinds_ok_def by (cases g) force+
  have "exportKey wc priv (kg_format opts) (Some p) = Inr (km_privateKey km)"
    using ex pair assms(3) by (auto simp: export_generated_def ebind_eq_Inr)
  from exportKey_encrypts [OF this assms(4) pair(2)] obtain plain salt iv ct
    where e: "export_text wc priv (kg_format opts) = Inr plain" "wc_encrypt wc p plain = Inr (salt, iv, ct)"
      "km_privateKey km = ''ENCRYPTED:'' @ btoa (salt @ iv @ ct)" by blast
  have "list_all (\<lambda>b. b < 256) (salt @ iv @ ct)" using assms(1) e(2) unfolding kinds_ok_def by blast
  then have "atob (drop 10 (km_privateKey km)) = Some (salt @ iv @ ct)" using atob_btoa by (simp add: e(3))
  then show ?thesis using e pair(2) by blast
qed

text \<open>
  A symmetric key is exported as it is: the passphrase of the example in the help text has no effect.
\<close>

theorem symmetric_key_is_printed_in_clear:
  assumes "kinds_ok wc" "kg_keyType opts = Some ''symmetric''"
  shows "generateKey wc timestamp keyId opts = generateKey wc timestamp keyId (opts\<lparr>kg_passphrase := None\<rparr>)"
proof -
  have "export_generated wc opts g = export_generated wc (opts\<lparr>kg_passphrase := None\<rparr>) g" if "wc_generate wc (AesGcm n) = Inr g" for n g
  proof -
    have kinds: "case g of KeyPair priv pub \<Rightarrow> ck_kind priv = PrivateKey \<and> ck_kind pub = PublicKey \<and> (\<forall>m. AesGcm n \<noteq> AesGcm m)
        | SingleKey k \<Rightarrow> ck_kind k = SecretKey \<and> (\<exists>m. AesGcm n = AesGcm m)"
      using assms(1) that unfolding kinds_ok_def by blast
    then show ?thesis by (cases g) (auto simp: export_generated_def exportKey_def ebind_def split: option.splits sum.splits)
  qed
  then have "ebind (wc_generate wc (AesGcm n)) (\<lambda>g. ebind (export_generated wc opts g) k) =
      ebind (wc_generate wc (AesGcm n)) (\<lambda>g. ebind (export_generated wc (opts\<lparr>kg_passphrase := None\<rparr>) g) k)" for n and k :: "string \<times> string option \<Rightarrow> string + key_material"
    by (cases "wc_generate wc (AesGcm n)") simp_all
  then show ?thesis using assms(2) by (simp add: generateKey_def algorithm_of_def)
qed

text \<open>WebCrypto exports no private key as raw bytes; every format but \<open>jwk\<close> then fails for every pair.\<close>

theorem raw_formats_fail_for_pairs:
  assumes "kinds_ok wc" "\<And>key. ck_kind key = PrivateKey \<Longrightarrow> \<exists>e. wc_exportRaw wc key = Inl e"
    and "kg_keyType opts \<noteq> Some ''symmetric''" "kg_format opts \<noteq> Some ''jwk''"
  shows "\<exists>e. generateKey wc timestamp keyId opts = Inl e"
proof (cases "generateKey wc timestamp keyId opts")
  case (Inr km)
  obtain alg g where alg: "algorithm_of (kg_keyType opts) (kg_keySize opts) = Inr alg" and g: "wc_generate wc alg = Inr g"
    and ex: "\<exists>pub. export_generated wc opts g = Inr (km_privateKey km, pub)"
    using Inr by (auto simp: generateKey_def ebind_eq_Inr)
  have "\<forall>n. alg \<noteq> AesGcm n" using alg assms(3) by (auto simp: algorithm_of_def split: if_splits)
  then obtain priv pub where pair: "g = KeyPair priv pub" "ck_kind priv = PrivateKey"
    using assms(1) g unfolding kinds_ok_def by (cases g) force+
  then show ?thesis
    using ex assms(2) [OF pair(2)] assms(4) by (auto simp: export_generated_def exportKey_def export_text_def ebind_eq_Inr)
qed blast

end
