(* ===== verification/MockFacilitator.thy ===== *)
theory MockFacilitator
  imports Idempotency Guards
begin

text \<open>
  The mock facilitator for tests (\<open>contrib/examples/issue-52-mock-x402-facilitator/mock-x402-facilitator.ts\<close>): \<open>verify\<close>,
  \<open>settle\<close>, the hash it settles with and the fixtures. The delay before an answer has no effect on it, and the
  messages for people are left out. A header is \<open>None\<close> when
  the caller passes no text.
\<close>

section \<open>Configuration and results\<close>

record mock_config =
  mk_rejectVerify :: bool
  mk_rejectReason :: string
  mk_rejectSettle :: bool
  mk_settleRejectReason :: string
  mk_settleTxHash :: "string option"

definition default_mock :: mock_config where
  "default_mock = \<lparr>mk_rejectVerify = False, mk_rejectReason = ''DAILY_LIMIT_EXCEEDED'', mk_rejectSettle = False,
     mk_settleRejectReason = ''SUBMISSION_FAILED'', mk_settleTxHash = None\<rparr>"

record mock_result =
  mr_success :: bool
  mr_transaction :: "string option"
  mr_error :: "string option"

text \<open>The requirements of the mock: every field is a text, read as the caller gives it.\<close>

record mock_requirements =
  mq_scheme :: string
  mq_network :: string
  mq_asset :: string
  mq_amount :: string
  mq_payTo :: string
  mq_maxTimeoutSeconds :: "nat option"

definition mock_failed :: "string \<Rightarrow> mock_result" where
  "mock_failed e = \<lparr>mr_success = False, mr_transaction = None, mr_error = Some e\<rparr>"

section \<open>The pseudo-hash\<close>

text \<open>One step: exclusive or with the character, then \<open>Math.imul\<close> by the prime.\<close>

definition mock_hash_step :: "32 word \<Rightarrow> char \<Rightarrow> 32 word" where
  "mock_hash_step h c = (h XOR word_of_nat (of_char c)) * 0x01000193"

definition deriveMockTxHash :: "string \<Rightarrow> string" where
  "deriveMockTxHash header = concat (replicate 8 (hex8 (foldl mock_hash_step 0x811c9dc5 header)))"

section \<open>Verify and settle\<close>

definition complete_requirements :: "mock_requirements \<Rightarrow> bool" where
  "complete_requirements q = (mq_asset q \<noteq> [] \<and> mq_amount q \<noteq> [] \<and> mq_payTo q \<noteq> [])"

definition has_header :: "string option \<Rightarrow> bool" where
  "has_header header = (case header of None \<Rightarrow> False | Some h \<Rightarrow> h \<noteq> [])"

definition mock_verify :: "mock_config \<Rightarrow> string option \<Rightarrow> mock_requirements \<Rightarrow> mock_result" where
  "mock_verify cfg header q =
     (if \<not> has_header header then mock_failed ''MISSING_HEADER''
      else if \<not> complete_requirements q then mock_failed ''INVALID_REQUIREMENTS''
      else if \<not> all_digits (mq_amount q) then mock_failed ''INVALID_REQUIREMENTS''
      else if mk_rejectVerify cfg then mock_failed (mk_rejectReason cfg)
      else \<lparr>mr_success = True, mr_transaction = None, mr_error = None\<rparr>)"

definition mock_settle :: "mock_config \<Rightarrow> string option \<Rightarrow> mock_requirements \<Rightarrow> mock_result" where
  "mock_settle cfg header q =
     (if \<not> has_header header then mock_failed ''MISSING_HEADER''
      else if \<not> complete_requirements q then mock_failed ''INVALID_REQUIREMENTS''
      else if mk_rejectVerify cfg \<or> mk_rejectSettle cfg
      then mock_failed (if mk_rejectSettle cfg then mk_settleRejectReason cfg else mk_rejectReason cfg)
      else \<lparr>mr_success = True,
            mr_transaction = Some (case mk_settleTxHash cfg of Some t \<Rightarrow> t | None \<Rightarrow> deriveMockTxHash (the header)),
            mr_error = None\<rparr>)"

definition makeRequirements :: mock_requirements where
  "makeRequirements =
     \<lparr>mq_scheme = ''exact'', mq_network = ''stellar:testnet'',
      mq_asset = ''CDLZFC3SYJYDZT7K67VZ75HPJVIEUVNIXF47ZG2FB2RMQQVU2HHGCYSC'', mq_amount = ''1000000'',
      mq_payTo = ''GAHJJJKMOKYE4RVPZEWZTKH5FVI4PA3VL7GK2LFNUBSGBV4HRKNXNEW'', mq_maxTimeoutSeconds = Some 60\<rparr>"

text \<open>\<open>makePaymentHeader\<close>: the base64 of the JSON of the payload; \<open>num\<close> prints numbers.\<close>

definition requirements_json :: "mock_requirements \<Rightarrow> json" where
  "requirements_json q =
     JObj ([(''scheme'', JStr (mq_scheme q)), (''network'', JStr (mq_network q)), (''asset'', JStr (mq_asset q)),
       (''amount'', JStr (mq_amount q)), (''payTo'', JStr (mq_payTo q))] @
       (case mq_maxTimeoutSeconds q of None \<Rightarrow> [] | Some n \<Rightarrow> [(''maxTimeoutSeconds'', JNum (of_nat n))]))"

definition makePaymentHeader :: "(rat \<Rightarrow> string) \<Rightarrow> mock_requirements \<Rightarrow> string" where
  "makePaymentHeader num q =
     btoa (utf8_encode (codes (stringify num (JObj [(''x402Version'', JNum 2), (''accepted'', requirements_json q),
       (''payload'', JObj [(''transaction'', JStr ''AAAAAAAAAAAAAAAAAAAAAAAAAAAAAAAAAA=='')])]))))"

section \<open>The hash\<close>

text \<open>The shifts of the idempotency fingerprint are this multiplication: both modules compute the same hash.\<close>

lemma fnv_shifts_times: "fnv_shifts h = h * 0x01000193"
proof -
  have "fnv_shifts h = h * (1 + (2 + 16 + 128 + 256 + 16777216))"
    by (simp only: fnv_shifts_def push_bit_eq_mult distrib_left mult_1_right) simp
  then show ?thesis by simp
qed

lemma mock_hash_is_fnv: "mock_hash_step = fnv_char"
  by (simp add: fun_eq_iff mock_hash_step_def fnv_char_def fnv_shifts_times)

lemma hex_char_is_hex: "n < 16 \<Longrightarrow> is_hex (hex_char n)"
  by (auto simp: is_hex_def hex_char_def Let_def)

lemma hex8_hex: "length (hex8 h) = 8" "list_all is_hex (hex8 h)"
  by (simp_all add: hex8_def hex_char_is_hex)

lemma mock_hash_shape: "is_hex64 (deriveMockTxHash header)"
  by (auto simp: is_hex64_def deriveMockTxHash_def length_concat list_all_iff sum_list_replicate hex8_hex(1) dest: hex8_hex(2) [unfolded list_all_iff, rule_format])

text \<open>
  \<open>settle\<close> succeeds exactly when \<open>verify\<close> does, but for the flag that rejects settlements and the amount,
  which only \<open>verify\<close> checks; a settlement without a configured hash has the one derived from its header, 64 hexadecimal digits.
\<close>

theorem mock_settles_what_it_verifies:
  "(mr_success (mock_verify cfg header q) \<longleftrightarrow>
      has_header header \<and> complete_requirements q \<and> all_digits (mq_amount q) \<and> \<not> mk_rejectVerify cfg) \<and>
   (all_digits (mq_amount q) \<longrightarrow>
      (mr_success (mock_settle cfg header q) \<longleftrightarrow> mr_success (mock_verify cfg header q) \<and> \<not> mk_rejectSettle cfg)) \<and>
   (mr_success (mock_settle cfg header q) \<longrightarrow> mk_settleTxHash cfg = None \<longrightarrow>
      (\<exists>h. header = Some h \<and> mr_transaction (mock_settle cfg header q) = Some (deriveMockTxHash h) \<and> is_hex64 (deriveMockTxHash h)))"
  by (auto simp: mock_verify_def mock_settle_def mock_failed_def has_header_def mock_hash_shape split: option.splits)

text \<open>An amount that is no number is refused by \<open>verify\<close> and settled.\<close>

lemma settle_accepts_any_amount:
  "\<not> mr_success (mock_verify default_mock (Some ''sig'') (makeRequirements\<lparr>mq_amount := ''abc''\<rparr>)) \<and>
   mr_success (mock_settle default_mock (Some ''sig'') (makeRequirements\<lparr>mq_amount := ''abc''\<rparr>))"
  by (simp add: mock_verify_def mock_settle_def default_mock_def makeRequirements_def has_header_def complete_requirements_def
      mock_failed_def all_digits_def is_digit_def)

end
