(* ===== verification/SessionSigning.thy ===== *)
theory SessionSigning
  imports Session
begin

text \<open>
  The session guard around an x402 signer (\<open>contrib/v659-v661-v664-v665/x402-signer-session-guard.ts\<close>) over the session
  store of \<open>src/session.ts\<close>. The wrapped signer is a parameter: an action that may change the surrounding state \<open>'w\<close> while
  it is awaited. So are the clock and \<open>Date.parse\<close> (\<open>None\<close> is \<open>NaN\<close>); times are milliseconds.
\<close>

section \<open>The guard\<close>

datatype sign_phase = BeforeSigning | DuringSigning

datatype invalid_reason = NoSessionActive | SessionDisconnected | SessionOfAnother json string | SessionIdle | SessionReplaced

text \<open>What \<open>signAuthEntry\<close> throws: its own error, or that of the wrapped signer.\<close>

datatype guarded_error = SessionInvalidatedDuringSigningError sign_phase invalid_reason | SignerThrew js_error

record 'w session_guard =
  getSession :: "'w \<Rightarrow> json option"
  maxIdleMs :: "rat option"
  guard_now :: "'w \<Rightarrow> rat"
  date_parse :: "json \<Rightarrow> rat option"

record 'w guarded_signer =
  gsn_address :: string
  gsn_sign :: "string \<Rightarrow> ('w, js_error, string) act"

definition sessionFromStore :: "'s session_store \<Rightarrow> json option" where
  "sessionFromStore st = (if status st = Connected then session st else None)"

definition idle_too_long :: "'w session_guard \<Rightarrow> 'w \<Rightarrow> json \<Rightarrow> bool" where
  "idle_too_long g w v =
     (case maxIdleMs g of
        None \<Rightarrow> False
      | Some limit \<Rightarrow>
          (case date_parse g (jprop v ''lastActiveAt'') of
             None \<Rightarrow> True
           | Some lastActive \<Rightarrow> \<not> guard_now g w - lastActive \<le> limit))"

definition invalidReason :: "'w session_guard \<Rightarrow> string \<Rightarrow> 'w \<Rightarrow> json option \<Rightarrow> invalid_reason option" where
  "invalidReason g addr w s =
     (case s of
        None \<Rightarrow> Some NoSessionActive
      | Some v \<Rightarrow>
          if \<not> js_truthy (jprop v ''connected'') then Some SessionDisconnected
          else if jprop v ''accountId'' \<noteq> JStr addr then Some (SessionOfAnother (jprop v ''accountId'') addr)
          else if idle_too_long g w v then Some SessionIdle
          else None)"

text \<open>What happens once the wrapped signer has answered; \<open>before\<close> is the session that was read when signing began.\<close>

definition recheck :: "'w session_guard \<Rightarrow> string \<Rightarrow> json \<Rightarrow> string \<Rightarrow> 'w \<Rightarrow> guarded_error + string" where
  "recheck g addr before signed w =
     (case (invalidReason g addr w (getSession g w), getSession g w) of
        (Some stale, _) \<Rightarrow> Inl (SessionInvalidatedDuringSigningError DuringSigning stale)
      | (None, Some after) \<Rightarrow>
          if jprop after ''createdAt'' \<noteq> jprop before ''createdAt''
          then Inl (SessionInvalidatedDuringSigningError DuringSigning SessionReplaced)
          else Inr signed
      | (None, None) \<Rightarrow> Inl (SessionInvalidatedDuringSigningError DuringSigning NoSessionActive))"

definition withSessionGuard :: "'w guarded_signer \<Rightarrow> 'w session_guard \<Rightarrow> string \<Rightarrow> ('w, guarded_error, string) act" where
  "withSessionGuard signer g entry w =
     (case (invalidReason g (gsn_address signer) w (getSession g w), getSession g w) of
        (None, Some before) \<Rightarrow>
          (case gsn_sign signer entry w of
             (Inl e, w') \<Rightarrow> (Inl (SignerThrew e), w')
           | (Inr signed, w') \<Rightarrow> (recheck g (gsn_address signer) before signed w', w'))
      | (Some refused, _) \<Rightarrow> (Inl (SessionInvalidatedDuringSigningError BeforeSigning refused), w)
      | (None, None) \<Rightarrow> (Inl (SessionInvalidatedDuringSigningError BeforeSigning NoSessionActive), w))"

section \<open>The store behind the guard\<close>

text \<open>The guard over a store; the clock may read any time at each state of the store.\<close>

definition storeGuard ::
    "(json \<Rightarrow> rat option) \<Rightarrow> rat option \<Rightarrow> ('s session_store \<Rightarrow> rat) \<Rightarrow> 's session_store session_guard" where
  "storeGuard dp idle clock =
     \<lparr>getSession = sessionFromStore, maxIdleMs = idle, guard_now = clock, date_parse = dp\<rparr>"

text \<open>A signer whose prompt stays open while the operations \<open>ops\<close> of the store are called.\<close>

definition promptSigner ::
    "string \<Rightarrow> (string \<Rightarrow> js_error + string) \<Rightarrow> 's storage_adapter \<Rightarrow> int option \<Rightarrow> session_op list \<Rightarrow>
     's session_store guarded_signer" where
  "promptSigner addr sign a i ops =
     \<lparr>gsn_address = addr, gsn_sign = (\<lambda>entry st. (sign entry, run_ops a i ops st))\<rparr>"

fun keeps_session :: "session_op \<Rightarrow> bool" where
  "keeps_session (OpTouch _) = True"
| "keeps_session (OpTick _) = True"
| "keeps_session OpDispose = True"
| "keeps_session _ = False"

section \<open>When a session is usable\<close>

definition usable_session :: "'w session_guard \<Rightarrow> string \<Rightarrow> 'w \<Rightarrow> json \<Rightarrow> bool" where
  "usable_session g addr w v =
     (getSession g w = Some v \<and> js_truthy (jprop v ''connected'') \<and> jprop v ''accountId'' = JStr addr \<and>
      (\<forall>limit. maxIdleMs g = Some limit \<longrightarrow>
        (\<exists>t. date_parse g (jprop v ''lastActiveAt'') = Some t \<and> guard_now g w - t \<le> limit)))"

lemma invalidReason_None:
  "invalidReason g addr w (getSession g w) = None \<longleftrightarrow> (\<exists>v. usable_session g addr w v)"
  by (cases "getSession g w"; cases "maxIdleMs g")
    (auto simp: invalidReason_def usable_session_def idle_too_long_def split: option.splits)

lemma usable_reason: "usable_session g addr w v \<Longrightarrow> invalidReason g addr w (getSession g w) = None"
  by (metis invalidReason_None)

lemma usable_getSession: "usable_session g addr w v \<Longrightarrow> getSession g w = Some v"
  by (simp add: usable_session_def)

lemma usable_unique: "usable_session g addr w v \<Longrightarrow> usable_session g addr w u \<longleftrightarrow> u = v"
  by (metis option.inject usable_getSession)

text \<open>The branches in which the two reads disagree are never taken.\<close>

lemma unusable_reason:
  assumes "\<nexists>v. usable_session g addr w v"
  shows "\<exists>r. invalidReason g addr w (getSession g w) = Some r \<and> r \<noteq> SessionReplaced"
  using assms invalidReason_None [of g addr w]
  by (auto simp: invalidReason_def split: option.splits if_splits)

lemma recheck_signature:
  "recheck g addr before signed w = Inr s \<longleftrightarrow>
     s = signed \<and> (\<exists>after. usable_session g addr w after \<and> jprop after ''createdAt'' = jprop before ''createdAt'')"
proof (cases "\<exists>v. usable_session g addr w v")
  case True
  then obtain v where v: "usable_session g addr w v" by blast
  show ?thesis
    using usable_reason [OF v] usable_getSession [OF v] by (auto simp: recheck_def usable_unique [OF v])
next
  case False
  then show ?thesis using unusable_reason [OF False] by (auto simp: recheck_def)
qed

text \<open>
  A signature leaves the guard exactly when the wrapped signer gave it between two reads that both found a usable session,
  created at the same time.
\<close>

theorem signature_needs_one_session:
  "withSessionGuard signer g entry w = (Inr s, w') \<longleftrightarrow>
     gsn_sign signer entry w = (Inr s, w') \<and>
     (\<exists>before after. usable_session g (gsn_address signer) w before \<and>
        usable_session g (gsn_address signer) w' after \<and>
        jprop after ''createdAt'' = jprop before ''createdAt'')"
proof (cases "\<exists>v. usable_session g (gsn_address signer) w v")
  case True
  then obtain v where v: "usable_session g (gsn_address signer) w v" by blast
  obtain r w1 where "gsn_sign signer entry w = (r, w1)" by fastforce
  then show ?thesis
    using usable_reason [OF v] usable_getSession [OF v]
    by (cases r) (auto simp: withSessionGuard_def usable_unique [OF v] recheck_signature)
next
  case False
  then show ?thesis using unusable_reason [OF False] by (auto simp: withSessionGuard_def)
qed

text \<open>Without a usable session the signer is not called: nothing changes.\<close>

theorem refused_before_the_prompt:
  assumes "\<nexists>v. usable_session g (gsn_address signer) w v"
  shows "\<exists>r. withSessionGuard signer g entry w = (Inl (SessionInvalidatedDuringSigningError BeforeSigning r), w)"
  using unusable_reason [OF assms] by (auto simp: withSessionGuard_def)

section \<open>Signing out while the prompt is open\<close>

lemma kept_op_without_session:
  assumes "keeps_session op" "session st = None"
  shows "session (run_op a i op st) = None \<and> status (run_op a i op st) = status st"
  using assms
  by (cases op) (auto simp: touch_def act_defs refreshTick_def dispose_def stopRefresh_def)

lemma kept_ops_without_session:
  assumes "list_all keeps_session ops" "session st = None"
  shows "session (run_ops a i ops st) = None"
  using assms unfolding run_ops_def
  by (induction ops arbitrary: st) (auto simp: kept_op_without_session)

lemma ended_session:
  assumes "clear a (storage st) = (Inr (), s')"
  shows "session (snd (end_session a st)) = None"
  using assms by (simp add: end_session_def onStorage_def act_defs)

lemma no_session_after_end:
  assumes "\<And>s. fst (clear a s) = Inr ()" "list_all keeps_session post"
  shows "sessionFromStore (run_ops a i (pre @ OpEnd # post) st) = None"
proof -
  let ?st = "run_ops a i pre st"
  obtain s' where "clear a (storage ?st) = (Inr (), s')"
    using assms(1) [of "storage ?st"] by (cases "clear a (storage ?st)") auto
  then have "session (run_op a i OpEnd ?st) = None"
    by (simp add: ended_session)
  then have "session (run_ops a i post (run_op a i OpEnd ?st)) = None"
    by (rule kept_ops_without_session [OF assms(2)])
  then show ?thesis by (simp add: sessionFromStore_def run_ops_def)
qed

text \<open>
  When the user signs out while the prompt is open and does not come back before it is answered, the signature is
  discarded, whatever was called before and after and whatever the signer gave.
\<close>

theorem sign_out_discards_the_signature:
  assumes "\<And>s. fst (clear a s) = Inr ()" "list_all keeps_session post"
  shows "\<exists>e. fst (withSessionGuard (promptSigner addr sign a i (pre @ OpEnd # post)) (storeGuard dp idle clock) entry st) = Inl e"
proof -
  let ?signer = "promptSigner addr sign a i (pre @ OpEnd # post)"
  let ?r = "withSessionGuard ?signer (storeGuard dp idle clock) entry st"
  have "fst ?r \<noteq> Inr s" for s
  proof
    assume "fst ?r = Inr s"
    then have "?r = (Inr s, snd ?r)" by (metis prod.collapse)
    then have "gsn_sign ?signer entry st = (Inr s, snd ?r)"
      "\<exists>after. usable_session (storeGuard dp idle clock) (gsn_address ?signer) (snd ?r) after"
      unfolding signature_needs_one_session by blast+
    then show False
      using no_session_after_end [OF assms, of i pre st]
      by (auto simp: promptSigner_def usable_session_def storeGuard_def)
  qed
  then show ?thesis by (cases "fst ?r") auto
qed

section \<open>Polling does not disturb a payment\<close>

lemma jprop_touched:
  assumes "isWalletSession v" "k \<noteq> ''lastActiveAt''"
  shows "jprop (touched now v) k = jprop v k"
  using assms by (cases v) (auto simp: isWalletSession_def map_of_jset)

text \<open>Two sessions that differ in their last activity at most.\<close>

definition same_session :: "json \<Rightarrow> json \<Rightarrow> bool" where
  "same_session v u = (isWalletSession u \<and> (\<forall>k. k \<noteq> ''lastActiveAt'' \<longrightarrow> jprop u k = jprop v k))"

lemma kept_op_same_session:
  assumes "keeps_session op" "status st = Connected" "session st = Some u" "same_session v u"
  shows "status (run_op a i op st) = Connected \<and> (\<exists>u'. session (run_op a i op st) = Some u' \<and> same_session v u')"
proof -
  have touch: "status (snd (touch a now st)) = Connected \<and>
      (\<exists>u'. session (snd (touch a now st)) = Some u' \<and> same_session v u')" for now
  proof -
    have "same_session v (touched now u)"
      using assms(4) by (simp add: same_session_def jprop_touched isWalletSession_touched)
    then show ?thesis
      using assms(2-4)
      by (auto simp: touch_def touchCommit_def onStorage_def act_defs split: sum.splits prod.splits)
  qed
  show ?thesis
    using assms touch by (cases op) (auto simp: refreshTick_def dispose_def stopRefresh_def)
qed

lemma kept_ops_same_session:
  assumes "list_all keeps_session ops" "status st = Connected" "session st = Some u" "same_session v u"
  shows "status (run_ops a i ops st) = Connected \<and> (\<exists>u'. session (run_ops a i ops st) = Some u' \<and> same_session v u')"
  using assms unfolding run_ops_def
proof (induction ops arbitrary: st u)
  case Nil
  then show ?case by simp
next
  case (Cons op ops)
  then have op: "keeps_session op" and ops: "list_all keeps_session ops" by simp_all
  obtain u' where u': "status (run_op a i op st) = Connected" "session (run_op a i op st) = Some u'" "same_session v u'"
    using kept_op_same_session [OF op Cons.prems(2-4)] by blast
  show ?case using Cons.IH [OF ops u'] by simp
qed

text \<open>
  Without an idle limit a payment started in a usable session is signed: the polling, touches and disposal that happen while
  the prompt is open never cost the signature.
\<close>

theorem polling_keeps_the_signature:
  assumes "status st = Connected" "session st = Some v" "isWalletSession v"
    "jprop v ''connected'' = JBool True" "jprop v ''accountId'' = JStr addr"
    "list_all keeps_session ops" "sign entry = Inr s"
  shows "fst (withSessionGuard (promptSigner addr sign a i ops) (storeGuard dp None clock) entry st) = Inr s"
proof -
  let ?st = "run_ops a i ops st" and ?g = "storeGuard dp None clock"
  let ?signer = "promptSigner addr sign a i ops"
  obtain u where u: "status ?st = Connected" "session ?st = Some u" "same_session v u"
    using kept_ops_same_session [OF assms(6,1,2), of v a i] assms(3) by (auto simp: same_session_def)
  have "usable_session ?g addr st v" "usable_session ?g addr ?st u"
    using assms u by (simp_all add: usable_session_def storeGuard_def sessionFromStore_def same_session_def)
  moreover have "jprop u ''createdAt'' = jprop v ''createdAt''"
    using u(3) by (simp add: same_session_def)
  ultimately have "withSessionGuard ?signer ?g entry st = (Inr s, ?st)"
    unfolding signature_needs_one_session using assms(7) by (auto simp: promptSigner_def)
  then show ?thesis by simp
qed

section \<open>A session that is replaced\<close>

text \<open>
  The guard knows a session by its creation time alone. A user who signs out and in again within the same clock reading has
  a new session, and the signature that was approved under the old one is returned.
\<close>

definition first_session :: wallet_session where
  "first_session = \<lparr>accountId = ''C1'', ws_network = ''testnet'', connected = True, authMethod = ''passkey'',
     createdAt = ''t0'', lastActiveAt = ''t0'', serverSessionId = Some ''one'', keyId = None\<rparr>"

definition second_session :: wallet_session where
  "second_session = first_session\<lparr>serverSessionId := Some ''two''\<rparr>"

theorem replaced_session_is_accepted:
  "let a = createMemoryStorageAdapter;
       st = snd (start_session a None (session_json first_session) (createSessionStore None));
       (r, st') = withSessionGuard (promptSigner ''C1'' (\<lambda>_. Inr ''sig'') a None [OpEnd, OpStart (session_json second_session)])
         (storeGuard (\<lambda>_. None) None (\<lambda>_. 0)) ''entry'' st
   in r = Inr ''sig'' \<and> session st = Some (session_json first_session) \<and> session st' = Some (session_json second_session) \<and>
      session st' \<noteq> session st"
  by (simp add: withSessionGuard_def recheck_def promptSigner_def storeGuard_def invalidReason_def idle_too_long_def
      sessionFromStore_def run_ops_def start_session_def end_session_def createMemoryStorageAdapter_def createSessionStore_def
      onStorage_def startRefresh_def stopRefresh_def act_defs session_json_def first_session_def second_session_def opt_json_def)

end
