(* ===== verification/StatusCache.thy ===== *)
theory StatusCache
  imports TxTracking
begin

text \<open>
  The status cache in front of a transaction poll (\<open>contrib/examples/issue-237-tx-status-cache-ttl/tx-status-cache-ttl.ts\<close>).
  The reader, the clock and \<open>sleep\<close> are those of \<open>tx_env\<close>; the cached reader is again a reader, on a state that holds the
  cache beside the world.
\<close>

section \<open>The option\<close>

text \<open>A number of the options: finite, or an infinity or \<open>NaN\<close>.\<close>

datatype ttl_number = FiniteMs rat | NonFinite

definition DEFAULT_CACHE_TTL_MS :: rat where "DEFAULT_CACHE_TTL_MS = 2000"

definition MAX_CACHE_TTL_MS :: rat where "MAX_CACHE_TTL_MS = 60000"

definition resolveCacheTtlMs :: "ttl_number option \<Rightarrow> rat outcome" where
  "resolveCacheTtlMs cacheTtlMs =
     (case (case cacheTtlMs of None \<Rightarrow> FiniteMs DEFAULT_CACHE_TTL_MS | Some n \<Rightarrow> n) of
        NonFinite \<Rightarrow> Inl (Thrown ''RangeError'')
      | FiniteMs ttl \<Rightarrow> if ttl < 0 \<or> ttl > MAX_CACHE_TTL_MS then Inl (Thrown ''RangeError'') else Inr ttl)"

section \<open>The cached reader\<close>

record 'w status_cache =
  sc_entries :: "string \<Rightarrow> (tx_status \<times> rat) option"
  sc_world :: 'w

definition fresh_cache :: "'w \<Rightarrow> 'w status_cache" where
  "fresh_cache w = \<lparr>sc_entries = (\<lambda>_. None), sc_world = w\<rparr>"

text \<open>The reader is asked, and a final status is kept from the time \<open>t\<close> the call began.\<close>

definition readThrough :: "'w tx_env \<Rightarrow> rat \<Rightarrow> rat \<Rightarrow> string \<Rightarrow> ('w status_cache, string, tx_status) act" where
  "readThrough env ttl t hash c =
     (case te_getStatus env hash (sc_world c) of
        (Inl e, w) \<Rightarrow> (Inl e, c\<lparr>sc_world := w\<rparr>)
      | (Inr s, w) \<Rightarrow>
          (Inr s, c\<lparr>sc_world := w,
             sc_entries := (if s = Pending then sc_entries c else (sc_entries c)(hash \<mapsto> (s, t + ttl)))\<rparr>))"

definition cachedGetStatus :: "'w tx_env \<Rightarrow> rat \<Rightarrow> string \<Rightarrow> ('w status_cache, string, tx_status) act" where
  "cachedGetStatus env ttl hash c =
     (let t = of_int (te_now env (sc_world c)) in
      case sc_entries c hash of
        None \<Rightarrow> readThrough env ttl t hash c
      | Some (s, expiresAt) \<Rightarrow> if expiresAt > t then (Inr s, c) else readThrough env ttl t hash c)"

definition createCachedTxStatusReader :: "'w tx_env \<Rightarrow> rat \<Rightarrow> 'w status_cache tx_env" where
  "createCachedTxStatusReader env ttl =
     \<lparr>te_getStatus = (if ttl = 0 then (\<lambda>hash c. case te_getStatus env hash (sc_world c) of (r, w) \<Rightarrow> (r, c\<lparr>sc_world := w\<rparr>))
        else cachedGetStatus env ttl),
      te_sleep = (\<lambda>ms c. c\<lparr>sc_world := te_sleep env ms (sc_world c)\<rparr>),
      te_now = (\<lambda>c. te_now env (sc_world c))\<rparr>"

section \<open>Waiting\<close>

text \<open>Unlike the SDK's loop this one lets an error of the reader through.\<close>

partial_function (option) pollUntilFinal ::
    "'w tx_env \<Rightarrow> string \<Rightarrow> int \<Rightarrow> int \<Rightarrow> int \<Rightarrow> 'w \<Rightarrow> ((js_error + tx_status) \<times> 'w) option" where
  "pollUntilFinal env hash timeoutMs intervalMs deadline w =
     (case te_getStatus env hash w of
        (Inl e, w1) \<Rightarrow> Some (Inl (Thrown e), w1)
      | (Inr s, w1) \<Rightarrow>
          if s \<noteq> Pending then Some (Inr s, w1)
          else if te_now env w1 + intervalMs > deadline
          then Some (Inl (Wallet (TransactionTimeoutError hash timeoutMs)), w1)
          else pollUntilFinal env hash timeoutMs intervalMs deadline (te_sleep env intervalMs w1))"

definition waitCached ::
    "'w tx_env \<Rightarrow> string \<Rightarrow> int option \<Rightarrow> int option \<Rightarrow> ttl_number option \<Rightarrow> 'w \<Rightarrow>
     ((js_error + tx_status) \<times> 'w) option" where
  "waitCached env hash timeout interval cacheTtlMs w =
    (let timeoutMs = (case timeout of None \<Rightarrow> 60000 | Some t \<Rightarrow> t);
         intervalMs = (case interval of None \<Rightarrow> 2000 | Some i \<Rightarrow> i) in
     case resolveCacheTtlMs cacheTtlMs of
       Inl e \<Rightarrow> Some (Inl e, w)
     | Inr ttl \<Rightarrow>
         map_option (\<lambda>(r, c). (r, sc_world c))
           (pollUntilFinal (createCachedTxStatusReader env ttl) hash timeoutMs intervalMs
              (te_now env w + timeoutMs) (fresh_cache w)))"

section \<open>What the cache answers\<close>

text \<open>Every entry is a final status, kept for at most \<open>ttl\<close> from the moment its call began.\<close>

definition status_cache_inv :: "'w tx_env \<Rightarrow> rat \<Rightarrow> 'w status_cache \<Rightarrow> bool" where
  "status_cache_inv env ttl c =
     (\<forall>h s e. sc_entries c h = Some (s, e) \<longrightarrow> s \<noteq> Pending \<and> e \<le> of_int (te_now env (sc_world c)) + ttl)"

lemma status_cache_inv_fresh: "status_cache_inv env ttl (fresh_cache w)"
  by (simp add: status_cache_inv_def fresh_cache_def)

lemma status_cache_inv_later:
  assumes "status_cache_inv env ttl c" "te_now env (sc_world c) \<le> te_now env w"
  shows "status_cache_inv env ttl (c\<lparr>sc_world := w\<rparr>)"
proof -
  have "of_int (te_now env (sc_world c)) \<le> (of_int (te_now env w) :: rat)"
    using assms(2) by simp
  then show ?thesis using assms(1) by (force simp: status_cache_inv_def)
qed

lemma status_cache_inv_read:
  assumes "status_cache_inv env ttl c" and "\<And>w r w1. te_getStatus env hash w = (r, w1) \<Longrightarrow> te_now env w \<le> te_now env w1"
  shows "status_cache_inv env ttl (snd (cachedGetStatus env ttl hash c))"
proof -
  obtain r w where rd: "te_getStatus env hash (sc_world c) = (r, w)" by fastforce
  have later: "status_cache_inv env ttl (c\<lparr>sc_world := w\<rparr>)"
    using status_cache_inv_later [OF assms(1)] assms(2) [OF rd] by simp
  have "status_cache_inv env ttl (snd (readThrough env ttl (of_int (te_now env (sc_world c))) hash c))"
    using later rd assms(2) [OF rd] by (cases r) (auto simp: readThrough_def status_cache_inv_def)
  then show ?thesis
    using assms(1) by (auto simp: cachedGetStatus_def Let_def split: option.splits)
qed

text \<open>
  Within the time to live a final status is answered again without asking the reader; the first answer after it is the
  reader's.
\<close>

theorem final_status_is_kept_for_the_ttl:
  assumes "te_getStatus env hash (sc_world c) = (Inr s, w)" "s \<noteq> Pending" "sc_entries c hash = None"
    and c1: "cachedGetStatus env ttl hash c = (r, c1)"
    and since: "sc_entries c2 = sc_entries c1"
  shows "r = Inr s \<and>
    (of_int (te_now env (sc_world c2)) < of_int (te_now env (sc_world c)) + ttl \<longrightarrow>
       cachedGetStatus env ttl hash c2 = (Inr s, c2)) \<and>
    (\<not> of_int (te_now env (sc_world c2)) < of_int (te_now env (sc_world c)) + ttl \<longrightarrow>
       fst (cachedGetStatus env ttl hash c2) = fst (te_getStatus env hash (sc_world c2)))"
proof -
  have *: "r = Inr s" "sc_entries c1 hash = Some (s, of_int (te_now env (sc_world c)) + ttl)"
    using assms(1-3) c1 by (auto simp: cachedGetStatus_def readThrough_def Let_def)
  have "fst (readThrough env ttl t hash c2) = fst (te_getStatus env hash (sc_world c2))" for t
    by (auto simp: readThrough_def split: prod.splits sum.splits)
  then show ?thesis using * since by (simp add: cachedGetStatus_def Let_def)
qed

section \<open>The cache never changes a wait\<close>

text \<open>
  One wait asks for one hash and ends with its first final status, so it never reads an entry it wrote: the wait is the same
  for every time to live. It returns when time passes.
\<close>

lemma uncached_step:
  assumes "sc_entries c hash = None"
  shows "\<exists>c1. te_getStatus (createCachedTxStatusReader env ttl) hash c = (fst (te_getStatus env hash (sc_world c)), c1) \<and>
    sc_world c1 = snd (te_getStatus env hash (sc_world c)) \<and>
    (fst (te_getStatus env hash (sc_world c)) = Inr Pending \<longrightarrow> sc_entries c1 = sc_entries c)"
  using assms
  by (auto simp: createCachedTxStatusReader_def cachedGetStatus_def readThrough_def split: prod.splits sum.splits)

lemma poll_ignores_cache:
  assumes "0 < intervalMs"
    and read: "\<And>w r w1. te_getStatus env hash w = (r, w1) \<Longrightarrow> te_now env w \<le> te_now env w1"
    and sleep: "\<And>w. te_now env w + intervalMs \<le> te_now env (te_sleep env intervalMs w)"
    and "sc_entries c hash = None"
  shows "\<exists>r c'. pollUntilFinal (createCachedTxStatusReader env ttl) hash timeoutMs intervalMs deadline c = Some (r, c') \<and>
    pollUntilFinal env hash timeoutMs intervalMs deadline (sc_world c) = Some (r, sc_world c')"
  using assms(4)
proof (induction "nat (deadline - te_now env (sc_world c))" arbitrary: c rule: less_induct)
  case less
  let ?E = "createCachedTxStatusReader env ttl" and ?w = "sc_world c"
  obtain r w1 where rd: "te_getStatus env hash ?w = (r, w1)" by fastforce
  obtain c1 where c1: "te_getStatus ?E hash c = (r, c1)" "sc_world c1 = w1" "r = Inr Pending \<Longrightarrow> sc_entries c1 = sc_entries c"
    using uncached_step [OF less.prems, of env ttl] rd by auto
  have now: "te_now ?E c1 = te_now env w1" using c1(2) by (simp add: createCachedTxStatusReader_def)
  show ?case
  proof (cases "r = Inr Pending \<and> te_now env w1 + intervalMs \<le> deadline")
    case False
    then show ?thesis
      using rd c1 now
      by (subst (1 2) pollUntilFinal.simps) (cases r; auto)
  next
    case True
    let ?c2 = "te_sleep ?E intervalMs c1"
    have c2: "sc_world ?c2 = te_sleep env intervalMs w1" "sc_entries ?c2 hash = None"
      using True c1 less.prems by (simp_all add: createCachedTxStatusReader_def)
    have "nat (deadline - te_now env (sc_world ?c2)) < nat (deadline - te_now env ?w)"
      using read [OF rd] sleep [of w1] True assms(1) c2(1) by simp
    note ih = less.hyps [OF this c2(2)]
    have "pollUntilFinal ?E hash timeoutMs intervalMs deadline c = pollUntilFinal ?E hash timeoutMs intervalMs deadline ?c2"
      using True c1 now by (subst pollUntilFinal.simps) simp
    moreover have "pollUntilFinal env hash timeoutMs intervalMs deadline ?w =
        pollUntilFinal env hash timeoutMs intervalMs deadline (sc_world ?c2)"
      using True rd c2(1) by (subst pollUntilFinal.simps) simp
    ultimately show ?thesis using ih by simp
  qed
qed

theorem the_ttl_never_matters_to_a_wait:
  assumes "resolveCacheTtlMs cacheTtlMs = Inr ttl"
    and "intervalMs = (case interval of None \<Rightarrow> 2000 | Some i \<Rightarrow> i)" "0 < intervalMs"
    and "\<And>w r w1. te_getStatus env hash w = (r, w1) \<Longrightarrow> te_now env w \<le> te_now env w1"
    and "\<And>w. te_now env w + intervalMs \<le> te_now env (te_sleep env intervalMs w)"
  shows "waitCached env hash timeout interval cacheTtlMs w = waitCached env hash timeout interval (Some (FiniteMs 0)) w \<and>
    (\<exists>r w'. waitCached env hash timeout interval cacheTtlMs w = Some (r, w'))"
proof -
  let ?timeoutMs = "case timeout of None \<Rightarrow> 60000 | Some t \<Rightarrow> t"
  let ?d = "te_now env w + ?timeoutMs"
  have fresh: "sc_entries (fresh_cache w) hash = None" "sc_world (fresh_cache w) = w"
    by (simp_all add: fresh_cache_def)
  have zero: "resolveCacheTtlMs (Some (FiniteMs 0)) = Inr 0"
    by (simp add: resolveCacheTtlMs_def MAX_CACHE_TTL_MS_def)
  have polls: "\<exists>r c'. pollUntilFinal (createCachedTxStatusReader env t) hash ?timeoutMs intervalMs ?d (fresh_cache w) = Some (r, c') \<and>
      pollUntilFinal env hash ?timeoutMs intervalMs ?d (sc_world (fresh_cache w)) = Some (r, sc_world c')" for t
    by (rule poll_ignores_cache) (fact assms(3) assms(4) assms(5) fresh(1))+
  have wait: "waitCached env hash timeout interval n w = pollUntilFinal env hash ?timeoutMs intervalMs ?d w \<and>
      (\<exists>r w'. waitCached env hash timeout interval n w = Some (r, w'))"
    if "resolveCacheTtlMs n = Inr t" for n t
    using polls [of t] that fresh(2) assms(2) by (auto simp: waitCached_def Let_def)
  show ?thesis using wait [OF assms(1)] wait [OF zero] by metis
qed

end
