(* ===== verification/PaidRetry.thy ===== *)
theory PaidRetry
  imports Ledger
begin

text \<open>
  Two ways to bound a paid request: the request timeout of the payer
  (\<open>contrib/x402-payer-wave-415-419/payer-timeout.ts\<close>) and the retry loop that ends in a dead letter
  (\<open>contrib/examples/issue-239-x402-dead-letter-retries/dead-letter-retries.ts\<close>). The wrapped \<open>fetch\<close> and the attempts
  are parameters; what \<open>fetch\<close> throws may depend on whether the timer has fired.
\<close>

section \<open>The timeout\<close>

text \<open>A thrown value: an \<open>Error\<close> with its name and message, or anything else.\<close>

datatype thrown = AnError string string | NotAnError

definition DEFAULT_REQUEST_TIMEOUT_MS :: int where "DEFAULT_REQUEST_TIMEOUT_MS = 25000"

definition parseRequestTimeoutMs :: "string option \<Rightarrow> string + int" where
  "parseRequestTimeoutMs raw =
     (case raw of
        None \<Rightarrow> Inr DEFAULT_REQUEST_TIMEOUT_MS
      | Some t \<Rightarrow>
          (let trimmed = trim t in
           if trimmed = [] then Inr DEFAULT_REQUEST_TIMEOUT_MS
           else if \<not> all_digits trimmed then Inl ''must be a positive integer''
           else if digits_val trimmed \<le> 0 then Inl ''must be greater than 0''
           else Inr (digits_val trimmed)))"

fun isTimeoutError :: "thrown \<Rightarrow> bool" where
  "isTimeoutError (AnError name message) =
     (name = ''TimeoutError'' \<or> name = ''AbortError'' \<or>
      (let m = toLowerCase message in
       contains_text ''timed out'' m \<or> contains_text ''timeout'' m \<or> contains_text ''abort'' m))"
| "isTimeoutError NotAnError = False"

text \<open>
  What became of the request: an answer, or a value thrown before or after the timer fired. The reason of the abort is the
  timer's own error.
\<close>

datatype 'r request_end = Answered 'r | FailedBefore thrown | FailedAfter thrown

definition timeout_error :: "int \<Rightarrow> thrown" where
  "timeout_error timeoutMs = AnError ''Error'' (''Request timed out after '' @ show_int timeoutMs @ ''ms.'')"

fun fetchWithTimeout :: "int \<Rightarrow> 'r request_end \<Rightarrow> thrown + 'r" where
  "fetchWithTimeout timeoutMs (Answered res) = Inr res"
| "fetchWithTimeout timeoutMs (FailedAfter _) = Inl (timeout_error timeoutMs)"
| "fetchWithTimeout timeoutMs (FailedBefore err) = Inl err"

datatype paid_error = IndeterminateSettlement string int int | Rethrown thrown

text \<open>\<open>SpendLedgerLike\<close> is an interface: its \<open>debit\<close> is an argument.\<close>

definition executePaidRetryWithTimeout ::
    "('l \<Rightarrow> string \<Rightarrow> int \<Rightarrow> 'l) \<Rightarrow> string \<Rightarrow> int \<Rightarrow> int \<Rightarrow> 'r request_end \<Rightarrow> ('l, paid_error, 'r) act" where
  "executePaidRetryWithTimeout debit asset amount timeoutMs ending l =
     (case fetchWithTimeout timeoutMs ending of
        Inr res \<Rightarrow> (Inr res, l)
      | Inl err \<Rightarrow>
          if isTimeoutError err then (Inl (IndeterminateSettlement asset amount timeoutMs), debit l asset amount)
          else (Inl (Rethrown err), l))"

section \<open>The dead letter\<close>

record payment_attempt_failure =
  paf_attempt :: nat
  paf_error :: thrown
  paf_attemptedAt :: int

record payment_dead_letter =
  pdl_attempts :: int
  pdl_failures :: "payment_attempt_failure list"
  pdl_lastError :: "thrown option"

datatype 'v retry_result = PaymentSuccess 'v nat | PaymentDeadLetter payment_dead_letter

text \<open>
  What the loop did to the outside: attempts, waits and the hook, in order. \<open>attempt\<close> answers for an attempt number with the
  time of the answer. \<open>left\<close> is the number of attempts that remain.
\<close>

datatype letter_event = Attempted nat | Waited rat | DeadLettered payment_dead_letter

fun attempt_loop ::
    "(nat \<Rightarrow> (thrown \<times> int) + 'v) \<Rightarrow> rat \<Rightarrow> nat \<Rightarrow> nat \<Rightarrow> payment_attempt_failure list \<Rightarrow> letter_event list \<Rightarrow>
     (payment_attempt_failure list + 'v \<times> nat) \<times> letter_event list" where
  "attempt_loop attempt base 0 k failures tr = (Inl failures, tr)"
| "attempt_loop attempt base (Suc left) k failures tr =
     (case attempt k of
        Inr v \<Rightarrow> (Inr (v, k), tr @ [Attempted k])
      | Inl (e, now) \<Rightarrow>
          attempt_loop attempt base left (Suc k)
            (failures @ [\<lparr>paf_attempt = k, paf_error = e, paf_attemptedAt = now\<rparr>])
            (tr @ [Attempted k] @ (if 0 < left then [Waited (base * 2 ^ (k - 1))] else [])))"

definition last_error :: "payment_attempt_failure list \<Rightarrow> thrown option" where
  "last_error failures = (if failures = [] then None else Some (paf_error (last failures)))"

text \<open>\<open>None\<close> is the error for fewer than one attempt.\<close>

definition retryPaymentWithDeadLetter ::
    "(nat \<Rightarrow> (thrown \<times> int) + 'v) \<Rightarrow> int \<Rightarrow> rat option \<Rightarrow> bool \<Rightarrow> ('v retry_result \<times> letter_event list) option" where
  "retryPaymentWithDeadLetter attempt maxAttempts baseDelayMs hook =
     (if maxAttempts < 1 then None
      else
        Some (case attempt_loop attempt (case baseDelayMs of None \<Rightarrow> 0 | Some d \<Rightarrow> d) (nat maxAttempts) 1 [] [] of
          (Inr (v, k), tr) \<Rightarrow> (PaymentSuccess v k, tr)
        | (Inl failures, tr) \<Rightarrow>
            (let letter = \<lparr>pdl_attempts = maxAttempts, pdl_failures = failures, pdl_lastError = last_error failures\<rparr> in
             (PaymentDeadLetter letter, tr @ (if hook then [DeadLettered letter] else [])))))"

section \<open>What is debited\<close>

lemma contains_text_middle: "contains_text n (a @ n @ b)"
proof (induction a)
  case Nil
  then show ?case by (cases n; cases b) (auto simp: startsWith_def)
next
  case (Cons c a)
  then show ?case by simp
qed

lemma timer_error_is_a_timeout: "isTimeoutError (timeout_error timeoutMs)"
proof -
  have "toLowerCase ''Request timed out after '' = ''request '' @ ''timed out'' @ '' after ''"
    by code_simp
  then have "toLowerCase (''Request timed out after '' @ show_int timeoutMs @ ''ms.'') =
      ''request '' @ ''timed out'' @ ('' after '' @ toLowerCase (show_int timeoutMs @ ''ms.''))"
    unfolding toLowerCase_def map_append by simp
  then have "contains_text ''timed out'' (toLowerCase (''Request timed out after '' @ show_int timeoutMs @ ''ms.''))"
    by (metis contains_text_middle)
  then show ?thesis by (simp add: timeout_error_def)
qed

text \<open>
  A paid request that the timer cut off is always debited, once, and reported as indeterminate; an answered one never is,
  and any other failure is debited exactly when it reads like a timeout.
\<close>

theorem cut_off_payments_are_debited:
  "executePaidRetryWithTimeout debit asset amount timeoutMs (FailedAfter e) l =
     (Inl (IndeterminateSettlement asset amount timeoutMs), debit l asset amount) \<and>
   executePaidRetryWithTimeout debit asset amount timeoutMs (Answered res) l = (Inr res, l) \<and>
   executePaidRetryWithTimeout debit asset amount timeoutMs (FailedBefore e) l =
     (if isTimeoutError e then (Inl (IndeterminateSettlement asset amount timeoutMs), debit l asset amount)
      else (Inl (Rethrown e), l))"
  by (simp add: executePaidRetryWithTimeout_def timer_error_is_a_timeout)

text \<open>A connection that is reset after the payment was sent leaves the ledger as it was.\<close>

theorem reset_connection_is_not_debited:
  "executePaidRetryWithTimeout ledger_charge ''A'' 5 25000 (FailedBefore (AnError ''TypeError'' ''socket hang up''))
     (createSpendLedger [(''A'', 10)]) =
   (Inl (Rethrown (AnError ''TypeError'' ''socket hang up'')), createSpendLedger [(''A'', 10)])"
  by (simp add: executePaidRetryWithTimeout_def toLowerCase_def to_lower_char_def startsWith_def)

theorem parsed_timeout_is_positive:
  "parseRequestTimeoutMs raw = Inr ms \<Longrightarrow> 0 < ms"
  by (auto simp: parseRequestTimeoutMs_def DEFAULT_REQUEST_TIMEOUT_MS_def Let_def split: option.splits if_splits)

section \<open>When the loop gives up\<close>

definition attempts_of :: "letter_event list \<Rightarrow> nat list" where
  "attempts_of tr = concat (map (\<lambda>e. case e of Attempted k \<Rightarrow> [k] | _ \<Rightarrow> []) tr)"

lemma attempts_of_simps [simp]:
  "attempts_of [] = []" "attempts_of (a @ b) = attempts_of a @ attempts_of b"
  "attempts_of (Attempted k # tr) = k # attempts_of tr" "attempts_of (Waited d # tr) = attempts_of tr"
  "attempts_of (DeadLettered letter # tr) = attempts_of tr"
  by (simp_all add: attempts_of_def)

definition letters_of :: "letter_event list \<Rightarrow> payment_dead_letter list" where
  "letters_of tr = concat (map (\<lambda>e. case e of DeadLettered d \<Rightarrow> [d] | _ \<Rightarrow> []) tr)"

lemma loop_calls_no_hook:
  "attempt_loop attempt base left k failures tr = (r, tr') \<Longrightarrow> letters_of tr' = letters_of tr"
  by (induction left arbitrary: k failures tr)
    (auto simp: letters_of_def split: sum.splits if_splits)

text \<open>The loop from attempt \<open>k\<close> on: it stops at the first success.\<close>

lemma attempt_loop_outcome:
  "case attempt_loop attempt base left k failures tr of
     (Inr (v, j), tr') \<Rightarrow>
       k \<le> j \<and> j < k + left \<and> attempt j = Inr v \<and> (\<forall>i \<in> {k..<j}. isl (attempt i)) \<and>
       attempts_of tr' = attempts_of tr @ [k..<Suc j]
   | (Inl fs, tr') \<Rightarrow>
       (\<forall>i \<in> {k..<k + left}. isl (attempt i)) \<and> attempts_of tr' = attempts_of tr @ [k..<k + left] \<and>
       map paf_attempt fs = map paf_attempt failures @ [k..<k + left]"
proof (induction left arbitrary: k failures tr)
  case 0
  then show ?case by simp
next
  case (Suc left)
  show ?case
  proof (cases "attempt k")
    case (Inr v)
    then show ?thesis by simp
  next
    case (Inl p)
    obtain e now where p: "attempt k = Inl (e, now)" using Inl by (cases p) simp
    let ?fs = "failures @ [\<lparr>paf_attempt = k, paf_error = e, paf_attemptedAt = now\<rparr>]"
    let ?tr = "tr @ [Attempted k] @ (if 0 < left then [Waited (base * 2 ^ (k - 1))] else [])"
    have here: "(\<forall>i \<in> {k..<j}. isl (attempt i)) \<longleftrightarrow> (\<forall>i \<in> {Suc k..<j}. isl (attempt i))" for j
      using p by (metis Suc_leI Suc_leD atLeastLessThan_iff le_neq_implies_less sum.disc(1))
    have range: "[k..<k + Suc left] = k # [Suc k..<Suc k + left]" "Suc k \<le> j \<Longrightarrow> [k..<Suc j] = k # [Suc k..<Suc j]" for j
      by (simp_all add: upt_conv_Cons)
    show ?thesis
      using Suc.IH [where k = "Suc k" and failures = ?fs and tr = ?tr] p range
      by (auto simp: here split: prod.splits sum.splits simp del: upt_Suc)
  qed
qed

text \<open>
  With at least one attempt allowed the loop returns: a success is the first attempt that succeeded, and a dead letter says
  that each of the \<open>maxAttempts\<close> attempts failed, with a failure for each in order. The hook is called once for a dead letter
  and never otherwise.
\<close>

theorem dead_letter_means_every_attempt_failed:
  assumes "1 \<le> maxAttempts"
  shows "\<exists>r tr. retryPaymentWithDeadLetter attempt maxAttempts base True = Some (r, tr) \<and>
    (case r of
       PaymentSuccess v j \<Rightarrow>
         1 \<le> j \<and> int j \<le> maxAttempts \<and> attempt j = Inr v \<and> (\<forall>i \<in> {1..<j}. isl (attempt i)) \<and>
         attempts_of tr = [1..<Suc j] \<and> letters_of tr = []
     | PaymentDeadLetter d \<Rightarrow>
         (\<forall>i \<in> {1..nat maxAttempts}. isl (attempt i)) \<and> attempts_of tr = [1..<Suc (nat maxAttempts)] \<and>
         map paf_attempt (pdl_failures d) = [1..<Suc (nat maxAttempts)] \<and> letters_of tr = [d])"
proof -
  let ?base = "case base of None \<Rightarrow> 0 | Some d \<Rightarrow> d"
  obtain r tr where loop: "attempt_loop attempt ?base (nat maxAttempts) 1 [] [] = (r, tr)" by fastforce
  have set: "{1..nat maxAttempts} = {1..<1 + nat maxAttempts}" by auto
  show ?thesis
    using attempt_loop_outcome [where attempt = attempt and base = ?base and left = "nat maxAttempts" and k = 1 and failures = "[]" and tr = "[]"] loop assms loop_calls_no_hook [OF loop]
    unfolding set retryPaymentWithDeadLetter_def
    by (cases r) (auto simp: Let_def letters_of_def simp del: upt_Suc)
qed

end
