(* ===== verification/CapabilityProbe.thy ===== *)
theory CapabilityProbe
  imports Json
begin

text \<open>
  The capability probe of a facilitator (\<open>contrib/facilitator-capability-probe.ts\<close>). The wrapped \<open>fetch\<close> is a parameter: for
  a URL it gives \<open>None\<close> when it throws (also when the timer aborts it), and otherwise whether the status is a success and the
  JSON of the body, \<open>None\<close> when that does not parse.
\<close>

section \<open>Reading the answer\<close>

record facilitator_capabilities =
  fc_url :: string
  fc_networks :: "string list"
  fc_schemes :: "string list"
  fc_areFeesSponsored :: bool
  fc_version :: "string option"
  fc_raw :: json

fun string_of :: "json \<Rightarrow> string option" where
  "string_of (JStr s) = Some s"
| "string_of _ = None"

fun strings_of :: "json \<Rightarrow> string list option" where
  "strings_of (JArr vs) = Some (List.map_filter string_of vs)"
| "strings_of _ = None"

fun bool_of :: "json \<Rightarrow> bool option" where
  "bool_of (JBool b) = Some b"
| "bool_of _ = None"

text \<open>The first alternative that is there, or the default.\<close>

fun first_some :: "'a option list \<Rightarrow> 'a \<Rightarrow> 'a" where
  "first_some [] d = d"
| "first_some (Some x # xs) d = x"
| "first_some (None # xs) d = first_some xs d"

definition extractNetworks :: "json \<Rightarrow> string list" where
  "extractNetworks data =
     first_some [strings_of (jprop data ''networks''), strings_of (jprop data ''supportedNetworks''),
       map_option (\<lambda>n. [n]) (string_of (jprop data ''network''))] []"

definition extractSchemes :: "json \<Rightarrow> string list" where
  "extractSchemes data = first_some [strings_of (jprop data ''schemes''), strings_of (jprop data ''supportedSchemes'')] []"

definition extractFeeSponsorship :: "json \<Rightarrow> bool" where
  "extractFeeSponsorship data =
     first_some [bool_of (jprop data ''areFeesSponsored''), bool_of (jprop data ''feeSponsorship''),
       bool_of (jprop data ''sponsorsFees'')] False"

text \<open>Reading a property of \<open>null\<close> throws, and the next endpoint is tried.\<close>

definition capabilities_of :: "string \<Rightarrow> json \<Rightarrow> facilitator_capabilities option" where
  "capabilities_of url data =
     (if data = JNull then None
      else Some \<lparr>fc_url = url, fc_networks = extractNetworks data, fc_schemes = extractSchemes data,
        fc_areFeesSponsored = extractFeeSponsorship data, fc_version = string_of (jprop data ''version''), fc_raw = data\<rparr>)"

type_synonym probe_fetch = "string \<Rightarrow> (bool \<times> json option) option"

definition probe_endpoint :: "probe_fetch \<Rightarrow> string \<Rightarrow> string \<Rightarrow> facilitator_capabilities option" where
  "probe_endpoint get url endpoint =
     (case get (url @ endpoint) of
        None \<Rightarrow> None
      | Some (ok, body) \<Rightarrow> if \<not> ok then None else Option.bind body (capabilities_of url))"

fun probe_endpoints :: "probe_fetch \<Rightarrow> string \<Rightarrow> string list \<Rightarrow> facilitator_capabilities option \<times> string list" where
  "probe_endpoints get url [] = (None, [])"
| "probe_endpoints get url (e # es) =
     (case probe_endpoint get url e of
        Some c \<Rightarrow> (Some c, [url @ e])
      | None \<Rightarrow> (case probe_endpoints get url es of (r, asked) \<Rightarrow> (r, (url @ e) # asked)))"

text \<open>The result and the URLs that were asked for.\<close>

definition probeFacilitator :: "probe_fetch \<Rightarrow> string \<Rightarrow> facilitator_capabilities option \<times> string list" where
  "probeFacilitator get url = probe_endpoints get url [''/capabilities'', ''/health'']"

section \<open>Comparing\<close>

datatype capability_value = OneText string | Flag bool

record capability_mismatch =
  cm_field :: string
  cm_expected :: capability_value
  cm_actual :: capability_value
  cm_message :: string

record local_config =
  lc_network :: string
  lc_scheme :: "string option"
  lc_areFeesSponsored :: "bool option"

fun comma_list :: "string list \<Rightarrow> string" where
  "comma_list [] = []"
| "comma_list [x] = x"
| "comma_list (x # xs) = x @ '', '' @ comma_list xs"

definition or_none :: "string \<Rightarrow> string" where
  "or_none s = (if s = [] then ''(none)'' else s)"

definition local_caip2 :: "local_config \<Rightarrow> string" where
  "local_caip2 lc = ''stellar:'' @ (if lc_network lc = ''mainnet'' then ''pubnet'' else lc_network lc)"

definition network_mismatch :: "facilitator_capabilities \<Rightarrow> local_config \<Rightarrow> capability_mismatch list" where
  "network_mismatch c lc =
     (let caip2 = local_caip2 lc; offered = comma_list (fc_networks c) in
      if caip2 \<in> set (fc_networks c) then []
      else [\<lparr>cm_field = ''network'', cm_expected = OneText caip2, cm_actual = OneText offered,
        cm_message = ''Facilitator does not support '' @ caip2 @ ''. Supported: '' @ or_none offered\<rparr>])"

text \<open>An empty scheme counts as none.\<close>

definition scheme_mismatch :: "facilitator_capabilities \<Rightarrow> local_config \<Rightarrow> capability_mismatch list" where
  "scheme_mismatch c lc =
     (case lc_scheme lc of
        None \<Rightarrow> []
      | Some s \<Rightarrow>
          (let offered = comma_list (fc_schemes c) in
           if s = [] \<or> s \<in> set (fc_schemes c) then []
           else [\<lparr>cm_field = ''scheme'', cm_expected = OneText s, cm_actual = OneText offered,
             cm_message = ''Facilitator does not support scheme '' @ [CHR 0x27] @ s @ [CHR 0x27] @ ''. Supported: '' @
               or_none offered\<rparr>]))"

definition fee_mismatch :: "facilitator_capabilities \<Rightarrow> local_config \<Rightarrow> capability_mismatch list" where
  "fee_mismatch c lc =
     (case lc_areFeesSponsored lc of
        None \<Rightarrow> []
      | Some b \<Rightarrow>
          if fc_areFeesSponsored c = b then []
          else [\<lparr>cm_field = ''areFeesSponsored'', cm_expected = Flag b, cm_actual = Flag (fc_areFeesSponsored c),
            cm_message = (if b then ''Facilitator does not sponsor fees, but local config requires it.''
              else ''Facilitator sponsors fees, but local config does not expect it.'')\<rparr>])"

definition checkCapabilityMismatches :: "facilitator_capabilities \<Rightarrow> local_config \<Rightarrow> capability_mismatch list" where
  "checkCapabilityMismatches c lc = network_mismatch c lc @ scheme_mismatch c lc @ fee_mismatch c lc"

section \<open>Printing\<close>

definition newline :: char where "newline = CHR 0x0A"

definition capability_lines :: "facilitator_capabilities \<Rightarrow> string list" where
  "capability_lines c =
     [''Facilitator: '' @ fc_url c, ''  Networks: '' @ or_none (comma_list (fc_networks c)),
      ''  Schemes: '' @ or_none (comma_list (fc_schemes c)),
      ''  Fee sponsorship: '' @ (if fc_areFeesSponsored c then ''yes'' else ''no'')] @
     (case fc_version c of None \<Rightarrow> [] | Some v \<Rightarrow> if v = [] then [] else [''  Version: '' @ v])"

fun unlines :: "string list \<Rightarrow> string" where
  "unlines [] = []"
| "unlines [x] = x"
| "unlines (x # xs) = x @ newline # unlines xs"

definition formatCapabilities :: "facilitator_capabilities \<Rightarrow> string" where
  "formatCapabilities c = unlines (capability_lines c)"

text \<open>The dash of the compatible answer is the character U+2014 of the source, here a hyphen.\<close>

definition formatMismatches :: "capability_mismatch list \<Rightarrow> string" where
  "formatMismatches ms =
     (if ms = [] then ''No mismatches - facilitator is compatible.''
      else unlines (''Facilitator capability mismatches:'' # map (\<lambda>m. ''  - '' @ cm_message m) ms))"

section \<open>What the probe shows\<close>

text \<open>
  The probe asks for at most the two endpoints, the second only when the first gave nothing, and what it returns was read
  from a successful answer of one of them.
\<close>

theorem probe_reads_one_answer:
  assumes "probeFacilitator get url = (r, asked)"
  shows "(asked = [url @ ''/capabilities''] \<or> asked = [url @ ''/capabilities'', url @ ''/health'']) \<and>
    (\<forall>c. r = Some c \<longrightarrow>
       (\<exists>data. get (last asked) = Some (True, Some data) \<and> capabilities_of url data = Some c)) \<and>
    (r = None \<longrightarrow> length asked = 2)"
  using assms
  by (auto simp: probeFacilitator_def probe_endpoint_def split: option.splits prod.splits if_splits bind_splits)

text \<open>No mismatch is reported exactly when the facilitator offers what the configuration asks for.\<close>

theorem no_mismatch_iff_compatible:
  "checkCapabilityMismatches c lc = [] \<longleftrightarrow>
     local_caip2 lc \<in> set (fc_networks c) \<and>
     (\<forall>s. lc_scheme lc = Some s \<longrightarrow> s = [] \<or> s \<in> set (fc_schemes c)) \<and>
     (\<forall>b. lc_areFeesSponsored lc = Some b \<longrightarrow> fc_areFeesSponsored c = b)"
  by (auto simp: checkCapabilityMismatches_def network_mismatch_def scheme_mismatch_def fee_mismatch_def Let_def
      split: option.splits)

text \<open>
  A facilitator that does not sponsor fees can print a line that says it does: its texts are printed as they came.
\<close>

definition forging_answer :: json where
  "forging_answer = JObj [(''network'', JStr ''stellar:testnet''), (''areFeesSponsored'', JBool False),
     (''version'', JStr (''1'' @ newline # ''  Fee sponsorship: yes''))]"

definition forging_capabilities :: facilitator_capabilities where
  "forging_capabilities = \<lparr>fc_url = ''u'', fc_networks = [''stellar:testnet''], fc_schemes = [], fc_areFeesSponsored = False,
     fc_version = Some (''1'' @ newline # ''  Fee sponsorship: yes''), fc_raw = forging_answer\<rparr>"

theorem capabilities_are_printed_raw:
  "capabilities_of ''u'' forging_answer = Some forging_capabilities \<and> \<not> fc_areFeesSponsored forging_capabilities \<and>
   (\<exists>shown. formatCapabilities forging_capabilities = shown @ newline # ''  Fee sponsorship: yes'')"
proof -
  have "capabilities_of ''u'' forging_answer = Some forging_capabilities"
    by (simp add: capabilities_of_def forging_answer_def forging_capabilities_def extractNetworks_def extractSchemes_def
        extractFeeSponsorship_def)
  moreover have "formatCapabilities forging_capabilities =
      (unlines (take 4 (capability_lines forging_capabilities)) @ newline # ''  Version: 1'') @ newline # ''  Fee sponsorship: yes''"
    by (simp add: formatCapabilities_def capability_lines_def forging_capabilities_def)
  ultimately show ?thesis by (auto simp: forging_capabilities_def)
qed

end
