(* ===== verification/Spec2Isabelle.thy ===== *)
theory Spec2Isabelle
  imports PayAndCall Scheme Wallet Amounts TxTracking Services Agents Network Server Cli UptoReceipt
    Rollback Idempotency SessionMigration SessionCacheKey HttpRetry AgentGuard Discovery UptoBuyer
    DurableLedger PolicyQueue SessionGuards Confirmation BatchedBalances
    ChallengeTracker RedirectGuard ResumableDeploy SettledLedger AssetPreference AuditPolicy Preflight Telemetry
    FetchFallback ResourceCache Keygen MockFacilitator SessionSigning StatusCache PaidRetry CapabilityProbe
    "HOL-Library.Countable"
begin

text \<open>
  A verification development of the Vellar wallet SDK (\<open>src/src\<close>), of its MCP x402 payer
  (\<open>src/packages/mcp-x402-payer/src\<close>), of its command line (\<open>src/packages/cli/src\<close>) and of the contributed
  modules with state of their own (\<open>src/contrib\<close>).

  \<^bold>\<open>The program.\<close> The SDK lets an application hold a passkey smart wallet on Stellar and lets an agent
  pay for HTTP resources (x402): a resource server answers 402 with payment options; the client
  selects one, builds and simulates a token transfer, has the wallet's authorization entries signed
  by a session key or a passkey, and sends the signed envelope with the request again. The payer is
  a server for a language model on top of it: it quotes, pays under a session ceiling and returns
  fenced content. The wallet facade creates and connects wallets, makes payments, mints agent keys
  and attaches policies through a backend, behind a circuit breaker.

  \<^bold>\<open>Theories\<close>, with the source files they model:
  \<^item> \<open>Prelude\<close>: results, actions (state transformers that may throw) with their weakest
    preconditions, strings and numbers, the locales \<open>preserved\<close> (invariants of step relations) and
    \<open>functional_refinement\<close>; \<open>Errors\<close>: every error class; \<open>Encoding\<close>: UTF-8 and base64;
    \<open>Json\<close>: \<open>JSON.parse\<close> and \<open>JSON.stringify\<close>; \<open>Replacement\<close>: global replacement in texts.
  \<^item> \<open>Guards\<close> (\<open>x402-guards.ts\<close>, \<open>x402-types.ts\<close>): \<open>parseAmount\<close>, \<open>selectRequirements\<close>,
    challenge and settlement headers, \<open>classifySettlement\<close>.
  \<^item> \<open>Ledger\<close> (\<open>ledger.ts\<close>), \<open>PayerConfig\<close> (\<open>config.ts\<close>), \<open>Payer\<close> (\<open>payer.ts\<close>, \<open>protocol.ts\<close>,
    \<open>errors.ts\<close>) with \<open>PayerProps\<close>, \<open>Scheme\<close> (\<open>smart-account-scheme.ts\<close>, \<open>signer.ts\<close>),
    \<open>PayAndCall\<close> (\<open>pay-and-call.ts\<close>), \<open>Output\<close> and \<open>Redaction\<close> (\<open>output.ts\<close>, \<open>log-level.ts\<close>,
    \<open>startStdio\<close> of \<open>server.ts\<close>), \<open>Server\<close> (the tool handlers of \<open>server.ts\<close>): the payer.
  \<^item> \<open>AuthEntry\<close> (\<open>x402-auth-entry.ts\<close>), \<open>Signer\<close> (\<open>x402-signer.ts\<close>,
    \<open>x402-signer-capabilities.ts\<close>), \<open>Budget\<close> (\<open>x402-budget-attributes.ts\<close>), \<open>RequestAuth\<close>
    (\<open>x402-request-auth.ts\<close>), \<open>Client\<close> (\<open>x402-client.ts\<close>, \<open>x402-facade.ts\<close>) with
    \<open>ClientProps\<close>, \<open>Untrusted\<close> (\<open>x402-untrusted.ts\<close>): the x402 client.
  \<^item> \<open>CircuitBreaker\<close> (\<open>circuit-breaker.ts\<close>), \<open>Session\<close> (\<open>session.ts\<close>), \<open>Wallet\<close>
    (\<open>passkeykit-connector.ts\<close>, \<open>payments-client.ts\<close>, \<open>client.ts\<close>), \<open>Amounts\<close> (\<open>balances.ts\<close>,
    \<open>payments.ts\<close>), \<open>TxTracking\<close> (\<open>tx-status.ts\<close>, \<open>tx-rpc.ts\<close>), \<open>Services\<close> (\<open>http-backend.ts\<close>,
    \<open>policy-client.ts\<close>, \<open>policy-facade.ts\<close>, \<open>policy-types.ts\<close>), \<open>Agents\<close>
    (\<open>agents-facade.ts\<close>), \<open>Network\<close> (\<open>config.ts\<close>, \<open>health.ts\<close>, the answer of
    \<open>balances-rpc.ts\<close>): the wallet.
  \<^item> \<open>Cli\<close> (\<open>commands/quote.ts\<close>, \<open>pay.ts\<close>, \<open>inspect.ts\<close>, \<open>search.ts\<close>, \<open>banner.ts\<close>): the command line.
  \<^item> Contributed modules: \<open>UptoReceipt\<close> (\<open>issue-507-510-515/upto-settlement-receipt.ts\<close>), \<open>Rollback\<close>
    (\<open>issue-219-policy-deploy-rollback\<close>), \<open>Idempotency\<close> (\<open>issue-209-payment-idempotency\<close>,
    \<open>idempotency-key\<close>), \<open>SessionMigration\<close> (\<open>issue-215-session-schema-migration\<close>), \<open>SessionCacheKey\<close>
    (\<open>issue-214-session-cache-key\<close>), \<open>HttpRetry\<close> (\<open>issue-301-http-retry-wrapper\<close>), \<open>AgentGuard\<close>
    (\<open>issues-668-762-763-765/agent-mint-guard.ts\<close>), \<open>Discovery\<close> (\<open>issue-212-x402-discovery-pagination\<close>),
    \<open>UptoBuyer\<close> (\<open>issue-509-upto-buyer\<close>, \<open>issue-508-expiration-override\<close>), \<open>DurableLedger\<close>
    (\<open>x402-wave-403-414/durable-mcp-ledger.ts\<close>), \<open>PolicyQueue\<close> (\<open>issue-242-policy-batch-ordering\<close>),
    \<open>SessionGuards\<close> (\<open>session-retention.ts\<close>, \<open>wave-218-409-412-416/session-network-guard.ts\<close>),
    \<open>Confirmation\<close> (\<open>issue-228-x402-confirmation-threshold\<close>), \<open>BatchedBalances\<close>
    (\<open>issue-216-batched-trustline-balances\<close>), \<open>ChallengeTracker\<close> (\<open>issue-230-passkey-challenge-tracker\<close>),
    \<open>RedirectGuard\<close> (\<open>v659-v661-v664-v665/x402-redirect-guard.ts\<close>), \<open>ResumableDeploy\<close>
    (\<open>wave-447-448-449-450/resumable-deploy.ts\<close>), \<open>SettledLedger\<close> (\<open>mcp-payer-wave-511\<close>), \<open>AssetPreference\<close>
    (\<open>x402-multi-asset\<close>), \<open>AuditPolicy\<close> (\<open>issue-507-510-515/audit-advisory-policy.mjs\<close>), \<open>Preflight\<close>
    (\<open>x402-payer-wave-415-419/preflight.ts\<close>), \<open>Telemetry\<close> (\<open>issue-296-x402-payment-telemetry\<close>),
    \<open>FetchFallback\<close> (\<open>x402-fetch-fallback\<close>), \<open>ResourceCache\<close> (\<open>issue-221-x402-resource-cache-key\<close>),
    \<open>Keygen\<close> (\<open>wave-445-436-438-433/keygen.ts\<close>), \<open>MockFacilitator\<close> (\<open>issue-52-mock-x402-facilitator\<close>),
    \<open>SessionSigning\<close> (\<open>v659-v661-v664-v665/x402-signer-session-guard.ts\<close>, over the session store), \<open>StatusCache\<close>
    (\<open>issue-237-tx-status-cache-ttl\<close>), \<open>PaidRetry\<close> (\<open>x402-payer-wave-415-419/payer-timeout.ts\<close>,
    \<open>issue-239-x402-dead-letter-retries\<close>), \<open>CapabilityProbe\<close> (\<open>facilitator-capability-probe.ts\<close>).

  \<^bold>\<open>How code corresponds to definitions.\<close> A function keeps its name. A pure function that may throw is
  a function into \<open>js_error + 'a\<close>; one with effects is an action on the state of its component, a
  record of the closure variables and of a trace of what was asked of the outside. The outside
  (\<open>fetch\<close>, RPC nodes, the Stellar SDK's XDR codec, key material, the passkey kit, host runtimes, the
  clock and the random source) is a parameter, an arbitrary function of that trace: theorems hold for
  every behaviour of it unless a hypothesis names what is needed. Where an \<open>await\<close> lets other calls
  run, the component has an inductive step relation that interleaves them: the payer's mutex and
  ledger, the breaker's two halves of a call, the session store's storage writes, the life of a
  wallet client, the calls that share an idempotency key, the operations queued for a wallet. A restart of the
  process is a step that loses the memory and keeps the disk.

  \<^bold>\<open>What is shown.\<close>
  \<^item> Payments: what reaches a key is one transfer of the cleared option, within \<open>max_amount\<close> and under
    the session ceiling, also under concurrent calls; a payment is signed again only when nothing
    was spent, debited once, and the retry loop ends; the selection is the cheapest payable option;
    the entry check, the budgets and the lifetimes are exact; a quote predicts the pay.
  \<^item> Keys and requests: signers sign the entry they are given; the signature map is complete and
    sorted; a verified request is the signed one.
  \<^item> Output: the fence cannot be closed from inside for any nonce; redaction is exact; stdout carries
    only the protocol.
  \<^item> Wallet: a payment signs once and only what was simulated; sessions are backed; rotation keeps one
    live key; policies are attached as deployed; minted agent keys are restricted; the breaker, the
    session store, polling, the rate limit (a refinement of a bucket that fills continuously) and
    amounts behave as specified.
  \<^item> Command line: \<open>pay\<close> signs at most once and only after its checks; the other commands only read.
  \<^item> Contributed modules: a key has at most one submission that may be on chain; the session budget debits
    what was settled and stays within its ceiling; a full rollback leaves nothing behind; sessions survive
    a schema upgrade; the scoped session cache is a map from network and wallet to session; retried
    backends send writes once; following discovery cursors ends with every match once; the upto buyer signs only
    the requested settlement within its maximum; guarded agent keys are revoked as reported; the persisted
    ledger keeps the ceiling over restarts; policy operations of a wallet run in call order; only idle sessions
    are forgotten; batched balance reads equal single ones; a passkey challenge is accepted once; requests behind the
    redirect guard stay at their origin; a deployment prompts once and can be resumed; amounts of different assets are
    never compared by the selector for several assets; the settled-spend ledger is the account of its accepted calls; the
    advisory gate, the preflight check and the payment telemetry are exact; a fallback attempt never pays
    twice; a cached resource record is served for its own network only; a passphrase protects the private key of a pair; a signature leaves the session
    guard only for the session it was asked under; a wait is the same for every time to live of the status cache; a paid
    request that was cut off is debited, and a dead letter means that every attempt failed.

  \<^bold>\<open>Interfaces.\<close> Locales state what one component relies on: \<open>preserved\<close>, \<open>functional_refinement\<close>,
  \<open>spend_limiter\<close> (ledger and budget tracker), \<open>x402_signer\<close> (both signers), \<open>session_storage\<close> (web and
  memory storage), \<open>bracketed_replace\<close> (sanitiser and the two redactions), \<open>reversible_steps\<close> (the
  deployment saga), \<open>session_cache\<close> (the scoped cache), \<open>ledger_store\<close> (the file store); each is interpreted on the
  definitions of the component that provides it.

  \<^bold>\<open>Bounds.\<close> The JSON parser has as fuel the length of its text plus one: every step consumes a
  character. The polling loops and the loop over discovery pages have no bound in the code; they are partial
  functions, and that they return is a theorem. Every other loop is a total function. Amounts are unbounded integers as
  in the code (\<open>bigint\<close>); JavaScript numbers are exact rationals or integers, so rounding of floating
  point is not modelled. Strings are one-byte character strings where only equality and ASCII
  patterns matter, and lists of code points where text is transformed.

  \<^bold>\<open>Not modelled.\<close> Start-up and re-export files, which only wire the parts together; test data; the other modules
  of \<open>contrib\<close>, self-contained examples, mocks and repository tooling outside the published packages, most of them around
  file access, process start or console output; the web site and the build scripts.
\<close>

section \<open>From a pay call to the session key\<close>

lemma toBigInt_parseAmount: "parseAmount v = Inr n \<Longrightarrow> toBigInt num v = Some n"
  by (auto simp: parseAmount_Inr toBigInt_def BigInt_digits)

text \<open>
  C2 (safety): the guards of \<open>pay\<close> and the checks of the smart-account scheme compose. Whatever
  the resource server, the RPC and the x402 client do, an authorization entry that reaches the
  session key while a challenge that \<open>pay\<close> asked to have signed is being signed is an entry of the
  payer's own wallet that authorises exactly one transfer: of the cleared option's asset, to its
  recipient, of its price, which is within \<open>max_amount\<close> and fits under the session ceiling; and the
  signature expires at most 58 ledgers after the latest ledger the RPC reported.
\<close>

theorem pay_reaches_the_key_only_with_the_cleared_transfer:
  assumes pay: "payExclusively env url m s = (r, s')" "EvSign c x \<in> set (new_events s s')"
    and sign: "signPayment_smart core deps c (cur, cs) = (y, (cur', cs'))"
      "cs_trace cs' = cs_trace cs @ evs" "CSign entryXdr pass ex \<in> set evs"
  shows "\<exists>chosen amount maxA ceiling entry latest t.
    accepts_of c = [chosen] \<and> pr_asset chosen \<in> set (pc_allowedAssets (pe_config env)) \<and>
    parseAmount (pr_amount chosen) = Inr amount \<and> parseAmount m = Inr maxA \<and> amount \<le> maxA \<and>
    map_of (sl_ceilings (ps_ledger s)) (pr_asset chosen) = Some ceiling \<and>
    spentFor (ps_ledger s) (pr_asset chosen) + amount \<le> ceiling \<and>
    entryXdr = xd_toXDR (sc_client deps) entry \<and> ours (sc_client deps) entry \<and>
    authorises (xd_xdr (sc_client deps)) entry
      \<lparr>ei_contract = pr_asset chosen, ei_functionName = ''transfer'',
       ei_from = xd_signerAddress (sc_client deps), ei_to = pr_payTo chosen, ei_amount = amount\<rparr> \<and>
    xd_latestLedger (sc_client deps) t = Inr latest \<and> latest + 5 \<le> ex \<and> ex \<le> latest + 58"
proof -
  obtain challenge chosen maxA amount ceiling where
    c: "accepts_of c = [chosen]" "parseAmount m = Inr maxA"
      "cleared (pe_config env) challenge maxA chosen amount"
      "map_of (sl_ceilings (ps_ledger s)) (pr_asset chosen) = Some ceiling"
      "spentFor (ps_ledger s) (pr_asset chosen) + amount \<le> ceiling"
    using pay_signs_cleared [OF pay] by blast
  have opt: "pr_asset chosen \<in> set (pc_allowedAssets (pe_config env))"
    "parseAmount (pr_amount chosen) = Inr amount" "amount \<le> maxA"
    using c(3) by (auto simp: cleared_def payable_option_def)
  have "fit_scheme_signature deps chosen (CSign entryXdr pass ex)"
    using signPayment_smart_fit [OF sign(1)] sign(2,3) c(1) by (auto simp: list_all_iff)
  then obtain entry latest t where "entryXdr = xd_toXDR (sc_client deps) entry"
      "authorises (xd_xdr (sc_client deps)) entry (intended (sc_client deps) chosen amount)"
      "ours (sc_client deps) entry" "xd_latestLedger (sc_client deps) t = Inr latest"
      "latest + 5 \<le> ex" "ex \<le> latest + 58"
    using toBigInt_parseAmount [OF opt(2)] by (auto simp: fit_scheme_signature_def)
  then show ?thesis
    unfolding intended_def using c opt by blast
qed

definition sample_scheme :: scheme_deps where
  "sample_scheme = \<lparr>sc_client = sample_deps, sc_simulate = (\<lambda>t auth. Inr SimOk),
     sc_number = (\<lambda>q. [])\<rparr>"

definition sample_core :: core_client where
  "sample_core = \<lparr>cc_select = (\<lambda>c. Inr (hd (accepts_of c))), cc_version = (\<lambda>c. 2),
     cc_timeout = (\<lambda>r. 60), cc_encode = (\<lambda>v tx. [(''X-PAYMENT'', tx)])\<rparr>"

lemma sample_lifetime: "expirationLedgersFor 60 = Inr 10"
  by (simp add: expirationLedgersFor_def expiration_constants)

lemma sample_scheme_amount:
  "paymentAmount sample_scheme (sample_option ''CUSDC'' ''120'') = Inr 120"
  using BigInt_digits [of "''120''"]
  by (simp add: paymentAmount_def toBigInt_def sample_option_def all_digits_def is_digit_def
      digits_val_def digit_val_def)

lemma sample_scheme_run:
  "\<exists>p s'. createPaymentPayload sample_scheme 2 (sample_option ''CUSDC'' ''120'') 60
      sample_client_state = (Inr p, s') \<and>
     cs_trace s' = cs_trace sample_client_state @
       [CBuild ''CUSDC'' ''CWALLET'' ''GPAYEE'' 120 ''Test SDF Network ; September 2015'', CLatest,
        CSign ''entry'' ''Test SDF Network ; September 2015'' 1010, CSimulate]"
  unfolding createPaymentPayload_def sample_scheme_amount sample_lifetime
  by (simp add: sample_scheme_def sample_deps_def sample_option_def NETWORK_PASSPHRASE_def
      areFeesSponsored_def act_defs call_env_def emit_def ours_def transfer_entry_def
      assertAuthEntryInvocation_def intended_def signOne_def resimulate_def sample_client_state_def
      sample_xdr_def addressOf_def amountOf_def expect_def)

lemma sample_narrowed_option: "accepts_of sample_narrowed = [sample_option ''CUSDC'' ''120'']"
  by (simp add: sample_narrowed_def narrowTo_def accepts_of_def)

lemma sample_signed_payment:
  "\<exists>y cs'. signPayment_smart sample_core sample_scheme sample_narrowed (None, sample_client_state) =
      (y, (None, cs')) \<and>
     CSign ''entry'' ''Test SDF Network ; September 2015'' 1010 \<in>
       set (drop (length (cs_trace sample_client_state)) (cs_trace cs')) \<and>
     (\<exists>evs. cs_trace cs' = cs_trace sample_client_state @ evs)"
proof -
  obtain p s' where run: "createPaymentPayload sample_scheme 2 (sample_option ''CUSDC'' ''120'') 60
      sample_client_state = (Inr p, s')" "cs_trace s' = cs_trace sample_client_state @
       [CBuild ''CUSDC'' ''CWALLET'' ''GPAYEE'' 120 ''Test SDF Network ; September 2015'', CLatest,
        CSign ''entry'' ''Test SDF Network ; September 2015'' 1010, CSimulate]"
    using sample_scheme_run by blast
  obtain v tx where p: "p = (v, tx)" by (cases p)
  have "signPayment_smart sample_core sample_scheme sample_narrowed (None, sample_client_state) =
      (Inr [(''X-PAYMENT'', tx)], (None, s'))"
    unfolding signPayment_smart_def signPayment_with_def corePayload_def sample_narrowed_option
    using run(1) p
    by (simp add: sample_core_def sample_narrowed_option act_defs onClient_def selectionTripwire_def)
  then show ?thesis using run(2) by auto
qed

theorem pay_reaches_the_key_only_with_the_cleared_transfer_witness:
  "\<exists>chosen amount entry. accepts_of sample_narrowed = [chosen] \<and> amount \<le> 200 \<and>
     ''entry'' = xd_toXDR sample_deps entry \<and>
     authorises sample_xdr entry
       \<lparr>ei_contract = pr_asset chosen, ei_functionName = ''transfer'', ei_from = ''CWALLET'',
        ei_to = pr_payTo chosen, ei_amount = amount\<rparr>"
proof -
  obtain r where pay: "payExclusively sample_payer ''u'' (JStr ''200'') sample_start = (Inr r, sample_end)"
    using sample_run by blast
  have sign: "EvSign sample_narrowed (Inr sample_sig) \<in> set (new_events sample_start sample_end)"
    by (simp add: sample_new_events)
  obtain y cs' evs where run: "signPayment_smart sample_core sample_scheme sample_narrowed
      (None, sample_client_state) = (y, (None, cs'))"
    and evs: "cs_trace cs' = cs_trace sample_client_state @ evs"
      "CSign ''entry'' ''Test SDF Network ; September 2015'' 1010 \<in> set evs"
    using sample_signed_payment by auto
  have env: "sc_client sample_scheme = sample_deps" "xd_xdr sample_deps = sample_xdr"
    "xd_signerAddress sample_deps = ''CWALLET''"
    by (simp_all add: sample_scheme_def sample_deps_def)
  have "parseAmount (JStr ''200'') = Inr 200"
    by (simp add: sample_digits)
  then show ?thesis
    using pay_reaches_the_key_only_with_the_cleared_transfer [OF pay sign run evs]
    unfolding env by auto
qed

section \<open>What the payload carries\<close>

text \<open>
  C3 (safety): the whole smart-account path, from the configuration to the envelope. With the
  session-key signer that the configuration gives, and an XDR codec whose decoder inverts its
  encoder, every entry of the payer's wallet inside a payload the scheme returns authorises exactly
  the transfer of the option's amount and asset to its recipient, and there is at least one.
\<close>

theorem payload_authorises_only_the_transfer:
  assumes "createSmartAccountSigner env config = Inr signer"
    and "\<And>e. se_fromXDR env (se_toXDR env e) = Some e"
    and "sc_client deps = scheme_signer trail signer base"
    and "xd_fromXDR base = se_fromXDR env" "xd_toXDR base = se_toXDR env"
    and "createPaymentPayload deps v requirements t s = (Inr (v', tx), s')"
  shows "\<exists>auth amount. tx = xd_envelope base auth \<and>
    toBigInt (sc_number deps) (pr_amount requirements) = Some amount \<and>
    list_all (\<lambda>e. ours (sc_client deps) e \<longrightarrow>
      authorises (xd_xdr base) e (intended (sc_client deps) requirements amount)) auth \<and>
    list_ex (ours (sc_client deps)) auth"
  using assms by (rule payload_authorises)

text \<open>A codec for entries: they are countable, so each has a number, written in unary.\<close>

instance sc_val :: countable
  by countable_datatype

instance authorized_fn :: countable
  by countable_datatype

instance invocation :: countable
  by countable_datatype

instance address_credentials_ext :: (countable) countable
  by (rule countable_classI [of "\<lambda>c. to_nat (ac_address c, ac_nonce c, ac_expirationLedger c,
      ac_signature c, address_credentials.more c)"]) simp

instance credentials :: countable
  by countable_datatype

instance auth_entry_ext :: (countable) countable
  by (rule countable_classI [of "\<lambda>e. to_nat (ae_credentials e, ae_root e, auth_entry.more e)"]) simp

definition unary_encode :: "auth_entry \<Rightarrow> string" where
  "unary_encode e = replicate (to_nat e) CHR ''1''"

definition unary_decode :: "string \<Rightarrow> auth_entry option" where
  "unary_decode s = Some (from_nat (length s))"

lemma unary_codec [simp]: "unary_decode (unary_encode e) = Some e"
  by (simp add: unary_decode_def unary_encode_def)

definition sample_wallet :: string where
  "sample_wallet = CHR ''C'' # replicate 55 CHR ''A''"

definition codec_env :: signer_env where
  "codec_env = sample_signer_env\<lparr>se_fromXDR := unary_decode, se_toXDR := unary_encode\<rparr>"

definition wallet_config :: payer_config where
  "wallet_config = sample_config\<lparr>pc_walletAddress := Some sample_wallet\<rparr>"

definition wallet_signer :: x402_signer_rec where
  "wallet_signer = \<lparr>sg_address = sample_wallet,
     sg_signAuthEntry = sessionKeySign codec_env sample_wallet [9] rev []\<rparr>"

definition codec_deps :: x402_deps where
  "codec_deps = sample_deps\<lparr>xd_fromXDR := unary_decode, xd_toXDR := unary_encode,
     xd_build := (\<lambda>t. Inr (Some [transfer_entry ''CUSDC'' sample_wallet ''GPAYEE'' 120]))\<rparr>"

definition codec_scheme :: scheme_deps where
  "codec_scheme = sample_scheme\<lparr>sc_client := scheme_signer (\<lambda>t. []) wallet_signer codec_deps\<rparr>"

lemma wallet_signer_created: "createSmartAccountSigner codec_env wallet_config = Inr wallet_signer"
  by (simp add: createSmartAccountSigner_def createSessionKeySigner_def codec_env_def
      wallet_config_def sample_config_def sample_signer_env_def sample_wallet_def wallet_signer_def
      isContractAddress_def startsWith_def)

lemma wallet_signs:
  "\<exists>signed. fst (sg_signAuthEntry wallet_signer
     (unary_encode (transfer_entry ''CUSDC'' sample_wallet ''GPAYEE'' 120)) pass ex trail) =
   Inr (unary_encode signed)"
  by (simp add: wallet_signer_def sessionKeySign_def auditedSign_def act_defs fire_def codec_env_def
      sample_signer_env_def transfer_entry_def assertEntryAddress_def payloadHashForEntry_def
      setSignatureMap_def) blast

lemma codec_scheme_amount:
  "paymentAmount codec_scheme (sample_option ''CUSDC'' ''120'') = Inr 120"
  using sample_scheme_amount by (simp add: paymentAmount_def codec_scheme_def)

lemma codec_scheme_run:
  "\<exists>p s'. createPaymentPayload codec_scheme 2 (sample_option ''CUSDC'' ''120'') 60
      sample_client_state = (Inr p, s')"
proof -
  obtain signed where signed: "fst (sg_signAuthEntry wallet_signer
     (unary_encode (transfer_entry ''CUSDC'' sample_wallet ''GPAYEE'' 120))
     ''Test SDF Network ; September 2015'' 1010 []) = Inr (unary_encode signed)"
    using wallet_signs by blast
  have addr: "sg_address wallet_signer = sample_wallet" by (simp add: wallet_signer_def)
  show ?thesis
    unfolding createPaymentPayload_def codec_scheme_amount sample_lifetime
    using signed addr
    by (simp add: codec_scheme_def sample_scheme_def scheme_signer_def codec_deps_def sample_deps_def
        sample_option_def NETWORK_PASSPHRASE_def areFeesSponsored_def act_defs call_env_def emit_def
        ours_def transfer_entry_def assertAuthEntryInvocation_def intended_def signOne_def
        resimulate_def sample_client_state_def sample_xdr_def addressOf_def amountOf_def expect_def)
qed

theorem payload_authorises_only_the_transfer_witness:
  "\<exists>auth. list_ex (ours (sc_client codec_scheme)) auth \<and>
     list_all (\<lambda>e. ours (sc_client codec_scheme) e \<longrightarrow> authorises sample_xdr e
       \<lparr>ei_contract = ''CUSDC'', ei_functionName = ''transfer'', ei_from = sample_wallet,
        ei_to = ''GPAYEE'', ei_amount = 120\<rparr>) auth"
proof -
  obtain v tx s' where run: "createPaymentPayload codec_scheme 2 (sample_option ''CUSDC'' ''120'') 60
      sample_client_state = (Inr (v, tx), s')"
    using codec_scheme_run by fastforce
  have env: "sc_client codec_scheme = scheme_signer (\<lambda>t. []) wallet_signer codec_deps"
    "xd_fromXDR codec_deps = se_fromXDR codec_env" "xd_toXDR codec_deps = se_toXDR codec_env"
    by (simp_all add: codec_scheme_def codec_deps_def codec_env_def)
  have codec: "\<And>e. se_fromXDR codec_env (se_toXDR codec_env e) = Some e"
    by (simp add: codec_env_def)
  have xdr: "xd_xdr codec_deps = sample_xdr" by (simp add: codec_deps_def sample_deps_def)
  have "toBigInt (sc_number codec_scheme) (pr_amount (sample_option ''CUSDC'' ''120'')) = Some 120"
    using codec_scheme_amount by (simp add: paymentAmount_def split: option.splits)
  moreover have "intended (sc_client codec_scheme) (sample_option ''CUSDC'' ''120'') 120 =
      \<lparr>ei_contract = ''CUSDC'', ei_functionName = ''transfer'', ei_from = sample_wallet,
        ei_to = ''GPAYEE'', ei_amount = 120\<rparr>"
    by (simp add: intended_def env(1) scheme_signer_def wallet_signer_def sample_option_def)
  ultimately show ?thesis
    using payload_authorises_only_the_transfer [OF wallet_signer_created codec env run]
    unfolding xdr by auto
qed

end
